(* ===== verification/Prelude.thy ===== *)
theory Prelude
  imports Main "HOL-Library.Word" "HOL-Library.State_Monad"
begin

text \<open>
  Shared vocabulary of the development: bytes and Go strings, the fixed-width
  integer codecs of Go's \<^verbatim>\<open>encoding/binary\<close>, \<^verbatim>\<open>io.ReadFull\<close> over a finite
  incoming stream, and the list and word lemmas every component uses.

  A Go \<^verbatim>\<open>byte\<close> is an \<open>8 word\<close> and a \<^verbatim>\<open>[]byte\<close> a list of them.  A Go
  \<^verbatim>\<open>string\<close> is an immutable byte sequence; Isabelle's \<open>char\<close> has exactly the 256
  byte values, so a Go string is a HOL \<open>string\<close> and the conversions
  \<^verbatim>\<open>[]byte(s)\<close> and \<^verbatim>\<open>string(b)\<close> are \<open>str_bytes\<close> and \<open>bytes_str\<close>.
\<close>

unbundle bit_operations_syntax

type_synonym byte = "8 word"
type_synonym bytes = "byte list"

named_theorems codec_simps "lengths and inverse laws of the byte codecs"
named_theorems stream_simps "reading a prefix off a stream"

section \<open>Strings and bytes\<close>

definition char_byte :: "char \<Rightarrow> byte" where
  "char_byte c = word_of_nat (of_char c)"

definition byte_char :: "byte \<Rightarrow> char" where
  "byte_char b = char_of (unat b)"

definition str_bytes :: "string \<Rightarrow> bytes" where
  "str_bytes s = map char_byte s"

definition bytes_str :: "bytes \<Rightarrow> string" where
  "bytes_str b = map byte_char b"

section \<open>Big- and little-endian integers (encoding/binary)\<close>

fun be_val :: "bytes \<Rightarrow> nat" where
  "be_val [] = 0"
| "be_val (b # bs) = unat b * 256 ^ length bs + be_val bs"

fun be_put :: "nat \<Rightarrow> nat \<Rightarrow> bytes" where
  "be_put 0 n = []"
| "be_put (Suc k) n = word_of_nat (n div 256 ^ k) # be_put k n"

definition BE_Uint16 :: "bytes \<Rightarrow> 16 word" where
  "BE_Uint16 b = word_of_nat (be_val (take 2 b))"

definition BE_Uint32 :: "bytes \<Rightarrow> 32 word" where
  "BE_Uint32 b = word_of_nat (be_val (take 4 b))"

definition BE_Uint64 :: "bytes \<Rightarrow> 64 word" where
  "BE_Uint64 b = word_of_nat (be_val (take 8 b))"

definition LE_Uint16 :: "bytes \<Rightarrow> 16 word" where
  "LE_Uint16 b = word_of_nat (be_val (rev (take 2 b)))"

definition LE_Uint32 :: "bytes \<Rightarrow> 32 word" where
  "LE_Uint32 b = word_of_nat (be_val (rev (take 4 b)))"

definition LE_Uint64 :: "bytes \<Rightarrow> 64 word" where
  "LE_Uint64 b = word_of_nat (be_val (rev (take 8 b)))"

definition BE_Put16 :: "16 word \<Rightarrow> bytes" where
  "BE_Put16 w = be_put 2 (unat w)"

definition BE_Put32 :: "32 word \<Rightarrow> bytes" where
  "BE_Put32 w = be_put 4 (unat w)"

definition BE_Put64 :: "64 word \<Rightarrow> bytes" where
  "BE_Put64 w = be_put 8 (unat w)"

definition LE_Put16 :: "16 word \<Rightarrow> bytes" where
  "LE_Put16 w = rev (be_put 2 (unat w))"

definition LE_Put32 :: "32 word \<Rightarrow> bytes" where
  "LE_Put32 w = rev (be_put 4 (unat w))"

definition LE_Put64 :: "64 word \<Rightarrow> bytes" where
  "LE_Put64 w = rev (be_put 8 (unat w))"

section \<open>io.ReadFull\<close>

text \<open>
  The incoming side of a connection is the finite list of bytes the peer still
  delivers before it closes.  \<^verbatim>\<open>io.ReadFull\<close> returns \<open>EOF\<close> when nothing at all
  arrives and \<open>UnexpectedEOF\<close> when the stream stops inside the buffer; a failing
  read has consumed what there was.
\<close>

datatype io_error = EOF | UnexpectedEOF | WriteFailed

definition readFull :: "nat \<Rightarrow> bytes \<Rightarrow> (io_error + bytes) \<times> bytes" where
  "readFull n s =
     (if n \<le> length s then (Inr (take n s), drop n s)
      else (Inl (if s = [] then EOF else UnexpectedEOF), []))"

section \<open>Lemmas\<close>

lemma unat_lt2p: "unat (w :: 'a::len word) < 2 ^ LENGTH('a)"
  by (fact unsigned_less)

lemma of_char_less_256: "(of_char c :: nat) < 256"
  by (cases c) (simp add: of_char_def horner_sum_simps)

lemma byte_char_byte [codec_simps, simp]: "byte_char (char_byte c) = c"
  using of_char_less_256 [of c] by (simp add: byte_char_def char_byte_def unat_of_nat)

lemma char_byte_char [codec_simps, simp]: "char_byte (byte_char b) = b"
  using unat_lt2p [of b] by (simp add: byte_char_def char_byte_def)

lemma bytes_str_bytes [codec_simps, simp]: "bytes_str (str_bytes s) = s"
  by (simp add: bytes_str_def str_bytes_def o_def)

lemma str_bytes_str [codec_simps, simp]: "str_bytes (bytes_str b) = b"
  by (simp add: bytes_str_def str_bytes_def o_def)

lemma length_str_bytes [simp]: "length (str_bytes s) = length s"
  by (simp add: str_bytes_def)

lemma length_bytes_str [simp]: "length (bytes_str b) = length b"
  by (simp add: bytes_str_def)

lemma str_bytes_append [simp]: "str_bytes (s @ t) = str_bytes s @ str_bytes t"
  by (simp add: str_bytes_def)

lemma bytes_str_append [simp]: "bytes_str (s @ t) = bytes_str s @ bytes_str t"
  by (simp add: bytes_str_def)

lemma length_be_put [codec_simps, simp]: "length (be_put k n) = k"
  by (induction k) auto

lemma be_val_append: "be_val (xs @ ys) = be_val xs * 256 ^ length ys + be_val ys"
  by (induction xs) (auto simp: power_add algebra_simps)

lemma be_val_bound: "be_val bs < 256 ^ length bs"
proof (induction bs)
  case (Cons b bs)
  have "unat b < 256" using unat_lt2p [of b] by simp
  then have "unat b * 256 ^ length bs + be_val bs < (unat b + 1) * 256 ^ length bs"
    using Cons by simp
  also have "\<dots> \<le> 256 * 256 ^ length bs"
    using \<open>unat b < 256\<close> by (intro mult_right_mono) auto
  finally show ?case by simp
qed simp

lemma be_val_put [codec_simps]: "be_val (be_put k n) = n mod 256 ^ k"
proof (induction k)
  case (Suc k)
  have "unat (word_of_nat (n div 256 ^ k) :: byte) = n div 256 ^ k mod 256"
    by (simp add: unat_of_nat)
  then have "be_val (be_put (Suc k) n) = (n div 256 ^ k mod 256) * 256 ^ k + n mod 256 ^ k"
    by (simp add: Suc)
  also have "\<dots> = n mod (256 ^ k * 256)"
    by (simp add: mod_mult2_eq)
  finally show ?case by (simp add: mult.commute)
qed simp

lemma be_put_mod [codec_simps]: "be_put k (n mod 256 ^ k) = be_put k n"
proof -
  have "be_put k (n mod 256 ^ m) = be_put k n" if "k \<le> m" for m
    using that
  proof (induction k)
    case (Suc k)
    obtain j where j: "m = Suc k + j"
      using Suc.prems nat_le_iff_add by blast
    have m: "(256::nat) ^ m = 256 ^ k * (256 ^ j * 256)"
      by (simp add: j power_add)
    have "n mod 256 ^ m = 256 ^ k * (n div 256 ^ k mod (256 ^ j * 256)) + n mod 256 ^ k"
      unfolding m by (rule mod_mult2_eq)
    then have "n mod 256 ^ m div 256 ^ k = n div 256 ^ k mod (256 ^ j * 256)"
      by simp
    then have "n mod 256 ^ m div 256 ^ k mod 256 = n div 256 ^ k mod 256"
      by (simp add: mod_mult2_eq mult.commute [of _ 256])
    then have "(word_of_nat (n mod 256 ^ m div 256 ^ k) :: byte) = word_of_nat (n div 256 ^ k)"
      by (simp add: word_of_nat_eq_iff take_bit_eq_mod)
    with Suc show ?case by simp
  qed simp
  then show ?thesis by simp
qed

lemma be_put_val [codec_simps]: "be_put (length bs) (be_val bs) = bs"
proof (induction bs)
  case (Cons b bs)
  have "be_put (length bs) (unat b * 256 ^ length bs + be_val bs) = be_put (length bs) (be_val bs)"
    by (metis be_put_mod mod_mult_self3)
  moreover have "(unat b * 256 ^ length bs + be_val bs) div 256 ^ length bs = unat b"
    using be_val_bound [of bs] by simp
  ultimately show ?case using Cons by simp
qed simp

lemma take_be_put_append [simp]:
  "take k (be_put k n @ ys) = be_put k n"
  by simp

lemma BE_Put_lengths [codec_simps, simp]:
  "length (BE_Put16 w) = 2" "length (BE_Put32 x) = 4" "length (BE_Put64 y) = 8"
  "length (LE_Put16 w) = 2" "length (LE_Put32 x) = 4" "length (LE_Put64 y) = 8"
  by (simp_all add: BE_Put16_def BE_Put32_def BE_Put64_def LE_Put16_def LE_Put32_def LE_Put64_def)

lemma BE_Put_not_Nil [simp]: "BE_Put16 w \<noteq> []" "BE_Put32 x \<noteq> []" "BE_Put64 y \<noteq> []"
  by (metis BE_Put_lengths(1) list.size(3) zero_neq_numeral,
      metis BE_Put_lengths(2) list.size(3) zero_neq_numeral,
      metis BE_Put_lengths(3) list.size(3) zero_neq_numeral)

lemma BE_Uint16_Put [codec_simps, simp]: "BE_Uint16 (BE_Put16 w @ ys) = w"
  using unat_lt2p [of w] by (simp add: BE_Uint16_def BE_Put16_def be_val_put)

lemma BE_Uint32_Put [codec_simps, simp]: "BE_Uint32 (BE_Put32 w @ ys) = w"
  using unat_lt2p [of w] by (simp add: BE_Uint32_def BE_Put32_def be_val_put)

lemma BE_Uint64_Put [codec_simps, simp]: "BE_Uint64 (BE_Put64 w @ ys) = w"
  using unat_lt2p [of w] by (simp add: BE_Uint64_def BE_Put64_def be_val_put)

lemma LE_Uint16_Put [codec_simps, simp]: "LE_Uint16 (LE_Put16 w @ ys) = w"
  using unat_lt2p [of w] by (simp add: LE_Uint16_def LE_Put16_def be_val_put)

lemma LE_Uint32_Put [codec_simps, simp]: "LE_Uint32 (LE_Put32 w @ ys) = w"
  using unat_lt2p [of w] by (simp add: LE_Uint32_def LE_Put32_def be_val_put)

lemma LE_Uint64_Put [codec_simps, simp]: "LE_Uint64 (LE_Put64 w @ ys) = w"
  using unat_lt2p [of w] by (simp add: LE_Uint64_def LE_Put64_def be_val_put)

lemma Uint_Put_exact [codec_simps, simp]:
  "BE_Uint16 (BE_Put16 w) = w" "BE_Uint32 (BE_Put32 x) = x" "BE_Uint64 (BE_Put64 y) = y"
  "LE_Uint16 (LE_Put16 w) = w" "LE_Uint32 (LE_Put32 x) = x" "LE_Uint64 (LE_Put64 y) = y"
  using BE_Uint16_Put [of w "[]"] BE_Uint32_Put [of x "[]"] BE_Uint64_Put [of y "[]"]
    LE_Uint16_Put [of w "[]"] LE_Uint32_Put [of x "[]"] LE_Uint64_Put [of y "[]"]
  by simp_all

lemma unat_BE_Uint16: "length b = 2 \<Longrightarrow> unat (BE_Uint16 b) = be_val b"
  using be_val_bound [of b] by (simp add: BE_Uint16_def unat_of_nat)

lemma BE_Put16_Uint16 [codec_simps]: "length b = 2 \<Longrightarrow> BE_Put16 (BE_Uint16 b) = b"
  using be_put_val [of b] by (simp add: BE_Put16_def unat_BE_Uint16)

lemma readFull_prefix [stream_simps]:
  "length p = n \<Longrightarrow> readFull n (p @ s) = (Inr p, s)"
  by (simp add: readFull_def)

lemma readFull_zero [stream_simps, simp]: "readFull 0 s = (Inr [], s)"
  by (simp add: readFull_def)

lemma readFull_rest_le: "readFull n s = (r, s') \<Longrightarrow> length s' \<le> length s"
  by (auto simp: readFull_def split: if_splits)

lemma readFull_ok: "readFull n s = (Inr b, s') \<Longrightarrow> s = b @ s' \<and> length b = n"
  by (auto simp: readFull_def split: if_splits)

lemma readFull_ok_length: "readFull n s = (Inr b, s') \<Longrightarrow> length s = n + length s'"
  by (auto dest: readFull_ok)

lemma unat_less_256: "unat (b :: byte) < 256"
  using unat_lt2p [of b] by simp


lemma readFull_ok_length': "(Inr b, s') = readFull n s \<Longrightarrow> length s = n + length s'"
  by (metis readFull_ok_length)

lemma unat_of_nat16: "n < 65536 \<Longrightarrow> unat (word_of_nat n :: 16 word) = n"
  by (simp add: unat_of_nat)

text \<open>A bitwise or of parts that do not overlap is an addition.\<close>

lemma or_shift_add: "a < 2 ^ k \<Longrightarrow> a OR (2 ^ k * b) = a + 2 ^ k * (b :: nat)"
proof -
  assume "a < 2 ^ k"
  then have "take_bit k a = a" by (simp add: take_bit_nat_eq_self_iff)
  then have "\<not> bit a n \<or> \<not> bit (push_bit k b) n" for n
    by (metis bit_push_bit_iff bit_take_bit_iff not_le)
  from disjunctive_add [of a "push_bit k b", OF this] show ?thesis
    by (simp add: push_bit_eq_mult mult.commute)
qed

lemma unat_or_0x8000: "n < 0x8000 \<Longrightarrow> unat (word_of_nat n OR 0x8000 :: 16 word) = n + 0x8000"
  using or_shift_add [of n 15 1] by (simp add: unsigned_or_eq unat_of_nat)

end
