(* ===== verification/Go_Text.thy ===== *)
theory Go_Text
  imports Prelude "HOL-Library.Char_ord"
begin

text \<open>
  What the driver uses of Go's text libraries: UTF-8 (\<^verbatim>\<open>unicode/utf8\<close> and
  \<^verbatim>\<open>range\<close> over a string), the \<^verbatim>\<open>strings\<close> functions it calls, and decimal
  numbers (\<^verbatim>\<open>strconv\<close>, \<^verbatim>\<open>math/big\<close>, the \<^verbatim>\<open>%0wd\<close> verb of \<^verbatim>\<open>fmt\<close>).
  A rune is its code point, a \<open>nat\<close>.  The round-trip lemmas at the end are the
  ones the codecs of the wire protocol rest on.
\<close>

named_theorems text_simps "inverse laws of the text functions"

section \<open>UTF-8\<close>

type_synonym rune = nat

definition RuneError :: rune where
  "RuneError = 0xFFFD"

definition valid_rune :: "rune \<Rightarrow> bool" where
  "valid_rune r \<longleftrightarrow> r \<le> 0x10FFFF \<and> \<not> (0xD800 \<le> r \<and> r \<le> 0xDFFF)"

text \<open>\<^verbatim>\<open>utf8.EncodeRune\<close>: an invalid rune is written as U+FFFD.\<close>

definition utf8_EncodeRune :: "rune \<Rightarrow> bytes" where
  "utf8_EncodeRune r0 =
     (let r = (if valid_rune r0 then r0 else RuneError) in
      if r \<le> 0x7F then [word_of_nat r]
      else if r \<le> 0x7FF then
        [word_of_nat (0xC0 + r div 64), word_of_nat (0x80 + r mod 64)]
      else if r \<le> 0xFFFF then
        [word_of_nat (0xE0 + r div 4096), word_of_nat (0x80 + r div 64 mod 64),
         word_of_nat (0x80 + r mod 64)]
      else
        [word_of_nat (0xF0 + r div 262144), word_of_nat (0x80 + r div 4096 mod 64),
         word_of_nat (0x80 + r div 64 mod 64), word_of_nat (0x80 + r mod 64)])"

text \<open>
  One well-formed UTF-8 sequence at the front of the input, with its length; the
  second byte's range depends on the first, as in Go's \<open>acceptRanges\<close>.
\<close>

definition in_range :: "nat \<Rightarrow> nat \<Rightarrow> byte \<Rightarrow> bool" where
  "in_range lo hi b \<longleftrightarrow> lo \<le> unat b \<and> unat b \<le> hi"

definition utf8_step :: "bytes \<Rightarrow> (rune \<times> nat) option" where
  "utf8_step s =
     (case s of [] \<Rightarrow> None
      | b0 # t \<Rightarrow>
        let c0 = unat b0 in
        if c0 < 0x80 then Some (c0, 1)
        else if 0xC2 \<le> c0 \<and> c0 \<le> 0xDF then
          (case t of
             b1 # _ \<Rightarrow> if in_range 0x80 0xBF b1
                       then Some (c0 mod 32 * 64 + unat b1 mod 64, 2) else None
           | [] \<Rightarrow> None)
        else if 0xE0 \<le> c0 \<and> c0 \<le> 0xEF then
          (case t of
             b1 # b2 # _ \<Rightarrow>
               if in_range (if c0 = 0xE0 then 0xA0 else 0x80) (if c0 = 0xED then 0x9F else 0xBF) b1
                  \<and> in_range 0x80 0xBF b2
               then Some (c0 mod 16 * 4096 + unat b1 mod 64 * 64 + unat b2 mod 64, 3) else None
           | _ \<Rightarrow> None)
        else if 0xF0 \<le> c0 \<and> c0 \<le> 0xF4 then
          (case t of
             b1 # b2 # b3 # _ \<Rightarrow>
               if in_range (if c0 = 0xF0 then 0x90 else 0x80) (if c0 = 0xF4 then 0x8F else 0xBF) b1
                  \<and> in_range 0x80 0xBF b2 \<and> in_range 0x80 0xBF b3
               then Some (c0 mod 8 * 262144 + unat b1 mod 64 * 4096 + unat b2 mod 64 * 64
                          + unat b3 mod 64, 4) else None
           | _ \<Rightarrow> None)
        else None)"

text \<open>\<^verbatim>\<open>utf8.DecodeRune\<close> on non-empty input: an invalid byte is U+FFFD of width 1.\<close>

definition utf8_DecodeRune :: "bytes \<Rightarrow> rune \<times> nat" where
  "utf8_DecodeRune s = (case utf8_step s of None \<Rightarrow> (RuneError, 1) | Some p \<Rightarrow> p)"

text \<open>The runes \<^verbatim>\<open>range s\<close> visits, each with the bytes it covers.\<close>

fun utf8_segs :: "bytes \<Rightarrow> (rune \<times> bytes) list" where
  "utf8_segs [] = []"
| "utf8_segs (b # bs) =
     (let (r, n) = utf8_DecodeRune (b # bs)
      in (r, take n (b # bs)) # utf8_segs (drop (n - 1) bs))"

definition utf8_runes :: "bytes \<Rightarrow> rune list" where
  "utf8_runes s = map fst (utf8_segs s)"

fun utf8_Valid :: "bytes \<Rightarrow> bool" where
  "utf8_Valid [] = True"
| "utf8_Valid (b # bs) =
     (case utf8_step (b # bs) of None \<Rightarrow> False | Some (r, n) \<Rightarrow> utf8_Valid (drop (n - 1) bs))"

definition runes_str :: "rune list \<Rightarrow> string" where
  "runes_str rs = bytes_str (concat (map utf8_EncodeRune rs))"

definition str_runes :: "string \<Rightarrow> rune list" where
  "str_runes s = utf8_runes (str_bytes s)"

section \<open>The strings package\<close>

definition trimRightSet :: "string \<Rightarrow> string \<Rightarrow> string" where
  "trimRightSet cs s = rev (dropWhile (\<lambda>c. c \<in> set cs) (rev s))"

definition trimLeftSet :: "string \<Rightarrow> string \<Rightarrow> string" where
  "trimLeftSet cs s = dropWhile (\<lambda>c. c \<in> set cs) s"

definition trimSet :: "string \<Rightarrow> string \<Rightarrow> string" where
  "trimSet cs s = trimRightSet cs (trimLeftSet cs s)"

definition isSpace :: "rune \<Rightarrow> bool" where
  "isSpace r \<longleftrightarrow> r \<in> {9, 10, 11, 12, 13, 32, 0x85, 0xA0, 0x1680, 0x2028, 0x2029, 0x202F, 0x205F, 0x3000}
                \<or> (0x2000 \<le> r \<and> r \<le> 0x200A)"

definition TrimSpace :: "string \<Rightarrow> string" where
  "TrimSpace s =
     (let sp = (\<lambda>(r, b). isSpace r);
          left = dropWhile sp (utf8_segs (str_bytes s))
      in bytes_str (concat (map snd (rev (dropWhile sp (rev left))))))"

definition ascii_upper :: "char \<Rightarrow> char" where
  "ascii_upper c = (if CHR ''a'' \<le> c \<and> c \<le> CHR ''z'' then char_of (of_char c - 32 :: nat) else c)"

definition ascii_lower :: "char \<Rightarrow> char" where
  "ascii_lower c = (if CHR ''A'' \<le> c \<and> c \<le> CHR ''Z'' then char_of (of_char c + 32 :: nat) else c)"

definition is_ascii :: "string \<Rightarrow> bool" where
  "is_ascii s \<longleftrightarrow> (\<forall>c \<in> set s. (of_char c :: nat) < 128)"

text \<open>
  \<^verbatim>\<open>strings.ToUpper\<close>/\<^verbatim>\<open>ToLower\<close> map ASCII strings bytewise and every other string
  rune by rune through the Unicode case table, which is a parameter \<open>u\<close>.
\<close>

definition ToUpper :: "(rune \<Rightarrow> rune) \<Rightarrow> string \<Rightarrow> string" where
  "ToUpper u s = (if is_ascii s then map ascii_upper s else runes_str (map u (str_runes s)))"

definition ToLower :: "(rune \<Rightarrow> rune) \<Rightarrow> string \<Rightarrow> string" where
  "ToLower l s = (if is_ascii s then map ascii_lower s else runes_str (map l (str_runes s)))"

definition HasPrefix :: "string \<Rightarrow> string \<Rightarrow> bool" where
  "HasPrefix s p \<longleftrightarrow> take (length p) s = p"

fun Contains :: "string \<Rightarrow> string \<Rightarrow> bool" where
  "Contains [] p = (p = [])"
| "Contains (c # s) p = (HasPrefix (c # s) p \<or> Contains s p)"

fun IndexByte :: "'a list \<Rightarrow> 'a \<Rightarrow> nat option" where
  "IndexByte [] x = None"
| "IndexByte (c # s) x = (if c = x then Some 0 else map_option Suc (IndexByte s x))"

text \<open>\<^verbatim>\<open>bytes.Split\<close> on a one-byte separator and \<^verbatim>\<open>strings.Join\<close>.\<close>

fun split_on :: "'a \<Rightarrow> 'a list \<Rightarrow> 'a list list" where
  "split_on x [] = [[]]"
| "split_on x (c # s) =
     (if c = x then [] # split_on x s
      else case split_on x s of [] \<Rightarrow> [[c]] | p # ps \<Rightarrow> (c # p) # ps)"

fun join_with :: "'a list \<Rightarrow> 'a list list \<Rightarrow> 'a list" where
  "join_with sep [] = []"
| "join_with sep [p] = p"
| "join_with sep (p # q # ps) = p @ sep @ join_with sep (q # ps)"

text \<open>\<^verbatim>\<open>strings.ReplaceAll(s, c, cc)\<close>: every occurrence of one character doubled.\<close>

definition double_char :: "char \<Rightarrow> string \<Rightarrow> string" where
  "double_char x s = concat (map (\<lambda>c. if c = x then [x, x] else [c]) s)"

section \<open>Decimal numbers\<close>

definition digit_char :: "nat \<Rightarrow> char" where
  "digit_char d = char_of (48 + d)"

definition is_digit :: "char \<Rightarrow> bool" where
  "is_digit c \<longleftrightarrow> CHR ''0'' \<le> c \<and> c \<le> CHR ''9''"

definition digit_val :: "char \<Rightarrow> nat" where
  "digit_val c = of_char c - 48"

fun nat_digits :: "nat \<Rightarrow> nat list" where
  "nat_digits n = (if n < 10 then [n] else nat_digits (n div 10) @ [n mod 10])"

declare nat_digits.simps [simp del]

definition nat_str :: "nat \<Rightarrow> string" where
  "nat_str n = map digit_char (nat_digits n)"

definition int_str :: "int \<Rightarrow> string" where
  "int_str i = (if i < 0 then CHR ''-'' # nat_str (nat (- i)) else nat_str (nat i))"

definition digits_nat :: "nat list \<Rightarrow> nat" where
  "digits_nat ds = foldl (\<lambda>n d. 10 * n + d) 0 ds"

text \<open>\<^verbatim>\<open>big.Int.SetString(s, 10)\<close>: an optional sign, then at least one digit.\<close>

definition big_unsigned :: "string \<Rightarrow> nat option" where
  "big_unsigned s =
     (if s \<noteq> [] \<and> list_all is_digit s then Some (digits_nat (map digit_val s)) else None)"

definition big_SetString :: "string \<Rightarrow> int option" where
  "big_SetString s =
     (case s of
        [] \<Rightarrow> None
      | c # t \<Rightarrow>
          if c = CHR ''-'' then map_option (\<lambda>n. - int n) (big_unsigned t)
          else if c = CHR ''+'' then map_option int (big_unsigned t)
          else map_option int (big_unsigned s))"

text \<open>\<^verbatim>\<open>strconv.Atoi\<close> / \<^verbatim>\<open>ParseInt(s, 10, 64)\<close>: the same syntax, with the int64 range.\<close>

definition Atoi :: "string \<Rightarrow> int option" where
  "Atoi s = (case big_SetString s of
               None \<Rightarrow> None
             | Some i \<Rightarrow> if - (2 ^ 63) \<le> i \<and> i < 2 ^ 63 then Some i else None)"

definition zero_pad :: "nat \<Rightarrow> string \<Rightarrow> string" where
  "zero_pad w s = replicate (w - length s) CHR ''0'' @ s"

text \<open>The \<^verbatim>\<open>%0wd\<close> verb: zeros go between the sign and the digits.\<close>

definition fmt_0d :: "nat \<Rightarrow> int \<Rightarrow> string" where
  "fmt_0d w i = (if i < 0 then CHR ''-'' # zero_pad (w - 1) (nat_str (nat (- i)))
                 else zero_pad w (nat_str (nat i)))"


section \<open>Lemmas on UTF-8\<close>

lemma split_base_64:
  fixes r :: nat
  shows split_4096: "r = 4096 * (r div 4096) + 64 * (r div 64 mod 64) + r mod 64"
    and split_262144: "r = 262144 * (r div 262144) + 4096 * (r div 4096 mod 64)
                           + 64 * (r div 64 mod 64) + r mod 64"
proof -
  have "r = 64 * (64 * (r div 64 div 64) + r div 64 mod 64) + r mod 64"
    by (metis mult_div_mod_eq)
  then show a: "r = 4096 * (r div 4096) + 64 * (r div 64 mod 64) + r mod 64"
    unfolding div_mult2_eq [symmetric] by simp
  have "r div 4096 = 64 * (r div 4096 div 64) + r div 4096 mod 64"
    by (metis mult_div_mod_eq)
  then have "r div 4096 = 64 * (r div 262144) + r div 4096 mod 64"
    unfolding div_mult2_eq [symmetric] by simp
  then show "r = 262144 * (r div 262144) + 4096 * (r div 4096 mod 64)
      + 64 * (r div 64 mod 64) + r mod 64"
    using a by linarith
qed

lemma lead_bits:
  "(192 + x) mod 32 = x mod (32::nat)" "(128 + x) mod 64 = x mod (64::nat)"
  "(224 + x) mod 16 = x mod (16::nat)" "(240 + x) mod 8 = x mod (8::nat)"
  using mod_mult_self3 [of 6 32 x] mod_mult_self3 [of 2 64 x] mod_mult_self3 [of 14 16 x]
    mod_mult_self3 [of 30 8 x]
  by simp_all

lemma utf8_step_EncodeRune:
  assumes "valid_rune r"
  shows "utf8_step (utf8_EncodeRune r @ s) = Some (r, length (utf8_EncodeRune r))"
proof -
  have cases: "r \<le> 0x7F \<or> (0x7F < r \<and> r \<le> 0x7FF) \<or> (0x7FF < r \<and> r \<le> 0xFFFF)
      \<or> (0xFFFF < r \<and> r \<le> 0x10FFFF)"
    using assms by (simp add: valid_rune_def) linarith
  define l m where "l = r mod 64" and "m = r div 64 mod 64"
  have l: "l < 64" and m: "m < 64" by (simp_all add: l_def m_def)
  have r2: "r = 64 * (r div 64) + l" by (simp add: l_def)
  have r3: "r = 4096 * (r div 4096) + 64 * m + l"
    unfolding l_def m_def by (rule split_4096)
  from cases show ?thesis
  proof (elim disjE conjE)
    assume "r \<le> 0x7F"
    then show ?thesis
      using assms by (simp add: utf8_step_def utf8_EncodeRune_def unat_of_nat)
  next
    assume b: "0x7F < r" "r \<le> 0x7FF"
    then have q: "r div 64 < 32" "2 \<le> r div 64" by auto
    then show ?thesis
      using assms b l
      by (simp add: utf8_step_def utf8_EncodeRune_def unat_of_nat in_range_def lead_bits
          del: of_nat_add flip: l_def) (use r2 in linarith)
  next
    assume b: "0x7FF < r" "r \<le> 0xFFFF"
    define q where "q = r div 4096"
    have q: "q < 16" using b by (simp add: q_def) 
    have rq: "r = 4096 * q + 64 * m + l" using r3 by (simp add: q_def)
    have "q = 0 \<Longrightarrow> 32 \<le> m" using rq b l by linarith
    moreover have "q = 13 \<Longrightarrow> m \<le> 31"
      using rq l assms m unfolding valid_rune_def by linarith
    ultimately show ?thesis
      using assms b l m q 
      by (simp add: utf8_step_def utf8_EncodeRune_def unat_of_nat in_range_def lead_bits
          del: of_nat_add flip: l_def m_def q_def) (simp add: rq)
  next
    assume b: "0xFFFF < r" "r \<le> 0x10FFFF"
    define p q where "p = r div 262144" and "q = r div 4096 mod 64"
    have p: "p \<le> 4" "q < 64" using b by (simp_all add: p_def q_def) 
    have rq: "r = 262144 * p + 4096 * q + 64 * m + l"
      unfolding l_def m_def p_def q_def by (rule split_262144)
    have "p = 0 \<Longrightarrow> 16 \<le> q" using rq b l m by linarith
    moreover have "p = 4 \<Longrightarrow> q \<le> 15" using rq l b m by linarith
    ultimately show ?thesis
      using assms b l m p 
      by (simp add: utf8_step_def utf8_EncodeRune_def unat_of_nat in_range_def lead_bits
          del: of_nat_add flip: l_def m_def q_def p_def) (simp add: rq)
  qed
qed

lemma utf8_EncodeRune_not_Nil [simp]: "utf8_EncodeRune r \<noteq> []"
  by (auto simp: utf8_EncodeRune_def Let_def)

lemma utf8_step_length: "utf8_step s = Some (r, n) \<Longrightarrow> 0 < n \<and> n \<le> length s"
  by (auto simp: utf8_step_def Let_def split: list.splits if_splits)

lemma utf8_segs_EncodeRune:
  assumes "valid_rune r"
  shows "utf8_segs (utf8_EncodeRune r @ s) = (r, utf8_EncodeRune r) # utf8_segs s"
proof -
  obtain b t where bt: "utf8_EncodeRune r = b # t"
    by (cases "utf8_EncodeRune r") auto
  have "utf8_DecodeRune (b # t @ s) = (r, Suc (length t))"
    using utf8_step_EncodeRune [OF assms, of s] by (simp add: utf8_DecodeRune_def bt)
  then show ?thesis by (simp add: bt)
qed

lemma utf8_Valid_EncodeRune:
  assumes "valid_rune r"
  shows "utf8_Valid (utf8_EncodeRune r @ s) = utf8_Valid s"
proof -
  obtain b t where bt: "utf8_EncodeRune r = b # t"
    by (cases "utf8_EncodeRune r") auto
  show ?thesis
    using utf8_step_EncodeRune [OF assms, of s] by (simp add: bt)
qed

lemma utf8_runes_encode [text_simps]:
  "list_all valid_rune rs \<Longrightarrow> utf8_runes (concat (map utf8_EncodeRune rs)) = rs"
  by (induction rs) (auto simp: utf8_runes_def utf8_segs_EncodeRune)

lemma utf8_Valid_encode [text_simps]:
  "list_all valid_rune rs \<Longrightarrow> utf8_Valid (concat (map utf8_EncodeRune rs))"
  by (induction rs) (auto simp: utf8_Valid_EncodeRune)

lemma str_runes_str [text_simps]: "list_all valid_rune rs \<Longrightarrow> str_runes (runes_str rs) = rs"
  by (simp add: str_runes_def runes_str_def utf8_runes_encode)

lemma utf8_segs_concat: "concat (map snd (utf8_segs s)) = s"
proof (induction s rule: utf8_segs.induct)
  case (2 b bs)
  obtain r n where rn: "utf8_DecodeRune (b # bs) = (r, n)" by fastforce
  then have "0 < n"
    using utf8_step_length by (auto simp: utf8_DecodeRune_def split: option.splits)
  then have "take n (b # bs) @ drop (n - 1) bs = b # bs"
    by (cases n) auto
  then show ?case using 2 rn by simp
qed simp

section \<open>Lemmas on decimal numbers\<close>

lemma digits_nat_snoc: "digits_nat (xs @ [d]) = 10 * digits_nat xs + d"
  by (simp add: digits_nat_def)

lemma digits_nat_append: "digits_nat (xs @ ys) = digits_nat xs * 10 ^ length ys + digits_nat ys"
proof (induction ys rule: rev_induct)
  case Nil
  then show ?case by (simp add: digits_nat_def)
next
  case (snoc y ys)
  have "digits_nat (xs @ ys @ [y]) = 10 * digits_nat (xs @ ys) + y"
    using digits_nat_snoc [of "xs @ ys" y] by simp
  then show ?case by (simp add: snoc digits_nat_snoc distrib_left)
qed

lemma digits_nat_Nil [simp]: "digits_nat [] = 0"
  by (simp add: digits_nat_def)

lemma digits_nat_single [simp]: "digits_nat [d] = d"
  by (simp add: digits_nat_def)

lemma digits_nat_Cons: "digits_nat (d # ds) = d * 10 ^ length ds + digits_nat ds"
  using digits_nat_append [of "[d]" ds] by simp

lemma digits_nat_zeros [simp]: "digits_nat (replicate k 0) = 0"
  by (induction k) (auto simp: digits_nat_Cons)

lemma nat_digits_less: "d \<in> set (nat_digits n) \<Longrightarrow> d < 10"
proof (induction n rule: nat_digits.induct)
  case (1 n)
  then show ?case by (auto simp: nat_digits.simps [of n] split: if_splits)
qed

lemma digits_nat_digits [text_simps, simp]: "digits_nat (nat_digits n) = n"
proof (induction n rule: nat_digits.induct)
  case (1 n)
  then show ?case by (simp add: nat_digits.simps [of n] digits_nat_append)
qed

lemma nat_digits_not_Nil [simp]: "nat_digits n \<noteq> []"
  by (subst nat_digits.simps) simp

lemma length_nat_digits: "0 < k \<Longrightarrow> length (nat_digits n) \<le> k \<longleftrightarrow> n < 10 ^ k"
proof (induction n arbitrary: k rule: nat_digits.induct)
  case (1 n)
  show ?case
  proof (cases "n < 10")
    case True
    have "(10::nat) ^ 1 \<le> 10 ^ k" using "1.prems" by (intro power_increasing) auto
    then show ?thesis using True "1.prems" by (simp add: nat_digits.simps [of n])
  next
    case False
    obtain j where k: "k = Suc j" using "1.prems" by (cases k) auto
    show ?thesis
    proof (cases j)
      case 0
      then show ?thesis using False k by (simp add: nat_digits.simps [of n])
    next
      case (Suc i)
      then have "length (nat_digits (n div 10)) \<le> j \<longleftrightarrow> n div 10 < 10 ^ j"
        using "1.IH" False by simp
      moreover have "n div 10 < 10 ^ j \<longleftrightarrow> n < 10 ^ Suc j"
        by (simp add: div_less_iff_less_mult mult.commute)
      ultimately show ?thesis using False k by (simp add: nat_digits.simps [of n])
    qed
  qed
qed

lemma of_char_digit_char: "d < 10 \<Longrightarrow> (of_char (digit_char d) :: nat) = 48 + d"
  by (simp add: digit_char_def of_char_of)

lemma digit_char_facts:
  assumes "d < 10"
  shows "digit_val (digit_char d) = d" "is_digit (digit_char d)"
    "digit_char d \<noteq> CHR ''-''" "digit_char d \<noteq> CHR ''+''" "digit_char d \<noteq> CHR ''.''"
    "digit_char d = CHR ''0'' \<longleftrightarrow> d = 0"
proof -
  note o = of_char_digit_char [OF assms]
  have ne: "digit_char d \<noteq> c" if "(of_char c :: nat) < 48" for c
    using o that by auto
  show "digit_val (digit_char d) = d" using o by (simp add: digit_val_def)
  show "is_digit (digit_char d)" using o assms by (simp add: is_digit_def less_eq_char_def)
  show "digit_char d \<noteq> CHR ''-''" "digit_char d \<noteq> CHR ''+''" "digit_char d \<noteq> CHR ''.''"
    by (rule ne, simp)+
  have "digit_char d = CHR ''0'' \<longleftrightarrow> (of_char (digit_char d) :: nat) = of_char CHR ''0''"
    by (simp only: of_char_eq_iff)
  then show "digit_char d = CHR ''0'' \<longleftrightarrow> d = 0" using o by simp
qed

lemma digit_char_0 [simp]: "digit_char 0 = CHR ''0''"
  using digit_char_facts(6) [of 0] by simp

lemma map_digit_val_char [text_simps]:
  "list_all (\<lambda>d. d < 10) ds \<Longrightarrow> map digit_val (map digit_char ds) = ds"
  by (induction ds) (auto simp: digit_char_facts)

lemma big_unsigned_digits [text_simps]:
  "list_all (\<lambda>d. d < 10) ds \<Longrightarrow> ds \<noteq> [] \<Longrightarrow> big_unsigned (map digit_char ds) = Some (digits_nat ds)"
  using map_digit_val_char [of ds]
  by (simp add: big_unsigned_def) (auto simp: list_all_iff digit_char_facts)

lemma big_SetString_digits [text_simps]:
  assumes "list_all (\<lambda>d. d < 10) ds" "ds \<noteq> []"
  shows "big_SetString (map digit_char ds) = Some (int (digits_nat ds))"
    "big_SetString (CHR ''-'' # map digit_char ds) = Some (- int (digits_nat ds))"
proof -
  show "big_SetString (CHR ''-'' # map digit_char ds) = Some (- int (digits_nat ds))"
    using big_unsigned_digits [OF assms] by (simp add: big_SetString_def)
  obtain d t where ds: "ds = d # t" using assms(2) by (cases ds) auto
  then have "d < 10" using assms(1) by simp
  with digit_char_facts [OF this] show "big_SetString (map digit_char ds) = Some (int (digits_nat ds))"
    using big_unsigned_digits [OF assms] by (simp add: big_SetString_def ds)
qed

lemma nat_digits_ok [simp]: "list_all (\<lambda>d. d < 10) (nat_digits n)"
  using nat_digits_less by (auto simp: list_all_iff)

lemma big_SetString_int_str [text_simps]: "big_SetString (int_str i) = Some i"
  by (simp add: int_str_def nat_str_def big_SetString_digits)

lemma length_nat_str: "0 < k \<Longrightarrow> length (nat_str n) \<le> k \<longleftrightarrow> n < 10 ^ k"
  by (simp add: nat_str_def length_nat_digits)

lemma zero_pad_digits:
  "zero_pad w (nat_str n) = map digit_char (replicate (w - length (nat_digits n)) 0 @ nat_digits n)"
  by (simp add: zero_pad_def nat_str_def)

lemma zero_pad_length: "length s \<le> w \<Longrightarrow> length (zero_pad w s) = w"
  by (simp add: zero_pad_def)

text \<open>The zero-padded field of width \<open>w\<close> is read back by \<^verbatim>\<open>Atoi\<close>.\<close>

lemma fmt_0d_field:
  assumes "0 < w" "0 \<le> i" "nat i < 10 ^ w" "w \<le> 18"
  shows fmt_0d_length: "length (fmt_0d w i) = w"
    and Atoi_fmt_0d: "Atoi (fmt_0d w i) = Some i"
proof -
  have "length (nat_str (nat i)) \<le> w" using assms length_nat_str [of w "nat i"] by simp
  then show "length (fmt_0d w i) = w" using assms by (simp add: fmt_0d_def zero_pad_length)
  have "(10::nat) ^ w \<le> 10 ^ 18" using assms by (intro power_increasing) auto
  then have "nat i < 10 ^ 18" using assms by linarith
  then have "i < 10 ^ 18" using assms(2) by (simp add: nat_less_iff)
  then have "i < 2 ^ 63" by simp
  moreover have "big_SetString (fmt_0d w i) = Some i"
  proof -
    let ?ds = "replicate (w - length (nat_digits (nat i))) 0 @ nat_digits (nat i)"
    have "list_all (\<lambda>d. d < 10) ?ds" "?ds \<noteq> []"
      by (auto simp: list_all_iff nat_digits_less)
    then have "big_SetString (map digit_char ?ds) = Some (int (digits_nat ?ds))"
      by (rule big_SetString_digits)
    then show ?thesis
      using assms(2) by (simp add: fmt_0d_def zero_pad_digits digits_nat_append)
  qed
  ultimately show "Atoi (fmt_0d w i) = Some i" using assms by (simp add: Atoi_def)
qed

section \<open>Lemmas on splitting and joining\<close>

lemma split_on_not_Nil [simp]: "split_on x s \<noteq> []"
  by (cases s) (auto split: list.splits)

lemma split_on_no_sep: "x \<notin> set s \<Longrightarrow> split_on x s = [s]"
  by (induction s) auto

lemma split_on_append: "x \<notin> set p \<Longrightarrow> split_on x (p @ x # s) = p # split_on x s"
  by (induction p) auto

lemma split_join_with [text_simps]:
  "ps \<noteq> [] \<Longrightarrow> \<forall>p \<in> set ps. x \<notin> set p \<Longrightarrow> split_on x (join_with [x] ps) = ps"
  by (induction "[x]" ps rule: join_with.induct) (auto simp: split_on_no_sep split_on_append)

end
