(* ===== verification/Ddm_CodePoint.thy ===== *)
theory Ddm_CodePoint
  imports Go_Text
begin

text \<open>
  Code points (\<^verbatim>\<open>internal/ddm/codepoint.go\<close>): every constant of the file under its Go
  name, the group tables, the mnemonic table \<^verbatim>\<open>codePointNames\<close> and
  \<^verbatim>\<open>CodePoint.String\<close>.  The constants are abbreviations of 16-bit numerals, so that
  comparisons of code points compute.
\<close>

type_synonym CodePoint = "16 word"

section \<open>Commands (requests)\<close>

abbreviation EXCSAT :: "16 word" where "EXCSAT \<equiv> 0x1041"
abbreviation SYNCCTL :: "16 word" where "SYNCCTL \<equiv> 0x1055"
abbreviation SYNCRSY :: "16 word" where "SYNCRSY \<equiv> 0x1069"
abbreviation ACCSEC :: "16 word" where "ACCSEC \<equiv> 0x106D"
abbreviation SECCHK :: "16 word" where "SECCHK \<equiv> 0x106E"
abbreviation SYNCLOG :: "16 word" where "SYNCLOG \<equiv> 0x106F"
abbreviation ACCRDB :: "16 word" where "ACCRDB \<equiv> 0x2001"
abbreviation BGNBND :: "16 word" where "BGNBND \<equiv> 0x2002"
abbreviation BNDSQLSTT :: "16 word" where "BNDSQLSTT \<equiv> 0x2004"
abbreviation CLSQRY :: "16 word" where "CLSQRY \<equiv> 0x2005"
abbreviation CNTQRY :: "16 word" where "CNTQRY \<equiv> 0x2006"
abbreviation DRPPKG :: "16 word" where "DRPPKG \<equiv> 0x2007"
abbreviation DSCSQLSTT :: "16 word" where "DSCSQLSTT \<equiv> 0x2008"
abbreviation ENDBND :: "16 word" where "ENDBND \<equiv> 0x2009"
abbreviation EXCSQLIMM :: "16 word" where "EXCSQLIMM \<equiv> 0x200A"
abbreviation EXCSQLSTT :: "16 word" where "EXCSQLSTT \<equiv> 0x200B"
abbreviation OPNQRY :: "16 word" where "OPNQRY \<equiv> 0x200C"
abbreviation PRPSQLSTT :: "16 word" where "PRPSQLSTT \<equiv> 0x200D"
abbreviation RDBCMM :: "16 word" where "RDBCMM \<equiv> 0x200E"
abbreviation RDBRLLBCK :: "16 word" where "RDBRLLBCK \<equiv> 0x200F"
abbreviation REBIND :: "16 word" where "REBIND \<equiv> 0x2010"
abbreviation DSCRDBTBL :: "16 word" where "DSCRDBTBL \<equiv> 0x2012"
abbreviation EXCSQLSET :: "16 word" where "EXCSQLSET \<equiv> 0x2014"

definition ddm_commands :: "(string \<times> 16 word) list" where
  "ddm_commands =
    [(''EXCSAT'', EXCSAT), (''SYNCCTL'', SYNCCTL), (''SYNCRSY'', SYNCRSY), (''ACCSEC'', ACCSEC),
     (''SECCHK'', SECCHK), (''SYNCLOG'', SYNCLOG), (''ACCRDB'', ACCRDB), (''BGNBND'', BGNBND),
     (''BNDSQLSTT'', BNDSQLSTT), (''CLSQRY'', CLSQRY), (''CNTQRY'', CNTQRY), (''DRPPKG'', DRPPKG),
     (''DSCSQLSTT'', DSCSQLSTT), (''ENDBND'', ENDBND), (''EXCSQLIMM'', EXCSQLIMM),
     (''EXCSQLSTT'', EXCSQLSTT), (''OPNQRY'', OPNQRY), (''PRPSQLSTT'', PRPSQLSTT),
     (''RDBCMM'', RDBCMM), (''RDBRLLBCK'', RDBRLLBCK), (''REBIND'', REBIND),
     (''DSCRDBTBL'', DSCRDBTBL), (''EXCSQLSET'', EXCSQLSET)]"

section \<open>Command data objects\<close>

abbreviation SQLDTA :: "16 word" where "SQLDTA \<equiv> 0x2412"
abbreviation SQLDTARD :: "16 word" where "SQLDTARD \<equiv> 0x2413"
abbreviation SQLSTT :: "16 word" where "SQLSTT \<equiv> 0x2414"
abbreviation SQLATTR :: "16 word" where "SQLATTR \<equiv> 0x2450"
abbreviation SQLSTTVRB :: "16 word" where "SQLSTTVRB \<equiv> 0x2419"
abbreviation QRYDSC :: "16 word" where "QRYDSC \<equiv> 0x241A"
abbreviation QRYDTA :: "16 word" where "QRYDTA \<equiv> 0x241B"
abbreviation SQLRSLRD :: "16 word" where "SQLRSLRD \<equiv> 0x240E"
abbreviation SQLCINRD :: "16 word" where "SQLCINRD \<equiv> 0x240B"
abbreviation SQLCARD :: "16 word" where "SQLCARD \<equiv> 0x2408"
abbreviation SQLDARD :: "16 word" where "SQLDARD \<equiv> 0x2411"
abbreviation EXTDTA :: "16 word" where "EXTDTA \<equiv> 0x146C"
abbreviation FDODSC :: "16 word" where "FDODSC \<equiv> 0x0010"
abbreviation FDODTA :: "16 word" where "FDODTA \<equiv> 0x147A"
abbreviation FDODSCOFF :: "16 word" where "FDODSCOFF \<equiv> 0x2118"
abbreviation FDOPRMOFF :: "16 word" where "FDOPRMOFF \<equiv> 0x212B"
abbreviation FDOTRPOFF :: "16 word" where "FDOTRPOFF \<equiv> 0x212A"

definition ddm_command_data :: "(string \<times> 16 word) list" where
  "ddm_command_data =
    [(''SQLDTA'', SQLDTA), (''SQLDTARD'', SQLDTARD), (''SQLSTT'', SQLSTT), (''SQLATTR'', SQLATTR),
     (''SQLSTTVRB'', SQLSTTVRB), (''QRYDSC'', QRYDSC), (''QRYDTA'', QRYDTA),
     (''SQLRSLRD'', SQLRSLRD), (''SQLCINRD'', SQLCINRD), (''SQLCARD'', SQLCARD),
     (''SQLDARD'', SQLDARD), (''EXTDTA'', EXTDTA), (''FDODSC'', FDODSC), (''FDODTA'', FDODTA),
     (''FDODSCOFF'', FDODSCOFF), (''FDOPRMOFF'', FDOPRMOFF), (''FDOTRPOFF'', FDOTRPOFF)]"

section \<open>Reply messages\<close>

abbreviation EXCSATRD :: "16 word" where "EXCSATRD \<equiv> 0x1443"
abbreviation ACCSECRD :: "16 word" where "ACCSECRD \<equiv> 0x14AC"
abbreviation SECCHKRM :: "16 word" where "SECCHKRM \<equiv> 0x1219"
abbreviation ACCRDBRM :: "16 word" where "ACCRDBRM \<equiv> 0x2201"
abbreviation OPNQRYRM :: "16 word" where "OPNQRYRM \<equiv> 0x2205"
abbreviation ENDQRYRM :: "16 word" where "ENDQRYRM \<equiv> 0x220B"
abbreviation ENDUOWRM :: "16 word" where "ENDUOWRM \<equiv> 0x220C"
abbreviation SQLERRRM :: "16 word" where "SQLERRRM \<equiv> 0x2213"
abbreviation QRYNOPRM :: "16 word" where "QRYNOPRM \<equiv> 0x2202"
abbreviation QRYPOPRM :: "16 word" where "QRYPOPRM \<equiv> 0x220F"
abbreviation RDBNFNRM :: "16 word" where "RDBNFNRM \<equiv> 0x2211"
abbreviation RDBATHRM :: "16 word" where "RDBATHRM \<equiv> 0x22CB"
abbreviation RDBNACRM :: "16 word" where "RDBNACRM \<equiv> 0x2204"
abbreviation RDBACCRM :: "16 word" where "RDBACCRM \<equiv> 0x2207"
abbreviation RDBAFLRM :: "16 word" where "RDBAFLRM \<equiv> 0x221A"
abbreviation RDBUPDRM :: "16 word" where "RDBUPDRM \<equiv> 0x2218"
abbreviation ABNUOWRM :: "16 word" where "ABNUOWRM \<equiv> 0x220D"
abbreviation CMDATHRM :: "16 word" where "CMDATHRM \<equiv> 0x121C"
abbreviation CMDCHKRM :: "16 word" where "CMDCHKRM \<equiv> 0x1254"
abbreviation CMDNSPRM :: "16 word" where "CMDNSPRM \<equiv> 0x1250"
abbreviation CMDCMPRM :: "16 word" where "CMDCMPRM \<equiv> 0x124B"
abbreviation CMDVLTRM :: "16 word" where "CMDVLTRM \<equiv> 0x221D"
abbreviation CMMRQSRM :: "16 word" where "CMMRQSRM \<equiv> 0x2225"
abbreviation AGNPRMRM :: "16 word" where "AGNPRMRM \<equiv> 0x1232"
abbreviation BGNBNDRM :: "16 word" where "BGNBNDRM \<equiv> 0x2208"
abbreviation MGRLVLRM :: "16 word" where "MGRLVLRM \<equiv> 0x1210"
abbreviation MGRDEPRM :: "16 word" where "MGRDEPRM \<equiv> 0x1218"
abbreviation OBJNSPRM :: "16 word" where "OBJNSPRM \<equiv> 0x1253"
abbreviation PRCCNVRM :: "16 word" where "PRCCNVRM \<equiv> 0x1245"
abbreviation PRMNSPRM :: "16 word" where "PRMNSPRM \<equiv> 0x1251"
abbreviation PKGBNARM :: "16 word" where "PKGBNARM \<equiv> 0x2206"
abbreviation PKGBPARM :: "16 word" where "PKGBPARM \<equiv> 0x2209"
abbreviation RSCLMTRM :: "16 word" where "RSCLMTRM \<equiv> 0x1233"
abbreviation SYNTAXRM :: "16 word" where "SYNTAXRM \<equiv> 0x124C"
abbreviation TRGNSPRM :: "16 word" where "TRGNSPRM \<equiv> 0x125F"
abbreviation VALNSPRM :: "16 word" where "VALNSPRM \<equiv> 0x1252"
abbreviation DTAMCHRM :: "16 word" where "DTAMCHRM \<equiv> 0x220E"
abbreviation OPNQFLRM :: "16 word" where "OPNQFLRM \<equiv> 0x2212"
abbreviation RSLSETRM :: "16 word" where "RSLSETRM \<equiv> 0x2219"
abbreviation DSCINVRM :: "16 word" where "DSCINVRM \<equiv> 0x220A"
abbreviation SYNCCRD :: "16 word" where "SYNCCRD \<equiv> 0x1248"
abbreviation SYNCRRD :: "16 word" where "SYNCRRD \<equiv> 0x126D"

definition ddm_replies :: "(string \<times> 16 word) list" where
  "ddm_replies =
    [(''EXCSATRD'', EXCSATRD), (''ACCSECRD'', ACCSECRD), (''SECCHKRM'', SECCHKRM),
     (''ACCRDBRM'', ACCRDBRM), (''OPNQRYRM'', OPNQRYRM), (''ENDQRYRM'', ENDQRYRM),
     (''ENDUOWRM'', ENDUOWRM), (''SQLERRRM'', SQLERRRM), (''QRYNOPRM'', QRYNOPRM),
     (''QRYPOPRM'', QRYPOPRM), (''RDBNFNRM'', RDBNFNRM), (''RDBATHRM'', RDBATHRM),
     (''RDBNACRM'', RDBNACRM), (''RDBACCRM'', RDBACCRM), (''RDBAFLRM'', RDBAFLRM),
     (''RDBUPDRM'', RDBUPDRM), (''ABNUOWRM'', ABNUOWRM), (''CMDATHRM'', CMDATHRM),
     (''CMDCHKRM'', CMDCHKRM), (''CMDNSPRM'', CMDNSPRM), (''CMDCMPRM'', CMDCMPRM),
     (''CMDVLTRM'', CMDVLTRM), (''CMMRQSRM'', CMMRQSRM), (''AGNPRMRM'', AGNPRMRM),
     (''BGNBNDRM'', BGNBNDRM), (''MGRLVLRM'', MGRLVLRM), (''MGRDEPRM'', MGRDEPRM),
     (''OBJNSPRM'', OBJNSPRM), (''PRCCNVRM'', PRCCNVRM), (''PRMNSPRM'', PRMNSPRM),
     (''PKGBNARM'', PKGBNARM), (''PKGBPARM'', PKGBPARM), (''RSCLMTRM'', RSCLMTRM),
     (''SYNTAXRM'', SYNTAXRM), (''TRGNSPRM'', TRGNSPRM), (''VALNSPRM'', VALNSPRM),
     (''DTAMCHRM'', DTAMCHRM), (''OPNQFLRM'', OPNQFLRM), (''RSLSETRM'', RSLSETRM),
     (''DSCINVRM'', DSCINVRM), (''SYNCCRD'', SYNCCRD), (''SYNCRRD'', SYNCRRD)]"

section \<open>Parameters and instance variables\<close>

abbreviation AGENT :: "16 word" where "AGENT \<equiv> 0x1403"
abbreviation CODPNT :: "16 word" where "CODPNT \<equiv> 0x000C"
abbreviation CODPNTDR :: "16 word" where "CODPNTDR \<equiv> 0x0064"
abbreviation CSTMBCS :: "16 word" where "CSTMBCS \<equiv> 0x2435"
abbreviation CCSIDDBC :: "16 word" where "CCSIDDBC \<equiv> 0x119D"
abbreviation CCSIDMBC :: "16 word" where "CCSIDMBC \<equiv> 0x119E"
abbreviation CCSIDMGR :: "16 word" where "CCSIDMGR \<equiv> 0x14CC"
abbreviation UNICODEMGR :: "16 word" where "UNICODEMGR \<equiv> 0x1C08"
abbreviation CCSIDSBC :: "16 word" where "CCSIDSBC \<equiv> 0x119C"
abbreviation CMNAPPC :: "16 word" where "CMNAPPC \<equiv> 0x1444"
abbreviation CMNSYNCPT :: "16 word" where "CMNSYNCPT \<equiv> 0x147C"
abbreviation CMNTCPIP :: "16 word" where "CMNTCPIP \<equiv> 0x1474"
abbreviation XAMGR :: "16 word" where "XAMGR \<equiv> 0x1C01"
abbreviation CRRTKN :: "16 word" where "CRRTKN \<equiv> 0x2135"
abbreviation TRGDFTRT :: "16 word" where "TRGDFTRT \<equiv> 0x213B"
abbreviation FREPRVREF :: "16 word" where "FREPRVREF \<equiv> 0x214C"
abbreviation DICTIONARY :: "16 word" where "DICTIONARY \<equiv> 0x1458"
abbreviation DEPERRCD :: "16 word" where "DEPERRCD \<equiv> 0x119B"
abbreviation DSCERRCD :: "16 word" where "DSCERRCD \<equiv> 0x2101"
abbreviation EXTNAM :: "16 word" where "EXTNAM \<equiv> 0x115E"
abbreviation FIXROWPRC :: "16 word" where "FIXROWPRC \<equiv> 0x2418"
abbreviation FRCFIXROW :: "16 word" where "FRCFIXROW \<equiv> 0x2410"
abbreviation LMTBLKPRC :: "16 word" where "LMTBLKPRC \<equiv> 0x2417"
abbreviation MGRLVLLS :: "16 word" where "MGRLVLLS \<equiv> 0x1404"
abbreviation MGRLVLN :: "16 word" where "MGRLVLN \<equiv> 0x1473"
abbreviation MONITOR :: "16 word" where "MONITOR \<equiv> 0x1900"
abbreviation MONITORRD :: "16 word" where "MONITORRD \<equiv> 0x1C00"
abbreviation NEWPASSWORD :: "16 word" where "NEWPASSWORD \<equiv> 0x11DE"
abbreviation PASSWORD :: "16 word" where "PASSWORD \<equiv> 0x11A1"
abbreviation PKGDFTCST :: "16 word" where "PKGDFTCST \<equiv> 0x2125"
abbreviation PKGID :: "16 word" where "PKGID \<equiv> 0x2109"
abbreviation MAXBLKEXT :: "16 word" where "MAXBLKEXT \<equiv> 0x2141"
abbreviation MAXRSLCNT :: "16 word" where "MAXRSLCNT \<equiv> 0x2140"
abbreviation RSLSETFLG :: "16 word" where "RSLSETFLG \<equiv> 0x2142"
abbreviation RDBCMTOK :: "16 word" where "RDBCMTOK \<equiv> 0x2105"
abbreviation PKGNAMCT :: "16 word" where "PKGNAMCT \<equiv> 0x2112"
abbreviation PKGSNLST :: "16 word" where "PKGSNLST \<equiv> 0x2139"
abbreviation PRCCNVCD :: "16 word" where "PRCCNVCD \<equiv> 0x113F"
abbreviation PRDID :: "16 word" where "PRDID \<equiv> 0x112E"
abbreviation OUTOVR :: "16 word" where "OUTOVR \<equiv> 0x2415"
abbreviation OUTOVROPT :: "16 word" where "OUTOVROPT \<equiv> 0x2147"
abbreviation PKGCNSTKN :: "16 word" where "PKGCNSTKN \<equiv> 0x210D"
abbreviation PRDDTA :: "16 word" where "PRDDTA \<equiv> 0x2104"
abbreviation QRYINSID :: "16 word" where "QRYINSID \<equiv> 0x215B"
abbreviation QRYBLKCTL :: "16 word" where "QRYBLKCTL \<equiv> 0x2132"
abbreviation QRYBLKSZ :: "16 word" where "QRYBLKSZ \<equiv> 0x2114"
abbreviation QRYPRCTYP :: "16 word" where "QRYPRCTYP \<equiv> 0x2102"
abbreviation QRYCLSIMP :: "16 word" where "QRYCLSIMP \<equiv> 0x215D"
abbreviation QRYCLSRLS :: "16 word" where "QRYCLSRLS \<equiv> 0x215E"
abbreviation QRYOPTVAL :: "16 word" where "QRYOPTVAL \<equiv> 0x215F"
abbreviation NBRROW :: "16 word" where "NBRROW \<equiv> 0x213A"
abbreviation OUTEXP :: "16 word" where "OUTEXP \<equiv> 0x2111"
abbreviation PRCNAM :: "16 word" where "PRCNAM \<equiv> 0x2138"
abbreviation QRYATTUPD :: "16 word" where "QRYATTUPD \<equiv> 0x2150"
abbreviation RDB :: "16 word" where "RDB \<equiv> 0x240F"
abbreviation RDBACCCL :: "16 word" where "RDBACCCL \<equiv> 0x210F"
abbreviation RDBALWUPD :: "16 word" where "RDBALWUPD \<equiv> 0x211A"
abbreviation QRYRELSCR :: "16 word" where "QRYRELSCR \<equiv> 0x213C"
abbreviation QRYSCRORN :: "16 word" where "QRYSCRORN \<equiv> 0x2152"
abbreviation QRYROWNBR :: "16 word" where "QRYROWNBR \<equiv> 0x213D"
abbreviation QRYROWSNS :: "16 word" where "QRYROWSNS \<equiv> 0x2153"
abbreviation QRYRFRTBL :: "16 word" where "QRYRFRTBL \<equiv> 0x213E"
abbreviation QRYATTSCR :: "16 word" where "QRYATTSCR \<equiv> 0x2149"
abbreviation QRYATTSNS :: "16 word" where "QRYATTSNS \<equiv> 0x2157"
abbreviation QRYBLKRST :: "16 word" where "QRYBLKRST \<equiv> 0x2154"
abbreviation QRYROWSET :: "16 word" where "QRYROWSET \<equiv> 0x2156"
abbreviation QRYRTNDTA :: "16 word" where "QRYRTNDTA \<equiv> 0x2155"
abbreviation RDBINTTKN :: "16 word" where "RDBINTTKN \<equiv> 0x2103"
abbreviation RDBNAM :: "16 word" where "RDBNAM \<equiv> 0x2110"
abbreviation RDBCOLID :: "16 word" where "RDBCOLID \<equiv> 0x2108"
abbreviation RSCNAM :: "16 word" where "RSCNAM \<equiv> 0x112D"
abbreviation RSCTYP :: "16 word" where "RSCTYP \<equiv> 0x111F"
abbreviation RSNCOD :: "16 word" where "RSNCOD \<equiv> 0x1127"
abbreviation RSYNCMGR :: "16 word" where "RSYNCMGR \<equiv> 0x14C1"
abbreviation RTNSQLDA :: "16 word" where "RTNSQLDA \<equiv> 0x2116"
abbreviation TYPSQLDA :: "16 word" where "TYPSQLDA \<equiv> 0x2146"
abbreviation SECCHKCD :: "16 word" where "SECCHKCD \<equiv> 0x11A4"
abbreviation SECMEC :: "16 word" where "SECMEC \<equiv> 0x11A2"
abbreviation SECMGR :: "16 word" where "SECMGR \<equiv> 0x1440"
abbreviation SECMGRNM :: "16 word" where "SECMGRNM \<equiv> 0x1196"
abbreviation SECTKN :: "16 word" where "SECTKN \<equiv> 0x11DC"
abbreviation RTNEXTDTA :: "16 word" where "RTNEXTDTA \<equiv> 0x2148"
abbreviation SPVNAM :: "16 word" where "SPVNAM \<equiv> 0x115D"
abbreviation SQLAM :: "16 word" where "SQLAM \<equiv> 0x2407"
abbreviation SQLCSRHLD :: "16 word" where "SQLCSRHLD \<equiv> 0x211F"
abbreviation SRVCLSNM :: "16 word" where "SRVCLSNM \<equiv> 0x1147"
abbreviation SRVDGN :: "16 word" where "SRVDGN \<equiv> 0x1153"
abbreviation SRVLST :: "16 word" where "SRVLST \<equiv> 0x244E"
abbreviation SRVNAM :: "16 word" where "SRVNAM \<equiv> 0x116D"
abbreviation SRVRLSLV :: "16 word" where "SRVRLSLV \<equiv> 0x115A"
abbreviation STTDECDEL :: "16 word" where "STTDECDEL \<equiv> 0x2121"
abbreviation STTSTRDEL :: "16 word" where "STTSTRDEL \<equiv> 0x2120"
abbreviation SUPERVISOR :: "16 word" where "SUPERVISOR \<equiv> 0x143C"
abbreviation SVCERRNO :: "16 word" where "SVCERRNO \<equiv> 0x11B4"
abbreviation SVRCOD :: "16 word" where "SVRCOD \<equiv> 0x1149"
abbreviation SYNCPTMGR :: "16 word" where "SYNCPTMGR \<equiv> 0x14C0"
abbreviation SYNERRCD :: "16 word" where "SYNERRCD \<equiv> 0x114A"
abbreviation TYPDEFNAM :: "16 word" where "TYPDEFNAM \<equiv> 0x002F"
abbreviation TYPDEFOVR :: "16 word" where "TYPDEFOVR \<equiv> 0x0035"
abbreviation UOWDSP :: "16 word" where "UOWDSP \<equiv> 0x2115"
abbreviation USRID :: "16 word" where "USRID \<equiv> 0x11A0"
abbreviation VRSNAM :: "16 word" where "VRSNAM \<equiv> 0x1144"
abbreviation PKGNAMCSN :: "16 word" where "PKGNAMCSN \<equiv> 0x2113"
abbreviation DIAGLVL :: "16 word" where "DIAGLVL \<equiv> 0x2160"
abbreviation PBSD :: "16 word" where "PBSD \<equiv> 0xC000"
abbreviation PBSD_ISO :: "16 word" where "PBSD_ISO \<equiv> 0xC001"
abbreviation PBSD_SCHEMA :: "16 word" where "PBSD_SCHEMA \<equiv> 0xC002"
abbreviation RLSCONV :: "16 word" where "RLSCONV \<equiv> 0x119F"
abbreviation XARETVAL :: "16 word" where "XARETVAL \<equiv> 0x1904"
abbreviation TIMEOUT :: "16 word" where "TIMEOUT \<equiv> 0x1907"
abbreviation FORGET :: "16 word" where "FORGET \<equiv> 0x1186"
abbreviation SYNCTYPE :: "16 word" where "SYNCTYPE \<equiv> 0x1187"
abbreviation XID :: "16 word" where "XID \<equiv> 0x1801"
abbreviation XAFLAGS :: "16 word" where "XAFLAGS \<equiv> 0x1903"
abbreviation RSYNCTYP :: "16 word" where "RSYNCTYP \<equiv> 0x11EA"
abbreviation PRPHRCLST :: "16 word" where "PRPHRCLST \<equiv> 0x1905"
abbreviation XIDCNT :: "16 word" where "XIDCNT \<equiv> 0x1906"
abbreviation RDBRLLBCK2 :: "16 word" where "RDBRLLBCK2 \<equiv> 0xC004"
abbreviation DYNDTAFMT :: "16 word" where "DYNDTAFMT \<equiv> 0x214B"

definition ddm_parameters :: "(string \<times> 16 word) list" where
  "ddm_parameters =
    [(''AGENT'', AGENT), (''CODPNT'', CODPNT), (''CODPNTDR'', CODPNTDR), (''CSTMBCS'', CSTMBCS),
     (''CCSIDDBC'', CCSIDDBC), (''CCSIDMBC'', CCSIDMBC), (''CCSIDMGR'', CCSIDMGR),
     (''UNICODEMGR'', UNICODEMGR), (''CCSIDSBC'', CCSIDSBC), (''CMNAPPC'', CMNAPPC),
     (''CMNSYNCPT'', CMNSYNCPT), (''CMNTCPIP'', CMNTCPIP), (''XAMGR'', XAMGR), (''CRRTKN'', CRRTKN),
     (''TRGDFTRT'', TRGDFTRT), (''FREPRVREF'', FREPRVREF), (''DICTIONARY'', DICTIONARY),
     (''DEPERRCD'', DEPERRCD), (''DSCERRCD'', DSCERRCD), (''EXTNAM'', EXTNAM),
     (''FIXROWPRC'', FIXROWPRC), (''FRCFIXROW'', FRCFIXROW), (''LMTBLKPRC'', LMTBLKPRC),
     (''MGRLVLLS'', MGRLVLLS), (''MGRLVLN'', MGRLVLN), (''MONITOR'', MONITOR),
     (''MONITORRD'', MONITORRD), (''NEWPASSWORD'', NEWPASSWORD), (''PASSWORD'', PASSWORD),
     (''PKGDFTCST'', PKGDFTCST), (''PKGID'', PKGID), (''MAXBLKEXT'', MAXBLKEXT),
     (''MAXRSLCNT'', MAXRSLCNT), (''RSLSETFLG'', RSLSETFLG), (''RDBCMTOK'', RDBCMTOK),
     (''PKGNAMCT'', PKGNAMCT), (''PKGSNLST'', PKGSNLST), (''PRCCNVCD'', PRCCNVCD),
     (''PRDID'', PRDID), (''OUTOVR'', OUTOVR), (''OUTOVROPT'', OUTOVROPT),
     (''PKGCNSTKN'', PKGCNSTKN), (''PRDDTA'', PRDDTA), (''QRYINSID'', QRYINSID),
     (''QRYBLKCTL'', QRYBLKCTL), (''QRYBLKSZ'', QRYBLKSZ), (''QRYPRCTYP'', QRYPRCTYP),
     (''QRYCLSIMP'', QRYCLSIMP), (''QRYCLSRLS'', QRYCLSRLS), (''QRYOPTVAL'', QRYOPTVAL),
     (''NBRROW'', NBRROW), (''OUTEXP'', OUTEXP), (''PRCNAM'', PRCNAM), (''QRYATTUPD'', QRYATTUPD),
     (''RDB'', RDB), (''RDBACCCL'', RDBACCCL), (''RDBALWUPD'', RDBALWUPD),
     (''QRYRELSCR'', QRYRELSCR), (''QRYSCRORN'', QRYSCRORN), (''QRYROWNBR'', QRYROWNBR),
     (''QRYROWSNS'', QRYROWSNS), (''QRYRFRTBL'', QRYRFRTBL), (''QRYATTSCR'', QRYATTSCR),
     (''QRYATTSNS'', QRYATTSNS), (''QRYBLKRST'', QRYBLKRST), (''QRYROWSET'', QRYROWSET),
     (''QRYRTNDTA'', QRYRTNDTA), (''RDBINTTKN'', RDBINTTKN), (''RDBNAM'', RDBNAM),
     (''RDBCOLID'', RDBCOLID), (''RSCNAM'', RSCNAM), (''RSCTYP'', RSCTYP), (''RSNCOD'', RSNCOD),
     (''RSYNCMGR'', RSYNCMGR), (''RTNSQLDA'', RTNSQLDA), (''TYPSQLDA'', TYPSQLDA),
     (''SECCHKCD'', SECCHKCD), (''SECMEC'', SECMEC), (''SECMGR'', SECMGR), (''SECMGRNM'', SECMGRNM),
     (''SECTKN'', SECTKN), (''RTNEXTDTA'', RTNEXTDTA), (''SPVNAM'', SPVNAM), (''SQLAM'', SQLAM),
     (''SQLCSRHLD'', SQLCSRHLD), (''SRVCLSNM'', SRVCLSNM), (''SRVDGN'', SRVDGN),
     (''SRVLST'', SRVLST), (''SRVNAM'', SRVNAM), (''SRVRLSLV'', SRVRLSLV),
     (''STTDECDEL'', STTDECDEL), (''STTSTRDEL'', STTSTRDEL), (''SUPERVISOR'', SUPERVISOR),
     (''SVCERRNO'', SVCERRNO), (''SVRCOD'', SVRCOD), (''SYNCPTMGR'', SYNCPTMGR),
     (''SYNERRCD'', SYNERRCD), (''TYPDEFNAM'', TYPDEFNAM), (''TYPDEFOVR'', TYPDEFOVR),
     (''UOWDSP'', UOWDSP), (''USRID'', USRID), (''VRSNAM'', VRSNAM), (''PKGNAMCSN'', PKGNAMCSN),
     (''DIAGLVL'', DIAGLVL), (''PBSD'', PBSD), (''PBSD_ISO'', PBSD_ISO),
     (''PBSD_SCHEMA'', PBSD_SCHEMA), (''RLSCONV'', RLSCONV), (''XARETVAL'', XARETVAL),
     (''TIMEOUT'', TIMEOUT), (''FORGET'', FORGET), (''SYNCTYPE'', SYNCTYPE), (''XID'', XID),
     (''XAFLAGS'', XAFLAGS), (''RSYNCTYP'', RSYNCTYP), (''PRPHRCLST'', PRPHRCLST),
     (''XIDCNT'', XIDCNT), (''RDBRLLBCK2'', RDBRLLBCK2), (''DYNDTAFMT'', DYNDTAFMT)]"

section \<open>Security mechanisms (SECMEC values)\<close>

abbreviation SecMecDCESEC :: "16 word" where "SecMecDCESEC \<equiv> 1"
abbreviation SecMecUSRIDPWD :: "16 word" where "SecMecUSRIDPWD \<equiv> 3"
abbreviation SecMecUSRIDONL :: "16 word" where "SecMecUSRIDONL \<equiv> 4"
abbreviation SecMecUSRIDNWPWD :: "16 word" where "SecMecUSRIDNWPWD \<equiv> 5"
abbreviation SecMecUSRSBSPWD :: "16 word" where "SecMecUSRSBSPWD \<equiv> 6"
abbreviation SecMecUSRENCPWD :: "16 word" where "SecMecUSRENCPWD \<equiv> 7"
abbreviation SecMecUSRSSBPWD :: "16 word" where "SecMecUSRSSBPWD \<equiv> 8"
abbreviation SecMecEUSRIDPWD :: "16 word" where "SecMecEUSRIDPWD \<equiv> 9"
abbreviation SecMecEUSRIDNWPWD :: "16 word" where "SecMecEUSRIDNWPWD \<equiv> 10"

definition secmec_codes :: "(string \<times> 16 word) list" where
  "secmec_codes =
    [(''SecMecDCESEC'', SecMecDCESEC), (''SecMecUSRIDPWD'', SecMecUSRIDPWD),
     (''SecMecUSRIDONL'', SecMecUSRIDONL), (''SecMecUSRIDNWPWD'', SecMecUSRIDNWPWD),
     (''SecMecUSRSBSPWD'', SecMecUSRSBSPWD), (''SecMecUSRENCPWD'', SecMecUSRENCPWD),
     (''SecMecUSRSSBPWD'', SecMecUSRSSBPWD), (''SecMecEUSRIDPWD'', SecMecEUSRIDPWD),
     (''SecMecEUSRIDNWPWD'', SecMecEUSRIDNWPWD)]"

section \<open>Severity codes (SVRCOD)\<close>

abbreviation SvrCodInfo :: "16 word" where "SvrCodInfo \<equiv> 0"
abbreviation SvrCodWarning :: "16 word" where "SvrCodWarning \<equiv> 4"
abbreviation SvrCodError :: "16 word" where "SvrCodError \<equiv> 8"
abbreviation SvrCodSevere :: "16 word" where "SvrCodSevere \<equiv> 16"
abbreviation SvrCodAccDmg :: "16 word" where "SvrCodAccDmg \<equiv> 32"
abbreviation SvrCodPrmDmg :: "16 word" where "SvrCodPrmDmg \<equiv> 64"
abbreviation SvrCodSesDmg :: "16 word" where "SvrCodSesDmg \<equiv> 128"

definition svrcod_codes :: "(string \<times> 16 word) list" where
  "svrcod_codes =
    [(''SvrCodInfo'', SvrCodInfo), (''SvrCodWarning'', SvrCodWarning),
     (''SvrCodError'', SvrCodError), (''SvrCodSevere'', SvrCodSevere),
     (''SvrCodAccDmg'', SvrCodAccDmg), (''SvrCodPrmDmg'', SvrCodPrmDmg),
     (''SvrCodSesDmg'', SvrCodSesDmg)]"

section \<open>Mnemonics\<close>

definition codePointNames :: "(CodePoint \<times> string) list" where
  "codePointNames =
    [(EXCSAT, ''EXCSAT''), (ACCSEC, ''ACCSEC''), (SECCHK, ''SECCHK''), (ACCRDB, ''ACCRDB''),
     (CLSQRY, ''CLSQRY''), (CNTQRY, ''CNTQRY''), (DSCSQLSTT, ''DSCSQLSTT''),
     (EXCSQLIMM, ''EXCSQLIMM''), (EXCSQLSTT, ''EXCSQLSTT''), (OPNQRY, ''OPNQRY''),
     (PRPSQLSTT, ''PRPSQLSTT''), (RDBCMM, ''RDBCMM''), (RDBRLLBCK, ''RDBRLLBCK''),
     (EXCSQLSET, ''EXCSQLSET''), (SQLDTA, ''SQLDTA''), (SQLDTARD, ''SQLDTARD''),
     (SQLSTT, ''SQLSTT''), (SQLATTR, ''SQLATTR''), (QRYDSC, ''QRYDSC''), (QRYDTA, ''QRYDTA''),
     (SQLCARD, ''SQLCARD''), (SQLDARD, ''SQLDARD''), (EXTDTA, ''EXTDTA''), (FDODSC, ''FDODSC''),
     (FDODTA, ''FDODTA''), (EXCSATRD, ''EXCSATRD''), (ACCSECRD, ''ACCSECRD''),
     (SECCHKRM, ''SECCHKRM''), (ACCRDBRM, ''ACCRDBRM''), (OPNQRYRM, ''OPNQRYRM''),
     (ENDQRYRM, ''ENDQRYRM''), (ENDUOWRM, ''ENDUOWRM''), (SQLERRRM, ''SQLERRRM''),
     (QRYNOPRM, ''QRYNOPRM''), (QRYPOPRM, ''QRYPOPRM''), (RDBNFNRM, ''RDBNFNRM''),
     (RDBATHRM, ''RDBATHRM''), (RDBNACRM, ''RDBNACRM''), (RDBACCRM, ''RDBACCRM''),
     (RDBAFLRM, ''RDBAFLRM''), (ABNUOWRM, ''ABNUOWRM''), (CMDATHRM, ''CMDATHRM''),
     (CMDCHKRM, ''CMDCHKRM''), (CMDNSPRM, ''CMDNSPRM''), (AGNPRMRM, ''AGNPRMRM''),
     (MGRLVLRM, ''MGRLVLRM''), (OBJNSPRM, ''OBJNSPRM''), (PRCCNVRM, ''PRCCNVRM''),
     (PRMNSPRM, ''PRMNSPRM''), (RSCLMTRM, ''RSCLMTRM''), (SYNTAXRM, ''SYNTAXRM''),
     (VALNSPRM, ''VALNSPRM''), (DTAMCHRM, ''DTAMCHRM''), (OPNQFLRM, ''OPNQFLRM''),
     (RSLSETRM, ''RSLSETRM''), (AGENT, ''AGENT''), (SQLAM, ''SQLAM''), (RDB, ''RDB''),
     (SECMGR, ''SECMGR''), (CMNTCPIP, ''CMNTCPIP''), (UNICODEMGR, ''UNICODEMGR''),
     (CCSIDMGR, ''CCSIDMGR''), (MGRLVLLS, ''MGRLVLLS''), (EXTNAM, ''EXTNAM''), (SRVNAM, ''SRVNAM''),
     (SRVRLSLV, ''SRVRLSLV''), (SRVCLSNM, ''SRVCLSNM''), (SECMEC, ''SECMEC''), (SECTKN, ''SECTKN''),
     (RDBNAM, ''RDBNAM''), (USRID, ''USRID''), (PASSWORD, ''PASSWORD''), (PRDID, ''PRDID''),
     (TYPDEFNAM, ''TYPDEFNAM''), (TYPDEFOVR, ''TYPDEFOVR''), (CRRTKN, ''CRRTKN''),
     (RDBACCCL, ''RDBACCCL''), (PKGNAMCSN, ''PKGNAMCSN''), (QRYBLKSZ, ''QRYBLKSZ''),
     (QRYINSID, ''QRYINSID''), (SVRCOD, ''SVRCOD''), (SECCHKCD, ''SECCHKCD''), (SRVDGN, ''SRVDGN''),
     (SYNERRCD, ''SYNERRCD''), (CODPNT, ''CODPNT''), (RTNSQLDA, ''RTNSQLDA''),
     (TYPSQLDA, ''TYPSQLDA''), (RDBCMTOK, ''RDBCMTOK''), (MAXBLKEXT, ''MAXBLKEXT''),
     (QRYCLSIMP, ''QRYCLSIMP''), (RTNEXTDTA, ''RTNEXTDTA''), (DYNDTAFMT, ''DYNDTAFMT''),
     (UOWDSP, ''UOWDSP''), (RSNCOD, ''RSNCOD''), (RDBUPDRM, ''RDBUPDRM''), (BGNBNDRM, ''BGNBNDRM''),
     (PKGBNARM, ''PKGBNARM''), (PKGBPARM, ''PKGBPARM'')]"

definition hex_digit :: "nat \<Rightarrow> char" where
  "hex_digit n = ''0123456789ABCDEF'' ! n"

definition hex16 :: "16 word \<Rightarrow> string" where
  "hex16 v = map (\<lambda>k. hex_digit (unat (drop_bit k v AND 0xF))) [12, 8, 4, 0]"

definition CodePoint_String :: "CodePoint \<Rightarrow> string" where
  "CodePoint_String c =
     (case map_of codePointNames c of Some s \<Rightarrow> s | None \<Rightarrow> ''0x'' @ hex16 c)"

end
