(* ===== verification/Ddm_EBCDIC.thy ===== *)
theory Ddm_EBCDIC
  imports Ddm_CodePoint
begin

text \<open>
  The EBCDIC codec (\<^verbatim>\<open>internal/ddm/ebcdic.go\<close> and its two tables).  The CCSID 500
  table is a permutation of the 256 Latin-1 code points, so decoding is injective and
  encoding is its left inverse on every byte string; the other direction loses exactly
  the runes above U+00FF.
\<close>

section \<open>Tables\<close>

definition cp500ToUnicode :: "rune list" where
  "cp500ToUnicode =
    [0x00, 0x01, 0x02, 0x03, 0x9C, 0x09, 0x86, 0x7F, 0x97, 0x8D, 0x8E, 0x0B, 0x0C, 0x0D, 0x0E, 0x0F,
     0x10, 0x11, 0x12, 0x13, 0x9D, 0x85, 0x08, 0x87, 0x18, 0x19, 0x92, 0x8F, 0x1C, 0x1D, 0x1E, 0x1F,
     0x80, 0x81, 0x82, 0x83, 0x84, 0x0A, 0x17, 0x1B, 0x88, 0x89, 0x8A, 0x8B, 0x8C, 0x05, 0x06, 0x07,
     0x90, 0x91, 0x16, 0x93, 0x94, 0x95, 0x96, 0x04, 0x98, 0x99, 0x9A, 0x9B, 0x14, 0x15, 0x9E, 0x1A,
     0x20, 0xA0, 0xE2, 0xE4, 0xE0, 0xE1, 0xE3, 0xE5, 0xE7, 0xF1, 0x5B, 0x2E, 0x3C, 0x28, 0x2B, 0x21,
     0x26, 0xE9, 0xEA, 0xEB, 0xE8, 0xED, 0xEE, 0xEF, 0xEC, 0xDF, 0x5D, 0x24, 0x2A, 0x29, 0x3B, 0x5E,
     0x2D, 0x2F, 0xC2, 0xC4, 0xC0, 0xC1, 0xC3, 0xC5, 0xC7, 0xD1, 0xA6, 0x2C, 0x25, 0x5F, 0x3E, 0x3F,
     0xF8, 0xC9, 0xCA, 0xCB, 0xC8, 0xCD, 0xCE, 0xCF, 0xCC, 0x60, 0x3A, 0x23, 0x40, 0x27, 0x3D, 0x22,
     0xD8, 0x61, 0x62, 0x63, 0x64, 0x65, 0x66, 0x67, 0x68, 0x69, 0xAB, 0xBB, 0xF0, 0xFD, 0xFE, 0xB1,
     0xB0, 0x6A, 0x6B, 0x6C, 0x6D, 0x6E, 0x6F, 0x70, 0x71, 0x72, 0xAA, 0xBA, 0xE6, 0xB8, 0xC6, 0xA4,
     0xB5, 0x7E, 0x73, 0x74, 0x75, 0x76, 0x77, 0x78, 0x79, 0x7A, 0xA1, 0xBF, 0xD0, 0xDD, 0xDE, 0xAE,
     0xA2, 0xA3, 0xA5, 0xB7, 0xA9, 0xA7, 0xB6, 0xBC, 0xBD, 0xBE, 0xAC, 0x7C, 0xAF, 0xA8, 0xB4, 0xD7,
     0x7B, 0x41, 0x42, 0x43, 0x44, 0x45, 0x46, 0x47, 0x48, 0x49, 0xAD, 0xF4, 0xF6, 0xF2, 0xF3, 0xF5,
     0x7D, 0x4A, 0x4B, 0x4C, 0x4D, 0x4E, 0x4F, 0x50, 0x51, 0x52, 0xB9, 0xFB, 0xFC, 0xF9, 0xFA, 0xFF,
     0x5C, 0xF7, 0x53, 0x54, 0x55, 0x56, 0x57, 0x58, 0x59, 0x5A, 0xB2, 0xD4, 0xD6, 0xD2, 0xD3, 0xD5,
     0x30, 0x31, 0x32, 0x33, 0x34, 0x35, 0x36, 0x37, 0x38, 0x39, 0xB3, 0xDB, 0xDC, 0xD9, 0xDA, 0x9F]"

definition cp037ToUnicode :: "rune list" where
  "cp037ToUnicode =
    [0x00, 0x01, 0x02, 0x03, 0x9C, 0x09, 0x86, 0x7F, 0x97, 0x8D, 0x8E, 0x0B, 0x0C, 0x0D, 0x0E, 0x0F,
     0x10, 0x11, 0x12, 0x13, 0x9D, 0x85, 0x08, 0x87, 0x18, 0x19, 0x92, 0x8F, 0x1C, 0x1D, 0x1E, 0x1F,
     0x80, 0x81, 0x82, 0x83, 0x84, 0x0A, 0x17, 0x1B, 0x88, 0x89, 0x8A, 0x8B, 0x8C, 0x05, 0x06, 0x07,
     0x90, 0x91, 0x16, 0x93, 0x94, 0x95, 0x96, 0x04, 0x98, 0x99, 0x9A, 0x9B, 0x14, 0x15, 0x9E, 0x1A,
     0x20, 0xA0, 0xE2, 0xE4, 0xE0, 0xE1, 0xE3, 0xE5, 0xE7, 0xF1, 0xA2, 0x2E, 0x3C, 0x28, 0x2B, 0x7C,
     0x26, 0xE9, 0xEA, 0xEB, 0xE8, 0xED, 0xEE, 0xEF, 0xEC, 0xDF, 0x21, 0x24, 0x2A, 0x29, 0x3B, 0xAC,
     0x2D, 0x2F, 0xC2, 0xC4, 0xC0, 0xC1, 0xC3, 0xC5, 0xC7, 0xD1, 0xA6, 0x2C, 0x25, 0x5F, 0x3E, 0x3F,
     0xF8, 0xC9, 0xCA, 0xCB, 0xC8, 0xCD, 0xCE, 0xCF, 0xCC, 0x60, 0x3A, 0x23, 0x40, 0x27, 0x3D, 0x22,
     0xD8, 0x61, 0x62, 0x63, 0x64, 0x65, 0x66, 0x67, 0x68, 0x69, 0xAB, 0xBB, 0xF0, 0xFD, 0xFE, 0xB1,
     0xB0, 0x6A, 0x6B, 0x6C, 0x6D, 0x6E, 0x6F, 0x70, 0x71, 0x72, 0xAA, 0xBA, 0xE6, 0xB8, 0xC6, 0xA4,
     0xB5, 0x7E, 0x73, 0x74, 0x75, 0x76, 0x77, 0x78, 0x79, 0x7A, 0xA1, 0xBF, 0xD0, 0xDD, 0xDE, 0xAE,
     0x5E, 0xA3, 0xA5, 0xB7, 0xA9, 0xA7, 0xB6, 0xBC, 0xBD, 0xBE, 0x5B, 0x5D, 0xAF, 0xA8, 0xB4, 0xD7,
     0x7B, 0x41, 0x42, 0x43, 0x44, 0x45, 0x46, 0x47, 0x48, 0x49, 0xAD, 0xF4, 0xF6, 0xF2, 0xF3, 0xF5,
     0x7D, 0x4A, 0x4B, 0x4C, 0x4D, 0x4E, 0x4F, 0x50, 0x51, 0x52, 0xB9, 0xFB, 0xFC, 0xF9, 0xFA, 0xFF,
     0x5C, 0xF7, 0x53, 0x54, 0x55, 0x56, 0x57, 0x58, 0x59, 0x5A, 0xB2, 0xD4, 0xD6, 0xD2, 0xD3, 0xD5,
     0x30, 0x31, 0x32, 0x33, 0x34, 0x35, 0x36, 0x37, 0x38, 0x39, 0xB3, 0xDB, 0xDC, 0xD9, 0xDA, 0x9F]"

text \<open>
  \<^verbatim>\<open>unicodeToCP500\<close> is filled by a loop over the table; a later entry would
  overwrite an earlier one, hence \<open>rev\<close>.
\<close>

definition unicodeToCP500 :: "rune \<Rightarrow> byte option" where
  "unicodeToCP500 = map_of (rev (zip cp500ToUnicode (map word_of_nat [0..<256])))"

section \<open>Encoding and decoding\<close>

definition EncodeEBCDIC :: "string \<Rightarrow> bytes" where
  "EncodeEBCDIC s =
     map (\<lambda>r. case unicodeToCP500 r of Some b \<Rightarrow> b | None \<Rightarrow> 0x3F) (str_runes s)"

definition decodeTable :: "bytes \<Rightarrow> rune list \<Rightarrow> string" where
  "decodeTable b tbl = runes_str (map (\<lambda>c. tbl ! unat c) b)"

definition DecodeEBCDIC :: "bytes \<Rightarrow> string" where
  "DecodeEBCDIC b = runes_str (map (\<lambda>c. cp500ToUnicode ! unat c) b)"

definition decodeLatin1 :: "bytes \<Rightarrow> string" where
  "decodeLatin1 b = runes_str (map unat b)"

definition PadEBCDIC :: "string \<Rightarrow> nat \<Rightarrow> bytes" where
  "PadEBCDIC s n =
     (let b = EncodeEBCDIC s in
      if n \<le> length b then take n b else b @ replicate (n - length b) 0x40)"

definition PadASCII :: "string \<Rightarrow> nat \<Rightarrow> bytes" where
  "PadASCII s n =
     (let b = str_bytes s in
      if n \<le> length b then take n b else b @ replicate (n - length b) 0x20)"

definition DecodeCCSID :: "bytes \<Rightarrow> 16 word \<Rightarrow> string" where
  "DecodeCCSID b ccsid =
     (if ccsid \<in> {0, 1208, 1252, 819} then
        (if ccsid = 1252 \<or> ccsid = 819 then decodeLatin1 b else bytes_str b)
      else if ccsid \<in> {37, 1140} then decodeTable b cp037ToUnicode
      else if ccsid \<in> {500, 1148} then decodeTable b cp500ToUnicode
      else if 256 \<le> ccsid \<and> ccsid < 1000 then decodeTable b cp500ToUnicode
      else decodeLatin1 b)"

definition IsEBCDIC :: "16 word \<Rightarrow> bool" where
  "IsEBCDIC ccsid \<longleftrightarrow>
     ccsid \<in> {37, 273, 277, 278, 280, 284, 285, 297, 500, 871, 1140, 1141, 1142, 1143, 1144, 1145,
              1146, 1147, 1148, 1149}"

section \<open>The table is a permutation of Latin-1\<close>

lemma cp500_length: "length cp500ToUnicode = 256"
  by (simp add: cp500ToUnicode_def)

lemma cp500_distinct: "distinct cp500ToUnicode"
  by (simp add: cp500ToUnicode_def)

lemma cp500_set: "set cp500ToUnicode = {0..<256}"
proof (rule card_subset_eq)
  show "set cp500ToUnicode \<subseteq> {0..<256}"
    by (simp add: cp500ToUnicode_def)
  show "card (set cp500ToUnicode) = card {0..<256::nat}"
    using distinct_card [OF cp500_distinct] by (simp add: cp500_length)
qed simp

lemma cp500_nth_less: "cp500ToUnicode ! unat (c :: byte) < 256"
proof -
  have "cp500ToUnicode ! unat c \<in> set cp500ToUnicode"
    using unat_less_256 [of c] by (simp add: cp500_length)
  then show ?thesis by (simp add: cp500_set)
qed

lemma unicodeToCP500_nth: "unicodeToCP500 (cp500ToUnicode ! unat (c :: byte)) = Some c"
proof -
  let ?z = "zip cp500ToUnicode (map word_of_nat [0..<256] :: bytes)"
  have "map fst ?z = cp500ToUnicode" by (simp add: cp500_length)
  then have d: "distinct (map fst (rev ?z))"
    using cp500_distinct by (simp add: rev_map [symmetric])
  have "?z ! unat c = (cp500ToUnicode ! unat c, c)" "unat c < length ?z"
    using unat_less_256 [of c] by (simp_all add: cp500_length)
  then have "(cp500ToUnicode ! unat c, c) \<in> set (rev ?z)"
    by (metis nth_mem set_rev)
  then show ?thesis
    unfolding unicodeToCP500_def using map_of_is_SomeI [OF d] by blast
qed

lemma unicodeToCP500_None: "256 \<le> r \<Longrightarrow> unicodeToCP500 r = None"
  unfolding unicodeToCP500_def
  by (auto simp: map_of_eq_None_iff cp500_set dest!: set_zip_leftD)

lemma cp500_inverse:
  assumes "unicodeToCP500 r = Some b"
  shows "cp500ToUnicode ! unat b = r"
proof -
  have "r < 256" using assms unicodeToCP500_None [of r] by fastforce
  then have "r \<in> set cp500ToUnicode" by (simp add: cp500_set)
  then obtain i where i: "i < 256" "cp500ToUnicode ! i = r"
    by (auto simp: in_set_conv_nth cp500_length)
  then have "unat (word_of_nat i :: byte) = i" by (simp add: unat_of_nat)
  then show ?thesis
    using unicodeToCP500_nth [of "word_of_nat i"] i assms by simp
qed

lemma latin1_valid: "r < 256 \<Longrightarrow> valid_rune r"
  by (simp add: valid_rune_def)

lemma cp500_runes_valid: "list_all valid_rune (map (\<lambda>c. cp500ToUnicode ! unat (c :: byte)) b)"
  using cp500_nth_less by (auto simp: list_all_iff intro: latin1_valid)

lemma Decode_Encode_runes:
  "DecodeEBCDIC (EncodeEBCDIC s) =
     runes_str (map (\<lambda>r. if r < 256 then r else 0x1A) (str_runes s))"
proof -
  have sub: "cp500ToUnicode ! 63 = 26"
    by (simp add: cp500ToUnicode_def)
  have "cp500ToUnicode ! unat (case unicodeToCP500 r of Some b \<Rightarrow> b | None \<Rightarrow> 0x3F)
      = (if r < 256 then r else 0x1A)" for r
  proof (cases "r < 256")
    case True
    then obtain i where "i < 256" "cp500ToUnicode ! i = r"
      using cp500_set by (metis atLeastLessThan_iff cp500_length in_set_conv_nth zero_le)
    then have "unicodeToCP500 r = Some (word_of_nat i)"
      using unicodeToCP500_nth [of "word_of_nat i"] by (simp add: unat_of_nat)
    then show ?thesis using True cp500_inverse by simp
  next
    case False
    then show ?thesis by (simp add: unicodeToCP500_None sub)
  qed
  then show ?thesis by (simp add: DecodeEBCDIC_def EncodeEBCDIC_def o_def)
qed

section \<open>Properties\<close>

text \<open>
  Encoding inverts decoding on every byte string, so a DDM string field received from
  the server is sent back unchanged.
\<close>

theorem EncodeEBCDIC_DecodeEBCDIC: "EncodeEBCDIC (DecodeEBCDIC b) = b"
  by (simp add: EncodeEBCDIC_def DecodeEBCDIC_def str_runes_str [OF cp500_runes_valid]
      unicodeToCP500_nth o_def)

text \<open>
  C35: decoding what was encoded keeps every rune of Latin-1 and turns every other rune into
  the substitute control character U+001A.
\<close>

theorem DecodeEBCDIC_EncodeEBCDIC:
  "DecodeEBCDIC (EncodeEBCDIC s) =
     runes_str (map (\<lambda>r. if r < 256 then r else 0x1A) (str_runes s))"
  by (rule Decode_Encode_runes)

lemma length_Pad [simp]: "length (PadEBCDIC s n) = n" "length (PadASCII s n) = n"
  by (auto simp: PadEBCDIC_def PadASCII_def Let_def)

lemma length_EncodeEBCDIC: "length (EncodeEBCDIC s) = length (str_runes s)"
  by (simp add: EncodeEBCDIC_def)

end
