(* ===== verification/Ddm_DSS.thy ===== *)
theory Ddm_DSS
  imports Ddm_EBCDIC
begin

text \<open>
  DSS framing (\<^verbatim>\<open>internal/ddm/dss.go\<close>).  \<open>ReadDSS\<close> takes one Data Stream Structure
  off the incoming stream, splicing its continuation segments; \<open>WriteRequest\<close> appends
  one to the pending transmission of a \<open>Writer\<close>, splitting objects that do not fit
  a single DSS.  The main results: whatever is written is read back exactly, for objects
  of any length and with the stream left right behind it; a whole chain of requests is
  read back request by request; \<open>UnchainLast\<close> clears the two chaining flags of the last
  DSS and nothing else.

  A length field is read as a \<open>nat\<close> below 65536, on which \<^verbatim>\<open>&0x8000 != 0\<close> is
  \<open>0x8000 \<le> n\<close> and \<^verbatim>\<open>&0x7FFF\<close> is \<open>n mod 0x8000\<close>.
\<close>

named_theorems dss_simps "reading back what the writer wrote"

section \<open>Constants and types\<close>

abbreviation dssMagic :: byte where "dssMagic \<equiv> 0xD0"
abbreviation DSSTypeRequest :: byte where "DSSTypeRequest \<equiv> 0x1"
abbreviation DSSTypeReply :: byte where "DSSTypeReply \<equiv> 0x2"
abbreviation DSSTypeObject :: byte where "DSSTypeObject \<equiv> 0x3"
abbreviation dssFlagChained :: byte where "dssFlagChained \<equiv> 0x40"
abbreviation dssFlagSameCorrelator :: byte where "dssFlagSameCorrelator \<equiv> 0x10"
abbreviation MaxDSSLength :: nat where "MaxDSSLength \<equiv> 32767"

record DSS =
  Type :: byte
  Chained :: bool
  SameCorrelator :: bool
  CorrelationID :: "16 word"
  CodePt :: CodePoint
  Payload :: bytes

text \<open>The errors of the package, one constructor per error return.\<close>

datatype ddm_error =
    ReadHeader io_error
  | BadMagic byte bytes
  | BadLength nat nat
  | ReadPayload io_error
  | BadObjectLength nat
  | ReadExtLength io_error
  | BadFirstSegment nat
  | ReadFirstSegment io_error
  | ReadContLength io_error
  | BadContLength nat
  | ReadCont io_error
  | TruncatedParameter nat
  | BadParameterLength nat CodePoint nat

section \<open>ReadDSS\<close>

function readSegments :: "bool \<Rightarrow> bytes \<Rightarrow> bytes \<Rightarrow> (ddm_error + bytes) \<times> bytes" where
  "readSegments cont payload s =
     (if \<not> cont then (Inr payload, s)
      else case readFull 2 s of
        (Inl e, s1) \<Rightarrow> (Inl (ReadContLength e), s1)
      | (Inr lb, s1) \<Rightarrow>
          let n = unat (BE_Uint16 lb); cont' = (0x8000 \<le> n); k = n mod 0x8000 in
          if k < 2 then (Inl (BadContLength k), s1)
          else case readFull (k - 2) s1 of
            (Inl e, s2) \<Rightarrow> (Inl (ReadCont e), s2)
          | (Inr seg, s2) \<Rightarrow> readSegments cont' (payload @ seg) s2)"
  by pat_completeness auto
termination
  by (relation "measure (\<lambda>(cont, payload, s). length s)")
     (auto dest!: readFull_ok_length')

declare readSegments.simps [simp del]

definition ReadDSS :: "bytes \<Rightarrow> (ddm_error + DSS) \<times> bytes" where
  "ReadDSS r =
     (case readFull 10 r of
        (Inl e, s) \<Rightarrow> (Inl (ReadHeader e), s)
      | (Inr hdr, s) \<Rightarrow>
          if hdr ! 2 \<noteq> dssMagic then (Inl (BadMagic (hdr ! 2) hdr), s)
          else
            let dssLen = unat (BE_Uint16 hdr);
                format = hdr ! 3;
                d = \<lparr>Type = format AND 0x0F,
                     Chained = (format AND dssFlagChained \<noteq> 0),
                     SameCorrelator = (format AND dssFlagSameCorrelator \<noteq> 0),
                     CorrelationID = BE_Uint16 (drop 4 hdr),
                     CodePt = BE_Uint16 (drop 8 hdr), Payload = []\<rparr>;
                objLen = unat (BE_Uint16 (drop 6 hdr));
                continued = (0x8000 \<le> dssLen \<or> 0x8000 \<le> objLen)
            in
            if \<not> continued then
              (if objLen < 4 \<or> int objLen \<noteq> int dssLen - 6
               then (Inl (BadLength dssLen objLen), s)
               else case readFull (objLen - 4) s of
                 (Inl e, s1) \<Rightarrow> (Inl (ReadPayload e), s1)
               | (Inr p, s1) \<Rightarrow> (Inr (d\<lparr>Payload := p\<rparr>), s1))
            else
              let extLen = (if objLen < 0x8000 then 0 else int objLen - 0x8004) in
              if extLen < 0 \<or> 8 < extLen then (Inl (BadObjectLength objLen), s)
              else case readFull (nat extLen) s of
                (Inl e, s1) \<Rightarrow> (Inl (ReadExtLength e), s1)
              | (Inr eb, s1) \<Rightarrow>
                  let segLen = dssLen mod 0x8000; cont = (0x8000 \<le> dssLen);
                      first = int segLen - 10 - extLen in
                  if first < 0 then (Inl (BadFirstSegment segLen), s1)
                  else case readFull (nat first) s1 of
                    (Inl e, s2) \<Rightarrow> (Inl (ReadFirstSegment e), s2)
                  | (Inr buf, s2) \<Rightarrow>
                      (case readSegments cont buf s2 of
                         (Inl e, s3) \<Rightarrow> (Inl e, s3)
                       | (Inr payload, s3) \<Rightarrow> (Inr (d\<lparr>Payload := payload\<rparr>), s3)))"

section \<open>Objects\<close>

definition NewObject :: "CodePoint \<Rightarrow> bytes \<Rightarrow> bytes" where
  "NewObject cp body = BE_Put16 (word_of_nat (4 + length body)) @ BE_Put16 cp @ body"

definition Object_CodePoint :: "bytes \<Rightarrow> CodePoint" where
  "Object_CodePoint ob = BE_Uint16 (drop 2 ob)"

definition Object_Body :: "bytes \<Rightarrow> bytes" where
  "Object_Body ob = drop 4 ob"

section \<open>Writer\<close>

record Writer =
  buf :: bytes
  lastHdr :: int

definition NewWriter :: Writer where
  "NewWriter = \<lparr>buf = [], lastHdr = -1\<rparr>"

fun writeSegments :: "bytes \<Rightarrow> bytes" where
  "writeSegments rest =
     (if rest = [] then []
      else
        let n = (if MaxDSSLength - 2 < length rest then MaxDSSLength - 2 else length rest);
            l = (word_of_nat (n + 2) :: 16 word);
            l' = (if n < length rest then l OR 0x8000 else l)
        in BE_Put16 l' @ take n rest @ writeSegments (drop n rest))"

declare writeSegments.simps [simp del]

definition dssType :: "CodePoint \<Rightarrow> byte" where
  "dssType cp = (if cp \<in> {SQLSTT, SQLATTR, SQLDTA, EXTDTA} then DSSTypeObject else DSSTypeRequest)"

definition dssFormat :: "CodePoint \<Rightarrow> bool \<Rightarrow> bool \<Rightarrow> byte" where
  "dssFormat cp sameCorrelatorNext isLast =
     (let f0 = dssType cp;
          f1 = (if isLast then f0 else f0 OR dssFlagChained)
      in if sameCorrelatorNext then f1 OR dssFlagSameCorrelator else f1)"

definition WriteRequest :: "bytes \<Rightarrow> 16 word \<Rightarrow> bool \<Rightarrow> bool \<Rightarrow> Writer \<Rightarrow> Writer" where
  "WriteRequest ob correlationID sameCorrelatorNext isLast wr =
     (let format = dssFormat (Object_CodePoint ob) sameCorrelatorNext isLast;
          wr1 = wr\<lparr>lastHdr := int (length (buf wr))\<rparr>;
          total = length ob + 6
      in
      if total \<le> MaxDSSLength then
        wr1\<lparr>buf := buf wr @ BE_Put16 (word_of_nat total) @ [dssMagic, format]
                    @ BE_Put16 correlationID @ ob\<rparr>
      else
        let body = Object_Body ob;
            extLen = 4;
            firstData = (let f = MaxDSSLength - 6 - 4 - extLen in
                         if length body < f then length body else f);
            segLen = (word_of_nat (6 + 4 + extLen + firstData) :: 16 word);
            rest = drop firstData body;
            segLen' = (if 0 < length rest then segLen OR 0x8000 else segLen)
        in
        wr1\<lparr>buf := buf wr @ BE_Put16 segLen' @ [dssMagic, format] @ BE_Put16 correlationID
               @ BE_Put16 (0x8004 + word_of_nat extLen) @ BE_Put16 (Object_CodePoint ob)
               @ BE_Put32 (word_of_nat (length body))
               @ take firstData body @ writeSegments rest\<rparr>)"

text \<open>
  \<open>Flush\<close> hands the buffer to the underlying writer in one \<^verbatim>\<open>Write\<close>, whose result
  \<open>werr\<close> comes from the network; the buffer is dropped either way.
\<close>

definition Flush :: "io_error option \<Rightarrow> Writer \<Rightarrow> io_error option \<times> bytes \<times> Writer" where
  "Flush werr wr =
     (if buf wr = [] then (None, [], wr)
      else (werr, buf wr, wr\<lparr>buf := [], lastHdr := -1\<rparr>))"

definition Pending :: "Writer \<Rightarrow> nat" where
  "Pending wr = length (buf wr)"

definition UnchainLast :: "Writer \<Rightarrow> Writer" where
  "UnchainLast wr =
     (if 0 \<le> lastHdr wr \<and> lastHdr wr + 3 < int (length (buf wr))
      then let i = nat (lastHdr wr + 3) in
           wr\<lparr>buf := (buf wr)[i := (buf wr ! i) AND NOT (dssFlagChained OR dssFlagSameCorrelator)]\<rparr>
      else wr)"

definition Reset :: "Writer \<Rightarrow> Writer" where
  "Reset wr = wr\<lparr>buf := [], lastHdr := -1\<rparr>"


section \<open>Reading back one request\<close>

text \<open>What one request puts on the wire, and the DSS the peer decodes from it.\<close>

definition request_wire :: "bytes \<Rightarrow> 16 word \<Rightarrow> bool \<Rightarrow> bool \<Rightarrow> bytes" where
  "request_wire ob corr same isLast = buf (WriteRequest ob corr same isLast NewWriter)"

definition request_dss :: "CodePoint \<Rightarrow> bytes \<Rightarrow> 16 word \<Rightarrow> bool \<Rightarrow> bool \<Rightarrow> DSS" where
  "request_dss cp body corr same isLast =
     \<lparr>Type = dssType cp, Chained = (\<not> isLast), SameCorrelator = same, CorrelationID = corr,
      CodePt = cp, Payload = body\<rparr>"

lemma buf_WriteRequest:
  "buf (WriteRequest ob corr same isLast wr) = buf wr @ request_wire ob corr same isLast"
  by (simp add: request_wire_def WriteRequest_def NewWriter_def Let_def)

text \<open>The ten header bytes as one opaque block with its projections.\<close>

definition dss_header :: "16 word \<Rightarrow> byte \<Rightarrow> 16 word \<Rightarrow> 16 word \<Rightarrow> CodePoint \<Rightarrow> bytes" where
  "dss_header len format corr objLen cp =
     BE_Put16 len @ [dssMagic, format] @ BE_Put16 corr @ BE_Put16 objLen @ BE_Put16 cp"

lemma dss_header_fields [simp]:
  "length (dss_header l f c ol cp) = 10"
  "BE_Uint16 (dss_header l f c ol cp) = l"
  "dss_header l f c ol cp ! 2 = dssMagic"
  "dss_header l f c ol cp ! 3 = f"
  "BE_Uint16 (drop 4 (dss_header l f c ol cp)) = c"
  "BE_Uint16 (drop 6 (dss_header l f c ol cp)) = ol"
  "BE_Uint16 (drop 8 (dss_header l f c ol cp)) = cp"
  by (simp_all add: dss_header_def nth_append)

lemma readFull_dss_header [dss_simps]:
  "readFull 10 (dss_header l f c ol cp @ s) = (Inr (dss_header l f c ol cp), s)"
  by (rule readFull_prefix) simp

lemma dssFormat_fields:
  "dssFormat cp same isLast AND 0x0F = dssType cp"
  "(dssFormat cp same isLast AND dssFlagChained = 0) = isLast"
  "(dssFormat cp same isLast AND dssFlagSameCorrelator = 0) = (\<not> same)"
  by (auto simp: dssFormat_def dssType_def Let_def)

lemma NewObject_facts [simp]:
  "Object_CodePoint (NewObject cp body) = cp" "Object_Body (NewObject cp body) = body"
  "length (NewObject cp body) = 4 + length body"
  by (simp_all add: Object_CodePoint_def Object_Body_def NewObject_def)

lemma readSegments_done [simp]: "readSegments False p s = (Inr p, s)"
  by (simp add: readSegments.simps)

lemma readSegments_writeSegments [dss_simps]:
  "rest \<noteq> [] \<Longrightarrow> readSegments True p (writeSegments rest @ s) = (Inr (p @ rest), s)"
proof (induction rest arbitrary: p rule: writeSegments.induct)
  case (1 rest)
  define n where "n = (if MaxDSSLength - 2 < length rest then MaxDSSLength - 2 else length rest)"
  have n: "n \<le> 32765" "n \<le> length rest" by (auto simp: n_def)
  define l where "l = (if n < length rest then word_of_nat (n + 2) OR 0x8000 else word_of_nat (n + 2) :: 16 word)"
  have "unat (word_of_nat (n + 2) :: 16 word) = n + 2"
    "unat (word_of_nat (n + 2) OR 0x8000 :: 16 word) = n + 2 + 0x8000"
    using n by (intro unat_of_nat16 unat_or_0x8000; simp)+
  then have len: "unat l = (if n < length rest then n + 2 + 0x8000 else n + 2)"
    unfolding l_def by (cases "n < length rest") (simp_all only: if_True if_False)
  have w: "writeSegments rest = BE_Put16 l @ take n rest @ writeSegments (drop n rest)"
    using "1.prems" by (subst writeSegments.simps) (simp add: Let_def n_def l_def)
  have step: "readSegments True p (writeSegments rest @ s) =
      readSegments (n < length rest) (p @ take n rest) (writeSegments (drop n rest) @ s)"
  proof -
    have "(32770 + n) mod 32768 = n + 2"
      using n mod_add_self2 [of "n + 2" 32768] by simp
    then show ?thesis
      using n unfolding w append_assoc
      by (subst readSegments.simps) (simp add: readFull_prefix len Let_def)
  qed
  show ?case
  proof (cases "n < length rest")
    case True
    then have "readSegments True (p @ take n rest) (writeSegments (drop n rest) @ s)
        = (Inr ((p @ take n rest) @ drop n rest), s)"
      using "1.prems" by (intro "1.IH") (auto simp: n_def)
    then show ?thesis using step True by simp
  next
    case False
    then have "n = length rest" using n by simp
    then show ?thesis
      using step by (simp add: writeSegments.simps [of "[]"])
  qed
qed

text \<open>
  A request written to an empty transmission and read back from the wire gives the
  request's type, flags, correlation id, code point and complete body, whatever the
  length of the body (one DSS or any number of continuation segments), and leaves the
  stream exactly behind it.
\<close>

lemma ReadDSS_request_wire:
  "ReadDSS (request_wire (NewObject cp body) corr same isLast @ rest)
     = (Inr (request_dss cp body corr same isLast), rest)"
proof (cases "10 + length body \<le> MaxDSSLength")
  case True
  let ?len = "word_of_nat (10 + length body) :: 16 word"
  let ?olen = "word_of_nat (4 + length body) :: 16 word"
  have wire: "request_wire (NewObject cp body) corr same isLast
      = dss_header ?len (dssFormat cp same isLast) corr ?olen cp @ body"
    using True by (simp add: request_wire_def WriteRequest_def NewWriter_def NewObject_def
        Object_CodePoint_def dss_header_def Let_def)
  have lens: "unat ?len = 10 + length body" "unat ?olen = 4 + length body"
    using True by (simp_all add: unat_of_nat del: of_nat_add)
  show ?thesis
    using True unfolding ReadDSS_def wire append_assoc
    by (simp add: dss_simps lens Let_def readFull_prefix dssFormat_fields request_dss_def
        del: of_nat_add)
next
  case False
  let ?first = "take 32753 body"
  let ?rest = "drop 32753 body"
  have wire: "request_wire (NewObject cp body) corr same isLast
      = dss_header 0xFFFF (dssFormat cp same isLast) corr 0x8008 cp
        @ BE_Put32 (word_of_nat (length body)) @ ?first @ writeSegments ?rest"
    using False by (simp add: request_wire_def WriteRequest_def NewWriter_def dss_header_def Let_def)
  have segs: "readSegments True ?first (writeSegments ?rest @ rest) = (Inr body, rest)"
    using False readSegments_writeSegments [of ?rest ?first rest] by simp
  show ?thesis
    using False unfolding ReadDSS_def wire append_assoc
    by (simp add: dss_simps Let_def readFull_prefix dssFormat_fields request_dss_def segs)
qed

section \<open>Chains of requests\<close>

text \<open>A transmission: requests (code point, body, correlation id, same-correlator, last).\<close>

type_synonym request = "CodePoint \<times> bytes \<times> 16 word \<times> bool \<times> bool"

fun write_all :: "request list \<Rightarrow> Writer \<Rightarrow> Writer" where
  "write_all [] wr = wr"
| "write_all ((cp, body, corr, same, isLast) # rs) wr =
     write_all rs (WriteRequest (NewObject cp body) corr same isLast wr)"

fun read_n :: "nat \<Rightarrow> bytes \<Rightarrow> (ddm_error + DSS list) \<times> bytes" where
  "read_n 0 s = (Inr [], s)"
| "read_n (Suc n) s =
     (case ReadDSS s of
        (Inl e, s1) \<Rightarrow> (Inl e, s1)
      | (Inr d, s1) \<Rightarrow>
          (case read_n n s1 of (Inl e, s2) \<Rightarrow> (Inl e, s2) | (Inr ds, s2) \<Rightarrow> (Inr (d # ds), s2)))"

definition dss_of :: "request \<Rightarrow> DSS" where
  "dss_of r = (case r of (cp, body, corr, same, isLast) \<Rightarrow> request_dss cp body corr same isLast)"

lemma write_all_buf:
  "buf (write_all rs wr) = buf wr @
     concat (map (\<lambda>(cp, body, corr, same, isLast). request_wire (NewObject cp body) corr same isLast) rs)"
  by (induction rs wr rule: write_all.induct) (auto simp: buf_WriteRequest)

text \<open>
  C14: what a flushed transmission puts on the wire is read back request by request, in
  order, with nothing left over from the transmission.
\<close>

theorem read_n_transmission:
  "read_n (length rs) (fst (snd (Flush werr (write_all rs NewWriter))) @ rest)
     = (Inr (map dss_of rs), rest)"
proof -
  let ?wire = "\<lambda>(cp, body, corr, same, isLast). request_wire (NewObject cp body) corr same isLast"
  have "fst (snd (Flush werr (write_all rs NewWriter))) = concat (map ?wire rs)"
    using write_all_buf [of rs NewWriter] by (simp add: Flush_def NewWriter_def)
  moreover have "read_n (length rs) (concat (map ?wire rs) @ rest) = (Inr (map dss_of rs), rest)"
    by (induction rs) (auto simp: ReadDSS_request_wire dss_of_def)
  ultimately show ?thesis by simp
qed

section \<open>UnchainLast\<close>

lemma request_wire_format:
  fixes ob :: bytes
  shows request_wire_length: "10 \<le> length ob + 6 \<Longrightarrow> 10 \<le> length (request_wire ob corr same isLast)"
  and request_wire_nth_3:
    "request_wire ob corr same isLast ! 3 = dssFormat (Object_CodePoint ob) same isLast"
  and request_wire_flags:
    "(request_wire ob corr same isLast)[3 := dssFormat (Object_CodePoint ob) same' isLast']
       = request_wire ob corr same' isLast'"
  by (simp_all add: request_wire_def WriteRequest_def NewWriter_def Let_def nth_append
      list_update_append)

lemma dssFormat_unchain:
  "dssFormat cp same isLast AND NOT (dssFlagChained OR dssFlagSameCorrelator) = dssFormat cp False True"
  by (auto simp: dssFormat_def dssType_def Let_def)

lemma UnchainLast_request:
  "UnchainLast (WriteRequest (NewObject cp body) corr same isLast wr)
     = WriteRequest (NewObject cp body) corr False True wr"
proof -
  let ?ob = "NewObject cp body"
  let ?wire = "request_wire ?ob corr"
  let ?wr = "WriteRequest ?ob corr same isLast wr"
  have hdr: "lastHdr (WriteRequest ?ob corr s l wr) = int (length (buf wr))" for s l
    by (simp add: WriteRequest_def Let_def)
  have len: "3 < length (?wire same isLast)"
    using request_wire_length [of ?ob corr same isLast] by simp
  have "(buf ?wr)[length (buf wr) + 3 := (buf ?wr ! (length (buf wr) + 3))
          AND NOT (dssFlagChained OR dssFlagSameCorrelator)] = buf wr @ ?wire False True"
    by (simp add: buf_WriteRequest nth_append list_update_append request_wire_nth_3
        dssFormat_unchain [simplified] request_wire_flags [where ob = ?ob, simplified])
  then show ?thesis
    using len by (simp add: UnchainLast_def hdr buf_WriteRequest nat_add_distrib)
qed

text \<open>
  After \<open>UnchainLast\<close> the transmission is exactly what it would have been had the
  last request been written as the last of its chain and without the same-correlator
  flag; everything before it is untouched.
\<close>

theorem UnchainLast_WriteRequest:
  "UnchainLast (WriteRequest (NewObject cp body) corr same isLast wr)
     = WriteRequest (NewObject cp body) corr False True wr"
  by (rule UnchainLast_request)

section \<open>Progress\<close>

lemma readSegments_rest: "readSegments cont p s = (r, s') \<Longrightarrow> length s' \<le> length s"
proof (induction cont p s rule: readSegments.induct)
  case (1 cont p s)
  show ?case
    using "1.prems" "1.IH"
    by (subst (asm) readSegments.simps)
       (fastforce simp: Let_def split: if_splits prod.splits sum.splits
         dest: readFull_rest_le)
qed

lemma ReadDSS_consumes:
  assumes "ReadDSS s = (Inr d, s')"
  shows "length s' + 10 \<le> length s"
proof -
  obtain hdr s1 where h: "readFull 10 s = (Inr hdr, s1)"
    using assms by (cases "readFull 10 s"; cases "fst (readFull 10 s)") (auto simp: ReadDSS_def)
  have "length s' \<le> length s1"
    using assms unfolding ReadDSS_def h
    by (auto simp: Let_def split: prod.splits sum.splits if_splits
        dest!: readFull_rest_le readSegments_rest)
  then show ?thesis using readFull_ok_length [OF h] by simp
qed

end
