(* ===== verification/Ddm_Params.thy ===== *)
theory Ddm_Params
  imports Ddm_DSS
begin

text \<open>
  Parameter objects (\<^verbatim>\<open>internal/ddm/params.go\<close>): the builders of
  (length, code point, value) triplets, \<open>ParseParams\<close>, and the typed getters.
  \<open>ParseParams\<close> accepts exactly the concatenations of well-formed triplets and returns
  them all, in order; with a repeated code point the map keeps the last value.
\<close>

section \<open>Builders\<close>

definition Bytes :: "CodePoint \<Rightarrow> bytes \<Rightarrow> bytes" where
  "Bytes cp v = BE_Put16 (word_of_nat (4 + length v)) @ BE_Put16 cp @ v"

definition Uint16 :: "CodePoint \<Rightarrow> 16 word \<Rightarrow> bytes" where
  "Uint16 cp v = Bytes cp (BE_Put16 v)"

definition Uint32 :: "CodePoint \<Rightarrow> 32 word \<Rightarrow> bytes" where
  "Uint32 cp v = Bytes cp (BE_Put32 v)"

definition Uint64 :: "CodePoint \<Rightarrow> 64 word \<Rightarrow> bytes" where
  "Uint64 cp v = Bytes cp (BE_Put64 v)"

definition Byte :: "CodePoint \<Rightarrow> byte \<Rightarrow> bytes" where
  "Byte cp v = Bytes cp [v]"

definition EBCDIC :: "CodePoint \<Rightarrow> string \<Rightarrow> bytes" where
  "EBCDIC cp s = Bytes cp (EncodeEBCDIC s)"

section \<open>Parsing\<close>

type_synonym Param = "CodePoint \<times> bytes"

record Params =
  pMap :: "CodePoint \<Rightarrow> bytes option"
  pAll :: "Param list"

function parseLoop :: "Params \<Rightarrow> bytes \<Rightarrow> ddm_error + Params" where
  "parseLoop p body =
     (if body = [] then Inr p
      else if length body < 4 then Inl (TruncatedParameter (length body))
      else
        let ln = unat (BE_Uint16 body); cp = BE_Uint16 (drop 2 body) in
        if ln < 4 \<or> length body < ln then Inl (BadParameterLength ln cp (length body))
        else
          let v = drop 4 (take ln body) in
          parseLoop (p\<lparr>pMap := (pMap p)(cp \<mapsto> v), pAll := pAll p @ [(cp, v)]\<rparr>) (drop ln body))"
  by pat_completeness auto
termination
  by (relation "measure (\<lambda>(p, body). length body)") auto

declare parseLoop.simps [simp del]

definition ParseParams :: "bytes \<Rightarrow> ddm_error + Params" where
  "ParseParams body = parseLoop \<lparr>pMap = Map.empty, pAll = []\<rparr> body"

section \<open>Getters\<close>

text \<open>The second result of the Go getters, \<^verbatim>\<open>ok\<close>, is \<open>Some\<close>; \<^verbatim>\<open>(0, false)\<close> is \<open>None\<close>.\<close>

definition Params_Uint16 :: "Params \<Rightarrow> CodePoint \<Rightarrow> 16 word option" where
  "Params_Uint16 p cp =
     (case pMap p cp of None \<Rightarrow> None
      | Some v \<Rightarrow> if length v < 2 then None else Some (BE_Uint16 v))"

definition Params_Uint64 :: "Params \<Rightarrow> CodePoint \<Rightarrow> 64 word option" where
  "Params_Uint64 p cp =
     (case pMap p cp of None \<Rightarrow> None
      | Some v \<Rightarrow> if length v < 8 then None else Some (BE_Uint64 v))"

definition Params_EBCDICString :: "Params \<Rightarrow> CodePoint \<Rightarrow> string option" where
  "Params_EBCDICString p cp = map_option DecodeEBCDIC (pMap p cp)"

section \<open>Lemmas\<close>

definition param_ok :: "Param \<Rightarrow> bool" where
  "param_ok q \<longleftrightarrow> length (snd q) \<le> 65531"

definition params_wire :: "Param list \<Rightarrow> bytes" where
  "params_wire ps = concat (map (\<lambda>(cp, v). Bytes cp v) ps)"

definition add_params :: "Params \<Rightarrow> Param list \<Rightarrow> Params" where
  "add_params p ps = \<lparr>pMap = pMap p ++ map_of (rev ps), pAll = pAll p @ ps\<rparr>"

lemma Bytes_facts:
  assumes "length v \<le> 65531"
  shows "length (Bytes cp v) = 4 + length v" "unat (BE_Uint16 (Bytes cp v @ s)) = 4 + length v"
    "BE_Uint16 (drop 2 (Bytes cp v) @ s) = cp" "drop 4 (Bytes cp v) = v" "Bytes cp v \<noteq> []"
  using assms unat_of_nat16 [of "4 + length v"]
  by (simp_all add: Bytes_def del: of_nat_add)

lemma add_params_Nil [simp]: "add_params p [] = p"
  by (simp add: add_params_def)

lemma add_params_Cons:
  "add_params (p\<lparr>pMap := (pMap p)(cp \<mapsto> v), pAll := pAll p @ [(cp, v)]\<rparr>) ps
     = add_params p ((cp, v) # ps)"
  by (simp add: add_params_def map_add_def fun_eq_iff split: option.split)

lemma parseLoop_wire:
  "list_all param_ok ps \<Longrightarrow> parseLoop p (params_wire ps) = Inr (add_params p ps)"
proof (induction ps arbitrary: p)
  case Nil
  show ?case by (simp add: params_wire_def parseLoop.simps)
next
  case (Cons q ps)
  obtain cp v where q: "q = (cp, v)" by fastforce
  then have v: "length v \<le> 65531" using Cons.prems by (simp add: param_ok_def)
  have wire: "params_wire (q # ps) = Bytes cp v @ params_wire ps"
    by (simp add: params_wire_def q)
  have "parseLoop p (params_wire (q # ps)) =
      parseLoop (p\<lparr>pMap := (pMap p)(cp \<mapsto> v), pAll := pAll p @ [(cp, v)]\<rparr>) (params_wire ps)"
    unfolding wire
    by (subst parseLoop.simps) (auto simp: Bytes_facts [OF v] Let_def)
  then show ?case using Cons by (simp add: add_params_Cons q)
qed

lemma parseLoop_sound:
  "parseLoop p body = Inr p' \<Longrightarrow>
     \<exists>ps. list_all param_ok ps \<and> body = params_wire ps \<and> p' = add_params p ps"
proof (induction p body rule: parseLoop.induct)
  case (1 p body)
  define ln where "ln = unat (BE_Uint16 body)"
  define cp where "cp = BE_Uint16 (drop 2 body)"
  define v where "v = drop 4 (take ln body)"
  show ?case
  proof (cases "body = []")
    case True
    then show ?thesis
      using "1.prems" by (intro exI [of _ "[]"]) (simp add: params_wire_def parseLoop.simps)
  next
    case False
    then have ok: "4 \<le> length body" "4 \<le> ln" "ln \<le> length body"
      and rec: "parseLoop (p\<lparr>pMap := (pMap p)(cp \<mapsto> v), pAll := pAll p @ [(cp, v)]\<rparr>)
        (drop ln body) = Inr p'"
      using "1.prems" parseLoop.simps [of p body]
      by (auto simp: Let_def ln_def cp_def v_def split: if_splits)
    then obtain ps where ps: "list_all param_ok ps" "drop ln body = params_wire ps"
        "p' = add_params (p\<lparr>pMap := (pMap p)(cp \<mapsto> v), pAll := pAll p @ [(cp, v)]\<rparr>) ps"
      using "1.IH" [OF False _ ln_def cp_def _ v_def] by auto
    have ln: "ln < 65536" using unat_lt2p [of "BE_Uint16 body"] by (simp add: ln_def)
    have "drop 4 body = v @ drop ln body"
      using ok append_take_drop_id [of "ln - 4" "drop 4 body"] by (simp add: v_def drop_take)
    then have "body = take 2 body @ take 2 (drop 2 body) @ v @ drop ln body"
      using append_take_drop_id [of 2 body] append_take_drop_id [of 2 "drop 2 body"] by simp
    moreover have "take 2 body = BE_Put16 (word_of_nat (4 + length v))"
      using ok BE_Put16_Uint16 [of "take 2 body"] by (simp add: v_def ln_def BE_Uint16_def)
    moreover have "take 2 (drop 2 body) = BE_Put16 cp"
      using ok BE_Put16_Uint16 [of "take 2 (drop 2 body)"] by (simp add: cp_def BE_Uint16_def)
    ultimately have "body = params_wire ((cp, v) # ps)"
      using ps(2) by (simp add: params_wire_def Bytes_def)
    moreover have "param_ok (cp, v)" using ok ln by (simp add: param_ok_def v_def)
    ultimately show ?thesis
      using ps by (intro exI [of _ "(cp, v) # ps"]) (simp add: add_params_Cons)
  qed
qed

section \<open>Properties\<close>

text \<open>
  \<open>ParseParams\<close> succeeds exactly on concatenations of triplets whose values fit the
  two-byte length, returns all of them in order, and maps every code point to its last
  value.
\<close>

theorem ParseParams_iff:
  "ParseParams body = Inr p \<longleftrightarrow>
     list_all param_ok (pAll p) \<and> body = params_wire (pAll p) \<and> pMap p = map_of (rev (pAll p))"
proof
  assume "ParseParams body = Inr p"
  then obtain ps where "list_all param_ok ps" "body = params_wire ps"
      "p = add_params \<lparr>pMap = Map.empty, pAll = []\<rparr> ps"
    unfolding ParseParams_def using parseLoop_sound by blast
  then show "list_all param_ok (pAll p) \<and> body = params_wire (pAll p) \<and> pMap p = map_of (rev (pAll p))"
    by (simp add: add_params_def)
next
  assume "list_all param_ok (pAll p) \<and> body = params_wire (pAll p) \<and> pMap p = map_of (rev (pAll p))"
  then show "ParseParams body = Inr p"
    unfolding ParseParams_def by (simp add: parseLoop_wire add_params_def)
qed

end
