(* ===== verification/Drda_Types.thy ===== *)
theory Drda_Types
  imports Ddm_Params
begin

text \<open>
  The two type systems of the protocol (\<^verbatim>\<open>internal/drda/types.go\<close>): the one-byte
  FD:OCA types of QRYDSC and FDODSC triplets, and the two-byte SQLTYPE codes of SQLDA
  descriptors.  In both an odd code is the nullable variant of the even code before it.
\<close>

section \<open>Type codes\<close>

abbreviation TypeInteger :: "byte" where "TypeInteger \<equiv> 0x02"
abbreviation TypeNInteger :: "byte" where "TypeNInteger \<equiv> 0x03"
abbreviation TypeSmall :: "byte" where "TypeSmall \<equiv> 0x04"
abbreviation TypeNSmall :: "byte" where "TypeNSmall \<equiv> 0x05"
abbreviation Type1ByteInt :: "byte" where "Type1ByteInt \<equiv> 0x06"
abbreviation TypeN1ByteInt :: "byte" where "TypeN1ByteInt \<equiv> 0x07"
abbreviation TypeFloat16 :: "byte" where "TypeFloat16 \<equiv> 0x08"
abbreviation TypeNFloat16 :: "byte" where "TypeNFloat16 \<equiv> 0x09"
abbreviation TypeFloat8 :: "byte" where "TypeFloat8 \<equiv> 0x0A"
abbreviation TypeNFloat8 :: "byte" where "TypeNFloat8 \<equiv> 0x0B"
abbreviation TypeFloat4 :: "byte" where "TypeFloat4 \<equiv> 0x0C"
abbreviation TypeNFloat4 :: "byte" where "TypeNFloat4 \<equiv> 0x0D"
abbreviation TypeDecimal :: "byte" where "TypeDecimal \<equiv> 0x0E"
abbreviation TypeNDecimal :: "byte" where "TypeNDecimal \<equiv> 0x0F"
abbreviation TypeZDecimal :: "byte" where "TypeZDecimal \<equiv> 0x10"
abbreviation TypeNZDecimal :: "byte" where "TypeNZDecimal \<equiv> 0x11"
abbreviation TypeNumericChar :: "byte" where "TypeNumericChar \<equiv> 0x12"
abbreviation TypeNNumericChar :: "byte" where "TypeNNumericChar \<equiv> 0x13"
abbreviation TypeRsetLoc :: "byte" where "TypeRsetLoc \<equiv> 0x14"
abbreviation TypeNRsetLoc :: "byte" where "TypeNRsetLoc \<equiv> 0x15"
abbreviation TypeInteger8 :: "byte" where "TypeInteger8 \<equiv> 0x16"
abbreviation TypeNInteger8 :: "byte" where "TypeNInteger8 \<equiv> 0x17"
abbreviation TypeLobLoc :: "byte" where "TypeLobLoc \<equiv> 0x18"
abbreviation TypeNLobLoc :: "byte" where "TypeNLobLoc \<equiv> 0x19"
abbreviation TypeClobLoc :: "byte" where "TypeClobLoc \<equiv> 0x1A"
abbreviation TypeNClobLoc :: "byte" where "TypeNClobLoc \<equiv> 0x1B"
abbreviation TypeDbcsClobLoc :: "byte" where "TypeDbcsClobLoc \<equiv> 0x1C"
abbreviation TypeNDbcsClobLoc :: "byte" where "TypeNDbcsClobLoc \<equiv> 0x1D"
abbreviation TypeRowID :: "byte" where "TypeRowID \<equiv> 0x1E"
abbreviation TypeNRowID :: "byte" where "TypeNRowID \<equiv> 0x1F"
abbreviation TypeDate :: "byte" where "TypeDate \<equiv> 0x20"
abbreviation TypeNDate :: "byte" where "TypeNDate \<equiv> 0x21"
abbreviation TypeTime :: "byte" where "TypeTime \<equiv> 0x22"
abbreviation TypeNTime :: "byte" where "TypeNTime \<equiv> 0x23"
abbreviation TypeTimestamp :: "byte" where "TypeTimestamp \<equiv> 0x24"
abbreviation TypeNTimestamp :: "byte" where "TypeNTimestamp \<equiv> 0x25"
abbreviation TypeFixByte :: "byte" where "TypeFixByte \<equiv> 0x26"
abbreviation TypeNFixByte :: "byte" where "TypeNFixByte \<equiv> 0x27"
abbreviation TypeVarByte :: "byte" where "TypeVarByte \<equiv> 0x28"
abbreviation TypeNVarByte :: "byte" where "TypeNVarByte \<equiv> 0x29"
abbreviation TypeLongVarByte :: "byte" where "TypeLongVarByte \<equiv> 0x2A"
abbreviation TypeNLongVarByte :: "byte" where "TypeNLongVarByte \<equiv> 0x2B"
abbreviation TypeNTermByte :: "byte" where "TypeNTermByte \<equiv> 0x2C"
abbreviation TypeNNTermByte :: "byte" where "TypeNNTermByte \<equiv> 0x2D"
abbreviation TypeCStr :: "byte" where "TypeCStr \<equiv> 0x2E"
abbreviation TypeNCStr :: "byte" where "TypeNCStr \<equiv> 0x2F"
abbreviation TypeChar :: "byte" where "TypeChar \<equiv> 0x30"
abbreviation TypeNChar :: "byte" where "TypeNChar \<equiv> 0x31"
abbreviation TypeVarChar :: "byte" where "TypeVarChar \<equiv> 0x32"
abbreviation TypeNVarChar :: "byte" where "TypeNVarChar \<equiv> 0x33"
abbreviation TypeLong :: "byte" where "TypeLong \<equiv> 0x34"
abbreviation TypeNLong :: "byte" where "TypeNLong \<equiv> 0x35"
abbreviation TypeGraphic :: "byte" where "TypeGraphic \<equiv> 0x36"
abbreviation TypeNGraphic :: "byte" where "TypeNGraphic \<equiv> 0x37"
abbreviation TypeVarGraph :: "byte" where "TypeVarGraph \<equiv> 0x38"
abbreviation TypeNVarGraph :: "byte" where "TypeNVarGraph \<equiv> 0x39"
abbreviation TypeLongGraph :: "byte" where "TypeLongGraph \<equiv> 0x3A"
abbreviation TypeNLongGraph :: "byte" where "TypeNLongGraph \<equiv> 0x3B"
abbreviation TypeMix :: "byte" where "TypeMix \<equiv> 0x3C"
abbreviation TypeNMix :: "byte" where "TypeNMix \<equiv> 0x3D"
abbreviation TypeVarMix :: "byte" where "TypeVarMix \<equiv> 0x3E"
abbreviation TypeNVarMix :: "byte" where "TypeNVarMix \<equiv> 0x3F"
abbreviation TypeLongMix :: "byte" where "TypeLongMix \<equiv> 0x40"
abbreviation TypeNLongMix :: "byte" where "TypeNLongMix \<equiv> 0x41"
abbreviation TypeCStrMix :: "byte" where "TypeCStrMix \<equiv> 0x42"
abbreviation TypeNCStrMix :: "byte" where "TypeNCStrMix \<equiv> 0x43"
abbreviation TypePsclByte :: "byte" where "TypePsclByte \<equiv> 0x44"
abbreviation TypeNPsclByte :: "byte" where "TypeNPsclByte \<equiv> 0x45"
abbreviation TypeLStr :: "byte" where "TypeLStr \<equiv> 0x46"
abbreviation TypeNLStr :: "byte" where "TypeNLStr \<equiv> 0x47"
abbreviation TypeLStrMix :: "byte" where "TypeLStrMix \<equiv> 0x48"
abbreviation TypeNLStrMix :: "byte" where "TypeNLStrMix \<equiv> 0x49"
abbreviation TypeSDatalink :: "byte" where "TypeSDatalink \<equiv> 0x4C"
abbreviation TypeNSDatalink :: "byte" where "TypeNSDatalink \<equiv> 0x4D"
abbreviation TypeMDatalink :: "byte" where "TypeMDatalink \<equiv> 0x4E"
abbreviation TypeNMDatalink :: "byte" where "TypeNMDatalink \<equiv> 0x4F"
abbreviation TypeDecFloat :: "byte" where "TypeDecFloat \<equiv> 0xBA"
abbreviation TypeNDecFloat :: "byte" where "TypeNDecFloat \<equiv> 0xBB"
abbreviation TypeBoolean :: "byte" where "TypeBoolean \<equiv> 0xBE"
abbreviation TypeNBoolean :: "byte" where "TypeNBoolean \<equiv> 0xBF"
abbreviation TypeFixBytes :: "byte" where "TypeFixBytes \<equiv> 0xC0"
abbreviation TypeNFixBytes :: "byte" where "TypeNFixBytes \<equiv> 0xC1"
abbreviation TypeVarBinary :: "byte" where "TypeVarBinary \<equiv> 0xC2"
abbreviation TypeNVarBinary :: "byte" where "TypeNVarBinary \<equiv> 0xC3"
abbreviation TypeLobBytes :: "byte" where "TypeLobBytes \<equiv> 0xC8"
abbreviation TypeNLobBytes :: "byte" where "TypeNLobBytes \<equiv> 0xC9"
abbreviation TypeLobCSBCS :: "byte" where "TypeLobCSBCS \<equiv> 0xCE"
abbreviation TypeNLobCSBCS :: "byte" where "TypeNLobCSBCS \<equiv> 0xCF"
abbreviation TypeLobCMixed :: "byte" where "TypeLobCMixed \<equiv> 0xCE"
abbreviation TypeNLobCMixed :: "byte" where "TypeNLobCMixed \<equiv> 0xCF"
abbreviation SQLTypeDate :: "16 word" where "SQLTypeDate \<equiv> 384"
abbreviation SQLTypeTime :: "16 word" where "SQLTypeTime \<equiv> 388"
abbreviation SQLTypeTimestamp :: "16 word" where "SQLTypeTimestamp \<equiv> 392"
abbreviation SQLTypeDatalink :: "16 word" where "SQLTypeDatalink \<equiv> 396"
abbreviation SQLTypeBlob :: "16 word" where "SQLTypeBlob \<equiv> 404"
abbreviation SQLTypeClob :: "16 word" where "SQLTypeClob \<equiv> 408"
abbreviation SQLTypeDBClob :: "16 word" where "SQLTypeDBClob \<equiv> 412"
abbreviation SQLTypeVarchar :: "16 word" where "SQLTypeVarchar \<equiv> 448"
abbreviation SQLTypeChar :: "16 word" where "SQLTypeChar \<equiv> 452"
abbreviation SQLTypeLongVarchar :: "16 word" where "SQLTypeLongVarchar \<equiv> 456"
abbreviation SQLTypeCStr :: "16 word" where "SQLTypeCStr \<equiv> 460"
abbreviation SQLTypeVargraphic :: "16 word" where "SQLTypeVargraphic \<equiv> 464"
abbreviation SQLTypeGraphic :: "16 word" where "SQLTypeGraphic \<equiv> 468"
abbreviation SQLTypeLongVargraph :: "16 word" where "SQLTypeLongVargraph \<equiv> 472"
abbreviation SQLTypeLStr :: "16 word" where "SQLTypeLStr \<equiv> 476"
abbreviation SQLTypeFloat :: "16 word" where "SQLTypeFloat \<equiv> 480"
abbreviation SQLTypeDecimal :: "16 word" where "SQLTypeDecimal \<equiv> 484"
abbreviation SQLTypeZoned :: "16 word" where "SQLTypeZoned \<equiv> 488"
abbreviation SQLTypeBigint :: "16 word" where "SQLTypeBigint \<equiv> 492"
abbreviation SQLTypeInteger :: "16 word" where "SQLTypeInteger \<equiv> 496"
abbreviation SQLTypeSmallint :: "16 word" where "SQLTypeSmallint \<equiv> 500"
abbreviation SQLTypeNumeric :: "16 word" where "SQLTypeNumeric \<equiv> 504"
abbreviation SQLTypeRowID :: "16 word" where "SQLTypeRowID \<equiv> 904"
abbreviation SQLTypeVarbinary :: "16 word" where "SQLTypeVarbinary \<equiv> 908"
abbreviation SQLTypeBinary :: "16 word" where "SQLTypeBinary \<equiv> 912"
abbreviation SQLTypeBlobLocator :: "16 word" where "SQLTypeBlobLocator \<equiv> 960"
abbreviation SQLTypeClobLocator :: "16 word" where "SQLTypeClobLocator \<equiv> 964"
abbreviation SQLTypeDBClobLocator :: "16 word" where "SQLTypeDBClobLocator \<equiv> 968"
abbreviation SQLTypeXML :: "16 word" where "SQLTypeXML \<equiv> 988"
abbreviation SQLTypeDecFloat :: "16 word" where "SQLTypeDecFloat \<equiv> 996"
abbreviation SQLTypeBoolean :: "16 word" where "SQLTypeBoolean \<equiv> 2436"

section \<open>Nullability\<close>

definition IsNullable :: "byte \<Rightarrow> bool" where
  "IsNullable t \<longleftrightarrow> t AND 1 = 1"

definition BaseSQLType :: "16 word \<Rightarrow> 16 word" where
  "BaseSQLType t = t AND NOT 1"

definition SQLTypeNullable :: "16 word \<Rightarrow> bool" where
  "SQLTypeNullable t \<longleftrightarrow> t AND 1 = 1"

section \<open>Lemmas\<close>

lemma and_1_cases: "(t :: 'a::len word) AND 1 = 0 \<or> t AND 1 = 1"
  by (simp add: and_one_eq mod_2_eq_odd)

text \<open>A type code is its base with the nullable bit added back.\<close>

lemma BaseSQLType_nullable_bit:
  "t = BaseSQLType t OR (if SQLTypeNullable t then 1 else 0)"
  by (rule bit_eqI)
     (auto simp: BaseSQLType_def SQLTypeNullable_def bit_simps bit_0 and_one_eq mod_2_eq_odd
       split: if_splits)

lemma BaseSQLType_idem [simp]: "BaseSQLType (BaseSQLType t) = BaseSQLType t"
  by (simp add: BaseSQLType_def and.assoc)

lemma BaseSQLType_not_nullable [simp]: "\<not> SQLTypeNullable (BaseSQLType t)"
  by (simp add: BaseSQLType_def SQLTypeNullable_def and.assoc)

end
