(* ===== verification/Drda_Values.thy ===== *)
theory Drda_Values
  imports Drda_Types
begin

text \<open>
  The values that flow between the driver and the wire codecs
  (\<^verbatim>\<open>internal/drda/values.go\<close>).  \<^verbatim>\<open>Value = any\<close> is a datatype with one
  constructor per Go type the sources put into it or test for; IEEE floats are kept as
  their bit patterns; \<open>VDecimalNil\<close> is the zero \<open>Decimal\<close>, whose coefficient
  pointer is nil.  \<^verbatim>\<open>time.Date\<close> and \<^verbatim>\<open>Time.Unix\<close> are modelled by the
  proleptic Gregorian day count with the month normalised as Go does.
\<close>

section \<open>Data\<close>

record Decimal =
  Unscaled :: int
  dScale :: int

record Date =
  Year :: int
  Month :: int
  Day :: int

record Time =
  Hour :: int
  Minute :: int
  Second :: int

record Timestamp =
  tsDate :: Date
  tsTime :: Time
  Nanos :: int

datatype Value =
    VNil
  | VBool bool
  | VInt "64 word"
  | VInt8 "8 word"
  | VInt16 "16 word"
  | VInt32 "32 word"
  | VInt64 "64 word"
  | VUint8 "8 word"
  | VUint16 "16 word"
  | VUint32 "32 word"
  | VUint64 "64 word"
  | VFloat32 "32 word"
  | VFloat64 "64 word"
  | VDecimal Decimal
  | VDecimalNil
  | VString string
  | VBytes bytes
  | VDate Date
  | VTime Time
  | VTimestamp Timestamp
  | VLobRef bool

definition int32 :: "int \<Rightarrow> int" where
  "int32 i = signed_take_bit 31 i"

section \<open>Decimal.String\<close>

definition Decimal_String :: "Decimal \<Rightarrow> string" where
  "Decimal_String d =
     (let s = int_str (Unscaled d) in
      if dScale d \<le> 0 then s
      else
        let k = nat (dScale d);
            neg = (hd s = CHR ''-'');
            s1 = zero_pad (k + 1) (if neg then tl s else s);
            i = length s1 - k;
            out = take i s1 @ ''.'' @ drop i s1
        in if neg then CHR ''-'' # out else out)"

section \<open>Dates and times\<close>

definition Date_String :: "Date \<Rightarrow> string" where
  "Date_String d = fmt_0d 4 (Year d) @ ''-'' @ fmt_0d 2 (Month d) @ ''-'' @ fmt_0d 2 (Day d)"

definition Time_String :: "Time \<Rightarrow> string" where
  "Time_String t = fmt_0d 2 (Hour t) @ '':'' @ fmt_0d 2 (Minute t) @ '':'' @ fmt_0d 2 (Second t)"

definition is_leap :: "int \<Rightarrow> bool" where
  "is_leap y \<longleftrightarrow> y mod 4 = 0 \<and> (y mod 100 \<noteq> 0 \<or> y mod 400 = 0)"

text \<open>Days from 0001-01-01 to the first of January of year \<open>y\<close>.\<close>

definition days_before_year :: "int \<Rightarrow> int" where
  "days_before_year y = 365 * (y - 1) + (y - 1) div 4 - (y - 1) div 100 + (y - 1) div 400"

definition month_days :: "int \<Rightarrow> int \<Rightarrow> int" where
  "month_days y m =
     (if m = 2 then if is_leap y then 29 else 28 else if m \<in> {4, 6, 9, 11} then 30 else 31)"

definition days_before_month :: "int \<Rightarrow> int \<Rightarrow> int" where
  "days_before_month y m =
     [0, 31, 59, 90, 120, 151, 181, 212, 243, 273, 304, 334] ! nat (m - 1)
       + (if 2 < m \<and> is_leap y then 1 else 0)"

text \<open>
  \<^verbatim>\<open>time.Date(y, m, d, ...)\<close> at midnight as a day number, 1970-01-01 being day 0; a
  month outside 1..12 carries into the year, a day outside its month simply counts on.
\<close>

definition unix_days :: "int \<Rightarrow> int \<Rightarrow> int \<Rightarrow> int" where
  "unix_days y m d =
     (let y' = y + (m - 1) div 12; m' = (m - 1) mod 12 + 1
      in days_before_year y' + days_before_month y' m' + (d - 1) - 719162)"

definition DaysSinceEpoch :: "Date \<Rightarrow> int" where
  "DaysSinceEpoch d = int32 (unix_days (Year d) (Month d) (Day d))"

text \<open>
  \<open>ToTime\<close>: a UTC instant as the pair of Unix seconds and nanoseconds, normalised by
  \<^verbatim>\<open>time.Date\<close>.
\<close>

definition ToTime :: "Timestamp \<Rightarrow> int \<times> int" where
  "ToTime ts =
     (unix_days (Year (tsDate ts)) (Month (tsDate ts)) (Day (tsDate ts)) * 86400
        + Hour (tsTime ts) * 3600 + Minute (tsTime ts) * 60 + Second (tsTime ts) + Nanos ts div 10 ^ 9,
      Nanos ts mod 10 ^ 9)"

section \<open>Well-formed values\<close>

definition date_ok :: "Date \<Rightarrow> bool" where
  "date_ok d \<longleftrightarrow> 0 \<le> Year d \<and> Year d \<le> 9999 \<and> 1 \<le> Month d \<and> Month d \<le> 12
     \<and> 1 \<le> Day d \<and> Day d \<le> month_days (Year d) (Month d)"

definition time_ok :: "Time \<Rightarrow> bool" where
  "time_ok t \<longleftrightarrow> 0 \<le> Hour t \<and> Hour t \<le> 24 \<and> 0 \<le> Minute t \<and> Minute t \<le> 59
     \<and> 0 \<le> Second t \<and> Second t \<le> 59"

text \<open>The calendar: the day after a date.\<close>

definition next_day :: "Date \<Rightarrow> Date" where
  "next_day d =
     (if Day d < month_days (Year d) (Month d) then d\<lparr>Day := Day d + 1\<rparr>
      else if Month d < 12 then d\<lparr>Month := Month d + 1, Day := 1\<rparr>
      else \<lparr>Year = Year d + 1, Month = 1, Day = 1\<rparr>)"

section \<open>Lemmas\<close>

lemma month_range: "1 \<le> m \<Longrightarrow> m \<le> 12 \<Longrightarrow> m \<in> {1, 2, 3, 4, 5, 6, 7, 8, 9, 10, 11, 12 :: int}"
  by simp presburger

lemma days_before_month_Suc:
  assumes "1 \<le> m" "m < 12"
  shows "days_before_month y (m + 1) = days_before_month y m + month_days y m"
  using month_range [of m] assms by (auto simp: days_before_month_def month_days_def)

lemma div_step:
  fixes x n :: int
  assumes "0 < n"
  shows "x div n = (x - 1) div n + (if x mod n = 0 then 1 else 0)"
proof (cases "x mod n = 0")
  case True
  define k where "k = x div n"
  have "x = n * k" using True mult_div_mod_eq [of n x] by (simp add: k_def)
  then have "x - 1 = n * (k - 1) + (n - 1)" by (simp add: right_diff_distrib)
  then have "(x - 1) div n = k - 1"
    using assms int_div_pos_eq [of "x - 1" n "k - 1" "n - 1"] by simp
  then show ?thesis using True by (simp add: k_def)
next
  case False
  then have "0 < x mod n" "x mod n < n"
    using assms by (simp_all add: order.not_eq_order_implies_strict)
  moreover have "x - 1 = n * (x div n) + (x mod n - 1)" by (simp add: algebra_simps)
  ultimately have "(x - 1) div n = x div n"
    using int_div_pos_eq [of "x - 1" n "x div n" "x mod n - 1"] by simp
  then show ?thesis using False by simp
qed

lemma days_before_year_Suc:
  "days_before_year (y + 1) = days_before_year y + (if is_leap y then 366 else 365)"
proof -
  define p q r where "p = (y mod 4 = 0)" and "q = (y mod 100 = 0)" and "r = (y mod 400 = 0)"
  define a b c where "a = (y - 1) div 4" and "b = (y - 1) div 100" and "c = (y - 1) div 400"
  have "y mod 400 mod 100 = y mod 100" "y mod 100 mod 4 = y mod 4"
    by (rule mod_mod_cancel, simp)+
  then have m: "r \<longrightarrow> q" "q \<longrightarrow> p" unfolding p_def q_def r_def by (metis mod_0)+
  have d: "y div 4 = a + (if p then 1 else 0)" "y div 100 = b + (if q then 1 else 0)"
    "y div 400 = c + (if r then 1 else 0)"
    unfolding p_def q_def r_def a_def b_def c_def by (rule div_step, simp)+
  show ?thesis
    unfolding days_before_year_def is_leap_def add_diff_cancel_right' d
      a_def [symmetric] b_def [symmetric] c_def [symmetric] p_def [symmetric] q_def [symmetric]
      r_def [symmetric]
    using m by (cases p; cases q; cases r) simp_all
qed

lemma unix_days_month: "1 \<le> m \<Longrightarrow> m \<le> 12 \<Longrightarrow>
  unix_days y m d = days_before_year y + days_before_month y m + (d - 1) - 719162"
  by (simp add: unix_days_def)

lemma unix_days_next_day:
  assumes "date_ok d"
  shows "unix_days (Year (next_day d)) (Month (next_day d)) (Day (next_day d))
           = unix_days (Year d) (Month d) (Day d) + 1"
proof -
  have m: "1 \<le> Month d" "Month d \<le> 12" using assms by (simp_all add: date_ok_def)
  consider "Day d < month_days (Year d) (Month d)"
    | "Day d = month_days (Year d) (Month d)" "Month d < 12"
    | "Day d = 31" "Month d = 12"
    using assms by (fastforce simp: date_ok_def month_days_def)
  then show ?thesis
  proof cases
    case 1
    then show ?thesis using m by (simp add: next_day_def unix_days_month)
  next
    case 2
    then show ?thesis
      using m days_before_month_Suc [of "Month d" "Year d"] by (simp add: next_day_def unix_days_month)
  next
    case 3
    then show ?thesis
      using m by (simp add: next_day_def unix_days_month days_before_year_Suc month_days_def
          days_before_month_def)
  qed
qed

end
