(* ===== verification/Drda_DecFloat.thy ===== *)
theory Drda_DecFloat
  imports Drda_Values
begin

text \<open>
  IEEE 754-2008 decimal floating point in its DPD encoding
  (\<^verbatim>\<open>internal/drda/decfloat.go\<close>): DECFLOAT(16) in 8 bytes and DECFLOAT(34) in 16.
  The 64- and 128-bit patterns, which the code keeps in a \<^verbatim>\<open>big.Int\<close>, are natural
  numbers.  The declets round-trip for all thousand digit triples; the whole format
  round-trips for every coefficient whose leading digit is at most 8.  Against the
  standard's combination field the two agree exactly for leading digits up to 7.
\<close>

section \<open>Declets\<close>

definition bit_at :: "nat \<Rightarrow> nat \<Rightarrow> nat" where
  "bit_at w i = drop_bit i w AND 1"

definition dpdDecode :: "nat \<Rightarrow> nat \<times> nat \<times> nat" where
  "dpdDecode dpd =
     (let b = bit_at dpd;
          b9 = b 9; b8 = b 8; b7 = b 7; b6 = b 6; b5 = b 5; b4 = b 4; b3 = b 3; b2 = b 2; b1 = b 1; b0 = b 0
      in
      if b3 = 0 then (b9*4 + b8*2 + b7, b6*4 + b5*2 + b4, b2*4 + b1*2 + b0)
      else if b2 = 0 \<and> b1 = 0 then (b9*4 + b8*2 + b7, b6*4 + b5*2 + b4, 8 + b0)
      else if b2 = 0 \<and> b1 = 1 then (b9*4 + b8*2 + b7, 8 + b4, b6*4 + b5*2 + b0)
      else if b2 = 1 \<and> b1 = 0 then (8 + b7, b6*4 + b5*2 + b4, b9*4 + b8*2 + b0)
      else if b6 = 0 \<and> b5 = 0 then (8 + b7, 8 + b4, b9*4 + b8*2 + b0)
      else if b6 = 0 \<and> b5 = 1 then (8 + b7, b9*4 + b8*2 + b4, 8 + b0)
      else if b6 = 1 \<and> b5 = 0 then (b9*4 + b8*2 + b7, 8 + b4, 8 + b0)
      else (8 + b7, 8 + b4, 8 + b0))"

definition dpdEncode :: "nat \<Rightarrow> nat \<Rightarrow> nat \<Rightarrow> nat" where
  "dpdEncode d2 d1 d0 =
     (let h2 = 8 \<le> d2; h1 = 8 \<le> d1; h0 = 8 \<le> d0;
          v2 = d2 AND 7; v1 = d1 AND 7; v0 = d0 AND 7
      in
      if \<not> h2 \<and> \<not> h1 \<and> \<not> h0 then push_bit 7 v2 OR push_bit 4 v1 OR v0
      else if \<not> h2 \<and> \<not> h1 \<and> h0 then push_bit 7 v2 OR push_bit 4 v1 OR 8 OR (v0 AND 1)
      else if \<not> h2 \<and> h1 \<and> \<not> h0 then
        push_bit 7 v2 OR push_bit 6 (drop_bit 2 v0 AND 1) OR push_bit 5 (drop_bit 1 v0 AND 1)
          OR push_bit 4 (v1 AND 1) OR push_bit 3 1 OR push_bit 1 1 OR (v0 AND 1)
      else if h2 \<and> \<not> h1 \<and> \<not> h0 then
        push_bit 9 (drop_bit 2 v0 AND 1) OR push_bit 8 (drop_bit 1 v0 AND 1) OR push_bit 7 (v2 AND 1)
          OR push_bit 4 v1 OR push_bit 3 1 OR push_bit 2 1 OR (v0 AND 1)
      else if h2 \<and> h1 \<and> \<not> h0 then
        push_bit 9 (drop_bit 2 v0 AND 1) OR push_bit 8 (drop_bit 1 v0 AND 1) OR push_bit 7 (v2 AND 1)
          OR push_bit 4 (v1 AND 1) OR push_bit 3 1 OR push_bit 2 1 OR push_bit 1 1 OR (v0 AND 1)
      else if h2 \<and> \<not> h1 \<and> h0 then
        push_bit 9 (drop_bit 2 v1 AND 1) OR push_bit 8 (drop_bit 1 v1 AND 1) OR push_bit 7 (v2 AND 1)
          OR push_bit 5 1 OR push_bit 4 (v1 AND 1) OR push_bit 3 1 OR push_bit 2 1 OR push_bit 1 1
          OR (v0 AND 1)
      else if \<not> h2 \<and> h1 \<and> h0 then
        push_bit 7 v2 OR push_bit 6 1 OR push_bit 4 (v1 AND 1) OR push_bit 3 1 OR push_bit 2 1
          OR push_bit 1 1 OR (v0 AND 1)
      else
        push_bit 7 (v2 AND 1) OR push_bit 6 1 OR push_bit 5 1 OR push_bit 4 (v1 AND 1)
          OR push_bit 3 1 OR push_bit 2 1 OR push_bit 1 1 OR (v0 AND 1))"

section \<open>Decoding\<close>

datatype decFloatSpecial = decFloatFinite | decFloatNaN | decFloatInf

text \<open>The coefficient digits: the leading one and three from every declet.\<close>

definition decFloat_digits :: "nat \<Rightarrow> nat \<Rightarrow> nat \<Rightarrow> nat list" where
  "decFloat_digits lead groups t =
     lead # concat (map (\<lambda>i. case dpdDecode (drop_bit (i * 10) t AND 0x3FF) of
                                (d2, d1, d0) \<Rightarrow> [d2, d1, d0]) (rev [0..<groups]))"

text \<open>\<open>None\<close> is the zero \<open>Decimal\<close>, whose coefficient pointer is nil.\<close>

definition decFloat_unpack ::
  "int \<Rightarrow> nat \<Rightarrow> nat \<Rightarrow> bytes \<Rightarrow> Decimal option \<times> bool \<times> decFloatSpecial" where
  "decFloat_unpack bias groups expBits data =
     (let w = be_val data;
          totalBits = length data * 8;
          coeffBits = groups * 10;
          sign = drop_bit (totalBits - 1) w AND 1;
          g = drop_bit (totalBits - 6) w AND 0x1F;
          e = drop_bit coeffBits w AND (2 ^ expBits - 1);
          t = w AND (2 ^ coeffBits - 1)
      in
      if 0x1C \<le> g then
        (if g AND 2 \<noteq> 0 then (None, sign = 1, decFloatNaN) else (None, sign = 1, decFloatInf))
      else
        let biasedExp = (if 0x18 \<le> g then push_bit expBits (g AND 3) OR e
                         else push_bit expBits (drop_bit 3 g) OR e);
            lead = (if 0x18 \<le> g then 8 + (drop_bit 2 g AND 1) else g AND 7);
            coeff = int (digits_nat (decFloat_digits lead groups t));
            ex = int biasedExp - bias
        in (Some \<lparr>Unscaled = (if sign = 1 then - coeff else coeff), dScale = int32 (- ex)\<rparr>,
            sign = 1, decFloatFinite))"

definition decodeDecFloat :: "bytes \<Rightarrow> Decimal option \<times> bool \<times> decFloatSpecial" where
  "decodeDecFloat data =
     (if length data = 8 then decFloat_unpack 398 5 8 data
      else if length data = 16 then decFloat_unpack 6176 11 12 data
      else (None, False, decFloatFinite))"

section \<open>Encoding\<close>

definition uint64 :: "int \<Rightarrow> nat" where
  "uint64 i = nat (i mod 2 ^ 64)"

definition decFloat_coeff :: "nat \<Rightarrow> nat list \<Rightarrow> nat" where
  "decFloat_coeff groups cont =
     foldl (\<lambda>t i. push_bit 10 t OR dpdEncode (cont ! (3 * i)) (cont ! (3 * i + 1)) (cont ! (3 * i + 2)))
       0 [0..<groups]"

text \<open>\<open>None\<close> is the panic of \<^verbatim>\<open>FillBytes\<close> on a number that does not fit.\<close>

definition decFloat_pack ::
  "int \<Rightarrow> nat \<Rightarrow> nat \<Rightarrow> nat \<Rightarrow> nat \<Rightarrow> Decimal \<Rightarrow> bytes option" where
  "decFloat_pack bias groups expBits maxDigits nBytes d =
     (let neg = Unscaled d < 0;
          ds = nat_digits (nat \<bar>Unscaled d\<bar>);
          ex = - dScale d + int (length ds - maxDigits);
          ds1 = take maxDigits ds;
          digits = replicate (maxDigits - length ds1) 0 @ ds1;
          lead = hd digits;
          cont = tl digits;
          biased = ex + bias;
          hi = uint64 (biased div 2 ^ expBits);
          g = (if 8 \<le> lead then 0x18 OR push_bit 2 (lead - 8) OR hi
               else push_bit 3 hi mod 2 ^ 64 OR lead);
          e = nat (biased mod 2 ^ expBits);
          t = decFloat_coeff groups cont;
          totalBits = nBytes * 8;
          w = (if neg then push_bit (totalBits - 1) 1 else 0) OR push_bit (totalBits - 6) g
                OR push_bit (groups * 10) e OR t
      in if w < 256 ^ nBytes then Some (be_put nBytes w) else None)"

definition encodeDecFloat :: "Decimal \<Rightarrow> nat \<Rightarrow> bytes option" where
  "encodeDecFloat d nBytes =
     (if nBytes = 8 then decFloat_pack 398 5 8 16 8 d else decFloat_pack 6176 11 12 34 16 d)"

section \<open>Declets round-trip\<close>

lemma bit_at_bool: "bit_at w i = of_bool (bit w i)"
  by (simp add: bit_at_def and_one_eq bit_iff_odd_drop_bit odd_iff_mod_2_eq_one of_bool_def)

lemma bit_and_7: "bit (d AND 7 :: nat) n \<longleftrightarrow> n < 3 \<and> bit d n"
proof -
  have "d AND 7 = take_bit 3 d" by (simp add: take_bit_eq_mask mask_eq_exp_minus_1)
  then show ?thesis by (simp add: bit_take_bit_iff)
qed

lemma digit_small:
  "\<not> 8 \<le> d \<Longrightarrow> of_bool (bit d 2) * 4 + of_bool (bit d 1) * 2 + of_bool (bit d 0) = (d :: nat)"
proof -
  assume "\<not> 8 \<le> d"
  then have "d \<in> {0, 1, 2, 3, 4, 5, 6, 7}" by auto
  then show ?thesis by (auto simp: bit_0)
qed

lemma digit_large: "8 \<le> d \<Longrightarrow> d < 10 \<Longrightarrow> 8 + of_bool (bit d 0) = (d :: nat)"
proof -
  assume "8 \<le> d" "d < 10"
  then have "d \<in> {8, 9}" by auto
  then show ?thesis by (auto simp: bit_0)
qed

lemmas dpd_bits = bit_or_iff bit_and_iff bit_push_bit_iff_nat bit_drop_bit_eq bit_and_7 bit_1_iff
  bit_at_bool o_def

lemma bit_8: "bit (8 :: nat) n \<longleftrightarrow> n = 3"
  using bit_exp_iff [of 3 n, where 'a = nat] by simp

lemma dpdDecode_dpdEncode:
  assumes "d2 < 10" "d1 < 10" "d0 < 10"
  shows "dpdDecode (dpdEncode d2 d1 d0) = (d2, d1, d0)"
  using assms
  by (cases "8 \<le> d2"; cases "8 \<le> d1"; cases "8 \<le> d0";
      simp only: dpdEncode_def Let_def if_True if_False simp_thms;
      simp only: dpdDecode_def Let_def dpd_bits bit_8;
      simp del: bit_0 add: digit_small [simplified] digit_large bit_Suc_0_iff
        split del: split_of_bool)

lemma or_less_exp: "a < 2 ^ n \<Longrightarrow> b < 2 ^ n \<Longrightarrow> a OR b < (2 ^ n :: nat)"
  by (metis take_bit_nat_eq_self_iff take_bit_or)

lemma push_bit_less_exp: "a < 2 ^ m \<Longrightarrow> k + m = n \<Longrightarrow> push_bit k a < (2 ^ n :: nat)"
  by (auto simp: push_bit_eq_mult power_add mult.commute)

lemma dpdEncode_less: "d2 < 10 \<Longrightarrow> d1 < 10 \<Longrightarrow> d0 < 10 \<Longrightarrow> dpdEncode d2 d1 d0 < 1024"
proof -
  have v: "d AND 7 < (8::nat)" for d
    using take_bit_nat_less_exp [of 3 d] by (simp add: take_bit_eq_mask mask_eq_exp_minus_1)
  then have w: "d AND 7 < (64::nat)" "d AND 7 < (1024::nat)" for d
    by (smt (verit) order_less_trans numeral_less_iff semiring_norm(76-80))+
  have o: "d AND 1 < (2::nat)" for d by (simp add: and_one_eq)
  show ?thesis
    unfolding dpdEncode_def Let_def
    by (auto intro!: or_less_exp [of _ 10, simplified] simp: push_bit_eq_mult)
      (use v w o in \<open>auto simp: drop_bit_eq_div\<close>)
qed

section \<open>Packing\<close>

lemma and_mask_mod: "w AND (2 ^ n - 1) = (w :: nat) mod 2 ^ n"
  by (metis mask_eq_exp_minus_1 take_bit_eq_mask take_bit_eq_mod)

lemma and_masks:
  "w AND 0x1F = (w :: nat) mod 32" "w AND 0x3FF = (w :: nat) mod 1024"
  "w AND 7 = (w :: nat) mod 8" "w AND 3 = (w :: nat) mod 4"
  using and_mask_mod [of w 5] and_mask_mod [of w 10] and_mask_mod [of w 3] and_mask_mod [of w 2]
  by simp_all

lemma push_or_add: "a < 2 ^ k \<Longrightarrow> push_bit k b OR a = a + 2 ^ k * (b :: nat)"
  using or_shift_add [of a k b] by (simp add: push_bit_eq_mult or.commute mult.commute)

text \<open>Groups of ten bits: what \<open>foldl\<close> packs, the shifts and masks read back.\<close>

lemma pack_groups:
  fixes gs :: "nat list"
  assumes "list_all (\<lambda>x. x < 1024) gs"
  defines "t \<equiv> foldl (\<lambda>t x. push_bit 10 t OR x) 0 gs"
  shows "t < 2 ^ (10 * length gs)"
    and "map (\<lambda>i. drop_bit (i * 10) t AND 0x3FF) (rev [0..<length gs]) = gs"
proof -
  have "foldl (\<lambda>t x. push_bit 10 t OR x) 0 gs < 2 ^ (10 * length gs) \<and>
        map (\<lambda>i. drop_bit (i * 10) (foldl (\<lambda>t x. push_bit 10 t OR x) 0 gs) AND 0x3FF) (rev [0..<length gs]) = gs"
    using assms(1)
  proof (induction gs rule: rev_induct)
    case (snoc x gs)
    define t where "t = foldl (\<lambda>t x. push_bit 10 t OR x) 0 gs"
    have x: "x < 1024" using snoc.prems by simp
    have t: "t < 2 ^ (10 * length gs)"
      and m: "map (\<lambda>i. drop_bit (i * 10) t AND 0x3FF) (rev [0..<length gs]) = gs"
      using snoc by (simp_all add: t_def)
    have tx: "push_bit 10 t OR x = x + 1024 * t" using push_or_add [of x 10 t] x by simp
    have "x + 1024 * t < 1024 * (t + 1)" using x by simp
    also have "\<dots> \<le> 1024 * 2 ^ (10 * length gs)" using t by (intro mult_left_mono) auto
    finally have lt: "x + 1024 * t < 2 ^ (10 * length (gs @ [x]))" by (simp add: power_add)
    have sh: "drop_bit ((i + 1) * 10) (x + 1024 * t) = drop_bit (i * 10) t" for i
      using x by (simp add: drop_bit_eq_div power_add div_mult2_eq)
    have "rev [0..<length (gs @ [x])] = map Suc (rev [0..<length gs]) @ [0]"
      by (simp add: upt_conv_Cons rev_map flip: map_Suc_upt del: upt_Suc)
    then have "map (\<lambda>i. drop_bit (i * 10) (x + 1024 * t) AND 0x3FF) (rev [0..<length (gs @ [x])]) = gs @ [x]"
      using sh m x by (simp add: o_def and_masks)
    then show ?case using lt tx by (simp add: t_def)
  qed simp
  then show "t < 2 ^ (10 * length gs)"
    and "map (\<lambda>i. drop_bit (i * 10) t AND 0x3FF) (rev [0..<length gs]) = gs"
    by (simp_all add: t_def)
qed

lemma concat_triples:
  "length c = 3 * n \<Longrightarrow> concat (map (\<lambda>i. [c ! (3 * i), c ! (3 * i + 1), c ! (3 * i + 2)]) [0..<n]) = c"
proof (induction n arbitrary: c)
  case (Suc n)
  let ?p = "take (3 * n) c"
  have "c = ?p @ drop (3 * n) c" by simp
  moreover have "drop (3 * n) c = [c ! (3 * n), c ! (3 * n + 1), c ! (3 * n + 2)]"
    using Suc.prems by (intro nth_equalityI) (auto simp: less_Suc_eq numeral_eq_Suc)
  moreover have "concat (map (\<lambda>i. [?p ! (3 * i), ?p ! (3 * i + 1), ?p ! (3 * i + 2)]) [0..<n]) = ?p"
    using Suc.prems by (intro Suc.IH) simp
  moreover have "map (\<lambda>i. [?p ! (3 * i), ?p ! (3 * i + 1), ?p ! (3 * i + 2)]) [0..<n]
      = map (\<lambda>i. [c ! (3 * i), c ! (3 * i + 1), c ! (3 * i + 2)]) [0..<n]"
    by (rule map_cong) auto
  ultimately show ?case by (metis (no_types, lifting) concat.simps concat_append map_append list.simps(8,9) upt_Suc_append append_Nil2 le0)
qed simp

lemma decFloat_digits_coeff:
  assumes "list_all (\<lambda>d. d < 10) cont" "length cont = 3 * groups"
  shows "decFloat_digits lead groups (decFloat_coeff groups cont) = lead # cont"
    and "decFloat_coeff groups cont < 2 ^ (groups * 10)"
proof -
  let ?g = "\<lambda>i. dpdEncode (cont ! (3 * i)) (cont ! (3 * i + 1)) (cont ! (3 * i + 2))"
  let ?gs = "map ?g [0..<groups]"
  have d: "cont ! (3 * i + j) < 10" if "i < groups" "j < 3" for i j
    using assms that by (simp add: list_all_length)
  have gs: "list_all (\<lambda>x. x < 1024) ?gs"
    using d [of _ 0] d [of _ 1] d [of _ 2] by (auto simp: list_all_iff intro!: dpdEncode_less)
  have fold: "decFloat_coeff groups cont = foldl (\<lambda>t x. push_bit 10 t OR x) 0 ?gs"
    by (simp add: decFloat_coeff_def foldl_map)
  show "decFloat_coeff groups cont < 2 ^ (groups * 10)"
    using pack_groups(1) [OF gs] by (simp add: fold mult.commute)
  have "decFloat_digits lead groups (decFloat_coeff groups cont)
      = lead # concat (map (\<lambda>x. case dpdDecode x of (d2, d1, d0) \<Rightarrow> [d2, d1, d0]) ?gs)"
    using arg_cong [OF pack_groups(2) [OF gs], of "\<lambda>l. concat (map (\<lambda>x. case dpdDecode x of (d2, d1, d0) \<Rightarrow> [d2, d1, d0]) l)"]
    by (simp add: decFloat_digits_def fold o_def)
  also have "\<dots> = lead # concat (map (\<lambda>i. [cont ! (3 * i), cont ! (3 * i + 1), cont ! (3 * i + 2)]) [0..<groups])"
    using d [of _ 0] d [of _ 1] d [of _ 2] by (auto simp: dpdDecode_dpdEncode intro!: arg_cong [of _ _ concat] map_cong)
  finally show "decFloat_digits lead groups (decFloat_coeff groups cont) = lead # cont"
    using concat_triples [OF assms(2)] by simp
qed

section \<open>The bit fields\<close>

definition fields_word :: "nat \<Rightarrow> nat \<Rightarrow> nat \<Rightarrow> nat \<Rightarrow> nat \<Rightarrow> nat \<Rightarrow> nat" where
  "fields_word c x s g e t = t + 2 ^ c * (e + 2 ^ x * (g + 32 * s))"

lemma fields_word_or:
  assumes "t < 2 ^ c" "e < 2 ^ x" "g < 32"
  shows "push_bit (c + x + 5) s OR push_bit (c + x) g OR push_bit c e OR t = fields_word c x s g e t"
proof -
  have bound: "lo + 2 ^ k * hi < 2 ^ (k + j)" if "lo < 2 ^ k" "hi < 2 ^ j" for lo hi k j :: nat
  proof -
    have "lo + 2 ^ k * hi < 2 ^ k * (hi + 1)" using that by simp
    also have "\<dots> \<le> 2 ^ k * 2 ^ j" using that by (intro mult_left_mono) auto
    finally show ?thesis by (simp add: power_add)
  qed
  have 1: "push_bit c e OR t = t + 2 ^ c * e" by (rule push_or_add [OF assms(1)])
  have u: "t + 2 ^ c * e < 2 ^ (c + x)" by (rule bound [OF assms(1,2)])
  have 2: "push_bit (c + x) g OR (t + 2 ^ c * e) = t + 2 ^ c * e + 2 ^ (c + x) * g"
    by (rule push_or_add [OF u])
  have v: "t + 2 ^ c * e + 2 ^ (c + x) * g < 2 ^ (c + x + 5)"
    using assms(3) by (intro bound [OF u]) simp
  show ?thesis
    unfolding 1 2 push_or_add [OF v] by (simp add: fields_word_def power_add algebra_simps)
qed

lemma fields_word_read:
  assumes "t < 2 ^ c" "e < 2 ^ x" "g < 32" "s < 2"
  shows "fields_word c x s g e t mod 2 ^ c = t"
    "drop_bit c (fields_word c x s g e t) mod 2 ^ x = e"
    "drop_bit (c + x) (fields_word c x s g e t) mod 32 = g"
    "drop_bit (c + x + 5) (fields_word c x s g e t) = s"
    "fields_word c x s g e t < 2 ^ (c + x + 6)"
proof -
  let ?w = "fields_word c x s g e t"
  have 1: "drop_bit c ?w = e + 2 ^ x * (g + 32 * s)"
    using assms(1) by (simp add: fields_word_def drop_bit_eq_div)
  have 2: "drop_bit (c + x) ?w = g + 32 * s"
    using arg_cong [OF 1, of "drop_bit x"] assms(2)
    by (simp add: drop_bit_eq_div power_add div_mult2_eq)
  have 3: "drop_bit (c + x + 5) ?w = s"
    using arg_cong [OF 2, of "drop_bit 5"] assms(3)
    by (simp add: drop_bit_eq_div power_add div_mult2_eq)
  show "?w mod 2 ^ c = t" using assms(1) by (simp add: fields_word_def)
  show "drop_bit c ?w mod 2 ^ x = e" using assms(2) by (simp add: 1)
  show "drop_bit (c + x) ?w mod 32 = g" using assms(3) by (simp add: 2)
  show "drop_bit (c + x + 5) ?w = s" by (fact 3)
  have "?w div 2 ^ (c + x + 5) < 2" using 3 assms(4) by (simp add: drop_bit_eq_div)
  then show "?w < 2 ^ (c + x + 6)"
    by (simp add: div_less_iff_less_mult power_add)
qed

section \<open>The whole format\<close>

text \<open>
  The parameters of the two formats, and when a decimal is representable: the coefficient
  fits, and the biased exponent is below three times the weight of its two high bits.
\<close>

definition format_ok :: "nat \<Rightarrow> nat \<Rightarrow> nat \<Rightarrow> nat \<Rightarrow> bool" where
  "format_ok groups expBits maxDigits nBytes \<longleftrightarrow>
     nBytes * 8 = groups * 10 + expBits + 6 \<and> maxDigits = 3 * groups + 1"

definition decfloat_fits :: "int \<Rightarrow> nat \<Rightarrow> nat \<Rightarrow> Decimal \<Rightarrow> bool" where
  "decfloat_fits bias expBits maxDigits d \<longleftrightarrow>
     nat \<bar>Unscaled d\<bar> < 10 ^ maxDigits \<and> 0 \<le> bias - dScale d \<and> bias - dScale d < 3 * 2 ^ expBits
       \<and> \<bar>dScale d\<bar> < 2 ^ 31"

definition coeff_digits :: "nat \<Rightarrow> Decimal \<Rightarrow> nat list" where
  "coeff_digits maxDigits d =
     (let ds = nat_digits (nat \<bar>Unscaled d\<bar>) in replicate (maxDigits - length ds) 0 @ ds)"

text \<open>The combination field as the code computes it.\<close>

definition code_comb :: "nat \<Rightarrow> nat \<Rightarrow> nat" where
  "code_comb hi lead = (if 8 \<le> lead then 24 + 4 * (lead - 8) + hi else 8 * hi + lead)"

lemma coeff_digits_facts:
  assumes "nat \<bar>Unscaled d\<bar> < 10 ^ maxDigits" "0 < maxDigits"
  shows "length (coeff_digits maxDigits d) = maxDigits"
    and "list_all (\<lambda>x. x < 10) (coeff_digits maxDigits d)"
    and "digits_nat (coeff_digits maxDigits d) = nat \<bar>Unscaled d\<bar>"
  using assms length_nat_digits [of maxDigits "nat \<bar>Unscaled d\<bar>"]
  by (auto simp: coeff_digits_def Let_def digits_nat_append list_all_iff split: if_splits
      dest: nat_digits_less)

lemma uint64_small: "0 \<le> i \<Longrightarrow> i < 3 \<Longrightarrow> uint64 i = nat i"
  by (simp add: uint64_def)

lemma comb_or:
  assumes "hi < 3" "lead \<le> 9"
  shows "(if 8 \<le> lead then 0x18 OR push_bit 2 (lead - 8) OR hi else push_bit 3 hi mod 2 ^ 64 OR lead)
           = code_comb hi lead" "code_comb hi lead < 32"
proof -
  have hi: "hi < 2 ^ 2" "hi \<in> {0, 1, 2}" using assms by auto
  show "code_comb hi lead < 32" using assms by (auto simp: code_comb_def)
  show "(if 8 \<le> lead then 0x18 OR push_bit 2 (lead - 8) OR hi else push_bit 3 hi mod 2 ^ 64 OR lead)
           = code_comb hi lead"
  proof (cases "8 \<le> lead")
    case True
    then have "lead \<in> {8, 9}" using assms by auto
    then show ?thesis using hi by (auto simp: code_comb_def push_bit_eq_mult)
  next
    case False
    then show ?thesis using push_or_add [of lead 3 hi] hi by (auto simp: code_comb_def)
  qed
qed

lemma comb_read:
  assumes "hi < 3" "lead \<le> 8"
  defines "g \<equiv> code_comb hi lead"
  shows "g < 32" "g < 28" "(if 24 \<le> g then g mod 4 else g div 8) = hi"
    "(if 24 \<le> g then 8 + g div 4 mod 2 else g mod 8) = lead"
proof -
  have "hi \<in> {0, 1, 2}" using assms by auto
  moreover have "lead = 8 \<or> lead < 8" using assms by auto
  ultimately show "g < 32" "g < 28" "(if 24 \<le> g then g mod 4 else g div 8) = hi"
    "(if 24 \<le> g then 8 + g div 4 mod 2 else g mod 8) = lead"
    by (auto simp: g_def code_comb_def)
qed

text \<open>What \<open>decFloat_pack\<close> writes, and what \<open>decFloat_unpack\<close> reads from such a word.\<close>

lemma decFloat_pack_word:
  assumes fmt: "format_ok groups expBits maxDigits nBytes"
    and fits: "decfloat_fits bias expBits maxDigits d"
  defines "D \<equiv> coeff_digits maxDigits d"
    and "biased \<equiv> nat (bias - dScale d)"
  shows "decFloat_pack bias groups expBits maxDigits nBytes d = Some (be_put nBytes
      (fields_word (groups * 10) expBits (if Unscaled d < 0 then 1 else 0)
        (code_comb (biased div 2 ^ expBits) (hd D)) (biased mod 2 ^ expBits)
        (decFloat_coeff groups (tl D))))"
proof -
  let ?hi = "biased div 2 ^ expBits"
  let ?s = "if Unscaled d < 0 then 1 else 0 :: nat"
  let ?t = "decFloat_coeff groups (tl D)"
  have max: "0 < maxDigits" using fmt by (simp add: format_ok_def)
  have n: "nat \<bar>Unscaled d\<bar> < 10 ^ maxDigits" using fits by (simp add: decfloat_fits_def)
  note D = coeff_digits_facts [OF n max, folded D_def]
  have lead: "hd D < 10" "list_all (\<lambda>x. x < 10) (tl D)" "length (tl D) = 3 * groups"
    using D max fmt by (cases D; simp add: format_ok_def)+
  have b: "int biased = bias - dScale d" "biased < 3 * 2 ^ expBits"
    using fits by (auto simp: biased_def decfloat_fits_def nat_less_iff)
  have hi: "?hi < 3" using b by (simp add: div_less_iff_less_mult)
  have "(bias - dScale d) div 2 ^ expBits = int ?hi" "(bias - dScale d) mod 2 ^ expBits = int (biased mod 2 ^ expBits)"
    unfolding b(1) [symmetric] by (simp_all add: zdiv_int zmod_int)
  then have hi': "uint64 ((bias - dScale d) div 2 ^ expBits) = ?hi"
    and e': "nat ((bias - dScale d) mod 2 ^ expBits) = biased mod 2 ^ expBits"
    using hi by (simp_all add: uint64_small)
  have len: "length (nat_digits (nat \<bar>Unscaled d\<bar>)) \<le> maxDigits"
    using n max by (simp add: length_nat_digits)
  have g: "(if 8 \<le> hd D then 0x18 OR push_bit 2 (hd D - 8) OR ?hi else push_bit 3 ?hi mod 2 ^ 64 OR hd D)
      = code_comb ?hi (hd D)" and g32: "code_comb ?hi (hd D) < 32"
    using comb_or [OF hi, of "hd D"] lead by auto
  have tot: "nBytes * 8 - 1 = groups * 10 + expBits + 5" "nBytes * 8 - 6 = groups * 10 + expBits"
    using fmt by (auto simp: format_ok_def)
  have cap: "(256 :: nat) ^ nBytes = 2 ^ (groups * 10 + expBits + 6)"
    using fmt power_mult [of "2 :: nat" 8 nBytes] by (simp add: format_ok_def mult.commute)
  have sgn: "(if Unscaled d < 0 then push_bit k 1 else 0) = push_bit k ?s" for k by simp
  have w: "(if Unscaled d < 0 then push_bit (nBytes * 8 - 1) 1 else 0) OR
      push_bit (nBytes * 8 - 6) (code_comb ?hi (hd D)) OR
      push_bit (groups * 10) (biased mod 2 ^ expBits) OR ?t
      = fields_word (groups * 10) expBits ?s (code_comb ?hi (hd D)) (biased mod 2 ^ expBits) ?t"
    unfolding sgn tot by (rule fields_word_or [OF decFloat_digits_coeff(2) [OF lead(2,3)] _ g32]) simp
  have "fields_word (groups * 10) expBits ?s (code_comb ?hi (hd D)) (biased mod 2 ^ expBits) ?t < 256 ^ nBytes"
    unfolding cap using decFloat_digits_coeff(2) [OF lead(2,3)] g32
    by (intro fields_word_read(5)) auto
  moreover have "replicate (maxDigits - length (nat_digits (nat \<bar>Unscaled d\<bar>))) 0 @
      nat_digits (nat \<bar>Unscaled d\<bar>) = D"
    by (simp add: D_def coeff_digits_def Let_def)
  moreover have "- dScale d + int 0 + bias = bias - dScale d" by simp
  ultimately show ?thesis
    using w len hi' e' g by (simp only: decFloat_pack_def Let_def take_all diff_is_0_eq' if_True)
qed

lemma decFloat_unpack_word:
  assumes fmt: "format_ok groups expBits maxDigits nBytes"
    and b: "t < 2 ^ (groups * 10)" "e < 2 ^ expBits" "g < 32" "s < 2"
  defines "w \<equiv> fields_word (groups * 10) expBits s g e t"
  shows "decFloat_unpack bias groups expBits (be_put nBytes w) =
     (if 28 \<le> g then (None, s = 1, if g AND 2 \<noteq> 0 then decFloatNaN else decFloatInf)
      else
        let hi = (if 24 \<le> g then g mod 4 else g div 8);
            lead = (if 24 \<le> g then 8 + g div 4 mod 2 else g mod 8);
            c = int (digits_nat (decFloat_digits lead groups t))
        in (Some \<lparr>Unscaled = (if s = 1 then - c else c),
                  dScale = int32 (bias - (int e + 2 ^ expBits * int hi))\<rparr>, s = 1, decFloatFinite))"
proof -
  have cap: "(256 :: nat) ^ nBytes = 2 ^ (groups * 10 + expBits + 6)"
    using fmt power_mult [of "2 :: nat" 8 nBytes] by (simp add: format_ok_def mult.commute)
  note rd = fields_word_read [OF b, folded w_def]
  have val: "be_val (be_put nBytes w) = w" using rd(5) by (simp add: be_val_put cap)
  have tot: "nBytes * 8 - 1 = groups * 10 + expBits + 5" "nBytes * 8 - 6 = groups * 10 + expBits"
    using fmt by (auto simp: format_ok_def)
  have f: "drop_bit (groups * 10 + expBits + 5) w AND 1 = s" "w AND (2 ^ (groups * 10) - 1) = t"
    "drop_bit (groups * 10) w AND (2 ^ expBits - 1) = e" "drop_bit (groups * 10 + expBits) w AND 0x1F = g"
    using rd b(4) by (simp_all only: and_mask_mod and_masks) (simp add: and_one_eq)
  have ex: "push_bit expBits h OR e = e + 2 ^ expBits * h" for h
    by (rule push_or_add [OF b(2)])
  show ?thesis
    unfolding decFloat_unpack_def Let_def length_be_put val tot f ex
    unfolding and_masks by (simp add: drop_bit_eq_div and_one_eq mod_2_eq_odd)
qed

text \<open>The fields of a decimal that fits.\<close>

lemma decfloat_fits_fields:
  assumes fmt: "format_ok groups expBits maxDigits nBytes"
    and fits: "decfloat_fits bias expBits maxDigits d"
  defines "D \<equiv> coeff_digits maxDigits d" and "biased \<equiv> nat (bias - dScale d)"
  shows "hd D \<le> 9" "list_all (\<lambda>x. x < 10) (tl D)" "length (tl D) = 3 * groups" "hd D # tl D = D"
    "digits_nat D = nat \<bar>Unscaled d\<bar>"
    "biased div 2 ^ expBits < 3" "int32 (dScale d) = dScale d"
    "int (biased mod 2 ^ expBits) + 2 ^ expBits * int (biased div 2 ^ expBits) = bias - dScale d"
proof -
  have max: "0 < maxDigits" using fmt by (simp add: format_ok_def)
  have n: "nat \<bar>Unscaled d\<bar> < 10 ^ maxDigits" using fits by (simp add: decfloat_fits_def)
  note D = coeff_digits_facts [OF n max, folded D_def]
  show "hd D \<le> 9" "list_all (\<lambda>x. x < 10) (tl D)" "length (tl D) = 3 * groups" "hd D # tl D = D"
    using D max fmt by (cases D; simp add: format_ok_def)+
  show "digits_nat D = nat \<bar>Unscaled d\<bar>" by (fact D(3))
  have b: "int biased = bias - dScale d" "biased < 3 * 2 ^ expBits" "\<bar>dScale d\<bar> < 2 ^ 31"
    using fits by (auto simp: biased_def decfloat_fits_def nat_less_iff)
  then show "biased div 2 ^ expBits < 3" by (simp add: div_less_iff_less_mult)
  show "int32 (dScale d) = dScale d" using b by (simp add: int32_def signed_take_bit_int_eq_self)
  show "int (biased mod 2 ^ expBits) + 2 ^ expBits * int (biased div 2 ^ expBits) = bias - dScale d"
    using arg_cong [OF mod_mult_div_eq [of biased "2 ^ expBits"], of int]
    by (simp only: of_nat_add of_nat_mult of_nat_power of_nat_numeral b(1))
qed

text \<open>
  Reading a word with any combination field \<open>g\<close> that stands for the decimal's own high
  exponent bits and leading digit.
\<close>

lemma decFloat_unpack_fields:
  assumes fmt: "format_ok groups expBits maxDigits nBytes"
    and fits: "decfloat_fits bias expBits maxDigits d" and g: "g < 32"
  defines "D \<equiv> coeff_digits maxDigits d" and "biased \<equiv> nat (bias - dScale d)"
  defines "hi' \<equiv> if 24 \<le> g then g mod 4 else g div 8"
    and "lead' \<equiv> if 24 \<le> g then 8 + g div 4 mod 2 else g mod 8"
  shows "decFloat_unpack bias groups expBits (be_put nBytes
      (fields_word (groups * 10) expBits (if Unscaled d < 0 then 1 else 0) g
        (biased mod 2 ^ expBits) (decFloat_coeff groups (tl D)))) =
     (if 28 \<le> g then (None, Unscaled d < 0, if g AND 2 \<noteq> 0 then decFloatNaN else decFloatInf)
      else let c = int (digits_nat (lead' # tl D)) in
        (Some \<lparr>Unscaled = (if Unscaled d < 0 then - c else c),
               dScale = int32 (bias - (int (biased mod 2 ^ expBits) + 2 ^ expBits * int hi'))\<rparr>,
         Unscaled d < 0, decFloatFinite))"
proof -
  note f = decfloat_fits_fields [OF fmt fits, folded D_def biased_def]
  note c = decFloat_digits_coeff [OF f(2,3)]
  show ?thesis
    using decFloat_unpack_word [OF fmt c(2) _ g, of "biased mod 2 ^ expBits"
        "if Unscaled d < 0 then 1 else 0" bias]
    by (simp add: Let_def c(1) flip: hi'_def lead'_def)
qed

lemma decFloat_roundtrip:
  assumes fmt: "format_ok groups expBits maxDigits nBytes"
    and fits: "decfloat_fits bias expBits maxDigits d"
    and lead: "hd (coeff_digits maxDigits d) \<le> 8"
  shows "\<exists>b. decFloat_pack bias groups expBits maxDigits nBytes d = Some b \<and> length b = nBytes \<and>
     decFloat_unpack bias groups expBits b = (Some d, Unscaled d < 0, decFloatFinite)"
proof -
  note f = decfloat_fits_fields [OF fmt fits]
  note g = comb_read [OF f(6) lead]
  show ?thesis
    unfolding decFloat_pack_word [OF fmt fits]
    using decFloat_unpack_fields [OF fmt fits g(1)] g(2)
    by (simp add: g(3,4) f(4,5,7,8) Let_def)
qed

text \<open>
  The format of the standard: with a leading digit of 8 or 9 the combination field is
  \<open>11eed\<close>, two exponent bits and then the digit's low bit.
\<close>

definition ieee_comb :: "nat \<Rightarrow> nat \<Rightarrow> nat" where
  "ieee_comb hi lead = (if 8 \<le> lead then 24 + 2 * hi + (lead - 8) else 8 * hi + lead)"

definition ieee_encode :: "int \<Rightarrow> nat \<Rightarrow> nat \<Rightarrow> nat \<Rightarrow> nat \<Rightarrow> Decimal \<Rightarrow> bytes" where
  "ieee_encode bias groups expBits maxDigits nBytes d =
     (let D = coeff_digits maxDigits d; biased = nat (bias - dScale d)
      in be_put nBytes (fields_word (groups * 10) expBits (if Unscaled d < 0 then 1 else 0)
           (ieee_comb (biased div 2 ^ expBits) (hd D)) (biased mod 2 ^ expBits)
           (decFloat_coeff groups (tl D))))"

lemma formats: "format_ok 5 8 16 8" "format_ok 11 12 34 16"
  by (simp_all add: format_ok_def)

lemma ieee_comb_read:
  assumes "hi < 3" "lead \<le> 9"
  defines "g \<equiv> ieee_comb hi lead"
  defines "hi' \<equiv> if 24 \<le> g then g mod 4 else g div 8"
    and "lead' \<equiv> if 24 \<le> g then 8 + g div 4 mod 2 else g mod 8"
  shows "g < 32" "g < 28 \<and> hi' = hi \<and> lead' = lead \<longleftrightarrow> lead \<le> 7 \<or> lead = 8 \<and> hi = 0"
    "g < 28 \<Longrightarrow> hi' = hi \<Longrightarrow> lead' = lead"
proof -
  have "hi \<in> {0, 1, 2}" using assms by auto
  moreover have "lead = 8 \<or> lead = 9 \<or> lead < 8" using assms by auto
  ultimately show "g < 32" "g < 28 \<and> hi' = hi \<and> lead' = lead \<longleftrightarrow> lead \<le> 7 \<or> lead = 8 \<and> hi = 0"
    "g < 28 \<Longrightarrow> hi' = hi \<Longrightarrow> lead' = lead"
    by (auto simp: g_def ieee_comb_def hi'_def lead'_def)
qed

lemma int32_shift_cancel:
  assumes "x \<le> 12" "hi < 3" "hi' \<le> 3"
    and "int32 (b - (e + 2 ^ x * int hi')) = s" "int32 s = s" "e + 2 ^ x * int hi = b - s"
  shows "hi' = hi"
proof -
  let ?k = "int hi - int hi'"
  have "b - (e + 2 ^ x * int hi') = s + 2 ^ x * ?k" using assms(6) by (simp add: algebra_simps)
  then have "int32 (s + 2 ^ x * ?k) = int32 s" using assms by simp
  then have "(s + 2 ^ x * ?k) mod 2 ^ 32 = s mod 2 ^ 32"
    by (simp add: int32_def signed_take_bit_eq_iff_take_bit_eq take_bit_eq_mod)
  then have dvd: "2 ^ 32 dvd 2 ^ x * ?k" by (simp add: mod_eq_dvd_iff)
  have "(2 :: int) ^ x \<le> 2 ^ 12" using assms(1) by (intro power_increasing) auto
  moreover have "\<bar>?k\<bar> \<le> 3" using assms by auto
  ultimately have "\<bar>2 ^ x * ?k\<bar> \<le> 2 ^ 12 * 3" unfolding abs_mult by (intro mult_mono) auto
  then have "2 ^ x * ?k = 0" using dvd_imp_le_int [OF _ dvd] by fastforce
  then show ?thesis by simp
qed

lemma ieee_decode_iff:
  assumes fmt: "format_ok groups expBits maxDigits nBytes"
    and fits: "decfloat_fits bias expBits maxDigits d" and x: "expBits \<le> 12"
  defines "lead \<equiv> hd (coeff_digits maxDigits d)" and "hi \<equiv> nat (bias - dScale d) div 2 ^ expBits"
  shows "length (ieee_encode bias groups expBits maxDigits nBytes d) = nBytes"
    and "decFloat_unpack bias groups expBits (ieee_encode bias groups expBits maxDigits nBytes d)
       = (Some d, Unscaled d < 0, decFloatFinite) \<longleftrightarrow> lead \<le> 7 \<or> lead = 8 \<and> hi = 0"
proof -
  let ?g = "ieee_comb hi lead" and ?e = "int (nat (bias - dScale d) mod 2 ^ expBits)"
  let ?hi = "if 24 \<le> ?g then ?g mod 4 else ?g div 8"
  let ?lead = "if 24 \<le> ?g then 8 + ?g div 4 mod 2 else ?g mod 8"
  note f = decfloat_fits_fields [OF fmt fits, folded lead_def hi_def]
  note g = ieee_comb_read [OF f(6,1)]
  note dec = decFloat_unpack_fields [OF fmt fits g(1)]
  have enc: "ieee_encode bias groups expBits maxDigits nBytes d = be_put nBytes
      (fields_word (groups * 10) expBits (if Unscaled d < 0 then 1 else 0) ?g
        (nat (bias - dScale d) mod 2 ^ expBits) (decFloat_coeff groups (tl (coeff_digits maxDigits d))))"
    by (simp add: ieee_encode_def Let_def lead_def hi_def)
  show "length (ieee_encode bias groups expBits maxDigits nBytes d) = nBytes"
    by (simp add: ieee_encode_def Let_def)
  have hi': "?hi = hi" if "int32 (bias - (?e + 2 ^ expBits * int ?hi)) = dScale d"
  proof -
    have "?hi \<le> 3" using g(1) by auto
    then show ?thesis using f(6) that int32_shift_cancel [OF x, of hi ?hi bias ?e "dScale d"] f(7,8) by simp
  qed
  show "decFloat_unpack bias groups expBits (ieee_encode bias groups expBits maxDigits nBytes d)
       = (Some d, Unscaled d < 0, decFloatFinite) \<longleftrightarrow> lead \<le> 7 \<or> lead = 8 \<and> hi = 0"
  proof (cases "?g < 28 \<and> ?hi = hi \<and> ?lead = lead")
    case True
    then have r: "\<not> 28 \<le> ?g" "?hi = hi" "?lead = lead" by auto
    have "lead \<le> 7 \<or> lead = 8 \<and> hi = 0" using g(2) True by blast
    then show ?thesis
      unfolding enc dec r(2,3) using r(1) f(4,5,7,8) by (simp add: Let_def)
  next
    case False
    then have "\<not> (lead \<le> 7 \<or> lead = 8 \<and> hi = 0)" using g(2) by blast
    moreover have "28 \<le> ?g \<or> ?hi \<noteq> hi" using False g(3) by linarith
    ultimately show ?thesis
      unfolding enc dec using hi' by (cases "28 \<le> ?g"; cases d) (auto simp only: Let_def if_True if_False prod.inject option.simps Decimal.simps Decimal.ext_inject)
  qed
qed

section \<open>Properties\<close>

text \<open>
  C34: every decimal that fits the format and whose leading coefficient digit is at most 8 is
  encoded (\<open>FillBytes\<close> does not panic) to 8 or 16 bytes that decode to exactly that
  coefficient, scale and sign.
\<close>

theorem decodeDecFloat_encodeDecFloat:
  "(decfloat_fits 398 8 16 d \<and> hd (coeff_digits 16 d) \<le> 8 \<longrightarrow>
      (\<exists>b. encodeDecFloat d 8 = Some b \<and> length b = 8
           \<and> decodeDecFloat b = (Some d, Unscaled d < 0, decFloatFinite))) \<and>
   (decfloat_fits 6176 12 34 d \<and> hd (coeff_digits 34 d) \<le> 8 \<longrightarrow>
      (\<exists>b. encodeDecFloat d 16 = Some b \<and> length b = 16
           \<and> decodeDecFloat b = (Some d, Unscaled d < 0, decFloatFinite)))"
  using decFloat_roundtrip [OF formats(1), of 398 d] decFloat_roundtrip [OF formats(2), of 6176 d]
  by (auto simp: encodeDecFloat_def decodeDecFloat_def)

theorem decodeDecFloat_encodeDecFloat_witness:
  "\<exists>b. encodeDecFloat \<lparr>Unscaled = - 12345, dScale = 2\<rparr> 8 = Some b \<and> length b = 8
      \<and> decodeDecFloat b = (Some \<lparr>Unscaled = - 12345, dScale = 2\<rparr>, True, decFloatFinite)"
  using decodeDecFloat_encodeDecFloat [of "\<lparr>Unscaled = - 12345, dScale = 2\<rparr>"]
  by (simp add: decfloat_fits_def coeff_digits_def nat_digits.simps)

text \<open>
  For a leading digit of at most 7 the bytes are exactly those of IEEE 754-2008.
\<close>

theorem encodeDecFloat_ieee:
  "(decfloat_fits 398 8 16 d \<and> hd (coeff_digits 16 d) \<le> 7 \<longrightarrow>
      encodeDecFloat d 8 = Some (ieee_encode 398 5 8 16 8 d)) \<and>
   (decfloat_fits 6176 12 34 d \<and> hd (coeff_digits 34 d) \<le> 7 \<longrightarrow>
      encodeDecFloat d 16 = Some (ieee_encode 6176 11 12 34 16 d))"
proof -
  have comb: "code_comb hi lead = ieee_comb hi lead" if "lead \<le> 7" for hi lead
    using that by (simp add: code_comb_def ieee_comb_def)
  show ?thesis
    using decFloat_pack_word [OF formats(1), of 398 d] decFloat_pack_word [OF formats(2), of 6176 d]
    by (auto simp: encodeDecFloat_def ieee_encode_def Let_def comb)
qed

theorem encodeDecFloat_ieee_witness:
  "encodeDecFloat \<lparr>Unscaled = 7, dScale = - 1\<rparr> 8 = Some (ieee_encode 398 5 8 16 8 \<lparr>Unscaled = 7, dScale = - 1\<rparr>)"
  using encodeDecFloat_ieee [of "\<lparr>Unscaled = 7, dScale = - 1\<rparr>"]
  by (simp add: decfloat_fits_def coeff_digits_def nat_digits.simps)

text \<open>
  Reading what a conforming server sends: the bytes of the standard decode to their
  value exactly when the leading digit is at most 7, or is 8 with the two high exponent
  bits zero.  For every other decimal with leading digit 8 or 9 the result is wrong.
\<close>

theorem decodeDecFloat_ieee_iff:
  "decfloat_fits 398 8 16 d \<longrightarrow>
     (decodeDecFloat (ieee_encode 398 5 8 16 8 d) = (Some d, Unscaled d < 0, decFloatFinite)
        \<longleftrightarrow> hd (coeff_digits 16 d) \<le> 7
           \<or> hd (coeff_digits 16 d) = 8 \<and> nat (398 - dScale d) div 256 = 0)"
  using ieee_decode_iff [OF formats(1), of 398 d, simplified]
  by (auto simp: decodeDecFloat_def ieee_encode_def Let_def)

theorem decodeDecFloat_ieee_iff_witness:
  "decodeDecFloat (ieee_encode 398 5 8 16 8 \<lparr>Unscaled = 9999999999999999, dScale = 0\<rparr>)
     \<noteq> (Some \<lparr>Unscaled = 9999999999999999, dScale = 0\<rparr>, False, decFloatFinite)"
  using decodeDecFloat_ieee_iff [of "\<lparr>Unscaled = 9999999999999999, dScale = 0\<rparr>"]
  by (simp add: decfloat_fits_def coeff_digits_def nat_digits.simps)

end
