(* ===== verification/Drda_Reader.thy ===== *)
theory Drda_Reader
  imports Drda_Values
begin

text \<open>
  \<open>byteReader\<close> (\<^verbatim>\<open>internal/drda/sqlca.go\<close>): the bounds-checked cursor every
  reply parser runs on, as operations of the state monad.  An error is sticky: once set,
  reads return nil or zero and the position does not move.  Two calculi carry the parser
  proofs.  \<open>stable w m\<close> says that \<open>m\<close> stays within the buffer, keeps an error, and that
  a run that did not hit the end of the buffer is the same on every longer buffer;
  \<open>reads le sbc m bs a\<close> says that \<open>m\<close> consumes exactly \<open>bs\<close> and returns \<open>a\<close>.
  Both are closed under sequencing.

  Every length the code passes to \<open>take\<close> comes from an unsigned value, so the guard
  against a negative length never fires and lengths are natural numbers.
\<close>

named_theorems reader_intros "stability of reader operations"
named_theorems reads_intros "what reader operations consume and return"

section \<open>The cursor\<close>

datatype reader_error =
    TruncatedReply nat nat nat
  | UnsupportedFdoca byte

record byteReader =
  rb :: bytes
  rpos :: nat
  rerr :: "reader_error option"
  rle :: bool
  rtrunc :: bool
  rsbc :: "16 word"

definition new_reader :: "bytes \<Rightarrow> bool \<Rightarrow> 16 word \<Rightarrow> byteReader" where
  "new_reader b le sbc = \<lparr>rb = b, rpos = 0, rerr = None, rle = le, rtrunc = False, rsbc = sbc\<rparr>"

definition reader_fail :: "reader_error \<Rightarrow> byteReader \<Rightarrow> byteReader" where
  "reader_fail e r = (if rerr r = None then r\<lparr>rerr := Some e\<rparr> else r)"

definition remaining :: "byteReader \<Rightarrow> nat" where
  "remaining r = length (rb r) - rpos r"

definition reader_take :: "nat \<Rightarrow> (byteReader, bytes option) state" where
  "reader_take n = State (\<lambda>r.
     if rerr r \<noteq> None then (None, r)
     else if length (rb r) < rpos r + n then
       (None, reader_fail (TruncatedReply n (rpos r) (length (rb r))) (r\<lparr>rtrunc := True\<rparr>))
     else (Some (take n (drop (rpos r) (rb r))), r\<lparr>rpos := rpos r + n\<rparr>))"

text \<open>Reading the reader's own flags.\<close>

definition reader_le :: "(byteReader, bool) state" where
  "reader_le = State (\<lambda>r. (rle r, r))"

definition reader_sbc :: "(byteReader, 16 word) state" where
  "reader_sbc = State (\<lambda>r. (rsbc r, r))"

definition reader_u8 :: "(byteReader, byte) state" where
  "reader_u8 = do {
     v \<leftarrow> reader_take 1;
     State_Monad.return (case v of None \<Rightarrow> 0 | Some b \<Rightarrow> b ! 0)
   }"

definition reader_u16 :: "(byteReader, 16 word) state" where
  "reader_u16 = do {
     v \<leftarrow> reader_take 2;
     le \<leftarrow> reader_le;
     State_Monad.return
       (case v of None \<Rightarrow> 0 | Some b \<Rightarrow> if le then LE_Uint16 b else BE_Uint16 b)
   }"

definition reader_u16BE :: "(byteReader, 16 word) state" where
  "reader_u16BE = do {
     v \<leftarrow> reader_take 2;
     State_Monad.return (case v of None \<Rightarrow> 0 | Some b \<Rightarrow> BE_Uint16 b)
   }"

definition reader_i32 :: "(byteReader, 32 word) state" where
  "reader_i32 = do {
     v \<leftarrow> reader_take 4;
     le \<leftarrow> reader_le;
     State_Monad.return
       (case v of None \<Rightarrow> 0 | Some b \<Rightarrow> if le then LE_Uint32 b else BE_Uint32 b)
   }"

definition reader_u64 :: "(byteReader, 64 word) state" where
  "reader_u64 = do {
     v \<leftarrow> reader_take 8;
     le \<leftarrow> reader_le;
     State_Monad.return
       (case v of None \<Rightarrow> 0 | Some b \<Rightarrow> if le then LE_Uint64 b else BE_Uint64 b)
   }"

section \<open>Stability\<close>

definition reader_wf :: "byteReader \<Rightarrow> bool" where
  "reader_wf r \<longleftrightarrow> rpos r \<le> length (rb r) \<and> (rtrunc r \<longrightarrow> rerr r \<noteq> None)"

definition reader_ext :: "bytes \<Rightarrow> byteReader \<Rightarrow> byteReader" where
  "reader_ext x r = r\<lparr>rb := rb r @ x\<rparr>"

definition reader_step :: "byteReader \<Rightarrow> byteReader \<Rightarrow> bool" where
  "reader_step r r' \<longleftrightarrow>
     reader_wf r' \<and> rb r' = rb r \<and> rle r' = rle r \<and> rsbc r' = rsbc r \<and> rpos r \<le> rpos r'
       \<and> (rerr r \<noteq> None \<longrightarrow> rerr r' = rerr r \<and> rtrunc r' = rtrunc r) \<and> (rtrunc r \<longrightarrow> rtrunc r')"

text \<open>
  With the flag \<open>w\<close> the law is the weaker one of parsers that test whether anything
  remains: the run must also have stopped before the end of the buffer.
\<close>

definition stable :: "bool \<Rightarrow> (byteReader, 'a) state \<Rightarrow> bool" where
  "stable w m \<longleftrightarrow>
     (\<forall>r a r'. reader_wf r \<longrightarrow> run_state m r = (a, r') \<longrightarrow>
        reader_step r r' \<and>
        (\<not> rtrunc r' \<longrightarrow> (w \<longrightarrow> rpos r' < length (rb r')) \<longrightarrow>
           (\<forall>x. run_state m (reader_ext x r) = (a, reader_ext x r'))))"

lemma reader_wf_new [simp]: "reader_wf (new_reader b le sbc)"
  by (simp add: reader_wf_def new_reader_def)

lemma reader_ext_sel [simp]:
  "rb (reader_ext x r) = rb r @ x" "rpos (reader_ext x r) = rpos r" "rerr (reader_ext x r) = rerr r"
  "rle (reader_ext x r) = rle r" "rtrunc (reader_ext x r) = rtrunc r" "rsbc (reader_ext x r) = rsbc r"
  by (simp_all add: reader_ext_def)

lemma reader_ext_new: "reader_ext x (new_reader b le sbc) = new_reader (b @ x) le sbc"
  by (simp add: reader_ext_def new_reader_def)

lemma reader_step_refl [simp]: "reader_step r r = reader_wf r"
  by (simp add: reader_step_def)

lemma reader_step_trans: "reader_step r r' \<Longrightarrow> reader_step r' r'' \<Longrightarrow> reader_step r r''"
  by (auto simp: reader_step_def)

lemma stableD:
  assumes "stable w m" "reader_wf r" "run_state m r = (a, r')"
  shows "reader_step r r'" "reader_wf r'"
    "\<not> rtrunc r' \<Longrightarrow> (w \<Longrightarrow> rpos r' < length (rb r')) \<Longrightarrow> run_state m (reader_ext x r) = (a, reader_ext x r')"
  using assms unfolding stable_def reader_step_def by blast+

lemma stable_return [reader_intros]: "stable w (State_Monad.return a)"
  by (simp add: stable_def)

lemma stable_bind [reader_intros]:
  assumes m: "stable w m" and f: "\<And>a. stable w (f a)"
  shows "stable w (State_Monad.bind m f)"
  unfolding stable_def
proof (intro allI impI)
  fix r b r'
  assume wf: "reader_wf r" and run: "run_state (State_Monad.bind m f) r = (b, r')"
  obtain a r1 where 1: "run_state m r = (a, r1)" by fastforce
  then have 2: "run_state (f a) r1 = (b, r')" using run by simp
  note s1 = stableD [OF m wf 1] and s2 = stableD [OF f stableD(2) [OF m wf 1] 2]
  have "\<not> rtrunc r' \<Longrightarrow> \<not> rtrunc r1" "rb r1 = rb r'" "rpos r1 \<le> rpos r'"
    using s2(1) by (auto simp: reader_step_def)
  then show "reader_step r r' \<and>
      (\<not> rtrunc r' \<longrightarrow> (w \<longrightarrow> rpos r' < length (rb r')) \<longrightarrow> (\<forall>x. run_state (State_Monad.bind m f) (reader_ext x r) = (b, reader_ext x r')))"
    using reader_step_trans [OF s1(1) s2(1)] s1(3) s2(3) by auto
qed

lemma stable_if [reader_intros]: "stable w m \<Longrightarrow> stable w n \<Longrightarrow> stable w (if c then m else n)"
  by simp

lemma stable_case_option [reader_intros]:
  "stable w m \<Longrightarrow> (\<And>a. stable w (f a)) \<Longrightarrow> stable w (case x of None \<Rightarrow> m | Some a \<Rightarrow> f a)"
  by (cases x) auto

lemma stable_let [reader_intros]: "stable w (f a) \<Longrightarrow> stable w (let x = a in f x)"
  by simp

lemma stable_take [reader_intros]: "stable w (reader_take n)"
  by (auto simp: stable_def reader_take_def reader_fail_def reader_step_def reader_wf_def reader_ext_def
      split: if_splits)

lemma stable_flags [reader_intros]: "stable w reader_le" "stable w reader_sbc"
  by (auto simp: stable_def reader_le_def reader_sbc_def)

lemma stable_fail [reader_intros]: "stable w (State (\<lambda>r. (a, reader_fail e r)))"
  by (auto simp: stable_def reader_fail_def reader_step_def reader_wf_def reader_ext_def)

lemma stable_u [reader_intros]:
  "stable w reader_u8" "stable w reader_u16" "stable w reader_u16BE" "stable w reader_i32" "stable w reader_u64"
  unfolding reader_u8_def reader_u16_def reader_u16BE_def reader_i32_def reader_u64_def
  by (intro reader_intros)+

section \<open>Consuming an encoding\<close>

definition reads ::
  "bool \<Rightarrow> 16 word \<Rightarrow> (byteReader, 'a) state \<Rightarrow> bytes \<Rightarrow> 'a \<Rightarrow> bool" where
  "reads le sbc m bs a \<longleftrightarrow>
     (\<forall>r rest. rerr r = None \<longrightarrow> rle r = le \<longrightarrow> rsbc r = sbc \<longrightarrow> rpos r \<le> length (rb r) \<longrightarrow>
        drop (rpos r) (rb r) = bs @ rest \<longrightarrow>
        run_state m r = (a, r\<lparr>rpos := rpos r + length bs\<rparr>))"

lemma reads_return [reads_intros]: "reads le sbc (State_Monad.return a) [] a"
  by (simp add: reads_def)

lemma reads_bind:
  assumes m: "reads le sbc m bs a" and f: "reads le sbc (f a) cs b"
  shows "reads le sbc (State_Monad.bind m f) (bs @ cs) b"
  unfolding reads_def
proof (intro allI impI)
  fix r :: byteReader and rest
  assume r: "rerr r = None" "rle r = le" "rsbc r = sbc" "rpos r \<le> length (rb r)"
    and d: "drop (rpos r) (rb r) = (bs @ cs) @ rest"
  let ?r = "r\<lparr>rpos := rpos r + length bs\<rparr>"
  have len: "length (rb r) = rpos r + length bs + length cs + length rest"
    using arg_cong [OF d, of length] r(4) by simp
  have "drop (rpos ?r) (rb ?r) = cs @ rest"
    using arg_cong [OF d, of "drop (length bs)"] by (simp add: add.commute)
  then have "run_state (f a) ?r = (b, ?r\<lparr>rpos := rpos ?r + length cs\<rparr>)"
    using f r len unfolding reads_def by fastforce
  moreover have "run_state m r = (a, ?r)" using m r d unfolding reads_def by fastforce
  ultimately show "run_state (State_Monad.bind m f) r = (b, r\<lparr>rpos := rpos r + length (bs @ cs)\<rparr>)"
    by (simp add: add.assoc)
qed

text \<open>The rules for straight-line parsers: the first field, then the rest of the encoding.\<close>

lemma reads_bind_return [reads_intros]:
  "reads le sbc m bs a \<Longrightarrow> reads le sbc (f a) [] b \<Longrightarrow> reads le sbc (State_Monad.bind m f) bs b"
  using reads_bind [of le sbc m bs a f "[]" b] by simp

lemma reads_take [reads_intros]: "length bs = n \<Longrightarrow> reads le sbc (reader_take n) bs (Some bs)"
proof -
  have "rpos r + length bs \<le> length (rb r)"
    if "rpos r \<le> length (rb r)" "drop (rpos r) (rb r) = bs @ rest" for r :: byteReader and rest
    using arg_cong [OF that(2), of length] that(1) by simp
  then show "length bs = n \<Longrightarrow> reads le sbc (reader_take n) bs (Some bs)"
    by (fastforce simp: reads_def reader_take_def)
qed

lemma reads_flags [reads_intros]: "reads le sbc reader_le [] le" "reads le sbc reader_sbc [] sbc"
  by (simp_all add: reads_def reader_le_def reader_sbc_def)

definition put16 :: "bool \<Rightarrow> 16 word \<Rightarrow> bytes" where
  "put16 le w = (if le then LE_Put16 w else BE_Put16 w)"

definition put32 :: "bool \<Rightarrow> 32 word \<Rightarrow> bytes" where
  "put32 le w = (if le then LE_Put32 w else BE_Put32 w)"

definition put64 :: "bool \<Rightarrow> 64 word \<Rightarrow> bytes" where
  "put64 le w = (if le then LE_Put64 w else BE_Put64 w)"

lemma length_put [simp]: "length (put16 le w) = 2" "length (put32 le x) = 4" "length (put64 le y) = 8"
  by (simp_all add: put16_def put32_def put64_def)

lemma reads_take_then:
  assumes "length bs = n" "f (Some bs) = State_Monad.return a"
  shows "reads le sbc (State_Monad.bind (reader_take n) f) bs a"
  using assms by (auto intro!: reads_bind_return reads_take reads_return simp: reads_return)

lemma reads_u8 [reads_intros]: "reads le sbc reader_u8 [b] b"
  unfolding reader_u8_def by (rule reads_take_then) auto

lemma reads_u16BE [reads_intros]: "reads le sbc reader_u16BE (BE_Put16 w) w"
  unfolding reader_u16BE_def by (rule reads_take_then) auto

lemma reads_endian:
  assumes "length bs = n" "g le (Some bs) = a"
  shows "reads le sbc (do { v \<leftarrow> reader_take n; l \<leftarrow> reader_le; State_Monad.return (g l v) }) bs a"
  using assms by (auto intro!: reads_bind_return reads_take reads_flags reads_return simp: reads_return)

lemma reads_u [reads_intros]:
  "reads le sbc reader_u16 (put16 le w) w" "reads le sbc reader_i32 (put32 le x) x"
  "reads le sbc reader_u64 (put64 le y) y"
  unfolding reader_u16_def reader_i32_def reader_u64_def
  by (rule reads_endian, simp, simp add: put16_def put32_def put64_def)+

lemma reads_new:
  assumes "reads le sbc m bs a"
  shows "run_state m (new_reader (bs @ rest) le sbc) = (a, (new_reader (bs @ rest) le sbc)\<lparr>rpos := length bs\<rparr>)"
  using assms unfolding reads_def new_reader_def by force

end
