(* ===== verification/Drda_SQLCA.thy ===== *)
theory Drda_SQLCA
  imports Drda_Reader
begin

text \<open>
  The SQL communications area (\<^verbatim>\<open>internal/drda/sqlca.go\<close>): the length-prefixed
  strings, the ASCII/EBCDIC heuristics and the SQLCAGRP parser.

  \<open>readableScore\<close> is a quotient of two counts; as the texts are shorter than 65536
  bytes, the float64 comparison of two such quotients agrees with the exact one, which
  the model decides by cross-multiplication.
\<close>

section \<open>Text heuristics\<close>

definition decodeEBCDICText :: "bytes \<Rightarrow> string" where
  "decodeEBCDICText b = DecodeEBCDIC b"

definition readable_rune :: "rune \<Rightarrow> bool" where
  "readable_rune r \<longleftrightarrow>
     97 \<le> r \<and> r \<le> 122 \<or> 65 \<le> r \<and> r \<le> 90 \<or> 48 \<le> r \<and> r \<le> 57
       \<or> r \<in> {32, 46, 44, 95, 45, 34, 39}"

text \<open>The score as numerator and denominator; the empty string scores 0.\<close>

definition readableScore :: "string \<Rightarrow> nat \<times> nat" where
  "readableScore s =
     (if s = [] then (0, 1)
      else (length (filter readable_rune (str_runes s)), length (str_runes s)))"

definition score_ge :: "nat \<times> nat \<Rightarrow> nat \<times> nat \<Rightarrow> bool" where
  "score_ge p q \<longleftrightarrow> fst q * snd p \<le> fst p * snd q"

definition hasHigh :: "bytes \<Rightarrow> bool" where
  "hasHigh b \<longleftrightarrow> (\<exists>c \<in> set b. 0x80 \<le> c)"

definition decodeMixed :: "bytes \<Rightarrow> string" where
  "decodeMixed b =
     (if \<not> hasHigh b then bytes_str b
      else
        let ebc = decodeEBCDICText b in
        if utf8_Valid b \<and> score_ge (readableScore (bytes_str b)) (readableScore ebc)
        then bytes_str b else ebc)"

definition decodeFixedText :: "bytes \<Rightarrow> string" where
  "decodeFixedText b = (if hasHigh b then decodeEBCDICText b else bytes_str b)"

section \<open>Length-prefixed strings\<close>

definition or_nil :: "bytes option \<Rightarrow> bytes" where
  "or_nil v = (case v of None \<Rightarrow> [] | Some b \<Rightarrow> b)"

definition decodeVCS :: "16 word \<Rightarrow> bytes \<Rightarrow> string" where
  "decodeVCS sbc b =
     (if sbc \<noteq> 0 \<and> sbc \<noteq> 1208 \<and> IsEBCDIC sbc then DecodeCCSID b sbc else decodeMixed b)"

definition vcs :: "(byteReader, string) state" where
  "vcs = do {
     n \<leftarrow> reader_u16BE;
     if n = 0 then State_Monad.return ''''
     else do {
       b \<leftarrow> reader_take (unat n);
       sbc \<leftarrow> reader_sbc;
       State_Monad.return (decodeVCS sbc (or_nil b))
     }
   }"

definition vcsTokens :: "(byteReader, string) state" where
  "vcsTokens = do {
     n \<leftarrow> reader_u16BE;
     if n = 0 then State_Monad.return ''''
     else do {
       b \<leftarrow> reader_take (unat n);
       sbc \<leftarrow> reader_sbc;
       State_Monad.return (join_with '', '' (map (decodeVCS sbc) (split_on 0xFF (or_nil b))))
     }
   }"

definition vcmOrVcs :: "(byteReader, string) state" where
  "vcmOrVcs = do {
     m \<leftarrow> vcs;
     s \<leftarrow> vcs;
     State_Monad.return (if m \<noteq> '''' then m else s)
   }"

section \<open>SQLCA\<close>

record SQLCA =
  SQLCode :: "32 word"
  SQLState :: string
  SQLErrp :: string
  SQLErrd :: "32 word list"
  SQLWarn :: bytes
  RDBName :: string
  Message :: string

definition zero_SQLCA :: SQLCA where
  "zero_SQLCA = \<lparr>SQLCode = 0, SQLState = '''', SQLErrp = '''', SQLErrd = replicate 6 0,
     SQLWarn = replicate 11 0, RDBName = '''', Message = ''''\<rparr>"

definition SQLCA_Error :: "SQLCA \<Rightarrow> string" where
  "SQLCA_Error s =
     ''SQLCODE='' @ int_str (sint (SQLCode s)) @ '' SQLSTATE='' @ SQLState s @ '': ''
       @ (if Message s = '''' then ''SQL error'' else Message s)"

text \<open>A nil receiver is \<open>None\<close>.\<close>

definition IsError :: "SQLCA option \<Rightarrow> bool" where
  "IsError s \<longleftrightarrow> (case s of None \<Rightarrow> False | Some ca \<Rightarrow> sint (SQLCode ca) < 0)"

definition IsWarning :: "SQLCA option \<Rightarrow> bool" where
  "IsWarning s \<longleftrightarrow> (case s of None \<Rightarrow> False | Some ca \<Rightarrow> sint (SQLCode ca) > 0)"

definition RowCount :: "SQLCA option \<Rightarrow> int" where
  "RowCount s = (case s of None \<Rightarrow> 0 | Some ca \<Rightarrow> sint (SQLErrd ca ! 2))"

fun reader_i32s :: "nat \<Rightarrow> (byteReader, 32 word list) state" where
  "reader_i32s 0 = State_Monad.return []"
| "reader_i32s (Suc n) = do { x \<leftarrow> reader_i32; xs \<leftarrow> reader_i32s n; State_Monad.return (x # xs) }"

text \<open>SQLCAXGRP.\<close>

definition parseSQLCAXGRP :: "SQLCA \<Rightarrow> (byteReader, SQLCA) state" where
  "parseSQLCAXGRP ca = do {
     errd \<leftarrow> reader_i32s 6;
     warn \<leftarrow> reader_take 11;
     rdb \<leftarrow> vcs;
     msgM \<leftarrow> vcsTokens;
     msgS \<leftarrow> vcsTokens;
     State_Monad.return
       (ca\<lparr>SQLErrd := errd, SQLWarn := (case warn of None \<Rightarrow> SQLWarn ca | Some w \<Rightarrow> w), RDBName := rdb,
           Message := (if msgM = '''' then msgS else msgM)\<rparr>)
   }"

text \<open>
  SQLDIAGGRP: a null flag is consumed; after any other the rest of the buffer is given up.
\<close>

definition skipSQLDIAGGRP :: "(byteReader, unit) state" where
  "skipSQLDIAGGRP = State (\<lambda>r.
     if 0 < remaining r then
       (case run_state reader_u8 r of
          (f, r1) \<Rightarrow> if f \<noteq> 0xFF then ((), r1\<lparr>rpos := length (rb r1)\<rparr>) else ((), r1))
     else ((), r))"

definition parseSQLCAGRP :: "(byteReader, SQLCA option) state" where
  "parseSQLCAGRP = do {
     f \<leftarrow> reader_u8;
     if f = 0xFF then State_Monad.return None
     else do {
       code \<leftarrow> reader_i32;
       st \<leftarrow> reader_take 5;
       errp \<leftarrow> reader_take 8;
       x \<leftarrow> reader_u8;
       let ca = zero_SQLCA\<lparr>SQLCode := code, SQLState := decodeFixedText (or_nil st),
                  SQLErrp := trimRightSet '' '' (decodeFixedText (or_nil errp))\<rparr>;
       ca1 \<leftarrow> (if x \<noteq> 0xFF then parseSQLCAXGRP ca else State_Monad.return ca);
       skipSQLDIAGGRP;
       State_Monad.return (Some ca1)
     }
   }"

definition ParseSQLCARD :: "bytes \<Rightarrow> bool \<Rightarrow> reader_error + SQLCA option" where
  "ParseSQLCARD body littleEndian =
     (case run_state parseSQLCAGRP (new_reader body littleEndian 0) of
        (ca, r) \<Rightarrow> (case rerr r of Some e \<Rightarrow> Inl e | None \<Rightarrow> Inr ca))"

section \<open>Stability\<close>

lemma stable_vcs [reader_intros]: "stable w vcs" "stable w vcsTokens" "stable w vcmOrVcs"
proof -
  show v: "stable w vcs" unfolding vcs_def by (intro reader_intros)
  show "stable w vcsTokens" unfolding vcsTokens_def by (intro reader_intros)
  show "stable w vcmOrVcs" unfolding vcmOrVcs_def by (intro reader_intros v)
qed

lemma stable_i32s [reader_intros]: "stable w (reader_i32s n)"
  by (induction n) (auto intro!: reader_intros)

lemma stable_SQLCAXGRP [reader_intros]: "stable w (parseSQLCAXGRP ca)"
  unfolding parseSQLCAXGRP_def by (intro reader_intros)

lemma stable_skipSQLDIAGGRP [reader_intros]: "stable True skipSQLDIAGGRP"
  unfolding stable_def
proof (intro allI impI)
  fix r a r'
  assume wf: "reader_wf r" and run: "run_state skipSQLDIAGGRP r = (a, r')"
  obtain f r1 where u8: "run_state reader_u8 r = (f, r1)" by fastforce
  note s = stableD [OF stable_u(1) wf u8]
  have step: "reader_step r r'"
    using run s(1) wf u8
    by (auto simp: skipSQLDIAGGRP_def reader_step_def reader_wf_def split: if_splits)
  moreover have "run_state skipSQLDIAGGRP (reader_ext x r) = (a, reader_ext x r')"
    if "\<not> rtrunc r'" "True \<longrightarrow> rpos r' < length (rb r')" for x
  proof -
    have "0 < remaining r" "f = 0xFF" "r' = r1"
      using run u8 that wf s(1)
      by (auto simp: skipSQLDIAGGRP_def remaining_def reader_wf_def split: if_splits)
    moreover have "0 < remaining (reader_ext x r)"
      using \<open>0 < remaining r\<close> by (simp add: remaining_def)
    ultimately show ?thesis
      using s(3) [of False x] that by (simp add: skipSQLDIAGGRP_def)
  qed
  ultimately show "reader_step r r' \<and> (\<not> rtrunc r' \<longrightarrow> (True \<longrightarrow> rpos r' < length (rb r')) \<longrightarrow>
      (\<forall>x. run_state skipSQLDIAGGRP (reader_ext x r) = (a, reader_ext x r')))"
    by blast
qed

lemma stable_SQLCAGRP [reader_intros]: "stable True parseSQLCAGRP"
  unfolding parseSQLCAGRP_def by (intro reader_intros)

text \<open>
  Everything before the diagnostics flag is stable without the restriction, so the SQLCA
  itself does not depend on what follows it.
\<close>

definition parseSQLCA_fields :: "(byteReader, SQLCA option) state" where
  "parseSQLCA_fields = do {
     f \<leftarrow> reader_u8;
     if f = 0xFF then State_Monad.return None
     else do {
       code \<leftarrow> reader_i32;
       st \<leftarrow> reader_take 5;
       errp \<leftarrow> reader_take 8;
       x \<leftarrow> reader_u8;
       let ca = zero_SQLCA\<lparr>SQLCode := code, SQLState := decodeFixedText (or_nil st),
                  SQLErrp := trimRightSet '' '' (decodeFixedText (or_nil errp))\<rparr>;
       ca1 \<leftarrow> (if x \<noteq> 0xFF then parseSQLCAXGRP ca else State_Monad.return ca);
       State_Monad.return (Some ca1)
     }
   }"

lemma stable_SQLCA_fields [reader_intros]: "stable w parseSQLCA_fields"
  unfolding parseSQLCA_fields_def by (intro reader_intros)

lemma parseSQLCAGRP_fields:
  "parseSQLCAGRP = do {
     v \<leftarrow> parseSQLCA_fields;
     (case v of None \<Rightarrow> State_Monad.return None
      | Some ca \<Rightarrow> do { skipSQLDIAGGRP; State_Monad.return (Some ca) })
   }"
  by (rule state_ext)
     (simp add: parseSQLCAGRP_def parseSQLCA_fields_def Let_def split: prod.split)

lemma skipSQLDIAGGRP_err:
  "reader_wf r \<Longrightarrow> rerr r = None \<longleftrightarrow> rerr (snd (run_state skipSQLDIAGGRP r)) = None"
  by (auto simp: skipSQLDIAGGRP_def remaining_def reader_u8_def reader_take_def reader_wf_def
      split: if_splits prod.splits)

lemma parseSQLCAGRP_value_ext:
  assumes wf: "reader_wf r" and run: "run_state parseSQLCAGRP r = (ca, r')" and ok: "rerr r' = None"
  shows "\<exists>r''. run_state parseSQLCAGRP (reader_ext x r) = (ca, r'') \<and> rerr r'' = None"
proof -
  obtain v r1 where v: "run_state parseSQLCA_fields r = (v, r1)" by fastforce
  note s = stableD [OF stable_SQLCA_fields [of False] wf v]
  have fst: "v = ca" and err: "rerr r1 = None"
    using run ok v skipSQLDIAGGRP_err [OF s(2)]
    by (auto simp: parseSQLCAGRP_fields split: option.splits prod.splits)
  then have "\<not> rtrunc r1" using s(2) by (auto simp: reader_wf_def)
  then have "run_state parseSQLCA_fields (reader_ext x r) = (ca, reader_ext x r1)" using s(3) fst by simp
  moreover have "reader_wf (reader_ext x r1)" using s(2) by (auto simp: reader_wf_def)
  ultimately show ?thesis
    using err skipSQLDIAGGRP_err [of "reader_ext x r1"]
    by (auto simp: parseSQLCAGRP_fields split: option.splits prod.splits)
qed

text \<open>Truncation is the only error the SQLCAGRP parser can set.\<close>

definition trunc_only :: "byteReader \<Rightarrow> bool" where
  "trunc_only r \<longleftrightarrow> rerr r = None \<or> rtrunc r"

definition only_truncates :: "(byteReader, 'a) state \<Rightarrow> bool" where
  "only_truncates m \<longleftrightarrow> (\<forall>r. trunc_only r \<longrightarrow> trunc_only (snd (run_state m r)))"

named_theorems trunc_intros "operations that fail only by truncation"

lemma only_truncates_bind [trunc_intros]:
  "only_truncates m \<Longrightarrow> (\<And>a. only_truncates (f a)) \<Longrightarrow> only_truncates (m \<bind> f)"
  by (simp add: only_truncates_def split: prod.split) (metis snd_conv)

lemma only_truncates_if [trunc_intros]:
  "only_truncates m \<Longrightarrow> only_truncates n \<Longrightarrow> only_truncates (if c then m else n)"
  by simp

lemma only_truncates_basic [trunc_intros]:
  "only_truncates (State_Monad.return a)" "only_truncates reader_le" "only_truncates reader_sbc"
  by (simp_all add: only_truncates_def reader_le_def reader_sbc_def)

lemma only_truncates_take [trunc_intros]: "only_truncates (reader_take n)"
  by (simp add: only_truncates_def trunc_only_def reader_take_def reader_fail_def)

lemma only_truncates_u [trunc_intros]:
  "only_truncates reader_u8" "only_truncates reader_u16BE" "only_truncates reader_i32"
  unfolding reader_u8_def reader_u16BE_def reader_i32_def by (intro trunc_intros)+

lemma only_truncates_vcs [trunc_intros]: "only_truncates vcs" "only_truncates vcsTokens"
  unfolding vcs_def vcsTokens_def by (intro trunc_intros)+

lemma only_truncates_i32s [trunc_intros]: "only_truncates (reader_i32s n)"
  by (induction n) (auto intro!: trunc_intros)

lemma only_truncates_diag [trunc_intros]: "only_truncates skipSQLDIAGGRP"
  using only_truncates_u(1)
  by (simp add: only_truncates_def skipSQLDIAGGRP_def trunc_only_def split: prod.split) (metis snd_conv)

lemma only_truncates_SQLCAGRP: "only_truncates parseSQLCAGRP"
  unfolding parseSQLCAGRP_def parseSQLCAXGRP_def Let_def by (intro trunc_intros)

lemma parseSQLCAGRP_error:
  "run_state parseSQLCAGRP (new_reader b le sbc) = (ca, r') \<Longrightarrow> rerr r' \<noteq> None \<Longrightarrow> rtrunc r'"
  using only_truncates_SQLCAGRP unfolding only_truncates_def trunc_only_def
  by (metis new_reader_def byteReader.select_convs(3) snd_conv)

section \<open>ASCII and EBCDIC text\<close>

lemma ascii_not_high: "is_ascii s \<Longrightarrow> \<not> hasHigh (str_bytes s)"
  using of_char_less_256
  by (auto simp: is_ascii_def hasHigh_def str_bytes_def char_byte_def word_le_nat_alt unat_of_nat)

lemma decode_ascii [text_simps]:
  "is_ascii s \<Longrightarrow> decodeMixed (str_bytes s) = s" "is_ascii s \<Longrightarrow> decodeFixedText (str_bytes s) = s"
  by (simp_all add: decodeMixed_def decodeFixedText_def ascii_not_high)

lemma decodeMixed_Nil [simp]: "decodeMixed [] = ''''"
  by (simp add: decodeMixed_def hasHigh_def bytes_str_def)

text \<open>A rune below 128 covers exactly its own byte; so a text with a high byte has a high rune.\<close>

lemma utf8_step_ascii: "utf8_step s = Some (r, n) \<Longrightarrow> r < 128 \<Longrightarrow> n = 1 \<and> s \<noteq> [] \<and> unat (hd s) < 128"
proof -
  have m1: "192 \<le> c \<Longrightarrow> c < 224 \<Longrightarrow> c mod 32 = c - 192" for c :: nat
    using lead_bits(1) [of "c - 192"] by simp
  have m2: "224 \<le> c \<Longrightarrow> c < 240 \<Longrightarrow> c mod 16 = c - 224" for c :: nat
    using lead_bits(3) [of "c - 224"] by simp
  have m3: "240 \<le> c \<Longrightarrow> c < 248 \<Longrightarrow> c mod 8 = c - 240" for c :: nat
    using lead_bits(4) [of "c - 240"] by simp
  have m4: "128 \<le> c \<Longrightarrow> c < 192 \<Longrightarrow> c mod 64 = c - 128" for c :: nat
    using lead_bits(2) [of "c - 128"] by simp
  show "utf8_step s = Some (r, n) \<Longrightarrow> r < 128 \<Longrightarrow> n = 1 \<and> s \<noteq> [] \<and> unat (hd s) < 128"
    by (auto simp: utf8_step_def Let_def in_range_def m1 m2 m3 m4 split: list.splits if_splits)
qed

lemma utf8_segs_ascii: "(r, bs) \<in> set (utf8_segs s) \<Longrightarrow> r < 128 \<Longrightarrow> \<not> hasHigh bs"
proof (induction s rule: utf8_segs.induct)
  case (2 b bs0)
  obtain r0 n where rn: "utf8_DecodeRune (b # bs0) = (r0, n)" by fastforce
  have "\<not> hasHigh (take n (b # bs0))" if "r0 < 128"
  proof -
    have "utf8_step (b # bs0) = Some (r0, n)"
      using rn that by (auto simp: utf8_DecodeRune_def RuneError_def split: option.splits)
    then have "n = 1" "unat b < 128" using utf8_step_ascii that by fastforce+
    then show ?thesis by (auto simp: hasHigh_def word_le_nat_alt)
  qed
  then show ?case using 2 rn by auto
qed simp

lemma hasHigh_rune: "hasHigh b \<Longrightarrow> \<exists>r \<in> set (utf8_runes b). 128 \<le> r"
proof (rule ccontr)
  assume high: "hasHigh b" and "\<not> (\<exists>r \<in> set (utf8_runes b). 128 \<le> r)"
  then have "\<forall>p \<in> set (utf8_segs b). \<not> hasHigh (snd p)"
    using utf8_segs_ascii by (fastforce simp: utf8_runes_def)
  then have "\<not> hasHigh (concat (map snd (utf8_segs b)))" by (auto simp: hasHigh_def)
  then show False using high by (simp add: utf8_segs_concat)
qed

lemma readable_less: "readable_rune r \<Longrightarrow> r < 128"
  by (auto simp: readable_rune_def)

definition readable_text :: "string \<Rightarrow> bool" where
  "readable_text s \<longleftrightarrow> list_all (\<lambda>c. readable_rune (of_char c)) s"

lemma utf8_segs_low: "\<not> hasHigh b \<Longrightarrow> utf8_runes b = map unat b"
proof (induction b)
  case (Cons c b)
  then have "unat c < 128" "\<not> hasHigh b" by (auto simp: hasHigh_def word_le_nat_alt)
  then show ?case
    using Cons.IH by (simp add: utf8_runes_def utf8_DecodeRune_def utf8_step_def)
qed (simp add: utf8_runes_def)

lemma str_runes_ascii: "is_ascii s \<Longrightarrow> str_runes s = map of_char s"
  using ascii_not_high [of s] of_char_less_256
  by (auto simp: str_runes_def utf8_segs_low str_bytes_def char_byte_def unat_of_nat)

lemma runes_str_ascii: "is_ascii s \<Longrightarrow> runes_str (map of_char s) = s"
proof (induction s)
  case (Cons c s)
  then have c: "(of_char c :: nat) < 128" and "is_ascii s" by (auto simp: is_ascii_def)
  then have "bytes_str (utf8_EncodeRune (of_char c)) = [c]"
    by (simp add: utf8_EncodeRune_def valid_rune_def bytes_str_def byte_char_def unat_of_nat)
  then show ?case using Cons \<open>is_ascii s\<close> by (simp add: runes_str_def bytes_str_def)
qed (simp add: runes_str_def bytes_str_def)

lemma readable_ascii: "readable_text s \<Longrightarrow> is_ascii s"
  using readable_less by (auto simp: readable_text_def is_ascii_def list_all_iff)

lemma score_readable:
  assumes "readable_text s" "s \<noteq> ''''"
  shows "readableScore s = (length s, length s)"
  using assms readable_ascii [of s]
  by (simp add: readableScore_def str_runes_ascii readable_text_def list_all_iff filter_map o_def)

lemma score_high:
  assumes "hasHigh b" "readableScore (bytes_str b) = (g, n)"
  shows "g < n"
proof -
  obtain r where r: "r \<in> set (utf8_runes b)" "\<not> readable_rune r"
    using hasHigh_rune [OF assms(1)] readable_less by fastforce
  have "length (filter readable_rune (utf8_runes b)) < length (utf8_runes b)"
    using r by (intro length_filter_less)
  moreover have "bytes_str b \<noteq> []" using assms(1) by (auto simp: hasHigh_def bytes_str_def)
  ultimately show ?thesis using assms(2) by (auto simp: readableScore_def str_runes_def)
qed

lemma decodeEBCDICText_ascii: "is_ascii s \<Longrightarrow> decodeEBCDICText (EncodeEBCDIC s) = s"
proof -
  assume a: "is_ascii s"
  then have "map (\<lambda>r. if r < 256 then r else 0x1A) (str_runes s) = map of_char s"
    using of_char_less_256 by (simp add: str_runes_ascii)
  then show ?thesis
    using runes_str_ascii [OF a] by (simp add: decodeEBCDICText_def Decode_Encode_runes)
qed

section \<open>The wire form of an SQLCA\<close>

definition wire_vcs :: "bytes \<Rightarrow> bytes" where
  "wire_vcs b = BE_Put16 (word_of_nat (length b)) @ b"

definition sqlca_wire :: "bool \<Rightarrow> SQLCA \<Rightarrow> string list \<Rightarrow> bytes" where
  "sqlca_wire le ca toks =
     [0] @ put32 le (SQLCode ca) @ str_bytes (SQLState ca) @ PadASCII (SQLErrp ca) 8 @ [0]
       @ concat (map (put32 le) (SQLErrd ca)) @ SQLWarn ca @ wire_vcs (str_bytes (RDBName ca))
       @ wire_vcs (join_with [0xFF] (map str_bytes toks)) @ wire_vcs [] @ [0xFF]"

definition sqlca_ok :: "SQLCA \<Rightarrow> string list \<Rightarrow> bool" where
  "sqlca_ok ca toks \<longleftrightarrow>
     is_ascii (SQLState ca) \<and> length (SQLState ca) = 5 \<and> is_ascii (SQLErrp ca)
       \<and> length (SQLErrp ca) \<le> 8 \<and> (SQLErrp ca \<noteq> '''' \<longrightarrow> last (SQLErrp ca) \<noteq> CHR '' '')
       \<and> length (SQLErrd ca) = 6 \<and> length (SQLWarn ca) = 11 \<and> is_ascii (RDBName ca)
       \<and> length (RDBName ca) < 65536 \<and> list_all is_ascii toks
       \<and> length (join_with [0xFF] (map str_bytes toks)) < 65536 \<and> Message ca = join_with '', '' toks"

lemma reads_i32s: "length xs = n \<Longrightarrow> reads le sbc (reader_i32s n) (concat (map (put32 le) xs)) xs"
proof (induction n arbitrary: xs)
  case (Suc n)
  then obtain y ys where xs: "xs = y # ys" "length ys = n" by (cases xs) auto
  then show ?case
    using Suc.IH [OF xs(2)]
    by (auto intro!: reads_bind [OF reads_u(2)] reads_bind_return [of _ _ "reader_i32s _"] reads_return)
qed (simp add: reads_return)

lemma reads_skipSQLDIAGGRP: "reads le sbc skipSQLDIAGGRP [0xFF] ()"
  unfolding reads_def
proof (intro allI impI)
  fix r :: byteReader and rest
  assume r: "rerr r = None" "rle r = le" "rsbc r = sbc" "rpos r \<le> length (rb r)"
    and d: "drop (rpos r) (rb r) = [0xFF] @ rest"
  have "run_state reader_u8 r = (0xFF, r\<lparr>rpos := rpos r + length [0xFF :: byte]\<rparr>)"
    using reads_u8 [of le sbc "0xFF"] r d unfolding reads_def by blast
  moreover have "0 < remaining r"
    using arg_cong [OF d, of length] by (simp add: remaining_def)
  ultimately show "run_state skipSQLDIAGGRP r = ((), r\<lparr>rpos := rpos r + length [0xFF :: byte]\<rparr>)"
    by (simp add: skipSQLDIAGGRP_def)
qed

lemma unat_len16: "n < 65536 \<Longrightarrow> (word_of_nat n :: 16 word) = 0 \<longleftrightarrow> n = 0"
  by (auto simp: word_of_nat_eq_0_iff dest: dvd_imp_le)

lemma decodeVCS_Nil [simp]: "decodeVCS sbc [] = ''''"
  by (simp add: decodeVCS_def DecodeCCSID_def decodeLatin1_def decodeTable_def runes_str_def
      bytes_str_def)

lemma decodeVCS_0 [simp]: "decodeVCS 0 = decodeMixed"
  by (rule ext) (simp add: decodeVCS_def)

lemma reads_vcs:
  assumes "length b < 65536"
  shows "reads le sbc vcs (wire_vcs b) (decodeVCS sbc b)"
proof (cases "b = []")
  case True
  then show ?thesis
    unfolding vcs_def wire_vcs_def by (auto intro!: reads_bind_return reads_u16BE simp: reads_return)
next
  case False
  then show ?thesis
    unfolding vcs_def wire_vcs_def using assms
    by (auto intro!: reads_bind [OF reads_u16BE] reads_bind_return [OF reads_take]
        reads_bind_return [OF reads_flags(2)]
        simp: unat_len16 unat_of_nat16 reads_return or_nil_def)
qed

lemma reads_vcsTokens:
  assumes "length (join_with [0xFF] ts) < 65536" "\<forall>t \<in> set ts. 0xFF \<notin> set t"
  shows "reads le 0 vcsTokens (wire_vcs (join_with [0xFF] ts)) (join_with '', '' (map decodeMixed ts))"
proof (cases "join_with [0xFF] ts = []")
  case True
  then have "ts = [] \<or> ts = [[]]" by (cases ts rule: list.exhaust; cases "tl ts") auto
  then show ?thesis
    unfolding vcsTokens_def wire_vcs_def
    by (auto intro!: reads_bind_return reads_u16BE simp: reads_return)
next
  case False
  then have "ts \<noteq> []" by auto
  then have "split_on 0xFF (join_with [0xFF] ts) = ts" using assms(2) by (rule split_join_with)
  then show ?thesis
    unfolding vcsTokens_def wire_vcs_def using assms False
    by (auto intro!: reads_bind [OF reads_u16BE] reads_bind_return [OF reads_take]
        reads_bind_return [OF reads_flags(2)]
        simp: unat_len16 unat_of_nat16 reads_return or_nil_def)
qed

lemma ascii_no_FF: "is_ascii s \<Longrightarrow> 0xFF \<notin> set (str_bytes s)"
  using ascii_not_high [of s] by (auto simp: hasHigh_def)

lemma trim_padding:
  assumes "is_ascii s" "length s \<le> n" "s \<noteq> '''' \<longrightarrow> last s \<noteq> CHR '' ''"
  shows "trimRightSet '' '' (decodeFixedText (PadASCII s n)) = s"
proof -
  let ?p = "s @ replicate (n - length s) CHR '' ''"
  have "is_ascii ?p" using assms(1) by (auto simp: is_ascii_def)
  moreover have "PadASCII s n = str_bytes ?p"
    using assms(2) by (cases "length s = n") (auto simp: PadASCII_def str_bytes_def char_byte_def)
  ultimately have "decodeFixedText (PadASCII s n) = ?p" by (simp only: decode_ascii)
  moreover have "dropWhile (\<lambda>c. c = CHR '' '') (replicate k CHR '' '' @ rev s) = rev s" for k
    using assms(3) by (induction k) (cases s rule: rev_cases; simp)+
  ultimately show ?thesis by (simp add: trimRightSet_def)
qed

lemma reads_return_eq: "a = b \<Longrightarrow> reads le sbc (State_Monad.return a) [] b"
  by (simp add: reads_return)

lemma reads_u8_then: "reads le sbc (f b) bs a \<Longrightarrow> reads le sbc (reader_u8 \<bind> f) (b # bs) a"
  using reads_bind [OF reads_u8] by fastforce

lemma reads_SQLCAGRP:
  assumes ok: "sqlca_ok ca toks"
  shows "reads le 0 parseSQLCAGRP (sqlca_wire le ca toks) (Some ca)"
proof -
  let ?ca = "zero_SQLCA\<lparr>SQLCode := SQLCode ca, SQLState := SQLState ca, SQLErrp := SQLErrp ca\<rparr>"
  let ?ts = "map str_bytes toks"
  note ok' = ok [unfolded sqlca_ok_def]
  have msg: "join_with '', '' (map decodeMixed ?ts) = Message ca" "\<forall>t \<in> set ?ts. 0xFF \<notin> set t"
    using ok' ascii_no_FF by (auto simp: list_all_iff decode_ascii o_def cong: map_cong)
  have empty: "reads le 0 vcsTokens (wire_vcs []) ''''"
    using reads_vcsTokens [of "[]" le] by simp
  have x: "reads le 0 (parseSQLCAXGRP ?ca)
      (concat (map (put32 le) (SQLErrd ca)) @ SQLWarn ca @ wire_vcs (str_bytes (RDBName ca))
        @ wire_vcs (join_with [0xFF] ?ts) @ wire_vcs []) ca"
    unfolding parseSQLCAXGRP_def
    using ok' msg reads_vcsTokens [of ?ts le] reads_vcs [of "str_bytes (RDBName ca)" le 0]
    by (auto intro!: reads_bind [OF reads_i32s] reads_bind [OF reads_take] reads_bind [of _ _ vcs]
        reads_bind [of _ _ vcsTokens] reads_bind_return [OF empty] reads_return_eq simp: decode_ascii zero_SQLCA_def)
  have trim: "trimRightSet '' '' (decodeFixedText (PadASCII (SQLErrp ca) 8)) = SQLErrp ca"
    using ok' by (intro trim_padding) auto
  have tail: "reads le 0 (do { ca1 \<leftarrow> parseSQLCAXGRP ?ca; skipSQLDIAGGRP; State_Monad.return (Some ca1) })
      ((concat (map (put32 le) (SQLErrd ca)) @ SQLWarn ca @ wire_vcs (str_bytes (RDBName ca))
        @ wire_vcs (join_with [0xFF] ?ts) @ wire_vcs []) @ [0xFF]) (Some ca)"
    by (rule reads_bind [OF x reads_bind_return [OF reads_skipSQLDIAGGRP reads_return]])
  show ?thesis
    unfolding parseSQLCAGRP_def sqlca_wire_def using ok' trim tail
    by (auto intro!: reads_u8_then reads_bind [OF reads_u(2)] reads_bind [OF reads_take]
        simp: or_nil_def decode_ascii)
qed

section \<open>EBCDIC letters and digits are high bytes\<close>

definition alnum_rune :: "rune \<Rightarrow> bool" where
  "alnum_rune r \<longleftrightarrow> 65 \<le> r \<and> r \<le> 90 \<or> 48 \<le> r \<and> r \<le> 57"

lemma cp500_low_not_alnum: "list_all (\<lambda>r. \<not> alnum_rune r) (take 128 cp500ToUnicode)"
  by (simp add: cp500ToUnicode_def alnum_rune_def)

lemma EncodeEBCDIC_alnum_high:
  assumes "is_ascii s" "c \<in> set s" "alnum_rune (of_char c)"
  shows "hasHigh (EncodeEBCDIC s)"
proof -
  let ?r = "of_char c :: nat"
  obtain i where i: "i < 256" "cp500ToUnicode ! i = ?r"
    using cp500_set of_char_less_256 [of c] by (metis atLeastLessThan_iff cp500_length in_set_conv_nth zero_le)
  then have b: "unicodeToCP500 ?r = Some (word_of_nat i)"
    using unicodeToCP500_nth [of "word_of_nat i"] by (simp add: unat_of_nat)
  have "128 \<le> i"
  proof (rule ccontr)
    assume "\<not> 128 \<le> i"
    then have "?r \<in> set (take 128 cp500ToUnicode)"
      using i by (auto simp: in_set_conv_nth cp500_length intro!: exI [of _ i])
    then show False using cp500_low_not_alnum assms(3) by (auto simp: list_all_iff)
  qed
  then have "0x80 \<le> (word_of_nat i :: byte)" using i by (simp add: word_le_nat_alt unat_of_nat)
  moreover have "word_of_nat i \<in> set (EncodeEBCDIC s)"
    using assms b by (force simp: EncodeEBCDIC_def str_runes_ascii)
  ultimately show ?thesis by (auto simp: hasHigh_def)
qed

section \<open>Properties\<close>

text \<open>
  The fixed-width SQLSTATE and SQLERRP fields decode to the same text whether the server
  sends them in ASCII (Db2 LUW) or in EBCDIC (Db2 for z/OS and i): any ASCII text in the
  first case, any with a capital letter or digit in the second.
\<close>

theorem decodeFixedText_both:
  "is_ascii s \<longrightarrow>
     decodeFixedText (str_bytes s) = s \<and>
     (list_ex (\<lambda>c. alnum_rune (of_char c)) s \<longrightarrow> decodeFixedText (EncodeEBCDIC s) = s)"
  using EncodeEBCDIC_alnum_high [of s] decodeEBCDICText_ascii [of s]
  by (auto simp: ascii_not_high decodeFixedText_def list_ex_iff)

theorem decodeFixedText_both_witness:
  "decodeFixedText (str_bytes ''42S02'') = ''42S02'' \<and> decodeFixedText (EncodeEBCDIC ''42S02'') = ''42S02''"
  using decodeFixedText_both [of "''42S02''"] by (simp add: is_ascii_def alnum_rune_def)

text \<open>
  \<open>decodeMixed\<close> returns ASCII text unchanged, and recovers every readable text (letters,
  digits, blanks and the punctuation of messages) with a capital letter or digit from its
  EBCDIC bytes, even where those happen to form valid UTF-8.
\<close>

theorem decodeMixed_both:
  "(is_ascii s \<longrightarrow> decodeMixed (str_bytes s) = s) \<and>
   (readable_text s \<and> list_ex (\<lambda>c. alnum_rune (of_char c)) s \<longrightarrow> decodeMixed (EncodeEBCDIC s) = s)"
proof (intro conjI impI)
  assume "is_ascii s"
  then show "decodeMixed (str_bytes s) = s" by (simp add: decode_ascii)
next
  assume s: "readable_text s \<and> list_ex (\<lambda>c. alnum_rune (of_char c)) s"
  let ?b = "EncodeEBCDIC s"
  obtain g n where gn: "readableScore (bytes_str ?b) = (g, n)" by fastforce
  have a: "is_ascii s" "s \<noteq> ''''" using s readable_ascii by auto
  have high: "hasHigh ?b" using s EncodeEBCDIC_alnum_high [OF a(1)] by (auto simp: list_ex_iff)
  have "\<not> score_ge (readableScore (bytes_str ?b)) (readableScore s)"
    using score_high [OF high gn] score_readable [of s] s a by (simp add: gn score_ge_def)
  then show "decodeMixed ?b = s"
    using high decodeEBCDICText_ascii [OF a(1)] by (simp add: decodeMixed_def)
qed

theorem decodeMixed_both_witness:
  "decodeMixed (str_bytes ''DEPT, x'') = ''DEPT, x'' \<and> decodeMixed (EncodeEBCDIC ''DEPT, x'') = ''DEPT, x''"
  using decodeMixed_both [of "''DEPT, x''"]
  by (simp add: is_ascii_def alnum_rune_def readable_text_def readable_rune_def)


definition sample_SQLCA :: SQLCA where
  "sample_SQLCA = \<lparr>SQLCode = - 204, SQLState = ''42704'', SQLErrp = ''SQLNQ1FA'',
     SQLErrd = [0, 1, 2, 3, 4, 5], SQLWarn = replicate 11 32, RDBName = ''SAMPLE'',
     Message = ''DB2INST1.T, X''\<rparr>"


end
