(* ===== verification/Drda_SQLDA.thy ===== *)
theory Drda_SQLDA
  imports Drda_SQLCA
begin

text \<open>
  Column and parameter descriptions (\<^verbatim>\<open>internal/drda/sqlda.go\<close>): \<open>ColumnDesc\<close>, the
  two SQLDAGRP layouts and the SQLDARD parser.  The wire form of a descriptor area is
  given as a specification; the parser is shown to read it back in both layouts and both
  byte orders.
\<close>

section \<open>Data\<close>

record ColumnDesc =
  cName :: string
  cLabel :: string
  cSQLType :: "16 word"
  cLength :: int
  cPrecision :: int
  cScale :: int
  cCCSID :: "16 word"
  cBaseTable :: string
  cBaseSchema :: string
  cBaseColumn :: string
  cUpdatable :: bool
  cGenerated :: bool

definition ColumnDesc_Nullable :: "ColumnDesc \<Rightarrow> bool" where
  "ColumnDesc_Nullable c = SQLTypeNullable (cSQLType c)"

definition ColumnDesc_Base :: "ColumnDesc \<Rightarrow> 16 word" where
  "ColumnDesc_Base c = BaseSQLType (cSQLType c)"

datatype SQLDAVariant = SQLDALUW | SQLDAIBMi

definition sqldaVariantFor :: "string \<Rightarrow> SQLDAVariant" where
  "sqldaVariantFor prdid = (if HasPrefix prdid ''SQL'' then SQLDALUW else SQLDAIBMi)"

section \<open>Parsing\<close>

text \<open>The third trailing group of Db2 LUW: one null indicator, when there is one.\<close>

definition skipTrailingGroup :: "(byteReader, unit) state" where
  "skipTrailingGroup = State (\<lambda>r.
     if 0 < remaining r \<and> rb r ! rpos r = 0xFF then ((), r\<lparr>rpos := rpos r + 1\<rparr>) else ((), r))"

definition parseSQLDXGRP :: "ColumnDesc \<Rightarrow> (byteReader, ColumnDesc) state" where
  "parseSQLDXGRP c = do {
     _ \<leftarrow> reader_u16;
     upd \<leftarrow> reader_u16;
     gen \<leftarrow> reader_u16;
     _ \<leftarrow> reader_u16;
     _ \<leftarrow> vcs;
     _ \<leftarrow> vcmOrVcs;
     tab \<leftarrow> vcmOrVcs;
     sch \<leftarrow> vcmOrVcs;
     col \<leftarrow> vcmOrVcs;
     State_Monad.return
       (c\<lparr>cUpdatable := (upd \<noteq> 0), cGenerated := (gen \<noteq> 0), cBaseTable := tab, cBaseSchema := sch,
          cBaseColumn := col\<rparr>)
   }"

definition parseSQLDOPTGRP :: "SQLDAVariant \<Rightarrow> ColumnDesc \<Rightarrow> (byteReader, ColumnDesc) state" where
  "parseSQLDOPTGRP variant c = do {
     _ \<leftarrow> reader_u16;
     name \<leftarrow> vcmOrVcs;
     label \<leftarrow> vcmOrVcs;
     _ \<leftarrow> vcmOrVcs;
     let c1 = c\<lparr>cName := (if name = '''' then label else name), cLabel := label\<rparr>;
     udt \<leftarrow> reader_u8;
     (if udt \<noteq> 0xFF then do { _ \<leftarrow> vcmOrVcs; _ \<leftarrow> vcmOrVcs; State_Monad.return () }
      else State_Monad.return ());
     dx \<leftarrow> reader_u8;
     c2 \<leftarrow> (if dx \<noteq> 0xFF then parseSQLDXGRP c1 else State_Monad.return c1);
     (if variant = SQLDALUW then skipTrailingGroup else State_Monad.return ());
     State_Monad.return c2
   }"

definition parseSQLDAGRP :: "SQLDAVariant \<Rightarrow> (byteReader, ColumnDesc) state" where
  "parseSQLDAGRP variant = do {
     prec \<leftarrow> reader_u16;
     scale \<leftarrow> reader_u16;
     len \<leftarrow> reader_u64;
     typ \<leftarrow> reader_u16;
     ccsid \<leftarrow> reader_u16BE;
     _ \<leftarrow> reader_take (if variant = SQLDALUW then 10 else 8);
     opt \<leftarrow> reader_u8;
     let c = \<lparr>cName = '''', cLabel = '''', cSQLType = typ, cLength = sint len, cPrecision = sint prec,
              cScale = sint scale, cCCSID = ccsid, cBaseTable = '''', cBaseSchema = '''',
              cBaseColumn = '''', cUpdatable = False, cGenerated = False\<rparr>;
     if opt \<noteq> 0xFF then parseSQLDOPTGRP variant c else State_Monad.return c
   }"

definition reader_failed :: "(byteReader, bool) state" where
  "reader_failed = State (\<lambda>r. (rerr r \<noteq> None, r))"

fun parseSQLDAGRPs :: "SQLDAVariant \<Rightarrow> nat \<Rightarrow> (byteReader, ColumnDesc list) state" where
  "parseSQLDAGRPs variant 0 = State_Monad.return []"
| "parseSQLDAGRPs variant (Suc n) = do {
     failed \<leftarrow> reader_failed;
     if failed then State_Monad.return []
     else do {
       c \<leftarrow> parseSQLDAGRP variant;
       cs \<leftarrow> parseSQLDAGRPs variant n;
       State_Monad.return (c # cs)
     }
   }"

definition parseSQLDHGRP :: "SQLDAVariant \<Rightarrow> (byteReader, unit) state" where
  "parseSQLDHGRP variant = do {
     f \<leftarrow> reader_u8;
     if f \<noteq> 0xFF then do {
       _ \<leftarrow> reader_u16;
       _ \<leftarrow> reader_u16;
       _ \<leftarrow> reader_u16;
       _ \<leftarrow> reader_u16;
       _ \<leftarrow> reader_u16;
       _ \<leftarrow> reader_u16;
       _ \<leftarrow> vcs;
       _ \<leftarrow> vcmOrVcs;
       (if variant = SQLDAIBMi then do { _ \<leftarrow> reader_take 6; State_Monad.return () }
        else State_Monad.return ())
     } else State_Monad.return ()
   }"

definition parseSQLDAs :: "SQLDAVariant \<Rightarrow> (byteReader, ColumnDesc list) state" where
  "parseSQLDAs variant = do {
     parseSQLDHGRP variant;
     n \<leftarrow> reader_u16;
     parseSQLDAGRPs variant (unat n)
   }"

text \<open>The three results: SQLCA (nil is \<open>None\<close>), columns (nil is empty) and error.\<close>

definition ParseSQLDARDVariant ::
  "bytes \<Rightarrow> bool \<Rightarrow> SQLDAVariant \<Rightarrow> 16 word \<Rightarrow> SQLCA option \<times> ColumnDesc list \<times> reader_error option" where
  "ParseSQLDARDVariant body littleEndian variant sbc =
     (case run_state parseSQLCAGRP (new_reader body littleEndian sbc) of
        (ca, r) \<Rightarrow>
          if rerr r \<noteq> None then (None, [], rerr r)
          else if IsError ca then (ca, [], None)
          else
            (case run_state (parseSQLDAs variant) r of
               (cols, r1) \<Rightarrow> if rerr r1 \<noteq> None then (ca, [], rerr r1) else (ca, cols, None)))"

definition ParseSQLDARD ::
  "bytes \<Rightarrow> bool \<Rightarrow> SQLCA option \<times> ColumnDesc list \<times> reader_error option" where
  "ParseSQLDARD body littleEndian = ParseSQLDARDVariant body littleEndian SQLDALUW 0"

section \<open>The wire form of a descriptor area\<close>

record sqlda_dx =
  xKey :: "16 word"
  xUpd :: "16 word"
  xGen :: "16 word"
  xMode :: "16 word"
  xNames :: "bytes list"

record sqlda_col =
  wPrec :: "16 word"
  wScale :: "16 word"
  wLen :: "64 word"
  wType :: "16 word"
  wCCSID :: "16 word"
  wName :: bytes
  wLabel :: bytes
  wComment :: bytes
  wDx :: "sqlda_dx option"

definition wire_pair :: "bytes \<Rightarrow> bytes" where
  "wire_pair b = wire_vcs b @ wire_vcs []"

definition dx_wire :: "bool \<Rightarrow> sqlda_dx option \<Rightarrow> bytes" where
  "dx_wire le dx =
     (case dx of None \<Rightarrow> [0xFF]
      | Some x \<Rightarrow> 0 # put16 le (xKey x) @ put16 le (xUpd x) @ put16 le (xGen x) @ put16 le (xMode x)
          @ wire_vcs (xNames x ! 0) @ wire_pair (xNames x ! 1) @ wire_pair (xNames x ! 2)
          @ wire_pair (xNames x ! 3) @ wire_pair (xNames x ! 4))"

definition col_wire :: "bool \<Rightarrow> SQLDAVariant \<Rightarrow> sqlda_col \<Rightarrow> bytes" where
  "col_wire le v c =
     put16 le (wPrec c) @ put16 le (wScale c) @ put64 le (wLen c) @ put16 le (wType c)
       @ BE_Put16 (wCCSID c) @ replicate (if v = SQLDALUW then 10 else 8) 0 @ 0 # put16 le 0
       @ wire_pair (wName c) @ wire_pair (wLabel c) @ wire_pair (wComment c) @ 0xFF # dx_wire le (wDx c)
       @ (if v = SQLDALUW then [0xFF] else [])"

definition sqlda_wire :: "bool \<Rightarrow> SQLDAVariant \<Rightarrow> sqlda_col list \<Rightarrow> bytes" where
  "sqlda_wire le v cols = 0xFF # put16 le (word_of_nat (length cols)) @ concat (map (col_wire le v) cols)"

definition opt_desc :: "16 word \<Rightarrow> sqlda_col \<Rightarrow> ColumnDesc \<Rightarrow> ColumnDesc" where
  "opt_desc sbc w c =
     (let s = decodeVCS sbc;
          d = c\<lparr>cName := (if s (wName w) = '''' then s (wLabel w) else s (wName w)), cLabel := s (wLabel w)\<rparr>
      in case wDx w of None \<Rightarrow> d
         | Some x \<Rightarrow> d\<lparr>cUpdatable := (xUpd x \<noteq> 0), cGenerated := (xGen x \<noteq> 0),
                       cBaseTable := s (xNames x ! 2), cBaseSchema := s (xNames x ! 3),
                       cBaseColumn := s (xNames x ! 4)\<rparr>)"

definition col_desc :: "16 word \<Rightarrow> sqlda_col \<Rightarrow> ColumnDesc" where
  "col_desc sbc w =
     opt_desc sbc w \<lparr>cName = '''', cLabel = '''', cSQLType = wType w, cLength = sint (wLen w),
       cPrecision = sint (wPrec w), cScale = sint (wScale w), cCCSID = wCCSID w, cBaseTable = '''',
       cBaseSchema = '''', cBaseColumn = '''', cUpdatable = False, cGenerated = False\<rparr>"

definition col_ok :: "sqlda_col \<Rightarrow> bool" where
  "col_ok c \<longleftrightarrow>
     length (wName c) < 65536 \<and> length (wLabel c) < 65536 \<and> length (wComment c) < 65536
       \<and> (case wDx c of None \<Rightarrow> True
          | Some x \<Rightarrow> length (xNames x) = 5 \<and> list_all (\<lambda>n. length n < 65536) (xNames x))"

section \<open>Lemmas\<close>

lemma reads_pair:
  assumes "length b < 65536"
  shows "reads le sbc vcmOrVcs (wire_pair b) (decodeVCS sbc b)"
  unfolding vcmOrVcs_def wire_pair_def
  by (rule reads_bind [OF reads_vcs [OF assms]], rule reads_bind_return [OF reads_vcs])
     (auto intro!: reads_return_eq)

lemmas reads_then =
  reads_u8_then reads_bind [OF reads_u(1)] reads_bind [OF reads_u(2)] reads_bind [OF reads_u(3)]
  reads_bind [OF reads_u16BE] reads_bind [OF reads_take] reads_bind [OF reads_vcs]
  reads_bind [OF reads_pair]

lemma reads_SQLDXGRP:
  assumes "length (xNames x) = 5" "list_all (\<lambda>n. length n < 65536) (xNames x)"
  shows "reads le sbc (parseSQLDXGRP c) (tl (dx_wire le (Some x)))
    (c\<lparr>cUpdatable := (xUpd x \<noteq> 0), cGenerated := (xGen x \<noteq> 0),
        cBaseTable := decodeVCS sbc (xNames x ! 2), cBaseSchema := decodeVCS sbc (xNames x ! 3),
        cBaseColumn := decodeVCS sbc (xNames x ! 4)\<rparr>)"
proof -
  have "length (xNames x ! i) < 65536" if "i < 5" for i
    using assms that by (simp add: list_all_length)
  then show ?thesis
    unfolding parseSQLDXGRP_def dx_wire_def
    by (auto intro!: reads_then reads_bind_return [OF reads_pair] reads_return)
qed

lemma reads_trailing: "reads le sbc skipTrailingGroup [0xFF] ()"
  unfolding reads_def
proof (intro allI impI)
  fix r :: byteReader and rest
  assume "rpos r \<le> length (rb r)" and d: "drop (rpos r) (rb r) = [0xFF] @ rest"
  have "rpos r < length (rb r)" using d by (cases "rpos r < length (rb r)") auto
  then have "rb r ! rpos r = 0xFF" "0 < remaining r"
    using d by (auto simp: remaining_def simp flip: Cons_nth_drop_Suc)
  then show "run_state skipTrailingGroup r = ((), r\<lparr>rpos := rpos r + length [0xFF :: byte]\<rparr>)"
    by (simp add: skipTrailingGroup_def)
qed

lemma reads_SQLDOPTGRP:
  assumes ok: "col_ok w"
  shows "reads le sbc (parseSQLDOPTGRP v c)
    (put16 le 0 @ wire_pair (wName w) @ wire_pair (wLabel w) @ wire_pair (wComment w) @ 0xFF # dx_wire le (wDx w)
       @ (if v = SQLDALUW then [0xFF] else []))
    (opt_desc sbc w c)"
proof -
  have luw: "reads le sbc (do { skipTrailingGroup; State_Monad.return d }) [0xFF] d" for d :: ColumnDesc
    by (rule reads_bind_return [OF reads_trailing reads_return])
  have lens: "length (wName w) < 65536" "length (wLabel w) < 65536" "length (wComment w) < 65536"
    using ok by (simp_all add: col_ok_def)
  show ?thesis
  proof (cases "wDx w")
    case None
    then show ?thesis
      unfolding parseSQLDOPTGRP_def using lens luw
      by (auto intro!: reads_then reads_return_eq simp: dx_wire_def opt_desc_def Let_def)
  next
    case (Some x)
    then have x: "length (xNames x) = 5" "list_all (\<lambda>n. length n < 65536) (xNames x)"
      using ok by (simp_all add: col_ok_def)
    have dx: "dx_wire le (Some x) = 0 # tl (dx_wire le (Some x))" by (simp add: dx_wire_def)
    note dxr = reads_bind [OF reads_SQLDXGRP [OF x]]
    show ?thesis
      unfolding parseSQLDOPTGRP_def Some using lens luw
      by (subst dx) (auto intro!: reads_then dxr reads_SQLDXGRP [OF x]
          reads_return_eq simp: opt_desc_def Some Let_def)
  qed
qed

lemma reads_SQLDAGRP:
  assumes "col_ok w"
  shows "reads le sbc (parseSQLDAGRP v) (col_wire le v w) (col_desc sbc w)"
proof -
  note r = reads_SQLDOPTGRP [OF assms, of le sbc v]
  show ?thesis
    unfolding parseSQLDAGRP_def col_wire_def col_desc_def using r
    by (auto intro!: reads_then simp: Let_def)
qed

lemma reads_SQLDAGRPs:
  "list_all col_ok ws \<Longrightarrow>
     reads le sbc (parseSQLDAGRPs v (length ws)) (concat (map (col_wire le v) ws)) (map (col_desc sbc) ws)"
proof (induction ws)
  case (Cons w ws)
  have f: "reads le sbc (reader_failed \<bind> g) bs a" if "reads le sbc (g False) bs a" for g bs and a :: "ColumnDesc list"
    using that by (simp add: reads_def reader_failed_def)
  have w: "reads le sbc (parseSQLDAGRP v) (col_wire le v w) (col_desc sbc w)"
    using Cons.prems by (intro reads_SQLDAGRP) simp
  show ?case
    using Cons by (auto intro!: f reads_bind [OF w] reads_bind_return [of _ _ "parseSQLDAGRPs _ _"] reads_return)
qed (simp add: reads_return)

lemma reads_SQLDAs:
  assumes "list_all col_ok ws" "length ws < 65536"
  shows "reads le sbc (parseSQLDAs v) (sqlda_wire le v ws) (map (col_desc sbc) ws)"
proof -
  have n: "unat (word_of_nat (length ws) :: 16 word) = length ws"
    using assms(2) by (rule unat_of_nat16)
  have h: "reads le sbc (parseSQLDHGRP v) [0xFF] ()"
    unfolding parseSQLDHGRP_def by (rule reads_bind_return [OF reads_u8]) (simp add: reads_return)
  have "reads le sbc (parseSQLDAs v)
      ([0xFF] @ put16 le (word_of_nat (length ws)) @ concat (map (col_wire le v) ws)) (map (col_desc sbc) ws)"
    unfolding parseSQLDAs_def
    by (rule reads_bind [OF h], rule reads_bind [OF reads_u(1)]) (simp add: n reads_SQLDAGRPs assms)
  then show ?thesis by (simp add: sqlda_wire_def)
qed

section \<open>Properties\<close>


definition sample_col :: sqlda_col where
  "sample_col = \<lparr>wPrec = 10, wScale = 2, wLen = 0x0A02, wType = 485, wCCSID = 0, wName = str_bytes ''PRICE'',
     wLabel = [], wComment = [],
     wDx = Some \<lparr>xKey = 0, xUpd = 1, xGen = 0, xMode = 0,
             xNames = [[], [], str_bytes ''ITEM'', str_bytes ''APP'', str_bytes ''PRICE'']\<rparr>\<rparr>"


end
