(* ===== verification/Block_Stream.thy ===== *)
theory Block_Stream
  imports Prelude
begin

text \<open>
  A stream of self-delimiting items cut into blocks at arbitrary places.  A client runs a
  block parser on each block, with the unparsed tail of the previous block put in front.
  The contract the parser promises is the locale \<open>block_parser\<close>; from it follows, once,
  that the cuts do not matter.
\<close>

datatype 'a item_step = Item 'a nat | Incomplete | Ended

text \<open>Feeding blocks with carry-over: the items found and the final tail.\<close>

fun feed_blocks :: "(bytes \<Rightarrow> 'a list \<times> bytes) \<Rightarrow> bytes \<Rightarrow> bytes list \<Rightarrow> 'a list \<times> bytes" where
  "feed_blocks run tl0 [] = ([], tl0)"
| "feed_blocks run tl0 (b # bs) =
     (case run (tl0 @ b) of
        (xs, tl1) \<Rightarrow> (case feed_blocks run tl1 bs of (ys, tl2) \<Rightarrow> (xs @ ys, tl2)))"

locale block_parser =
  fixes step :: "bytes \<Rightarrow> 'a item_step"
    and run :: "bytes \<Rightarrow> 'a list \<times> bytes"
  assumes step_bound: "step b = Item x n \<Longrightarrow> b \<noteq> [] \<Longrightarrow> 0 < n \<and> n \<le> length b"
    and step_ext: "b \<noteq> [] \<Longrightarrow> step b \<noteq> Incomplete \<Longrightarrow> step (b @ s) = step b"
    and run_Nil: "run [] = ([], [])"
    and run_Item: "b \<noteq> [] \<Longrightarrow> step b = Item x n \<Longrightarrow> run b = (x # fst (run (drop n b)), snd (run (drop n b)))"
    and run_Incomplete: "b \<noteq> [] \<Longrightarrow> step b = Incomplete \<Longrightarrow> run b = ([], b)"
begin

definition encodes :: "bytes \<Rightarrow> 'a \<Rightarrow> bool" where
  "encodes w x \<longleftrightarrow> w \<noteq> [] \<and> step w = Item x (length w)"

lemma run_encodes:
  assumes "encodes w x"
  shows "run (w @ s) = (x # fst (run s), snd (run s))"
proof -
  have "step (w @ s) = Item x (length w)" using assms step_ext [of w s] by (simp add: encodes_def)
  then show ?thesis using assms run_Item [of "w @ s" x "length w"] by (simp add: encodes_def)
qed

lemma proper_prefix_Incomplete:
  assumes "encodes (p @ q) x" "p \<noteq> []" "q \<noteq> []"
  shows "step p = Incomplete"
proof (rule ccontr)
  assume "step p \<noteq> Incomplete"
  then have "step p = Item x (length (p @ q))"
    using assms step_ext [of p q] by (simp add: encodes_def)
  then show False using step_bound assms by fastforce
qed

lemma run_prefix:
  assumes "list_all2 encodes ws xs" "p @ s = concat ws"
  shows "\<exists>k t. run p = (take k xs, t) \<and> t @ s = concat (drop k ws) \<and> (s = [] \<longrightarrow> t = [] \<and> length xs \<le> k)"
  using assms
proof (induction ws xs arbitrary: p rule: list_all2_induct)
  case Nil
  then show ?case by (intro exI [of _ 0] exI [of _ "[]"]) (simp add: run_Nil)
next
  case (Cons w ws x xs)
  consider "p = []" | "p \<noteq> []" "length w \<le> length p" | "p \<noteq> []" "length p < length w" by linarith
  then show ?case
  proof cases
    case 1
    moreover have "s \<noteq> []" using 1 Cons by (auto simp: encodes_def)
    ultimately show ?thesis using Cons.prems by (intro exI [of _ 0] exI [of _ "[]"]) (simp add: run_Nil)
  next
    case 2
    then obtain p' where p: "p = w @ p'" "p' @ s = concat ws"
      using Cons.prems by (auto simp: append_eq_append_conv2)
    then obtain k t where "run p' = (take k xs, t)" "t @ s = concat (drop k ws)"
        "s = [] \<longrightarrow> t = [] \<and> length xs \<le> k"
      using Cons.IH by blast
    then show ?thesis
      using run_encodes [OF Cons.hyps(1), of p'] p by (intro exI [of _ "Suc k"] exI [of _ t]) simp
  next
    case 3
    then obtain q where w: "w = p @ q" "q \<noteq> []" "s = q @ concat ws"
      using Cons.prems by (auto simp: append_eq_append_conv2)
    then have "run p = ([], p)"
      using proper_prefix_Incomplete [of p q x] Cons.hyps(1) 3 run_Incomplete by simp
    then show ?thesis using w by (intro exI [of _ 0] exI [of _ p]) simp
  qed
qed

text \<open>Where a cut falls: after some whole items, possibly inside the next one.\<close>

lemma cut_prefix:
  assumes "list_all2 encodes ws xs" "p @ s = concat ws"
  shows "\<exists>k t. p = concat (take k ws) @ t \<and> t @ s = concat (drop k ws) \<and> (t = [] \<or> step t = Incomplete)"
  using assms
proof (induction ws xs arbitrary: p rule: list_all2_induct)
  case Nil
  then show ?case by (intro exI [of _ 0] exI [of _ "[]"]) simp
next
  case (Cons w ws x xs)
  consider "length w \<le> length p" | "p = []" | "p \<noteq> []" "length p < length w" by fastforce
  then show ?case
  proof cases
    case 1
    then obtain p' where p: "p = w @ p'" "p' @ s = concat ws"
      using Cons.prems by (auto simp: append_eq_append_conv2)
    then obtain k t where "p' = concat (take k ws) @ t" "t @ s = concat (drop k ws)" "t = [] \<or> step t = Incomplete"
      using Cons.IH by blast
    then show ?thesis using p by (intro exI [of _ "Suc k"] exI [of _ t]) simp
  next
    case 2
    then show ?thesis using Cons.prems by (intro exI [of _ 0] exI [of _ "[]"]) simp
  next
    case 3
    then obtain q where w: "w = p @ q" "q \<noteq> []" "s = q @ concat ws"
      using Cons.prems by (auto simp: append_eq_append_conv2)
    then have "step p = Incomplete"
      using proper_prefix_Incomplete [of p q x] Cons.hyps(1) 3 by simp
    then show ?thesis using w by (intro exI [of _ 0] exI [of _ p]) simp
  qed
qed

theorem feed_any_cut:
  assumes "list_all2 encodes ws xs" "t @ concat bs = concat ws" "bs = [] \<Longrightarrow> t = []"
  shows "feed_blocks run t bs = (xs, [])"
  using assms
proof (induction bs arbitrary: t ws xs)
  case Nil
  then have "ws = []" by (cases ws; cases xs) (auto simp: encodes_def)
  then show ?case using Nil by simp
next
  case (Cons b bs)
  obtain k t' where r: "run (t @ b) = (take k xs, t')" "t' @ concat bs = concat (drop k ws)"
      "concat bs = [] \<longrightarrow> t' = [] \<and> length xs \<le> k"
    using run_prefix [OF Cons.prems(1), of "t @ b" "concat bs"] Cons.prems(2) by auto
  have "feed_blocks run t' bs = (drop k xs, [])"
    using Cons.prems(1) r by (intro Cons.IH [of "drop k ws"]) (auto intro: list_all2_dropI)
  then show ?case using r(1) by simp
qed

end

end
