(* ===== verification/Drda_FDOCA.thy ===== *)
theory Drda_FDOCA
  imports Drda_DecFloat Drda_SQLDA Block_Stream
begin

text \<open>
  FD:OCA (\<^verbatim>\<open>internal/drda/fdoca.go\<close>): the column descriptors of QRYDSC and FDODSC,
  the field decoders, and the decoding of query blocks.

  \<open>DecodeBlock\<close> keeps one cursor over the whole block.  Every cursor operation depends
  only on the bytes from the position on, except for the position quoted in the text of a
  truncation error, and \<open>DecodeBlock\<close> turns truncation into leftover; the model therefore
  runs each row on a cursor over the undecoded rest of the block.  The two callbacks are
  functions on the caller's state.
\<close>

section \<open>Descriptors\<close>

record FieldDesc =
  fType :: byte
  fLength :: "16 word"
  fCCSID :: "32 word"

definition FieldDesc_Nullable :: "FieldDesc \<Rightarrow> bool" where
  "FieldDesc_Nullable f = IsNullable (fType f)"

definition Precision :: "FieldDesc \<Rightarrow> nat" where
  "Precision f = unat (drop_bit 8 (fLength f))"

definition Scale :: "FieldDesc \<Rightarrow> nat" where
  "Scale f = unat (fLength f AND 0xFF)"

record sdaOverride =
  ovType :: byte
  ovCCSID :: "32 word"
  ovLength :: "16 word"

datatype fdoca_error =
    TruncatedTriplet nat
  | BadTripletLength nat nat
  | ShortSDA
  | UnknownTriplet byte

type_synonym overrides = "byte \<Rightarrow> sdaOverride option"

fun parseGDA :: "overrides \<Rightarrow> bytes \<Rightarrow> FieldDesc list" where
  "parseGDA ov (t # l1 # l0 # rest) =
     (let fd = \<lparr>fType = t, fLength = BE_Uint16 [l1, l0], fCCSID = 0\<rparr>
      in (case ov t of
            Some o1 \<Rightarrow> fd\<lparr>fType := ovType o1, fCCSID := ovCCSID o1\<rparr>
          | None \<Rightarrow> fd) # parseGDA ov rest)"
| "parseGDA ov _ = []"

function parseTriplets ::
  "nat \<Rightarrow> overrides \<Rightarrow> FieldDesc list \<Rightarrow> bytes \<Rightarrow> fdoca_error + FieldDesc list" where
  "parseTriplets pos ov fds body =
     (if body = [] then Inr fds
      else if length body < 3 then Inl (TruncatedTriplet pos)
      else
        let tlen = unat (body ! 0); ttype = body ! 1; tid = body ! 2 in
        if tlen < 3 \<or> length body < tlen then Inl (BadTripletLength tlen pos)
        else
          let payload = drop 3 (take tlen body); rest = drop tlen body; pos' = pos + tlen in
          if ttype = 0x78 \<or> ttype = 0x71 then parseTriplets pos' ov fds rest
          else if ttype = 0x70 then
            (if length payload < 9 then Inl ShortSDA
             else parseTriplets pos'
               (ov(tid \<mapsto> \<lparr>ovType = payload ! 0, ovCCSID = BE_Uint32 (drop 1 payload),
                           ovLength = BE_Uint16 (drop 7 payload)\<rparr>)) fds rest)
          else if ttype = 0x76 \<or> ttype = 0x7F then
            parseTriplets pos' ov (fds @ parseGDA ov payload) rest
          else Inl (UnknownTriplet ttype))"
  by pat_completeness auto
termination
  by (relation "measure (\<lambda>(pos, ov, fds, body). length body)") auto

declare parseTriplets.simps [simp del]

definition ParseQRYDSC :: "bytes \<Rightarrow> fdoca_error + FieldDesc list" where
  "ParseQRYDSC body = parseTriplets 0 Map.empty [] body"

section \<open>Text\<close>

record RowDecoder =
  dFields :: "FieldDesc list"
  dLittleEndian :: bool
  dCCSIDSBC :: "16 word"
  dCCSIDDBC :: "16 word"
  dCCSIDMBC :: "16 word"

text \<open>\<^verbatim>\<open>utf16.Decode\<close>: an unpaired surrogate is U+FFFD.\<close>

fun utf16_Decode :: "nat list \<Rightarrow> rune list" where
  "utf16_Decode [] = []"
| "utf16_Decode (u # us) =
     (if 0xD800 \<le> u \<and> u < 0xDC00 \<and> us \<noteq> [] \<and> 0xDC00 \<le> hd us \<and> hd us < 0xE000
      then ((u - 0xD800) * 1024 + (hd us - 0xDC00) + 0x10000) # utf16_Decode (tl us)
      else if 0xD800 \<le> u \<and> u < 0xE000 then RuneError # utf16_Decode us
      else u # utf16_Decode us)"

fun be_units :: "bytes \<Rightarrow> nat list" where
  "be_units (h # l # rest) = unat (BE_Uint16 [h, l]) # be_units rest"
| "be_units _ = []"

definition text_base :: "FieldDesc \<Rightarrow> byte" where
  "text_base f = fType f AND NOT 1"

definition pick_ccsid :: "16 word \<Rightarrow> FieldDesc \<Rightarrow> 16 word" where
  "pick_ccsid c f = (if fCCSID f \<noteq> 0 then ucast (fCCSID f) else c)"

text \<open>\<open>None\<close> is the nil slice of a failed read.\<close>

definition decodeText :: "RowDecoder \<Rightarrow> bytes option \<Rightarrow> FieldDesc \<Rightarrow> bool \<Rightarrow> string" where
  "decodeText d b f fixed =
     (case b of None \<Rightarrow> ''''
      | Some b \<Rightarrow>
        let base = text_base f;
            s = (if base \<in> {TypeGraphic, TypeVarGraph, TypeLongGraph} then
                   (let ccsid = pick_ccsid (dCCSIDDBC d) f in
                    if ccsid \<in> {0, 1200, 1201, 13488, 17584, 1208}
                    then runes_str (utf16_Decode (be_units b))
                    else DecodeCCSID b 819)
                 else if base \<in> {TypeMix, TypeVarMix, TypeLongMix, TypeCStrMix, TypeLStrMix} then
                   (let ccsid = pick_ccsid (dCCSIDMBC d) f in
                    if ccsid = 0 \<or> ccsid = 1208 then decodeMixed b else DecodeCCSID b ccsid)
                 else
                   (let ccsid = pick_ccsid (dCCSIDSBC d) f in
                    if ccsid = 0 \<or> ccsid = 1208 then decodeMixed b else DecodeCCSID b ccsid))
        in if fixed then trimRightSet '' '' s else s)"

section \<open>Numbers\<close>

definition hi_nibble :: "byte \<Rightarrow> nat" where
  "hi_nibble c = unat c div 16"

definition lo_nibble :: "byte \<Rightarrow> nat" where
  "lo_nibble c = unat c mod 16"

text \<open>The digits after stripping leading zeros; anything else counts as zero.\<close>

definition digits_or_zero :: "nat list \<Rightarrow> int" where
  "digits_or_zero ds =
     (case big_SetString (trimLeftSet ''0'' (map digit_char ds)) of Some v \<Rightarrow> v | None \<Rightarrow> 0)"

definition packed_value :: "bytes \<Rightarrow> int" where
  "packed_value b =
     (let nibbles = concat (map (\<lambda>c. [hi_nibble c, lo_nibble c]) b);
          v = digits_or_zero (butlast nibbles)
      in if last nibbles = 0xD \<or> last nibbles = 0xB then - v else v)"

definition decodePackedDecimal :: "nat \<Rightarrow> nat \<Rightarrow> (byteReader, Value) state" where
  "decodePackedDecimal precision scale = do {
     b \<leftarrow> reader_take ((precision + 2) div 2);
     State_Monad.return
       (case b of None \<Rightarrow> VNil
        | Some b \<Rightarrow> VDecimal \<lparr>Unscaled = packed_value b, dScale = int scale\<rparr>)
   }"

definition zoned_value :: "bytes \<Rightarrow> int" where
  "zoned_value b =
     (let v = digits_or_zero (map (\<lambda>c. if 9 < lo_nibble c then 0 else lo_nibble c) b)
      in if b \<noteq> [] \<and> hi_nibble (last b) \<in> {0xD, 0xB, 7} then - v else v)"

definition decodeZonedDecimal :: "nat \<Rightarrow> nat \<Rightarrow> (byteReader, Value) state" where
  "decodeZonedDecimal precision scale = do {
     b \<leftarrow> reader_take precision;
     State_Monad.return
       (case b of None \<Rightarrow> VNil
        | Some b \<Rightarrow> VDecimal \<lparr>Unscaled = zoned_value b, dScale = int scale\<rparr>)
   }"

section \<open>Dates and times\<close>

definition parseDate :: "string \<Rightarrow> Value" where
  "parseDate s0 =
     (let s = TrimSpace s0 in
      if length s < 10 then VString s
      else
        case (Atoi (take 4 s), Atoi (take 2 (drop 5 s)), Atoi (take 2 (drop 8 s))) of
          (Some y, Some m, Some d) \<Rightarrow> VDate \<lparr>Year = y, Month = m, Day = d\<rparr>
        | _ \<Rightarrow> VString s)"

definition parseTime :: "string \<Rightarrow> Value" where
  "parseTime s0 =
     (let s = TrimSpace s0 in
      if length s < 8 then VString s
      else
        case (Atoi (take 2 s), Atoi (take 2 (drop 3 s)), Atoi (take 2 (drop 6 s))) of
          (Some h, Some m, Some sec) \<Rightarrow> VTime \<lparr>Hour = h, Minute = m, Second = sec\<rparr>
        | _ \<Rightarrow> VString s)"

definition frac_nanos :: "string \<Rightarrow> int" where
  "frac_nanos f = (case Atoi (take 9 (f @ replicate (9 - length f) CHR ''0'')) of Some n \<Rightarrow> n | None \<Rightarrow> 0)"

definition parseTimestamp :: "string \<Rightarrow> Value" where
  "parseTimestamp s0 =
     (let s = TrimSpace s0 in
      if length s < 19 then VString s
      else
        case parseDate (take 10 s) of
          VDate dv \<Rightarrow>
            (case parseTime (take 8 (drop 11 s)) of
               VTime tv \<Rightarrow>
                 VTimestamp \<lparr>tsDate = dv, tsTime = tv,
                   Nanos = (if 20 < length s then frac_nanos (drop 20 s) else 0)\<rparr>
             | _ \<Rightarrow> VString s)
        | _ \<Rightarrow> VString s)"

section \<open>Fields\<close>

definition float64_NaN :: "64 word" where
  "float64_NaN = 0x7FF8000000000001"

definition float64_Inf :: "bool \<Rightarrow> 64 word" where
  "float64_Inf neg = (if neg then 0xFFF0000000000000 else 0x7FF0000000000000)"

text \<open>A DECFLOAT whose length is neither 8 nor 16 decodes to the zero \<open>Decimal\<close>.\<close>

definition decFloat_value :: "bytes \<Rightarrow> Value" where
  "decFloat_value b =
     (case decodeDecFloat b of
        (dv, neg, sp) \<Rightarrow>
          (case sp of
             decFloatNaN \<Rightarrow> VFloat64 float64_NaN
           | decFloatInf \<Rightarrow> VFloat64 (float64_Inf neg)
           | decFloatFinite \<Rightarrow> (case dv of Some d \<Rightarrow> VDecimal d | None \<Rightarrow> VDecimalNil)))"

definition decoder_u32 :: "RowDecoder \<Rightarrow> (byteReader, 32 word) state" where
  "decoder_u32 d = do {
     v \<leftarrow> reader_take 4;
     State_Monad.return
       (case v of None \<Rightarrow> 0 | Some b \<Rightarrow> if dLittleEndian d then LE_Uint32 b else BE_Uint32 b)
   }"

definition decoder_u32BE :: "(byteReader, 32 word) state" where
  "decoder_u32BE = do {
     v \<leftarrow> reader_take 4;
     State_Monad.return (case v of None \<Rightarrow> 0 | Some b \<Rightarrow> BE_Uint32 b)
   }"

text \<open>\<open>cloneBytes\<close> of nil is nil, of a slice a copy; both are the same list of bytes.\<close>

definition cloneBytes :: "bytes option \<Rightarrow> Value" where
  "cloneBytes b = VBytes (or_nil b)"

definition up_to_nul :: "bytes \<Rightarrow> bytes" where
  "up_to_nul b = (case IndexByte b 0 of Some i \<Rightarrow> take i b | None \<Rightarrow> b)"

definition decodeBase :: "RowDecoder \<Rightarrow> FieldDesc \<Rightarrow> (byteReader, Value) state" where
  "decodeBase d f =
     (let base = fType f AND NOT 1; n = unat (fLength f) in
      if base = TypeSmall then do { v \<leftarrow> reader_u16; State_Monad.return (VInt16 v) }
      else if base = TypeInteger then do { v \<leftarrow> reader_i32; State_Monad.return (VInt32 v) }
      else if base = TypeInteger8 then do { v \<leftarrow> reader_u64; State_Monad.return (VInt64 v) }
      else if base = Type1ByteInt then do { v \<leftarrow> reader_u8; State_Monad.return (VInt16 (scast v)) }
      else if base = TypeFloat4 then do { v \<leftarrow> decoder_u32 d; State_Monad.return (VFloat32 v) }
      else if base = TypeFloat8 then do { v \<leftarrow> reader_u64; State_Monad.return (VFloat64 v) }
      else if base = TypeBoolean then do {
        b \<leftarrow> reader_take (if n = 0 then 1 else n);
        State_Monad.return (VBool (list_ex (\<lambda>c. c \<noteq> 0) (or_nil b)))
      }
      else if base = TypeDecimal then decodePackedDecimal (Precision f) (Scale f)
      else if base \<in> {TypeZDecimal, TypeNumericChar} then decodeZonedDecimal (Precision f) (Scale f)
      else if base = TypeDecFloat then do {
        b \<leftarrow> reader_take n;
        State_Monad.return (decFloat_value (or_nil b))
      }
      else if base = TypeDate then do {
        b \<leftarrow> reader_take n;
        State_Monad.return (parseDate (bytes_str (or_nil b)))
      }
      else if base = TypeTime then do {
        b \<leftarrow> reader_take n;
        State_Monad.return (parseTime (bytes_str (or_nil b)))
      }
      else if base = TypeTimestamp then do {
        b \<leftarrow> reader_take n;
        State_Monad.return (parseTimestamp (bytes_str (or_nil b)))
      }
      else if base \<in> {TypeChar, TypeMix} then do {
        b \<leftarrow> reader_take n;
        State_Monad.return (VString (decodeText d b f True))
      }
      else if base = TypeGraphic then do {
        b \<leftarrow> reader_take (2 * n);
        State_Monad.return (VString (decodeText d b f True))
      }
      else if base \<in> {TypeVarChar, TypeLong, TypeVarMix, TypeLongMix} then do {
        k \<leftarrow> reader_u16BE;
        b \<leftarrow> reader_take (unat k);
        State_Monad.return (VString (decodeText d b f False))
      }
      else if base \<in> {TypeVarGraph, TypeLongGraph} then do {
        k \<leftarrow> reader_u16BE;
        b \<leftarrow> reader_take (2 * unat k);
        State_Monad.return (VString (decodeText d b f False))
      }
      else if base \<in> {TypeCStr, TypeCStrMix} then do {
        b \<leftarrow> reader_take n;
        State_Monad.return (VString (decodeText d (map_option up_to_nul b) f False))
      }
      else if base = TypeNTermByte then do {
        b \<leftarrow> reader_take n;
        State_Monad.return (cloneBytes (map_option up_to_nul b))
      }
      else if base \<in> {TypeLStr, TypeLStrMix} then do {
        k \<leftarrow> reader_u8;
        b \<leftarrow> reader_take (unat k);
        State_Monad.return (VString (decodeText d b f False))
      }
      else if base = TypePsclByte then do {
        k \<leftarrow> reader_u8;
        b \<leftarrow> reader_take (unat k);
        State_Monad.return (cloneBytes b)
      }
      else if base \<in> {TypeFixByte, TypeFixBytes, TypeRowID} then do {
        b \<leftarrow> reader_take (unat (fLength f AND 0x7FFF));
        State_Monad.return (cloneBytes b)
      }
      else if base \<in> {TypeVarByte, TypeVarBinary} then do {
        k \<leftarrow> reader_u16BE;
        b \<leftarrow> reader_take (unat k);
        State_Monad.return (cloneBytes b)
      }
      else if base = TypeLongVarByte then do {
        k \<leftarrow> decoder_u32BE;
        b \<leftarrow> reader_take (unat k);
        State_Monad.return (cloneBytes b)
      }
      else if base \<in> {TypeLobLoc, TypeClobLoc, TypeDbcsClobLoc} then do {
        _ \<leftarrow> reader_take n;
        State_Monad.return (VLobRef (base \<noteq> TypeLobLoc))
      }
      else if base = TypeLobBytes then do {
        _ \<leftarrow> reader_take (unat (fLength f AND 0x7FFF));
        State_Monad.return (VLobRef False)
      }
      else if base = TypeLobCSBCS then do {
        _ \<leftarrow> reader_take (unat (fLength f AND 0x7FFF));
        State_Monad.return (VLobRef True)
      }
      else State (\<lambda>r. (VNil, reader_fail (UnsupportedFdoca (fType f)) r)))"

definition decodeField :: "RowDecoder \<Rightarrow> FieldDesc \<Rightarrow> (byteReader, Value) state" where
  "decodeField d f =
     (if FieldDesc_Nullable f then do {
        ind \<leftarrow> reader_u8;
        if ind = 0xFF then State_Monad.return VNil else decodeBase d f
      }
      else decodeBase d f)"

section \<open>Rows and blocks\<close>

text \<open>The fields of one row; decoding stops at the first error, giving \<open>None\<close>.\<close>

fun decodeFields :: "RowDecoder \<Rightarrow> FieldDesc list \<Rightarrow> (byteReader, Value list option) state" where
  "decodeFields d [] = State_Monad.return (Some [])"
| "decodeFields d (f # fs) = do {
     v \<leftarrow> decodeField d f;
     failed \<leftarrow> reader_failed;
     if failed then State_Monad.return None
     else do { vs \<leftarrow> decodeFields d fs; State_Monad.return (map_option (Cons v) vs) }
   }"

text \<open>
  What one iteration of the block loop finds: a row incomplete in this block, a decoding
  error, an SQLCA that ends the block, a null SQLDTAGRP, or a row and the number of bytes it
  took.  The \<open>SQLCA option\<close> is the row's warning, reported as soon as the SQLDTAGRP
  indicator has been read.
\<close>

datatype row_step =
    StepLeftover "SQLCA option"
  | StepFail "SQLCA option" reader_error
  | StepStop SQLCA
  | StepNoRow "SQLCA option"
  | StepRow "SQLCA option" "Value list" nat

definition decodeRowData :: "RowDecoder \<Rightarrow> SQLCA option \<Rightarrow> byteReader \<Rightarrow> row_step" where
  "decodeRowData d rowCA r =
     (case run_state reader_u8 r of
        (ind, r1) \<Rightarrow>
          if rerr r1 \<noteq> None then StepLeftover None
          else if ind = 0xFF then StepNoRow rowCA
          else
            (case run_state (decodeFields d (dFields d)) r1 of
               (row, r2) \<Rightarrow>
                 (case rerr r2 of
                    Some e \<Rightarrow> if rtrunc r2 then StepLeftover rowCA else StepFail rowCA e
                  | None \<Rightarrow> (case row of Some vs \<Rightarrow> StepRow rowCA vs (rpos r2) | None \<Rightarrow> StepLeftover rowCA))))"

definition decodeRow :: "RowDecoder \<Rightarrow> bytes \<Rightarrow> row_step" where
  "decodeRow d body =
     (let r = new_reader body (dLittleEndian d) 0 in
      if body ! 0 = 0xFF then decodeRowData d None (r\<lparr>rpos := 1\<rparr>)
      else
        case run_state parseSQLCAGRP r of
          (rowCA, r1) \<Rightarrow>
            (case rerr r1 of
               Some e \<Rightarrow> if rtrunc r1 then StepLeftover None else StepFail None e
             | None \<Rightarrow>
                 (case rowCA of
                    Some ca \<Rightarrow>
                      if IsError rowCA \<or> SQLCode ca = 100 then StepStop ca else decodeRowData d rowCA r1
                  | None \<Rightarrow> decodeRowData d None r1)))"

record 'e block_result =
  leftover :: bytes
  blockCA :: "SQLCA option"
  blockErr :: "(reader_error + 'e) option"

section \<open>Stability of the field decoders\<close>

lemma stable_decodeBase [reader_intros]: "stable w (decodeBase d f)"
  unfolding decodeBase_def decodePackedDecimal_def decodeZonedDecimal_def decoder_u32_def
    decoder_u32BE_def
  by (intro reader_intros)

lemma stable_decodeField [reader_intros]: "stable w (decodeField d f)"
  unfolding decodeField_def by (intro reader_intros)

lemma stable_failed [reader_intros]: "stable w reader_failed"
  by (auto simp: stable_def reader_failed_def)

lemma stable_decodeFields [reader_intros]: "stable w (decodeFields d fs)"
  by (induction fs) (auto intro!: reader_intros simp del: bind_right_identity)

lemma decodeFields_Some:
  "run_state (decodeFields d fs) r = (vs, r') \<Longrightarrow> rerr r' = None \<Longrightarrow> \<exists>row. vs = Some row \<and> length row = length fs"
proof (induction fs arbitrary: vs r r')
  case (Cons f fs)
  obtain v r1 where v: "run_state (decodeField d f) r = (v, r1)" by fastforce
  have "rerr r1 = None"
    using Cons.prems v by (auto simp: reader_failed_def split: if_splits)
  then obtain vs1 where "run_state (decodeFields d fs) r1 = (vs1, r')" "vs = map_option (Cons v) vs1"
    using Cons.prems v by (auto simp: reader_failed_def split: prod.splits)
  then show ?case using Cons.IH Cons.prems(2) by fastforce
qed simp

text \<open>A row result says how far the cursor went, and is the same on every longer block.\<close>

lemma decodeRowData_StepRow:
  assumes wf: "reader_wf r" and st: "decodeRowData d ca r = StepRow w vs n"
  shows "rpos r < n" "n \<le> length (rb r)"
proof -
  obtain ind r1 where u: "run_state reader_u8 r = (ind, r1)" by fastforce
  obtain row r2 where f: "run_state (decodeFields d (dFields d)) r1 = (row, r2)" by fastforce
  note s1 = stableD [OF stable_u(1) wf u] and s2 = stableD [OF stable_decodeFields stableD(2) [OF stable_u(1) wf u] f]
  have ok: "rerr r1 = None" and n: "n = rpos r2"
    using st u f by (auto simp: decodeRowData_def split: if_splits option.splits)
  have "rpos r1 = rpos r + 1"
    using u ok by (auto simp: reader_u8_def reader_take_def reader_fail_def split: if_splits)
  then show "rpos r < n" "n \<le> length (rb r)"
    using s1(1) s2(1) n by (auto simp: reader_step_def reader_wf_def)
qed

lemma decodeRow_StepRow:
  assumes "decodeRow d body = StepRow w vs n" "body \<noteq> []"
  shows "0 < n" "n \<le> length body"
proof -
  let ?r = "new_reader body (dLittleEndian d) 0"
  obtain r1 ca where r1: "reader_wf r1" "rb r1 = body" "decodeRowData d ca r1 = StepRow w vs n"
  proof (cases "body ! 0 = 0xFF")
    case True
    then show ?thesis
      using assms that [of "?r\<lparr>rpos := 1\<rparr>" None]
      by (simp add: decodeRow_def reader_wf_def new_reader_def Suc_le_eq)
  next
    case False
    obtain ca r1 where p: "run_state parseSQLCAGRP ?r = (ca, r1)" by fastforce
    then show ?thesis
      using assms False that [of r1 ca] stableD(1,2) [OF stable_SQLCAGRP reader_wf_new p]
      by (auto simp: decodeRow_def reader_step_def new_reader_def split: option.splits if_splits)
  qed
  from decodeRowData_StepRow [OF r1(1,3)] r1(2) show "0 < n" "n \<le> length body" by auto
qed

section \<open>The block loop\<close>

definition warn :: "(SQLCA \<Rightarrow> 's \<Rightarrow> 's) \<Rightarrow> SQLCA option \<Rightarrow> 's \<Rightarrow> 's" where
  "warn onWarning w st = (case w of None \<Rightarrow> st | Some ca \<Rightarrow> onWarning ca st)"

function DecodeBlock ::
  "RowDecoder \<Rightarrow> bytes \<Rightarrow> (Value list \<Rightarrow> 's \<Rightarrow> 'e option \<times> 's) \<Rightarrow> (SQLCA \<Rightarrow> 's \<Rightarrow> 's) \<Rightarrow> 's
     \<Rightarrow> 'e block_result \<times> 's" where
  "DecodeBlock d body emit onWarning st =
     (if body = [] then (\<lparr>leftover = [], blockCA = None, blockErr = None\<rparr>, st)
      else
        case decodeRow d body of
          StepLeftover w \<Rightarrow> (\<lparr>leftover = body, blockCA = None, blockErr = None\<rparr>, warn onWarning w st)
        | StepFail w e \<Rightarrow> (\<lparr>leftover = [], blockCA = None, blockErr = Some (Inl e)\<rparr>, warn onWarning w st)
        | StepStop ca \<Rightarrow> (\<lparr>leftover = [], blockCA = Some ca, blockErr = None\<rparr>, st)
        | StepNoRow w \<Rightarrow> (\<lparr>leftover = [], blockCA = w, blockErr = None\<rparr>, warn onWarning w st)
        | StepRow w row n \<Rightarrow>
            (case emit row (warn onWarning w st) of
               (Some e, st1) \<Rightarrow> (\<lparr>leftover = [], blockCA = None, blockErr = Some (Inr e)\<rparr>, st1)
             | (None, st1) \<Rightarrow> DecodeBlock d (drop n body) emit onWarning st1))"
  by pat_completeness auto
termination
  by (relation "measure (\<lambda>(d, body, emit, onWarning, st). length body)")
     (auto dest: decodeRow_StepRow)

declare DecodeBlock.simps [simp del]

section \<open>Longer blocks\<close>

definition is_leftover :: "row_step \<Rightarrow> bool" where
  "is_leftover s = (case s of StepLeftover w \<Rightarrow> True | _ \<Rightarrow> False)"

lemma decodeRowData_ext:
  assumes wf: "reader_wf r" "rerr r = None" and "\<not> is_leftover (decodeRowData d ca r)"
  shows "decodeRowData d ca (reader_ext x r) = decodeRowData d ca r" "rpos r < length (rb r)"
proof -
  obtain ind r1 where u: "run_state reader_u8 r = (ind, r1)" by fastforce
  obtain row r2 where f: "run_state (decodeFields d (dFields d)) r1 = (row, r2)" by fastforce
  note s1 = stableD [OF stable_u(1) [of False] wf(1) u]
  note s2 = stableD [OF stable_decodeFields [of False] s1(2) f]
  have ok: "rerr r1 = None"
    using assms u by (auto simp: decodeRowData_def is_leftover_def split: if_splits)
  then have u': "run_state reader_u8 (reader_ext x r) = (ind, reader_ext x r1)"
    using s1(2,3) by (auto simp: reader_wf_def)
  have f': "run_state (decodeFields d (dFields d)) (reader_ext x r1) = (row, reader_ext x r2)"
    if "ind \<noteq> 0xFF"
    using that s2(2,3) assms(3) ok u f
    by (auto simp: decodeRowData_def is_leftover_def reader_wf_def split: if_splits option.splits)
  show "decodeRowData d ca (reader_ext x r) = decodeRowData d ca r"
    using u u' f f' by (auto simp: decodeRowData_def split: option.split)
  show "rpos r < length (rb r)"
    using u ok wf by (auto simp: reader_u8_def reader_take_def reader_fail_def split: if_splits)
qed

lemma decodeRow_ext:
  assumes "b \<noteq> []" "\<not> is_leftover (decodeRow d b)"
  shows "decodeRow d (b @ x) = decodeRow d b"
proof (cases "b ! 0 = 0xFF")
  case True
  let ?r = "(new_reader b (dLittleEndian d) 0)\<lparr>rpos := 1\<rparr>"
  have "reader_wf ?r" "rerr ?r = None"
    using assms(1) by (auto simp: reader_wf_def new_reader_def Suc_le_eq)
  moreover have "reader_ext x ?r = (new_reader (b @ x) (dLittleEndian d) 0)\<lparr>rpos := 1\<rparr>"
    by (simp add: reader_ext_def new_reader_def)
  ultimately show ?thesis
    using decodeRowData_ext(1) [of ?r d None x] assms True
    by (auto simp: decodeRow_def nth_append)
next
  case False
  let ?r = "new_reader b (dLittleEndian d) 0"
  obtain ca r1 where p: "run_state parseSQLCAGRP ?r = (ca, r1)" by fastforce
  note s = stableD [OF stable_SQLCAGRP reader_wf_new p]
  have b0: "(b @ x) ! 0 \<noteq> 0xFF" using False assms(1) by (simp add: nth_append)
  show ?thesis
  proof (cases "rerr r1")
    case (Some e)
    then have "\<not> rtrunc r1" "rtrunc r1"
      using assms(2) False p parseSQLCAGRP_error [OF p] by (auto simp: decodeRow_def is_leftover_def)
    then show ?thesis by simp
  next
    case None
    then obtain r2 where p2: "run_state parseSQLCAGRP (reader_ext x ?r) = (ca, r2)" "rerr r2 = None"
      using parseSQLCAGRP_value_ext [OF reader_wf_new p] by blast
    show ?thesis
    proof (cases "\<exists>c. ca = Some c \<and> (IsError ca \<or> SQLCode c = 100)")
      case True
      then show ?thesis
        using p p2 None False b0 by (auto simp: decodeRow_def reader_ext_new)
    next
      case stop: False
      then have row: "decodeRow d b = decodeRowData d ca r1"
        using p None False by (auto simp: decodeRow_def split: option.splits)
      have "\<not> is_leftover (decodeRowData d ca r1)" using assms(2) row by simp
      note e = decodeRowData_ext [OF s(2) None this]
      have "\<not> rtrunc r1" using s(2) None by (auto simp: reader_wf_def)
      then have "run_state parseSQLCAGRP (reader_ext x ?r) = (ca, reader_ext x r1)"
        using s(3) e(2) assms(2) row by simp
      then show ?thesis
        using stop None b0 e(1) assms(2) row
        by (auto simp: decodeRow_def reader_ext_new split: option.splits)
    qed
  qed
qed

section \<open>Blocks as a stream of rows\<close>

definition row_item :: "RowDecoder \<Rightarrow> bytes \<Rightarrow> Value list item_step" where
  "row_item d b =
     (case decodeRow d b of
        StepRow w vs n \<Rightarrow> Item vs n
      | StepLeftover w \<Rightarrow> Incomplete
      | _ \<Rightarrow> Ended)"

text \<open>Collecting the rows, as the query reader does.\<close>

definition collect_row :: "Value list \<Rightarrow> Value list list \<Rightarrow> unit option \<times> Value list list" where
  "collect_row row rows = (None, rows @ [row])"

definition block_rows :: "RowDecoder \<Rightarrow> bytes \<Rightarrow> Value list list \<times> bytes" where
  "block_rows d b =
     (case DecodeBlock d b collect_row (\<lambda>ca st. st) [] of (res, rows) \<Rightarrow> (rows, leftover res))"

lemma warn_id [simp]: "warn (\<lambda>ca st. st) w st = st"
  by (simp add: warn_def split: option.split)

lemma DecodeBlock_collect:
  "DecodeBlock d b collect_row (\<lambda>ca st. st) acc =
     (fst (DecodeBlock d b collect_row (\<lambda>ca st. st) []),
      acc @ snd (DecodeBlock d b collect_row (\<lambda>ca st. st) []))"
proof (induction "length b" arbitrary: b acc rule: less_induct)
  case less
  show ?case
  proof (cases "b \<noteq> [] \<and> (\<exists>w vs n. decodeRow d b = StepRow w vs n)")
    case True
    then obtain w vs n where s: "decodeRow d b = StepRow w vs n" "b \<noteq> []" by blast
    then have "length (drop n b) < length b" using decodeRow_StepRow [OF s] by simp
    from less [OF this, of "acc @ [vs]"] less [OF this, of "[vs]"] show ?thesis
      using s by (simp add: DecodeBlock.simps [of d b] collect_row_def)
  next
    case False
    then show ?thesis
      by (cases "b = []"; cases "decodeRow d b") (auto simp: DecodeBlock.simps [of d b] DecodeBlock.simps [of d "[]"])
  qed
qed

interpretation fdoca: block_parser "row_item d" "block_rows d" for d
proof
  fix b x n assume "row_item d b = Item x n" "b \<noteq> []"
  then show "0 < n \<and> n \<le> length b"
    by (auto simp: row_item_def split: row_step.splits dest: decodeRow_StepRow)
next
  fix b s assume b: "b \<noteq> []" "row_item d b \<noteq> Incomplete"
  then have "\<not> is_leftover (decodeRow d b)"
    by (auto simp: row_item_def is_leftover_def split: row_step.splits)
  then show "row_item d (b @ s) = row_item d b"
    using decodeRow_ext [OF b(1)] by (simp add: row_item_def)
next
  show "block_rows d [] = ([], [])" by (simp add: block_rows_def DecodeBlock.simps)
next
  fix b x n assume b: "b \<noteq> []" "row_item d b = Item x n"
  then obtain w where "decodeRow d b = StepRow w x n"
    by (auto simp: row_item_def split: row_step.splits)
  then show "block_rows d b = (x # fst (block_rows d (drop n b)), snd (block_rows d (drop n b)))"
    using b(1) DecodeBlock_collect [of d "drop n b" "[x]"]
    by (simp add: block_rows_def DecodeBlock.simps [of d b] collect_row_def split: prod.splits)
next
  fix b assume b: "b \<noteq> []" "row_item d b = Incomplete"
  then obtain w where "decodeRow d b = StepLeftover w"
    by (auto simp: row_item_def split: row_step.splits)
  then show "block_rows d b = ([], b)"
    using b(1) by (simp add: block_rows_def DecodeBlock.simps [of d b])
qed

section \<open>Properties\<close>

lemma feed_rows_any_cut:
  "list_all2 (\<lambda>w row. w \<noteq> [] \<and> row_item d w = Item row (length w)) ws rows \<Longrightarrow> concat blocks = concat ws \<Longrightarrow>
     feed_blocks (block_rows d) [] blocks = (rows, [])"
  using fdoca.feed_any_cut [of d ws rows "[]" blocks] by (simp add: fdoca.encodes_def [abs_def])

text \<open>
  C21: query blocks may end anywhere.  However the server cuts a stream of encoded rows into
  QRYDTA blocks, decoding each block with the leftover of the one before in front emits
  exactly the encoded rows, each once and in order, and nothing is left over at the end.
\<close>

theorem DecodeBlock_any_cut:
  "list_all2 (\<lambda>w row. w \<noteq> [] \<and> row_item d w = Item row (length w)) ws rows \<and> concat blocks = concat ws \<longrightarrow>
     feed_blocks (block_rows d) [] blocks = (rows, [])"
  by (blast intro: feed_rows_any_cut)

definition small_decoder :: RowDecoder where
  "small_decoder = \<lparr>dFields = [\<lparr>fType = TypeNSmall, fLength = 2, fCCSID = 0\<rparr>], dLittleEndian = False,
     dCCSIDSBC = 0, dCCSIDDBC = 0, dCCSIDMBC = 0\<rparr>"

lemmas reader_eval = decodeRow_def decodeRowData_def decodeField_def decodeBase_def reader_failed_def
  reader_u8_def reader_u16_def reader_take_def reader_le_def reader_fail_def new_reader_def
  small_decoder_def FieldDesc_Nullable_def IsNullable_def

theorem DecodeBlock_any_cut_witness:
  "feed_blocks (block_rows small_decoder) [] [[0xFF, 0, 0], [1], [2, 0xFF, 0], [], [0xFF]]
     = ([[VInt16 258], [VNil]], [])"
proof -
  have "row_item small_decoder [0xFF, 0, 0, 1, 2] = Item [VInt16 258] 5"
    "row_item small_decoder [0xFF, 0, 0xFF] = Item [VNil] 3"
    by (simp_all add: row_item_def reader_eval BE_Uint16_def)
  then show ?thesis
    using DecodeBlock_any_cut [of small_decoder "[[0xFF, 0, 0, 1, 2], [0xFF, 0, 0xFF]]" "[[VInt16 258], [VNil]]"
        "[[0xFF, 0, 0], [1], [2, 0xFF, 0], [], [0xFF]]"] by simp
qed

text \<open>A row's warning when the row is cut inside its data.\<close>

definition collect_warning ::
  "SQLCA \<Rightarrow> SQLCA list \<times> Value list list \<Rightarrow> SQLCA list \<times> Value list list" where
  "collect_warning ca st = (fst st @ [ca], snd st)"

definition collect_both ::
  "Value list \<Rightarrow> SQLCA list \<times> Value list list \<Rightarrow> unit option \<times> SQLCA list \<times> Value list list" where
  "collect_both row st = (None, fst st, snd st @ [row])"

definition feed_two :: "RowDecoder \<Rightarrow> bytes \<Rightarrow> bytes \<Rightarrow> SQLCA list \<times> Value list list" where
  "feed_two d b1 b2 =
     (case DecodeBlock d b1 collect_both collect_warning ([], []) of
        (res, st) \<Rightarrow> snd (DecodeBlock d (leftover res @ b2) collect_both collect_warning st))"

lemma decodeRow_warning:
  assumes ok: "sqlca_ok ca toks" "0 < sint (SQLCode ca)" "SQLCode ca \<noteq> 100"
  shows "decodeRow small_decoder (sqlca_wire False ca toks @ [0, 0, hi]) = StepLeftover (Some ca)"
    "decodeRow small_decoder (sqlca_wire False ca toks @ [0, 0, hi, lo])
       = StepRow (Some ca) [VInt16 (BE_Uint16 [hi, lo])] (length (sqlca_wire False ca toks) + 4)"
proof -
  have w0: "(sqlca_wire False ca toks @ x) ! 0 \<noteq> 0xFF" for x by (simp add: sqlca_wire_def)
  have r: "run_state parseSQLCAGRP (new_reader (sqlca_wire False ca toks @ x) False 0)
      = (Some ca, (new_reader (sqlca_wire False ca toks @ x) False 0)\<lparr>rpos := length (sqlca_wire False ca toks)\<rparr>)" for x
    by (rule reads_new [OF reads_SQLCAGRP [OF ok(1)]])
  have le: "dLittleEndian small_decoder = False" by (simp add: small_decoder_def)
  have row: "decodeRow small_decoder (sqlca_wire False ca toks @ x) = decodeRowData small_decoder (Some ca)
      ((new_reader (sqlca_wire False ca toks @ x) False 0)\<lparr>rpos := length (sqlca_wire False ca toks)\<rparr>)" for x
    using ok(2,3) w0 r [of x] by (simp add: decodeRow_def le IsError_def new_reader_def)
  show "decodeRow small_decoder (sqlca_wire False ca toks @ [0, 0, hi]) = StepLeftover (Some ca)"
    unfolding row by (simp add: reader_eval)
  show "decodeRow small_decoder (sqlca_wire False ca toks @ [0, 0, hi, lo])
       = StepRow (Some ca) [VInt16 (BE_Uint16 [hi, lo])] (length (sqlca_wire False ca toks) + 4)"
    unfolding row by (simp add: reader_eval)
qed

text \<open>
  A warning SQLCA on a row that a block boundary cuts inside its data is reported to
  \<open>onWarning\<close> twice, once for the incomplete row and again when the row is decoded from the
  start; the row itself is emitted once.
\<close>

theorem DecodeBlock_warning_twice:
  "sqlca_ok ca toks \<and> 0 < sint (SQLCode ca) \<and> SQLCode ca \<noteq> 100 \<longrightarrow>
     feed_two small_decoder (sqlca_wire False ca toks @ [0, 0, hi]) [lo]
       = ([ca, ca], [[VInt16 (BE_Uint16 [hi, lo])]])"
proof
  assume ok: "sqlca_ok ca toks \<and> 0 < sint (SQLCode ca) \<and> SQLCode ca \<noteq> 100"
  note r = decodeRow_warning [of ca toks hi] decodeRow_warning(2) [of ca toks hi lo]
  show "feed_two small_decoder (sqlca_wire False ca toks @ [0, 0, hi]) [lo]
       = ([ca, ca], [[VInt16 (BE_Uint16 [hi, lo])]])"
    using ok r
    by (simp add: feed_two_def DecodeBlock.simps [of _ "sqlca_wire _ _ _ @ _"] DecodeBlock.simps [of _ "[]"]
        warn_def collect_both_def collect_warning_def)
qed

theorem DecodeBlock_warning_twice_witness:
  "feed_two small_decoder (sqlca_wire False (sample_SQLCA\<lparr>SQLCode := 12\<rparr>) [''DB2INST1.T'', ''X''] @ [0, 0, 0]) [7]
     = ([sample_SQLCA\<lparr>SQLCode := 12\<rparr>, sample_SQLCA\<lparr>SQLCode := 12\<rparr>], [[VInt16 7]])"
  using DecodeBlock_warning_twice [of "sample_SQLCA\<lparr>SQLCode := 12\<rparr>" "[''DB2INST1.T'', ''X'']" 0 7]
  by (simp add: sqlca_ok_def sample_SQLCA_def is_ascii_def BE_Uint16_def)

end
