(* ===== verification/Drda_Params.thy ===== *)
theory Drda_Params
  imports Drda_FDOCA
begin

text \<open>
  Parameter encoding (\<^verbatim>\<open>internal/drda/params.go\<close>): the choice of a wire encoding for
  every described parameter, the FDODSC descriptor, the FDODTA data with its null
  indicators, and the out-of-line EXTDTA objects.

  Floating-point arithmetic and the shortest decimal form of a float are operations of the
  machine and of \<^verbatim>\<open>math/big\<close>; they enter as the record \<open>float_ops\<close>, and the theorems
  hold for every choice of them.  A Go panic is the conversion result \<open>Panics\<close> or the
  error \<open>ParamPanic\<close>.  \<open>appendParam\<close> returns the bytes it appends.
\<close>

section \<open>Conversions between values\<close>

record float_ops =
  f32_to_f64 :: "32 word \<Rightarrow> 64 word"
  f64_to_f32 :: "64 word \<Rightarrow> 32 word"
  f64_to_i64 :: "64 word \<Rightarrow> 64 word"
  i64_to_f64 :: "64 word \<Rightarrow> 64 word"
  decimal_to_f64 :: "Decimal \<Rightarrow> 64 word"
  f64_text :: "64 word \<Rightarrow> string"

definition f64_is_NaN :: "64 word \<Rightarrow> bool" where
  "f64_is_NaN w \<longleftrightarrow> take_bit 11 (drop_bit 52 w) = 0x7FF \<and> take_bit 52 w \<noteq> 0"

datatype 'a conv = Got 'a | NotOk | Panics

definition conv_bind :: "'a conv \<Rightarrow> ('a \<Rightarrow> 'b conv) \<Rightarrow> 'b conv" where
  "conv_bind c f = (case c of Got a \<Rightarrow> f a | NotOk \<Rightarrow> NotOk | Panics \<Rightarrow> Panics)"

definition toInt64 :: "float_ops \<Rightarrow> Value \<Rightarrow> 64 word conv" where
  "toInt64 F v =
     (case v of
        VInt x \<Rightarrow> Got x
      | VInt8 x \<Rightarrow> Got (scast x)
      | VInt16 x \<Rightarrow> Got (scast x)
      | VInt32 x \<Rightarrow> Got (scast x)
      | VInt64 x \<Rightarrow> Got x
      | VUint8 x \<Rightarrow> Got (ucast x)
      | VUint16 x \<Rightarrow> Got (ucast x)
      | VUint32 x \<Rightarrow> Got (ucast x)
      | VUint64 x \<Rightarrow> Got x
      | VBool b \<Rightarrow> Got (if b then 1 else 0)
      | VFloat32 x \<Rightarrow> Got (f64_to_i64 F (f32_to_f64 F x))
      | VFloat64 x \<Rightarrow> Got (f64_to_i64 F x)
      | VDecimal d \<Rightarrow>
          if dScale d = 0 \<and> - (2 ^ 63) \<le> Unscaled d \<and> Unscaled d < 2 ^ 63
          then Got (word_of_int (Unscaled d)) else NotOk
      | VDecimalNil \<Rightarrow> Panics
      | _ \<Rightarrow> NotOk)"

definition toFloat64 :: "float_ops \<Rightarrow> Value \<Rightarrow> 64 word conv" where
  "toFloat64 F v =
     (case v of
        VFloat32 x \<Rightarrow> Got (f32_to_f64 F x)
      | VFloat64 x \<Rightarrow> Got x
      | VDecimal d \<Rightarrow> Got (decimal_to_f64 F d)
      | VDecimalNil \<Rightarrow> Panics
      | _ \<Rightarrow> conv_bind (toInt64 F v) (\<lambda>n. Got (i64_to_f64 F n)))"

text \<open>\<open>fmtFloat\<close>: \<^verbatim>\<open>big.NewFloat\<close> panics on a NaN.\<close>

definition fmtFloat :: "float_ops \<Rightarrow> 64 word \<Rightarrow> string conv" where
  "fmtFloat F x = (if f64_is_NaN x then Panics else Got (f64_text F x))"

definition parseDecimalString :: "string \<Rightarrow> Decimal option" where
  "parseDecimalString s0 =
     (let s = TrimSpace s0 in
      if s = '''' then None
      else
        let sign = (hd s = CHR ''-'' \<or> hd s = CHR ''+'');
            neg = (hd s = CHR ''-'');
            s1 = (if sign then tl s else s);
            (intPart, frac) = (case IndexByte s1 CHR ''.'' of
                                 Some i \<Rightarrow> (take i s1, drop (i + 1) s1) | None \<Rightarrow> (s1, ''''));
            digits = intPart @ frac
        in if digits = '''' then None
           else case big_SetString digits of
                  None \<Rightarrow> None
                | Some n \<Rightarrow> Some \<lparr>Unscaled = (if neg then - n else n), dScale = int32 (int (length frac))\<rparr>)"

definition option_conv :: "'a option \<Rightarrow> 'a conv" where
  "option_conv x = (case x of Some a \<Rightarrow> Got a | None \<Rightarrow> NotOk)"

text \<open>A decimal with a nil coefficient makes every consumer of \<open>toDecimal\<close> panic.\<close>

definition toDecimal :: "float_ops \<Rightarrow> Value \<Rightarrow> Decimal conv" where
  "toDecimal F v =
     (case v of
        VDecimal d \<Rightarrow> Got d
      | VDecimalNil \<Rightarrow> Panics
      | VString s \<Rightarrow> option_conv (parseDecimalString s)
      | VFloat32 x \<Rightarrow> conv_bind (fmtFloat F (f32_to_f64 F x)) (\<lambda>s. option_conv (parseDecimalString s))
      | VFloat64 x \<Rightarrow> conv_bind (fmtFloat F x) (\<lambda>s. option_conv (parseDecimalString s))
      | _ \<Rightarrow> conv_bind (toInt64 F v) (\<lambda>n. Got \<lparr>Unscaled = sint n, dScale = 0\<rparr>))"

section \<open>Text forms\<close>

text \<open>
  The calendar date of a day number, the inverse of \<open>unix_days\<close>, for \<^verbatim>\<open>Time.Format\<close>.
\<close>

definition civil_year :: "int \<Rightarrow> int" where
  "civil_year n =
     (let y = (n * 400) div 146097 + 1
      in if n < days_before_year y then y - 1
         else if days_before_year (y + 1) \<le> n then y + 1 else y)"

definition civil_month :: "int \<Rightarrow> int \<Rightarrow> int" where
  "civil_month y k = int (length (takeWhile (\<lambda>m. days_before_month y m \<le> k) [1, 2, 3, 4, 5, 6, 7, 8, 9, 10, 11, 12]))"

definition civil_date :: "int \<Rightarrow> Date" where
  "civil_date days =
     (let n = days + 719162; y = civil_year n; k = n - days_before_year y; m = civil_month y k
      in \<lparr>Year = y, Month = m, Day = k - days_before_month y m + 1\<rparr>)"

text \<open>\<^verbatim>\<open>ToTime().Format("2006-01-02-15.04.05.000000000")\<close>.\<close>

definition format_timestamp :: "Timestamp \<Rightarrow> string" where
  "format_timestamp ts =
     (let (sec, nanos) = ToTime ts; d = civil_date (sec div 86400); s = sec mod 86400
      in Date_String d @ ''-'' @ fmt_0d 2 (s div 3600) @ ''.'' @ fmt_0d 2 (s div 60 mod 60) @ ''.''
           @ fmt_0d 2 (s mod 60) @ ''.'' @ fmt_0d 9 nanos)"

definition toString :: "float_ops \<Rightarrow> Value \<Rightarrow> string conv" where
  "toString F v =
     (case v of
        VString s \<Rightarrow> Got s
      | VBytes b \<Rightarrow> Got (bytes_str b)
      | VDecimal d \<Rightarrow> Got (Decimal_String d)
      | VDecimalNil \<Rightarrow> Got ''<nil>''
      | VDate d \<Rightarrow> Got (Date_String d)
      | VTime t \<Rightarrow> Got (Time_String t)
      | VTimestamp ts \<Rightarrow> Got (format_timestamp ts)
      | VBool b \<Rightarrow> Got (if b then ''1'' else ''0'')
      | VFloat32 x \<Rightarrow> fmtFloat F (f32_to_f64 F x)
      | VFloat64 x \<Rightarrow> fmtFloat F x
      | _ \<Rightarrow> conv_bind (toInt64 F v) (\<lambda>n. Got (int_str (sint n))))"

definition toBytes :: "Value \<Rightarrow> bytes option" where
  "toBytes v = (case v of VBytes b \<Rightarrow> Some b | VString s \<Rightarrow> Some (str_bytes s) | _ \<Rightarrow> None)"

definition formatDate :: "Value \<Rightarrow> string option" where
  "formatDate v =
     (case v of VDate d \<Rightarrow> Some (Date_String d) | VTimestamp ts \<Rightarrow> Some (Date_String (tsDate ts))
      | VString s \<Rightarrow> Some s | _ \<Rightarrow> None)"

definition formatTime :: "Value \<Rightarrow> string option" where
  "formatTime v =
     (case v of VTime t \<Rightarrow> Some (Time_String t) | VTimestamp ts \<Rightarrow> Some (Time_String (tsTime ts))
      | VString s \<Rightarrow> Some s | _ \<Rightarrow> None)"

definition formatTimestamp :: "Value \<Rightarrow> string option" where
  "formatTimestamp v =
     (case v of
        VTimestamp ts \<Rightarrow>
          Some (Date_String (tsDate ts) @ ''-'' @ fmt_0d 2 (Hour (tsTime ts)) @ ''.''
            @ fmt_0d 2 (Minute (tsTime ts)) @ ''.'' @ fmt_0d 2 (Second (tsTime ts)) @ ''.''
            @ fmt_0d 9 (Nanos ts) @ ''000'')
      | VDate d \<Rightarrow> Some (Date_String d @ ''-00.00.00.000000000000'')
      | VString s \<Rightarrow> Some s
      | _ \<Rightarrow> None)"

section \<open>Errors\<close>

datatype param_error =
    ParamCount nat nat
  | UnsupportedSQLTYPE "16 word"
  | CannotBind Value string
  | DoesNotFit string Decimal nat nat
  | BinaryTooLong nat
  | UnsupportedEncoding byte
  | AtParameter nat param_error
  | ParamPanic

definition need :: "Value \<Rightarrow> string \<Rightarrow> 'a conv \<Rightarrow> ('a \<Rightarrow> param_error + 'b) \<Rightarrow> param_error + 'b" where
  "need v want c f = (case c of Got a \<Rightarrow> f a | NotOk \<Rightarrow> Inl (CannotBind v want) | Panics \<Rightarrow> Inl ParamPanic)"

section \<open>Decimal encodings\<close>

text \<open>\<^verbatim>\<open>Mul\<close> up or \<^verbatim>\<open>Quo\<close> down (truncating toward zero) to the described scale.\<close>

definition rescale :: "Decimal \<Rightarrow> nat \<Rightarrow> int" where
  "rescale d scale =
     (if dScale d < int scale then Unscaled d * 10 ^ nat (int scale - dScale d)
      else if int scale < dScale d then
        sgn (Unscaled d) * (\<bar>Unscaled d\<bar> div 10 ^ nat (dScale d - int scale))
      else Unscaled d)"

definition decimal_digits :: "nat \<Rightarrow> int \<Rightarrow> nat list" where
  "decimal_digits precision n =
     (let ds = nat_digits (nat \<bar>n\<bar>) in replicate (precision - length ds) 0 @ ds)"

fun pack_nibbles :: "nat list \<Rightarrow> bytes" where
  "pack_nibbles (a # b # rest) = word_of_nat (16 * a + b) # pack_nibbles rest"
| "pack_nibbles _ = []"

definition appendPackedDecimal :: "Decimal \<Rightarrow> nat \<Rightarrow> nat \<Rightarrow> param_error + bytes" where
  "appendPackedDecimal d precision scale =
     (let n = rescale d scale;
          neg = n < 0
      in if precision < length (nat_digits (nat \<bar>n\<bar>)) then Inl (DoesNotFit ''DECIMAL'' d precision scale)
         else
           let digits = decimal_digits precision n;
               digits1 = (if even (length digits) then 0 # digits else digits)
           in Inr (pack_nibbles (digits1 @ [if neg then 0xD else 0xC])))"

definition appendZonedDecimal :: "Decimal \<Rightarrow> nat \<Rightarrow> nat \<Rightarrow> param_error + bytes" where
  "appendZonedDecimal d precision scale =
     (let n = rescale d scale;
          neg = n < 0
      in if precision < length (nat_digits (nat \<bar>n\<bar>)) then Inl (DoesNotFit ''NUMERIC'' d precision scale)
         else
           let digits = decimal_digits precision n
           in Inr (map (\<lambda>i. (if i = length digits - 1 then if neg then 0xD0 else 0xC0 else 0xF0)
                             OR word_of_nat (digits ! i)) [0..<length digits]))"

section \<open>Choosing an encoding\<close>

record paramEncoding =
  drdaType :: byte
  pLength :: "16 word"
  pLob :: bool
  pIsChar :: bool

abbreviation maxInline :: nat where "maxInline \<equiv> 32000"

definition enc :: "byte \<Rightarrow> 16 word \<Rightarrow> paramEncoding" where
  "enc t l = \<lparr>drdaType = t, pLength = l, pLob = False, pIsChar = False\<rparr>"

definition prec_scale :: "ColumnDesc \<Rightarrow> 16 word" where
  "prec_scale p = push_bit 8 (word_of_int (cPrecision p)) OR word_of_int (cScale p)"

definition encodingFor :: "ColumnDesc \<Rightarrow> param_error + paramEncoding" where
  "encodingFor p =
     (let b = ColumnDesc_Base p in
      if b = SQLTypeSmallint then Inr (enc TypeNSmall 2)
      else if b = SQLTypeInteger then Inr (enc TypeNInteger 4)
      else if b = SQLTypeBigint then Inr (enc TypeNInteger8 8)
      else if b = SQLTypeFloat then
        (if cLength p = 4 then Inr (enc TypeNFloat4 4) else Inr (enc TypeNFloat8 8))
      else if b = SQLTypeDecimal then Inr (enc TypeNDecimal (prec_scale p))
      else if b \<in> {SQLTypeNumeric, SQLTypeZoned} then Inr (enc TypeNZDecimal (prec_scale p))
      else if b = SQLTypeDecFloat then Inr (enc TypeNDecFloat (word_of_int (cLength p)))
      else if b = SQLTypeBoolean then Inr (enc TypeNBoolean 1)
      else if b = SQLTypeDate then Inr (enc TypeNDate 10)
      else if b = SQLTypeTime then Inr (enc TypeNTime 8)
      else if b = SQLTypeTimestamp then Inr (enc TypeNTimestamp 32)
      else if b \<in> {SQLTypeChar, SQLTypeVarchar, SQLTypeLongVarchar, SQLTypeGraphic, SQLTypeVargraphic,
                    SQLTypeLongVargraph, SQLTypeXML, SQLTypeCStr, SQLTypeLStr, SQLTypeClob, SQLTypeDBClob}
      then Inr ((enc TypeNVarMix 0x7FFF)\<lparr>pIsChar := True\<rparr>)
      else if b = SQLTypeBinary then Inr (enc TypeNFixBytes (word_of_int (cLength p)))
      else if b = SQLTypeVarbinary then Inr (enc TypeNVarBinary (word_of_int (cLength p)))
      else if b = SQLTypeBlob then Inr (enc TypeNVarBinary 0x7FFF)
      else if b = SQLTypeRowID then Inr (enc TypeNRowID (word_of_int (cLength p)))
      else Inl (UnsupportedSQLTYPE (cSQLType p)))"

text \<open>Oversized inline values are promoted to out-of-line LOBs.\<close>

definition promote :: "float_ops \<Rightarrow> paramEncoding \<Rightarrow> Value \<Rightarrow> param_error + paramEncoding" where
  "promote F e v =
     (if v = VNil then Inr e
      else if drdaType e = TypeNVarBinary then
        (case toBytes v of
           Some b \<Rightarrow> if maxInline < length b then Inr ((enc TypeNLobBytes 0x8009)\<lparr>pLob := True\<rparr>) else Inr e
         | None \<Rightarrow> Inr e)
      else if drdaType e = TypeNVarMix then
        (case toString F v of
           Got s \<Rightarrow> if maxInline < length s
                    then Inr ((enc TypeNLobCMixed 0x8009)\<lparr>pLob := True, pIsChar := True\<rparr>) else Inr e
         | NotOk \<Rightarrow> Inr e
         | Panics \<Rightarrow> Inl ParamPanic)
      else Inr e)"

fun chooseEncodings :: "float_ops \<Rightarrow> (ColumnDesc \<times> Value) list \<Rightarrow> param_error + paramEncoding list" where
  "chooseEncodings F [] = Inr []"
| "chooseEncodings F ((p, v) # rest) =
     (case encodingFor p of Inl e \<Rightarrow> Inl e
      | Inr e0 \<Rightarrow>
        (case promote F e0 v of Inl e \<Rightarrow> Inl e
         | Inr e1 \<Rightarrow> (case chooseEncodings F rest of Inl e \<Rightarrow> Inl e | Inr es \<Rightarrow> Inr (e1 # es))))"

section \<open>One parameter\<close>

definition lob_length :: "nat \<Rightarrow> bytes" where
  "lob_length n = 0x02 # BE_Put64 (word_of_nat n)"

definition appendParam :: "bool \<Rightarrow> float_ops \<Rightarrow> paramEncoding \<Rightarrow> Value \<Rightarrow> param_error + bytes" where
  "appendParam le F e v =
     (let t = drdaType e; prec = unat (drop_bit 8 (pLength e)); scale = unat (pLength e AND 0xFF) in
      if t = TypeNSmall then need v ''SMALLINT'' (toInt64 F v) (\<lambda>n. Inr (put16 le (ucast n)))
      else if t = TypeNInteger then need v ''INTEGER'' (toInt64 F v) (\<lambda>n. Inr (put32 le (ucast n)))
      else if t = TypeNInteger8 then need v ''BIGINT'' (toInt64 F v) (\<lambda>n. Inr (put64 le n))
      else if t = TypeNFloat4 then
        need v ''REAL'' (toFloat64 F v) (\<lambda>f. Inr (put32 le (f64_to_f32 F f)))
      else if t = TypeNFloat8 then need v ''DOUBLE'' (toFloat64 F v) (\<lambda>f. Inr (put64 le f))
      else if t = TypeNBoolean then
        (case v of VBool b \<Rightarrow> Inr [if b then 1 else 0] | _ \<Rightarrow> Inl (CannotBind v ''BOOLEAN''))
      else if t = TypeNDecimal then
        need v ''DECIMAL'' (toDecimal F v) (\<lambda>d. appendPackedDecimal d prec scale)
      else if t = TypeNZDecimal then
        need v ''NUMERIC'' (toDecimal F v) (\<lambda>d. appendZonedDecimal d prec scale)
      else if t = TypeNDecFloat then
        need v ''DECFLOAT'' (toDecimal F v)
          (\<lambda>d. case encodeDecFloat d (unat (pLength e)) of Some b \<Rightarrow> Inr b | None \<Rightarrow> Inl ParamPanic)
      else if t = TypeNDate then
        need v ''DATE'' (option_conv (formatDate v)) (\<lambda>s. Inr (str_bytes s))
      else if t = TypeNTime then
        need v ''TIME'' (option_conv (formatTime v)) (\<lambda>s. Inr (str_bytes s))
      else if t = TypeNTimestamp then
        need v ''TIMESTAMP'' (option_conv (formatTimestamp v)) (\<lambda>s. Inr (PadASCII s 32))
      else if t = TypeNVarMix then
        need v ''VARCHAR'' (toString F v)
          (\<lambda>s. Inr (BE_Put16 (word_of_nat (length s)) @ str_bytes s))
      else if t = TypeNFixBytes then
        need v ''BINARY'' (option_conv (toBytes v))
          (\<lambda>b. let n = unat (pLength e) in Inr (take n b @ replicate (n - length b) 0))
      else if t \<in> {TypeNVarBinary, TypeNRowID} then
        need v ''VARBINARY'' (option_conv (toBytes v))
          (\<lambda>b. if 32672 < length b then Inl (BinaryTooLong (length b))
               else Inr (BE_Put16 (word_of_nat (length b)) @ b))
      else if t \<in> {TypeNLobBytes, TypeNLobCMixed} then
        (if pIsChar e then need v ''CLOB'' (toString F v) (\<lambda>s. Inr (lob_length (length s)))
         else need v ''BLOB'' (option_conv (toBytes v)) (\<lambda>b. Inr (lob_length (length b))))
      else Inl (UnsupportedEncoding t))"

section \<open>The descriptor\<close>

definition enc_triple :: "paramEncoding \<Rightarrow> bytes" where
  "enc_triple e = drdaType e # BE_Put16 (pLength e)"

function cptTriplets :: "paramEncoding list \<Rightarrow> bytes" where
  "cptTriplets encs =
     (if encs = [] then []
      else
        let cnt = (if 84 < length encs then 84 else length encs)
        in word_of_nat (3 + 3 * cnt) # 0x7F # 0x00 # concat (map enc_triple (take cnt encs))
             @ cptTriplets (drop cnt encs))"
  by pat_completeness auto
termination by (relation "measure length") auto

declare cptTriplets.simps [simp del]

definition fdodsc :: "paramEncoding list \<Rightarrow> bytes" where
  "fdodsc encs =
     (let first = (if 84 < length encs then 84 else length encs)
      in word_of_nat (3 + 3 * first) # 0x76 # 0xD0 # concat (map enc_triple (take first encs))
           @ cptTriplets (drop first encs) @ [0x06, 0x71, 0xE4, 0xD0, 0x00, 0x01])"

section \<open>The data\<close>

definition extdta_body :: "float_ops \<Rightarrow> paramEncoding \<Rightarrow> Value \<Rightarrow> bytes" where
  "extdta_body F e v =
     0x00 # (if pIsChar e then (case toString F v of Got s \<Rightarrow> str_bytes s | _ \<Rightarrow> [])
             else (case toBytes v of Some b \<Rightarrow> b | None \<Rightarrow> []))"

text \<open>The FDODTA bytes after the row indicator and the EXTDTA objects, from parameter \<open>i\<close> on.\<close>

fun encodeValues ::
  "bool \<Rightarrow> float_ops \<Rightarrow> nat \<Rightarrow> (paramEncoding \<times> Value) list \<Rightarrow> param_error + bytes \<times> bytes list" where
  "encodeValues le F i [] = Inr ([], [])"
| "encodeValues le F i ((e, v) # rest) =
     (if v = VNil then
        (case encodeValues le F (i + 1) rest of
           Inl err \<Rightarrow> Inl err | Inr (dta, ext) \<Rightarrow> Inr (0xFF # dta, ext))
      else
        case appendParam le F e v of
          Inl err \<Rightarrow> Inl (if err = ParamPanic then ParamPanic else AtParameter i err)
        | Inr b \<Rightarrow>
            (case encodeValues le F (i + 1) rest of
               Inl err \<Rightarrow> Inl err
             | Inr (dta, ext) \<Rightarrow>
                 Inr (0x00 # b @ dta,
                      (if pLob e then [NewObject EXTDTA (extdta_body F e v)] else []) @ ext)))"

definition encodeSQLDTA ::
  "bool \<Rightarrow> float_ops \<Rightarrow> ColumnDesc list \<Rightarrow> Value list \<Rightarrow> param_error + bytes \<times> bytes list" where
  "encodeSQLDTA le F params values =
     (if length values \<noteq> length params then Inl (ParamCount (length params) (length values))
      else
        case chooseEncodings F (zip params values) of
          Inl err \<Rightarrow> Inl err
        | Inr encs \<Rightarrow>
            (case encodeValues le F 1 (zip encs values) of
               Inl err \<Rightarrow> Inl err
             | Inr (dta, ext) \<Rightarrow>
                 Inr (NewObject SQLDTA (NewObject FDODSC (fdodsc encs) @ NewObject FDODTA (0x00 # dta)), ext)))"

section \<open>The descriptor is read back\<close>

definition enc_field :: "paramEncoding \<Rightarrow> FieldDesc" where
  "enc_field e = \<lparr>fType = drdaType e, fLength = pLength e, fCCSID = 0\<rparr>"

lemma length_enc_triples [simp]: "length (concat (map enc_triple es)) = 3 * length es"
  by (induction es) (auto simp: enc_triple_def)

lemma BE_Put16_two: "\<exists>a b. BE_Put16 w = [a, b] \<and> BE_Uint16 [a, b] = w"
proof -
  obtain a b where "BE_Put16 w = [a, b]"
    by (simp add: BE_Put16_def numeral_2_eq_2)
  moreover have "BE_Uint16 (BE_Put16 w) = w" by simp
  ultimately show ?thesis by auto
qed

lemma parseGDA_triples: "parseGDA Map.empty (concat (map enc_triple es)) = map enc_field es"
proof (induction es)
  case (Cons e es)
  obtain a b where "BE_Put16 (pLength e) = [a, b]" "BE_Uint16 [a, b] = pLength e"
    using BE_Put16_two by blast
  then show ?case using Cons by (simp add: enc_triple_def enc_field_def)
qed simp

text \<open>One group of at most 84 columns is one triplet.\<close>

lemma parseTriplets_group:
  assumes "length es \<le> 84" "ty = 0x76 \<or> ty = 0x7F"
  shows "parseTriplets pos Map.empty fds
           (word_of_nat (3 + 3 * length es) # ty # tid # concat (map enc_triple es) @ rest)
         = parseTriplets (pos + 3 + 3 * length es) Map.empty (fds @ map enc_field es) rest"
proof -
  define n where "n = 3 + 3 * length es"
  define hd where "hd = (word_of_nat n :: byte)"
  let ?p = "concat (map enc_triple es)"
  have n: "n \<le> 255" "3 \<le> n" "length ?p = n - 3" using assms(1) by (simp_all add: n_def)
  have hd: "unat hd = n" using n(1) unfolding hd_def by (subst unat_of_nat) simp
  have tk: "drop 3 (take n (hd # ty # tid # ?p @ rest)) = ?p" "drop n (hd # ty # tid # ?p @ rest) = rest"
    using n by (simp_all add: drop_take drop_Cons' numeral_3_eq_3)
  show ?thesis
    unfolding n_def [symmetric] add.assoc hd_def [symmetric]
    using assms(2) n tk
    by (subst parseTriplets.simps) (auto simp: hd parseGDA_triples Let_def)
qed

lemma parseTriplets_cpt:
  "\<exists>pos'. parseTriplets pos Map.empty fds (cptTriplets es @ rest)
     = parseTriplets pos' Map.empty (fds @ map enc_field es) rest"
proof (induction es arbitrary: pos fds rule: cptTriplets.induct)
  case (1 es)
  show ?case
  proof (cases "es = []")
    case True
    then show ?thesis by (auto simp: cptTriplets.simps)
  next
    case False
    let ?cnt = "if 84 < length es then 84 else length es"
    have len: "length (take ?cnt es) = ?cnt" by simp
    note step = parseTriplets_group [of "take ?cnt es" "0x7F" pos fds "0x00" "cptTriplets (drop ?cnt es) @ rest",
        unfolded len]
    obtain pos' where "parseTriplets (pos + 3 + 3 * ?cnt) Map.empty (fds @ map enc_field (take ?cnt es))
        (cptTriplets (drop ?cnt es) @ rest)
      = parseTriplets pos' Map.empty ((fds @ map enc_field (take ?cnt es)) @ map enc_field (drop ?cnt es)) rest"
      using "1.IH" [OF False refl] by blast
    moreover have "map enc_field (take ?cnt es) @ map enc_field (drop ?cnt es) = map enc_field es"
      by (simp flip: map_append)
    ultimately show ?thesis
      using step False by (subst cptTriplets.simps) (auto simp: Let_def)
  qed
qed

lemma ParseQRYDSC_fdodsc_fields: "ParseQRYDSC (fdodsc encs) = Inr (map enc_field encs)"
proof -
  let ?first = "if 84 < length encs then 84 else length encs"
  let ?rlo = "[0x06, 0x71, 0xE4, 0xD0, 0x00, 0x01] :: bytes"
  have len: "length (take ?first encs) = ?first" by simp
  have rlo: "parseTriplets pos Map.empty fds ?rlo = Inr fds" for pos fds
    by (simp add: parseTriplets.simps [of pos] parseTriplets.simps [of _ _ _ "[]"])
  obtain pos where "parseTriplets (0 + 3 + 3 * ?first) Map.empty ([] @ map enc_field (take ?first encs))
      (cptTriplets (drop ?first encs) @ ?rlo)
    = parseTriplets pos Map.empty (([] @ map enc_field (take ?first encs)) @ map enc_field (drop ?first encs)) ?rlo"
    using parseTriplets_cpt by blast
  moreover have "map enc_field (take ?first encs) @ map enc_field (drop ?first encs) = map enc_field encs"
    by (simp flip: map_append)
  moreover have "?first \<le> 84" by simp
  note parseTriplets_group [of "take ?first encs" "0x76" 0 "[]" "0xD0" "cptTriplets (drop ?first encs) @ ?rlo",
      unfolded len, OF this disjI1 [OF refl]]
  ultimately show ?thesis
    by (simp only: ParseQRYDSC_def fdodsc_def Let_def rlo append_Nil append_Cons append_assoc)
qed

end
