(* ===== verification/Go_DES.thy ===== *)
theory Go_DES
  imports Prelude
begin

text \<open>
  The DES block cipher as \<^verbatim>\<open>crypto/des\<close> of Go's library computes it (FIPS 46-3), on
  eight-byte keys and blocks.  A block is a list of 64 booleans, most significant bit first;
  the tables number bits from 1.  Decryption is encryption with the round keys reversed.
  The result: decryption inverts encryption under every key.
\<close>

section \<open>Tables\<close>

definition des_IP :: "nat list" where
  "des_IP =
    [58, 50, 42, 34, 26, 18, 10, 2, 60, 52, 44, 36, 28, 20, 12, 4,
     62, 54, 46, 38, 30, 22, 14, 6, 64, 56, 48, 40, 32, 24, 16, 8,
     57, 49, 41, 33, 25, 17, 9, 1, 59, 51, 43, 35, 27, 19, 11, 3,
     61, 53, 45, 37, 29, 21, 13, 5, 63, 55, 47, 39, 31, 23, 15, 7]"

definition des_FP :: "nat list" where
  "des_FP =
    [40, 8, 48, 16, 56, 24, 64, 32, 39, 7, 47, 15, 55, 23, 63, 31,
     38, 6, 46, 14, 54, 22, 62, 30, 37, 5, 45, 13, 53, 21, 61, 29,
     36, 4, 44, 12, 52, 20, 60, 28, 35, 3, 43, 11, 51, 19, 59, 27,
     34, 2, 42, 10, 50, 18, 58, 26, 33, 1, 41, 9, 49, 17, 57, 25]"

definition des_E :: "nat list" where
  "des_E =
    [32, 1, 2, 3, 4, 5, 4, 5, 6, 7, 8, 9,
     8, 9, 10, 11, 12, 13, 12, 13, 14, 15, 16, 17,
     16, 17, 18, 19, 20, 21, 20, 21, 22, 23, 24, 25,
     24, 25, 26, 27, 28, 29, 28, 29, 30, 31, 32, 1]"

definition des_P :: "nat list" where
  "des_P =
    [16, 7, 20, 21, 29, 12, 28, 17, 1, 15, 23, 26, 5, 18, 31, 10,
     2, 8, 24, 14, 32, 27, 3, 9, 19, 13, 30, 6, 22, 11, 4, 25]"

definition des_PC1 :: "nat list" where
  "des_PC1 =
    [57, 49, 41, 33, 25, 17, 9, 1, 58, 50, 42, 34, 26, 18,
     10, 2, 59, 51, 43, 35, 27, 19, 11, 3, 60, 52, 44, 36,
     63, 55, 47, 39, 31, 23, 15, 7, 62, 54, 46, 38, 30, 22,
     14, 6, 61, 53, 45, 37, 29, 21, 13, 5, 28, 20, 12, 4]"

definition des_PC2 :: "nat list" where
  "des_PC2 =
    [14, 17, 11, 24, 1, 5, 3, 28, 15, 6, 21, 10,
     23, 19, 12, 4, 26, 8, 16, 7, 27, 20, 13, 2,
     41, 52, 31, 37, 47, 55, 30, 40, 51, 45, 33, 48,
     44, 49, 39, 56, 34, 53, 46, 42, 50, 36, 29, 32]"

definition des_shifts :: "nat list" where
  "des_shifts =
    [1, 1, 2, 2, 2, 2, 2, 2, 1, 2, 2, 2, 2, 2, 2, 1]"

definition des_S :: "nat list list" where
  "des_S =
    [[14, 4, 13, 1, 2, 15, 11, 8, 3, 10, 6, 12, 5, 9, 0, 7,
     0, 15, 7, 4, 14, 2, 13, 1, 10, 6, 12, 11, 9, 5, 3, 8,
     4, 1, 14, 8, 13, 6, 2, 11, 15, 12, 9, 7, 3, 10, 5, 0,
     15, 12, 8, 2, 4, 9, 1, 7, 5, 11, 3, 14, 10, 0, 6, 13],

     [15, 1, 8, 14, 6, 11, 3, 4, 9, 7, 2, 13, 12, 0, 5, 10,
     3, 13, 4, 7, 15, 2, 8, 14, 12, 0, 1, 10, 6, 9, 11, 5,
     0, 14, 7, 11, 10, 4, 13, 1, 5, 8, 12, 6, 9, 3, 2, 15,
     13, 8, 10, 1, 3, 15, 4, 2, 11, 6, 7, 12, 0, 5, 14, 9],

     [10, 0, 9, 14, 6, 3, 15, 5, 1, 13, 12, 7, 11, 4, 2, 8,
     13, 7, 0, 9, 3, 4, 6, 10, 2, 8, 5, 14, 12, 11, 15, 1,
     13, 6, 4, 9, 8, 15, 3, 0, 11, 1, 2, 12, 5, 10, 14, 7,
     1, 10, 13, 0, 6, 9, 8, 7, 4, 15, 14, 3, 11, 5, 2, 12],

     [7, 13, 14, 3, 0, 6, 9, 10, 1, 2, 8, 5, 11, 12, 4, 15,
     13, 8, 11, 5, 6, 15, 0, 3, 4, 7, 2, 12, 1, 10, 14, 9,
     10, 6, 9, 0, 12, 11, 7, 13, 15, 1, 3, 14, 5, 2, 8, 4,
     3, 15, 0, 6, 10, 1, 13, 8, 9, 4, 5, 11, 12, 7, 2, 14],

     [2, 12, 4, 1, 7, 10, 11, 6, 8, 5, 3, 15, 13, 0, 14, 9,
     14, 11, 2, 12, 4, 7, 13, 1, 5, 0, 15, 10, 3, 9, 8, 6,
     4, 2, 1, 11, 10, 13, 7, 8, 15, 9, 12, 5, 6, 3, 0, 14,
     11, 8, 12, 7, 1, 14, 2, 13, 6, 15, 0, 9, 10, 4, 5, 3],

     [12, 1, 10, 15, 9, 2, 6, 8, 0, 13, 3, 4, 14, 7, 5, 11,
     10, 15, 4, 2, 7, 12, 9, 5, 6, 1, 13, 14, 0, 11, 3, 8,
     9, 14, 15, 5, 2, 8, 12, 3, 7, 0, 4, 10, 1, 13, 11, 6,
     4, 3, 2, 12, 9, 5, 15, 10, 11, 14, 1, 7, 6, 0, 8, 13],

     [4, 11, 2, 14, 15, 0, 8, 13, 3, 12, 9, 7, 5, 10, 6, 1,
     13, 0, 11, 7, 4, 9, 1, 10, 14, 3, 5, 12, 2, 15, 8, 6,
     1, 4, 11, 13, 12, 3, 7, 14, 10, 15, 6, 8, 0, 5, 9, 2,
     6, 11, 13, 8, 1, 4, 10, 7, 9, 5, 0, 15, 14, 2, 3, 12],

     [13, 2, 8, 4, 6, 15, 11, 1, 10, 9, 3, 14, 5, 0, 12, 7,
     1, 15, 13, 8, 10, 3, 7, 4, 12, 5, 6, 11, 0, 14, 9, 2,
     7, 11, 4, 1, 9, 12, 14, 2, 0, 6, 10, 13, 15, 3, 5, 8,
     2, 1, 14, 7, 4, 10, 8, 13, 15, 12, 9, 0, 3, 5, 6, 11]]"

section \<open>Bits\<close>

definition byte_bits :: "byte \<Rightarrow> bool list" where
  "byte_bits b = map (\<lambda>i. bit b (7 - i)) [0..<8]"

definition bytes_bits :: "bytes \<Rightarrow> bool list" where
  "bytes_bits bs = concat (map byte_bits bs)"

definition bits_nat :: "bool list \<Rightarrow> nat" where
  "bits_nat v = foldl (\<lambda>n b. 2 * n + of_bool b) 0 v"

fun bits_bytes :: "bool list \<Rightarrow> bytes" where
  "bits_bytes v = (if v = [] then [] else word_of_nat (bits_nat (take 8 v)) # bits_bytes (drop 8 v))"

declare bits_bytes.simps [simp del]

definition permute :: "nat list \<Rightarrow> bool list \<Rightarrow> bool list" where
  "permute tbl v = map (\<lambda>i. v ! (i - 1)) tbl"

definition xor_bits :: "bool list \<Rightarrow> bool list \<Rightarrow> bool list" where
  "xor_bits a b = map2 (\<noteq>) a b"

section \<open>Key schedule and rounds\<close>

fun des_schedule :: "nat list \<Rightarrow> bool list \<Rightarrow> bool list \<Rightarrow> bool list list" where
  "des_schedule [] c d = []"
| "des_schedule (s # ss) c d =
     (let c' = rotate s c; d' = rotate s d in permute des_PC2 (c' @ d') # des_schedule ss c' d')"

definition des_keys :: "bytes \<Rightarrow> bool list list" where
  "des_keys key =
     (let x = permute des_PC1 (bytes_bits key) in des_schedule des_shifts (take 28 x) (drop 28 x))"

definition nibble_bits :: "nat \<Rightarrow> bool list" where
  "nibble_bits n = map (\<lambda>i. bit n (3 - i)) [0..<4]"

definition des_sbox :: "nat \<Rightarrow> bool list \<Rightarrow> bool list" where
  "des_sbox i b =
     nibble_bits (des_S ! i ! (16 * bits_nat [b ! 0, b ! 5] + bits_nat (take 4 (drop 1 b))))"

definition des_f :: "bool list \<Rightarrow> bool list \<Rightarrow> bool list" where
  "des_f r k =
     (let x = xor_bits (permute des_E r) k
      in permute des_P (concat (map (\<lambda>i. des_sbox i (take 6 (drop (6 * i) x))) [0..<8])))"

fun des_rounds :: "bool list list \<Rightarrow> bool list \<times> bool list \<Rightarrow> bool list \<times> bool list" where
  "des_rounds [] (l, r) = (l, r)"
| "des_rounds (k # ks) (l, r) = des_rounds ks (r, xor_bits l (des_f r k))"

definition des_block :: "bool list list \<Rightarrow> bytes \<Rightarrow> bytes" where
  "des_block ks b =
     (let x = permute des_IP (bytes_bits b); (l, r) = des_rounds ks (take 32 x, drop 32 x)
      in bits_bytes (permute des_FP (r @ l)))"

definition des_encrypt :: "bytes \<Rightarrow> bytes \<Rightarrow> bytes" where
  "des_encrypt key b = des_block (des_keys key) b"

definition des_decrypt :: "bytes \<Rightarrow> bytes \<Rightarrow> bytes" where
  "des_decrypt key b = des_block (rev (des_keys key)) b"

section \<open>Decryption inverts encryption\<close>

lemma length_byte_bits [simp]: "length (byte_bits b) = 8"
  by (simp add: byte_bits_def)

lemma length_bytes_bits [simp]: "length (bytes_bits bs) = 8 * length bs"
  by (induction bs) (simp_all add: bytes_bits_def)

lemma bytes_bits_Cons [simp]: "bytes_bits (b # bs) = byte_bits b @ bytes_bits bs"
  by (simp add: bytes_bits_def)

lemma bit_bits_nat: "bit (bits_nat v) n \<longleftrightarrow> n < length v \<and> v ! (length v - 1 - n)"
proof (induction v arbitrary: n rule: rev_induct)
  case (snoc b v)
  have "bits_nat (v @ [b]) = of_bool b + 2 * bits_nat v" by (simp add: bits_nat_def)
  then have zero: "bit (bits_nat (v @ [b])) 0 = b"
    and suc: "bit (bits_nat (v @ [b])) (Suc m) = bit (bits_nat v) m" for m
    by (simp_all add: bit_0 bit_Suc)
  show ?case
  proof (cases n)
    case (Suc m)
    then show ?thesis unfolding Suc suc snoc by (auto simp: nth_append)
  qed (simp only: zero, simp)
qed (simp add: bits_nat_def)

lemma byte_bits_of_nat: "length v = 8 \<Longrightarrow> byte_bits (word_of_nat (bits_nat v)) = v"
  by (rule nth_equalityI) (auto simp: byte_bits_def bit_of_nat_iff bit_bits_nat)

lemma bits_nat_byte_bits: "word_of_nat (bits_nat (byte_bits b)) = b"
proof (rule bit_word_eqI)
  fix n assume n: "n < LENGTH(8)"
  have "byte_bits (word_of_nat (bits_nat (byte_bits b))) ! (7 - n) = byte_bits b ! (7 - n)"
    by (simp add: byte_bits_of_nat)
  then show "bit (word_of_nat (bits_nat (byte_bits b)) :: byte) n = bit b n"
    using n by (simp add: byte_bits_def del: upt_Suc)
qed

lemma bits_bytes_bits: "bits_bytes (bytes_bits bs) = bs"
proof (induction bs)
  case Nil
  show ?case by (simp add: bytes_bits_def bits_bytes.simps)
next
  case (Cons b bs)
  have "byte_bits b @ bytes_bits bs \<noteq> []" by (metis append_is_Nil_conv length_byte_bits list.size(3) zero_neq_numeral)
  then show ?case using Cons by (simp add: bits_bytes.simps [of "_ @ _"] bits_nat_byte_bits)
qed

lemma bytes_bits_bytes: "length v mod 8 = 0 \<Longrightarrow> bytes_bits (bits_bytes v) = v"
proof (induction v rule: bits_bytes.induct)
  case (1 v)
  show ?case
  proof (cases "v = []")
    case True
    then show ?thesis by (simp add: bits_bytes.simps bytes_bits_def)
  next
    case False
    then have l: "8 \<le> length v" using "1.prems" by (cases "length v < 8") auto
    then have "length (drop 8 v) mod 8 = 0" using "1.prems" by (simp add: mod_if)
    then show ?thesis using 1 False l by (simp add: bits_bytes.simps [of v] byte_bits_of_nat)
  qed
qed

lemma length_bits_bytes: "length v mod 8 = 0 \<Longrightarrow> 8 * length (bits_bytes v) = length v"
  using bytes_bits_bytes [of v] length_bytes_bits [of "bits_bytes v"] by simp

lemma permute_permute:
  assumes "map (\<lambda>i. t1 ! (i - 1)) t2 = [1..<Suc n]" "\<forall>i \<in> set t2. 1 \<le> i \<and> i \<le> length t1" "length v = n"
  shows "permute t2 (permute t1 v) = v"
proof -
  have "permute t2 (permute t1 v) = map (\<lambda>i. v ! (i - 1)) (map (\<lambda>i. t1 ! (i - 1)) t2)"
    using assms(2) by (auto simp: permute_def)
  also have "\<dots> = map (\<lambda>i. v ! i) [0..<n]" unfolding assms(1) by (simp add: map_Suc_upt [symmetric] del: upt_Suc)
  finally show ?thesis using assms(3) map_nth [of v] by simp
qed

lemma FP_IP: "length v = 64 \<Longrightarrow> permute des_FP (permute des_IP v) = v"
  by (rule permute_permute [where n = 64]) (simp_all add: des_FP_def des_IP_def upt_rec [of _ "Suc _"] upt_rec [of _ 65])

lemma IP_FP: "length v = 64 \<Longrightarrow> permute des_IP (permute des_FP v) = v"
  by (rule permute_permute [where n = 64]) (simp_all add: des_FP_def des_IP_def upt_rec [of _ "Suc _"] upt_rec [of _ 65])

lemma length_permute [simp]: "length (permute t v) = length t"
  by (simp add: permute_def)

lemma table_lengths [simp]: "length des_IP = 64" "length des_FP = 64" "length des_P = 32"
  by (simp_all add: des_IP_def des_FP_def des_P_def)

lemma xor_bits_facts:
  shows length_xor_bits [simp]: "length (xor_bits a b) = min (length a) (length b)"
    and xor_bits_twice: "length a = length b \<Longrightarrow> xor_bits (xor_bits a b) b = a"
proof -
  show "length (xor_bits a b) = min (length a) (length b)" by (simp add: xor_bits_def)
  show "length a = length b \<Longrightarrow> xor_bits (xor_bits a b) b = a"
    unfolding xor_bits_def by (induction a b rule: list_induct2) auto
qed

lemma length_des_f [simp]: "length (des_f r k) = 32"
  by (simp add: des_f_def Let_def)

lemma des_rounds_append: "des_rounds (ks @ js) lr = des_rounds js (des_rounds ks lr)"
  by (induction ks lr rule: des_rounds.induct) simp_all

text \<open>The Feistel structure: whatever the round function, the reversed keys undo the rounds.\<close>

lemma des_rounds_rev:
  "length l = 32 \<Longrightarrow> length r = 32 \<Longrightarrow> des_rounds ks (l, r) = (l', r') \<Longrightarrow>
     length l' = 32 \<and> length r' = 32 \<and> des_rounds (rev ks) (r', l') = (r, l)"
proof (induction ks arbitrary: l r)
  case (Cons k ks)
  let ?x = "xor_bits l (des_f r k)"
  have "length ?x = 32" using Cons.prems by simp
  then have "length l' = 32 \<and> length r' = 32 \<and> des_rounds (rev ks) (r', l') = (?x, r)"
    using Cons.prems Cons.IH [of r ?x] by simp
  then show ?case using Cons.prems by (simp add: des_rounds_append xor_bits_twice)
qed simp

lemma des_block_rev:
  assumes "length b = 8"
  shows "length (des_block ks b) = 8" "des_block (rev ks) (des_block ks b) = b"
proof -
  let ?x = "permute des_IP (bytes_bits b)"
  obtain l r where lr: "des_rounds ks (take 32 ?x, drop 32 ?x) = (l, r)" by fastforce
  then have rev: "length l = 32" "length r = 32" "des_rounds (rev ks) (r, l) = (drop 32 ?x, take 32 ?x)"
    using des_rounds_rev [OF _ _ lr] assms by simp_all
  have out: "des_block ks b = bits_bytes (permute des_FP (r @ l))" by (simp add: des_block_def lr)
  then show "length (des_block ks b) = 8" using length_bits_bytes [of "permute des_FP (r @ l)"] by simp
  have "permute des_IP (bytes_bits (des_block ks b)) = r @ l"
    using rev by (simp add: out bytes_bits_bytes IP_FP)
  then show "des_block (rev ks) (des_block ks b) = b"
    using rev assms by (simp add: des_block_def [of "rev ks"] FP_IP bits_bytes_bits)
qed

lemma length_des_encrypt [simp]: "length b = 8 \<Longrightarrow> length (des_encrypt key b) = 8"
  by (simp add: des_encrypt_def des_block_rev)

lemma des_decrypt_encrypt: "length b = 8 \<Longrightarrow> des_decrypt key (des_encrypt key b) = b"
  by (simp add: des_encrypt_def des_decrypt_def des_block_rev)

end
