(* ===== verification/Drda_Secmec9.thy ===== *)
theory Drda_Secmec9
  imports Ddm_Params Go_DES
begin

text \<open>
  Security mechanism 9 (\<^verbatim>\<open>internal/drda/secmec9.go\<close>): a Diffie-Hellman exchange over a
  fixed prime, whose shared secret keys DES in CBC mode with PKCS5 padding.

  The random number of \<^verbatim>\<open>rand.Int\<close> is the argument \<open>rnd\<close> (\<open>None\<close> when the source
  fails).  The modular power is the mathematical one, as \<^verbatim>\<open>big.Int.Exp\<close> documents.  The
  chaining mode is proved invertible over the contract \<open>block_cipher\<close>, which DES fulfils; so
  a server that holds the matching private exponent recovers what the client encrypted.
\<close>

section \<open>Numbers and bytes\<close>

definition secmec9Prime :: nat where
  "secmec9Prime = 0xC62112D73EE613F0947AB31F0F6846A1BFF5B3A4CA0D60BC1E4C7A0D8C16B3E3"

definition secmec9Base :: nat where
  "secmec9Base = 0x4690FA1F7B9E1D4442C86C9114603FDECF071EDCEC5F626E21E256AED9EA34E4"

text \<open>\<^verbatim>\<open>big.Int.Bytes\<close>: big-endian without leading zeros; zero is the empty slice.\<close>

fun big_Bytes :: "nat \<Rightarrow> bytes" where
  "big_Bytes n = (if n = 0 then [] else big_Bytes (n div 256) @ [word_of_nat n])"

declare big_Bytes.simps [simp del]

definition big_Exp :: "nat \<Rightarrow> nat \<Rightarrow> nat \<Rightarrow> nat" where
  "big_Exp x y m = x ^ y mod m"

definition leftPad32 :: "bytes \<Rightarrow> bytes" where
  "leftPad32 b = (if 32 \<le> length b then drop (length b - 32) b else replicate (32 - length b) 0 @ b)"

section \<open>The key pair\<close>

record dhKeyPair =
  dhPrivate :: nat
  dhPublic :: bytes

definition newDHKeyPair :: "nat option \<Rightarrow> dhKeyPair option" where
  "newDHKeyPair rnd =
     (case rnd of None \<Rightarrow> None
      | Some r \<Rightarrow>
          let priv = r + 2
          in Some \<lparr>dhPrivate = priv, dhPublic = leftPad32 (big_Bytes (big_Exp secmec9Base priv secmec9Prime))\<rparr>)"

section \<open>Encryption\<close>

definition xor_bytes :: "bytes \<Rightarrow> bytes \<Rightarrow> bytes" where
  "xor_bytes a b = map2 (XOR) a b"

text \<open>\<^verbatim>\<open>cipher.NewCBCEncrypter(block, iv).CryptBlocks\<close> on a multiple of eight bytes.\<close>

fun cbc_encrypt :: "(bytes \<Rightarrow> bytes) \<Rightarrow> bytes \<Rightarrow> bytes \<Rightarrow> bytes" where
  "cbc_encrypt block iv b =
     (if length b < 8 then []
      else let c = block (xor_bytes (take 8 b) iv) in c @ cbc_encrypt block c (drop 8 b))"

declare cbc_encrypt.simps [simp del]

definition pkcs5_pad :: "bytes \<Rightarrow> bytes" where
  "pkcs5_pad plain =
     (let padLen = 8 - length plain mod 8 in plain @ replicate padLen (word_of_nat padLen))"

definition session_key :: "nat \<Rightarrow> bytes \<Rightarrow> bytes" where
  "session_key priv token =
     (let shared = leftPad32 (big_Bytes (big_Exp (be_val token) priv secmec9Prime))
      in take 8 (drop 12 shared))"

text \<open>\<open>Inl\<close> carries the length of an unusable server token.\<close>

definition encryptor ::
  "dhKeyPair \<Rightarrow> bytes \<Rightarrow> nat + (bytes \<Rightarrow> bytes)" where
  "encryptor kp serverToken =
     (if length serverToken \<noteq> 32 then Inl (length serverToken)
      else
        let key = session_key (dhPrivate kp) serverToken;
            iv = take 8 (drop 12 serverToken)
        in Inr (\<lambda>plain. cbc_encrypt (des_encrypt key) iv (pkcs5_pad plain)))"

section \<open>The server's side\<close>

text \<open>What a server with private exponent \<open>b\<close> does with a token: derive the key from the
  client's public value, decrypt in CBC mode with its own public value as the vector, and
  remove the padding.\<close>

fun cbc_decrypt :: "(bytes \<Rightarrow> bytes) \<Rightarrow> bytes \<Rightarrow> bytes \<Rightarrow> bytes" where
  "cbc_decrypt unblock iv b =
     (if length b < 8 then []
      else xor_bytes (unblock (take 8 b)) iv @ cbc_decrypt unblock (take 8 b) (drop 8 b))"

declare cbc_decrypt.simps [simp del]

definition pkcs5_unpad :: "bytes \<Rightarrow> bytes" where
  "pkcs5_unpad b = take (length b - unat (last b)) b"

definition public_of :: "nat \<Rightarrow> bytes" where
  "public_of b = leftPad32 (big_Bytes (big_Exp secmec9Base b secmec9Prime))"

definition server_decrypt :: "nat \<Rightarrow> bytes \<Rightarrow> bytes \<Rightarrow> bytes" where
  "server_decrypt b clientToken cipher =
     pkcs5_unpad (cbc_decrypt (des_decrypt (session_key b clientToken)) (take 8 (drop 12 (public_of b))) cipher)"

section \<open>Lemmas\<close>

lemma length_leftPad32 [simp]: "length (leftPad32 b) = 32"
  by (simp add: leftPad32_def)

lemma be_val_replicate_0 [simp]: "be_val (replicate n 0) = 0"
  by (induction n) simp_all

lemma be_val_big_Bytes: "be_val (big_Bytes n) = n"
proof (induction n rule: big_Bytes.induct)
  case (1 n)
  then show ?case
    by (subst big_Bytes.simps) (simp add: be_val_append unat_of_nat)
qed

lemma length_big_Bytes: "n < 256 ^ k \<Longrightarrow> length (big_Bytes n) \<le> k"
proof (induction k arbitrary: n)
  case 0
  then show ?case by (simp add: big_Bytes.simps)
next
  case (Suc k)
  then have "n div 256 < 256 ^ k" by (simp add: div_less_iff_less_mult mult.commute)
  with Suc.IH show ?case by (subst big_Bytes.simps) simp
qed

lemma be_val_leftPad32: "length b \<le> 32 \<Longrightarrow> be_val (leftPad32 b) = be_val b"
  by (auto simp: leftPad32_def be_val_append)

lemma be_val_public_of: "be_val (public_of a) = big_Exp secmec9Base a secmec9Prime"
proof -
  have "secmec9Prime \<le> 256 ^ 32" "0 < secmec9Prime" by (simp_all add: secmec9Prime_def)
  then have "big_Exp secmec9Base a secmec9Prime < 256 ^ 32"
    unfolding big_Exp_def by (meson less_le_trans mod_less_divisor)
  then show ?thesis
    using length_big_Bytes by (simp add: public_of_def be_val_leftPad32 be_val_big_Bytes)
qed

lemma session_key_agrees: "session_key a (public_of b) = session_key b (public_of a)"
  by (simp add: session_key_def be_val_public_of) (simp add: big_Exp_def power_mod mult.commute flip: power_mult)

lemma length_xor_bytes [simp]: "length (xor_bytes a b) = min (length a) (length b)"
  by (simp add: xor_bytes_def)

lemma xor_bytes_twice: "length a = length b \<Longrightarrow> xor_bytes (xor_bytes a b) b = a"
  unfolding xor_bytes_def by (induction a b rule: list_induct2) (simp_all add: xor.assoc)

text \<open>A block cipher on eight-byte blocks, and the chaining mode over it.\<close>

locale block_cipher =
  fixes block unblock :: "bytes \<Rightarrow> bytes"
  assumes block_length: "length b = 8 \<Longrightarrow> length (block b) = 8"
    and unblock_block: "length b = 8 \<Longrightarrow> unblock (block b) = b"
begin

lemma cbc_decrypt_encrypt:
  "length b mod 8 = 0 \<Longrightarrow> length iv = 8 \<Longrightarrow> cbc_decrypt unblock iv (cbc_encrypt block iv b) = b"
proof (induction b arbitrary: iv rule: measure_induct_rule [where f = length])
  case (less b)
  show ?case
  proof (cases "length b < 8")
    case True
    then have "b = []" using less.prems by (cases b) auto
    then show ?thesis by (simp add: cbc_encrypt.simps cbc_decrypt.simps)
  next
    case False
    let ?x = "xor_bytes (take 8 b) iv"
    let ?c = "block ?x"
    have len: "length ?x = 8" "length ?c = 8" using False less.prems block_length by simp_all
    have "length (drop 8 b) mod 8 = 0" using False less.prems by (simp add: mod_if)
    then have "cbc_decrypt unblock ?c (cbc_encrypt block ?c (drop 8 b)) = drop 8 b"
      using False less.IH [of "drop 8 b" ?c] len by simp
    then show ?thesis
      using False len less.prems unblock_block [of ?x]
      by (simp add: cbc_encrypt.simps [of _ _ b] cbc_decrypt.simps [of _ _ "block _ @ _"] Let_def xor_bytes_twice)
  qed
qed

end

lemma pkcs5_pad_facts:
  shows pkcs5_pad_length: "length (pkcs5_pad p) mod 8 = 0"
    and pkcs5_unpad_pad: "pkcs5_unpad (pkcs5_pad p) = p"
proof -
  define k where "k = 8 - length p mod 8"
  have k: "0 < k" "k \<le> 8" using mod_less_divisor [of 8 "length p"] by (auto simp: k_def)
  obtain q m where "length p = 8 * q + m" "m = length p mod 8"
    using mult_div_mod_eq [of 8 "length p"] by metis
  then have "length p + k = 8 * (q + 1)" using k by (simp add: k_def)
  then show "length (pkcs5_pad p) mod 8 = 0" by (simp add: pkcs5_pad_def Let_def flip: k_def)
  have "unat (word_of_nat k :: byte) = k" using k by (simp add: unat_of_nat)
  then show "pkcs5_unpad (pkcs5_pad p) = p"
    using k by (simp add: pkcs5_pad_def pkcs5_unpad_def Let_def last_append flip: k_def)
qed


interpretation des: block_cipher "des_encrypt key" "des_decrypt key" for key
  by unfold_locales (simp_all add: des_decrypt_encrypt)

section \<open>Properties\<close>

text \<open>
  C27: the key exchange of security mechanism 9 works.  For every random number and every
  private exponent of the server, the client's key pair and the server's public value give an
  encryptor, and the server, from the client's public value alone, decrypts every plaintext.
\<close>

theorem server_decrypts:
  "\<exists>kp enc. newDHKeyPair (Some r) = Some kp \<and> encryptor kp (public_of b) = Inr enc
     \<and> server_decrypt b (dhPublic kp) (enc plain) = plain"
proof -
  define kp where "kp = \<lparr>dhPrivate = r + 2, dhPublic = public_of (r + 2)\<rparr>"
  let ?iv = "take 8 (drop 12 (public_of b))"
  let ?key = "session_key (r + 2) (public_of b)"
  have key: "session_key b (dhPublic kp) = ?key" unfolding kp_def by (simp add: session_key_agrees)
  have len: "length (public_of b) = 32" by (simp add: public_of_def)
  have "cbc_decrypt (des_decrypt ?key) ?iv (cbc_encrypt (des_encrypt ?key) ?iv (pkcs5_pad plain)) = pkcs5_pad plain"
    using len by (intro des.cbc_decrypt_encrypt pkcs5_pad_length) simp
  then have "server_decrypt b (dhPublic kp) (cbc_encrypt (des_encrypt ?key) ?iv (pkcs5_pad plain)) = plain"
    unfolding server_decrypt_def key by (simp add: pkcs5_unpad_pad)
  moreover have "newDHKeyPair (Some r) = Some kp"
    by (simp add: newDHKeyPair_def kp_def public_of_def Let_def)
  ultimately show ?thesis using len by (simp add: encryptor_def kp_def Let_def)
qed

end
