(* ===== verification/Drda_State.thy ===== *)
theory Drda_State
  imports Drda_Params Drda_Secmec9
begin

text \<open>
  The state of a DRDA session (\<^verbatim>\<open>internal/drda/conn.go\<close>, \<^verbatim>\<open>query.go\<close>): configuration,
  server attributes, cursors and the connection; the errors; and the plumbing of operations
  that change the connection and may fail.

  The network is part of the connection: \<open>rd\<close> holds the bytes the peer still delivers before
  it closes, \<open>wres\<close> the outcomes of the coming \<^verbatim>\<open>Write\<close> calls (success when the list is
  used up) and \<open>sent\<close> the transmissions written so far.  As \<open>rd\<close> and \<open>wres\<close> are arbitrary,
  a theorem about them covers every behaviour of the peer.  Deadlines, tracing and the mutex
  are left out: every exported operation holds the mutex from its first to its last line, so
  operations do not interleave.

  A \<^verbatim>\<open>*Query\<close> that has been handed out is an index into \<open>queries\<close>, which makes the alias
  between the caller's pointer and \<^verbatim>\<open>conn.openQuery\<close> explicit.
\<close>

section \<open>Configuration and server\<close>

record Config =
  Host :: string
  Port :: int
  Database :: string
  User :: string
  Password :: string
  useTLS :: bool
  SecurityMechanism :: "16 word"
  QueryBlockSize :: "32 word"
  ClientName :: string
  ApplicationName :: string
  CurrentSchema :: string
  PackageCollection :: string
  PackageID :: string
  NoAutoBind :: bool

record ServerInfo =
  ServerClass :: string
  ReleaseLevel :: string
  ServerName :: string
  ProductID :: string
  TypeDefName :: string
  LittleEndian :: bool
  sCCSIDSBC :: "16 word"
  sCCSIDDBC :: "16 word"
  sCCSIDMBC :: "16 word"
  SecMec :: "16 word"

definition zero_ServerInfo :: ServerInfo where
  "zero_ServerInfo = \<lparr>ServerClass = '''', ReleaseLevel = '''', ServerName = '''', ProductID = '''',
     TypeDefName = '''', LittleEndian = False, sCCSIDSBC = 0, sCCSIDDBC = 0, sCCSIDMBC = 0, SecMec = 0\<rparr>"

section \<open>Errors\<close>

text \<open>The text of a reply-message error: a constructor per format string of \<open>replyError\<close>.\<close>

datatype reply_detail =
    NoDetail
  | DetailText string
  | DetailDatabase string
  | DetailSyntax byte
  | DetailAt reply_detail CodePoint
  | DetailConversation byte
  | DetailNotSupported CodePoint
  | DetailBind byte

record Result =
  RowsAffected :: int
  rSQLCA :: "SQLCA option"

datatype conn_error =
    DdmError ddm_error
  | WriteError io_error
  | ReaderError reader_error
  | FdocaError fdoca_error
  | ParamError param_error
  | SqlError SQLCA
  | AuthError byte string
  | ProtocolError CodePoint "16 word" reply_detail
  | AccsecRejected byte string
  | DatabaseNotFound string
  | RefuseDowngrade "16 word" "16 word"
  | UnsupportedSecMec "16 word"
  | ServerTokenLength nat
  | NoRandom
  | NoACCRDBRM
  | QRYDTABeforeQRYDSC
  | UndecodedBytes nat
  | NoCursor
  | NoCursorParams
  | IndexPanic
  | PackageError string string conn_error "conn_error option"
  | BindFailed string string conn_error
  | Wrapped string conn_error

text \<open>\<^verbatim>\<open>errors.As(err, &ca)\<close> for \<^verbatim>\<open>*SQLCA\<close>: the first SQLCA of the unwrap chain.\<close>

fun as_SQLCA :: "conn_error \<Rightarrow> SQLCA option" where
  "as_SQLCA (SqlError ca) = Some ca"
| "as_SQLCA (PackageError coll pkg e berr) = as_SQLCA e"
| "as_SQLCA (BindFailed coll pkg e) = as_SQLCA e"
| "as_SQLCA (Wrapped msg e) = as_SQLCA e"
| "as_SQLCA _ = None"

section \<open>Cursors and connections\<close>

record Query =
  qColumns :: "ColumnDesc list option"
  qFields :: "FieldDesc list"
  decoder :: RowDecoder
  qCorr :: "16 word"
  qryinsid :: "64 word"
  qOpened :: bool
  qDone :: bool
  qClosed :: bool
  pending :: "Value list list"
  extdta :: "bytes list"
  partial :: bytes
  Warnings :: "SQLCA list"
  qResult :: "Result option"

record Conn =
  cfg :: Config
  rd :: bytes
  wres :: "io_error option list"
  sent :: "bytes list"
  wr :: Writer
  Server :: ServerInfo
  pkgID :: string
  pkgCollection :: string
  pkgCnsTkn :: string
  bindAttempted :: bool
  bindError :: "conn_error option"
  pkgSN :: "16 word"
  rdbnam :: string
  qryBlkSz :: "32 word"
  connClosed :: bool
  ddmUTF8 :: bool
  openQuery :: "nat option"
  queries :: "Query list"

section \<open>Operations\<close>

type_synonym 'a act = "Conn \<Rightarrow> (conn_error + 'a) \<times> Conn"

definition ok :: "'a \<Rightarrow> 'a act" where
  "ok x c = (Inr x, c)"

definition fails :: "conn_error \<Rightarrow> 'a act" where
  "fails e c = (Inl e, c)"

text \<open>\<^verbatim>\<open>x, err := m(); if err != nil { return err }; f(x)\<close>\<close>

definition andthen :: "'a act \<Rightarrow> ('a \<Rightarrow> 'b act) \<Rightarrow> 'b act" where
  "andthen m f c = (case m c of (Inl e, c1) \<Rightarrow> (Inl e, c1) | (Inr x, c1) \<Rightarrow> f x c1)"

text \<open>\<^verbatim>\<open>fmt.Errorf("...: %w", err)\<close>\<close>

definition wrapping :: "string \<Rightarrow> 'a act \<Rightarrow> 'a act" where
  "wrapping msg m c = (case m c of (Inl e, c1) \<Rightarrow> (Inl (Wrapped msg e), c1) | (Inr x, c1) \<Rightarrow> (Inr x, c1))"

text \<open>Reading and changing the connection.\<close>

definition with_conn :: "(Conn \<Rightarrow> 'a act) \<Rightarrow> 'a act" where
  "with_conn f c = f c c"

definition change :: "(Conn \<Rightarrow> Conn) \<Rightarrow> unit act" where
  "change f c = (Inr (), f c)"

definition of_sum :: "('e \<Rightarrow> conn_error) \<Rightarrow> 'e + 'a \<Rightarrow> 'a act" where
  "of_sum g r c = (case r of Inl e \<Rightarrow> (Inl (g e), c) | Inr x \<Rightarrow> (Inr x, c))"

lemmas act_defs = ok_def fails_def andthen_def wrapping_def with_conn_def change_def of_sum_def

text \<open>A property of the connection that an operation keeps, whatever its outcome.\<close>

named_theorems keeps_intros "operations that keep a relation between connections"

definition keeps :: "(Conn \<Rightarrow> Conn \<Rightarrow> bool) \<Rightarrow> 'a act \<Rightarrow> bool" where
  "keeps R m \<longleftrightarrow> (\<forall>c r c'. m c = (r, c') \<longrightarrow> R c c')"

lemma keepsI: "(\<And>c r c'. m c = (r, c') \<Longrightarrow> R c c') \<Longrightarrow> keeps R m"
  by (simp add: keeps_def)

lemma keepsD: "keeps R m \<Longrightarrow> m c = (r, c') \<Longrightarrow> R c c'"
  by (auto simp: keeps_def)

lemma keeps_pure [keeps_intros]:
  "reflp R \<Longrightarrow> keeps R (ok x)" "reflp R \<Longrightarrow> keeps R (fails e)" "reflp R \<Longrightarrow> keeps R (of_sum g r)"
  by (auto simp: keeps_def act_defs reflp_def split: sum.splits)

lemma keeps_andthen [keeps_intros]:
  assumes "transp R" "keeps R m" "\<And>x. keeps R (f x)"
  shows "keeps R (andthen m f)"
  unfolding keeps_def
proof (intro allI impI)
  fix c r c' assume r: "andthen m f c = (r, c')"
  obtain s c1 where m: "m c = (s, c1)" by fastforce
  show "R c c'"
    using assms(2,3) r m
    by (cases s) (auto simp: andthen_def dest!: keepsD intro: transpD [OF assms(1)])
qed

lemma keeps_wrapping [keeps_intros]: "keeps R m \<Longrightarrow> keeps R (wrapping msg m)"
  by (auto simp: keeps_def wrapping_def split: prod.splits sum.splits)

lemma keeps_with_conn [keeps_intros]: "(\<And>c. keeps R (f c)) \<Longrightarrow> keeps R (with_conn f)"
  by (auto simp: keeps_def with_conn_def)

lemma keeps_change [keeps_intros]: "(\<And>c. R c (f c)) \<Longrightarrow> keeps R (change f)"
  by (auto simp: keeps_def change_def)

lemma keeps_if [keeps_intros]: "(b \<Longrightarrow> keeps R m) \<Longrightarrow> (\<not> b \<Longrightarrow> keeps R n) \<Longrightarrow> keeps R (if b then m else n)"
  by simp

end
