(* ===== verification/Drda_Wire.thy ===== *)
theory Drda_Wire
  imports Drda_State
begin

text \<open>
  Sending and receiving on a connection (\<^verbatim>\<open>internal/drda/conn.go\<close>): \<open>send\<close>, \<open>flush\<close>,
  \<open>readDSS\<close>, \<open>readChain\<close>, the request packers and the classification of replies.

  The main result is the contract of \<open>readChain\<close>: it returns exactly the shortest sequence
  of replies that completes the exchange, and leaves the stream right behind it.
\<close>

named_theorems pack_defs "the request packers"

section \<open>Low-level send and receive\<close>

definition send :: "bytes \<Rightarrow> 16 word \<Rightarrow> bool \<Rightarrow> bool \<Rightarrow> unit act" where
  "send ob corr sameNext isLast = change (\<lambda>c. c\<lparr>wr := WriteRequest ob corr sameNext isLast (wr c)\<rparr>)"

definition flush :: "unit act" where
  "flush c =
     (case Flush (case wres c of [] \<Rightarrow> None | r # rs \<Rightarrow> r) (wr c) of
        (e, data, w) \<Rightarrow>
          let c1 = (if buf (wr c) = [] then c\<lparr>wr := w\<rparr>
                    else c\<lparr>wr := w, wres := tl (wres c), sent := sent c @ [data]\<rparr>)
          in (case e of None \<Rightarrow> (Inr (), c1) | Some err \<Rightarrow> (Inl (WriteError err), c1)))"

definition readDSS :: "DSS act" where
  "readDSS c =
     (case ReadDSS (rd c) of
        (Inl e, s) \<Rightarrow> (Inl (DdmError e), c\<lparr>rd := s\<rparr>)
      | (Inr d, s) \<Rightarrow> (Inr d, c\<lparr>rd := s\<rparr>))"

definition sqldaVariant :: "ServerInfo \<Rightarrow> SQLDAVariant" where
  "sqldaVariant srv = sqldaVariantFor (ProductID srv)"

definition parseSQLDARD :: "ServerInfo \<Rightarrow> bytes \<Rightarrow> SQLCA option \<times> ColumnDesc list \<times> reader_error option" where
  "parseSQLDARD srv payload =
     ParseSQLDARDVariant payload (LittleEndian srv) (sqldaVariant srv) (sCCSIDSBC srv)"

definition errorReplies :: "CodePoint list" where
  "errorReplies =
     [SQLERRRM, BGNBNDRM, PKGBNARM, PKGBPARM, CMDCHKRM, SYNTAXRM,
      PRCCNVRM, CMDNSPRM, OBJNSPRM, PRMNSPRM, VALNSPRM, RDBNFNRM,
      RDBATHRM, RDBNACRM, RDBAFLRM, ABNUOWRM, QRYNOPRM, DTAMCHRM,
      OPNQFLRM, AGNPRMRM, RSCLMTRM, MGRLVLRM, CMDATHRM]"

definition isErrorReply :: "ServerInfo \<Rightarrow> DSS \<Rightarrow> bool" where
  "isErrorReply srv d \<longleftrightarrow>
     (if CodePt d = SQLCARD then
        (if Payload d \<noteq> [] \<and> hd (Payload d) = 0xFF then False
         else case ParseSQLCARD (Payload d) (LittleEndian srv) of Inl e \<Rightarrow> False | Inr ca \<Rightarrow> IsError ca)
      else if CodePt d = SQLDARD then
        (case parseSQLDARD srv (Payload d) of (ca, cols, err) \<Rightarrow> err = None \<and> IsError ca)
      else CodePt d \<in> set errorReplies)"

text \<open>The loop of \<open>readChain\<close>; \<open>sawError\<close> is its local variable.\<close>

function readReplies :: "ServerInfo \<Rightarrow> 16 word \<Rightarrow> bool \<Rightarrow> bytes \<Rightarrow> (ddm_error + DSS list) \<times> bytes" where
  "readReplies srv lastCorr sawError s =
     (case ReadDSS s of
        (Inl e, s1) \<Rightarrow> (Inl e, s1)
      | (Inr d, s1) \<Rightarrow>
          let sawError' = (sawError \<or> isErrorReply srv d) in
          if \<not> Chained d \<and> (lastCorr \<le> CorrelationID d \<or> sawError') then (Inr [d], s1)
          else
            (case readReplies srv lastCorr sawError' s1 of
               (Inl e, s2) \<Rightarrow> (Inl e, s2)
             | (Inr ds, s2) \<Rightarrow> (Inr (d # ds), s2)))"
  by pat_completeness auto
termination
  by (relation "measure (\<lambda>(srv, lastCorr, sawError, s). length s)")
     (auto dest!: ReadDSS_consumes [OF sym])

declare readReplies.simps [simp del]

definition readChain :: "16 word \<Rightarrow> DSS list act" where
  "readChain lastCorr c =
     (case readReplies (Server c) lastCorr False (rd c) of
        (Inl e, s) \<Rightarrow> (Inl (DdmError e), c\<lparr>rd := s\<rparr>)
      | (Inr ds, s) \<Rightarrow> (Inr ds, c\<lparr>rd := s\<rparr>))"

text \<open>
  A request is an object with its correlation id, the same-correlator flag and the last flag,
  the arguments of one \<open>send\<close>.  Commands send some requests, flush and read the replies.
\<close>

type_synonym req = "bytes \<times> 16 word \<times> bool \<times> bool"

fun sends :: "req list \<Rightarrow> unit act" where
  "sends [] = ok ()"
| "sends ((ob, corr, sameNext, isLast) # rs) = andthen (send ob corr sameNext isLast) (\<lambda>_. sends rs)"

definition transmit :: "req list \<Rightarrow> 16 word \<Rightarrow> DSS list act" where
  "transmit rs lastCorr = andthen (sends rs) (\<lambda>_. andthen flush (\<lambda>_. readChain lastCorr))"

section \<open>Request packers\<close>

abbreviation defaultPkgID :: string where "defaultPkgID \<equiv> ''SYSSH200''"
abbreviation defaultPkgCnsTkn :: string where "defaultPkgCnsTkn \<equiv> ''SYSLVL01''"
abbreviation defaultPkgSN :: "16 word" where "defaultPkgSN \<equiv> 1"
abbreviation defaultQryBlkSz :: "32 word" where "defaultQryBlkSz \<equiv> 0x100000"
abbreviation prdid :: string where "prdid \<equiv> ''SQL11058''"
abbreviation clientTypdef :: string where "clientTypdef \<equiv> ''QTDSQLX86''"

definition packEXCSAT :: "Conn \<Rightarrow> bytes" where [pack_defs]:
  "packEXCSAT c =
     (let mgrs = [AGENT, 10, SQLAM, 11, CMNTCPIP, 5, RDB, 12, SECMGR, 9, UNICODEMGR, 1208] :: 16 word list
      in NewObject EXCSAT
           (EBCDIC EXTNAM (ApplicationName (cfg c)) @ EBCDIC SRVNAM (ClientName (cfg c))
            @ EBCDIC SRVRLSLV prdid @ Bytes MGRLVLLS (concat (map BE_Put16 mgrs))
            @ EBCDIC SRVCLSNM ''QDB2/JVM''))"

definition rdbnamEBCDIC :: "Conn \<Rightarrow> bytes" where [pack_defs]:
  "rdbnamEBCDIC c = PadEBCDIC (rdbnam c) 18"

definition packACCSEC :: "16 word \<Rightarrow> dhKeyPair \<Rightarrow> Conn \<Rightarrow> bytes" where [pack_defs]:
  "packACCSEC secmec kp c =
     NewObject ACCSEC
       (Uint16 SECMEC secmec @ Bytes RDBNAM (rdbnamEBCDIC c)
        @ (if secmec = SecMecEUSRIDPWD then Bytes SECTKN (dhPublic kp) else []))"

definition packSECCHK :: "16 word \<Rightarrow> bytes \<Rightarrow> dhKeyPair \<Rightarrow> Conn \<Rightarrow> conn_error + bytes" where
  "packSECCHK secmec serverToken kp c =
     (let body = Uint16 SECMEC secmec @ Bytes RDBNAM (rdbnamEBCDIC c) in
      if secmec = SecMecEUSRIDPWD then
        (case encryptor kp serverToken of
           Inl n \<Rightarrow> Inl (ServerTokenLength n)
         | Inr encrypt \<Rightarrow>
             Inr (NewObject SECCHK (body @ Bytes SECTKN (encrypt (EncodeEBCDIC (User (cfg c))))
                                         @ Bytes SECTKN (encrypt (EncodeEBCDIC (Password (cfg c)))))))
      else if secmec = SecMecUSRIDPWD then
        Inr (NewObject SECCHK (body @ EBCDIC USRID (User (cfg c)) @ EBCDIC PASSWORD (Password (cfg c))))
      else if secmec = SecMecUSRIDONL then Inr (NewObject SECCHK (body @ EBCDIC USRID (User (cfg c))))
      else Inl (UnsupportedSecMec secmec))"

definition packACCRDB :: "Conn \<Rightarrow> bytes" where [pack_defs]:
  "packACCRDB c =
     (let crrtkn = PadEBCDIC ''ADBCGO'' 8 @ [char_byte (CHR ''.'')] @ PadEBCDIC ''GOLANG'' 6
                     @ [0x01, 0x55, 0x63, 0x0D];
          ov = Uint16 CCSIDSBC 1208 @ Uint16 CCSIDDBC 1200 @ Uint16 CCSIDMBC 1208
      in NewObject ACCRDB
           (Bytes RDBNAM (rdbnamEBCDIC c) @ Uint16 RDBACCCL SQLAM @ EBCDIC PRDID prdid
            @ EBCDIC TYPDEFNAM clientTypdef @ Bytes CRRTKN crrtkn @ Bytes TYPDEFOVR ov))"

definition packPKGNAMCSN :: "16 word \<Rightarrow> Conn \<Rightarrow> bytes" where [pack_defs]:
  "packPKGNAMCSN section_nr c =
     (let pad = (if ddmUTF8 c then PadASCII else PadEBCDIC)
      in Bytes PKGNAMCSN
           (pad (rdbnam c) 18 @ pad (pkgCollection c) 18 @ pad (pkgID c) 18
            @ PadASCII (pkgCnsTkn c) 8 @ BE_Put16 section_nr))"

definition sqlText :: "string \<Rightarrow> bytes" where [pack_defs]:
  "sqlText sql = [0x00] @ BE_Put32 (word_of_nat (length sql)) @ str_bytes sql @ [0xFF]"

definition packSQLSTT :: "string \<Rightarrow> bytes" where [pack_defs]:
  "packSQLSTT sql = NewObject SQLSTT (sqlText sql)"

definition packSQLATTR :: "string \<Rightarrow> bytes" where [pack_defs]:
  "packSQLATTR attr = NewObject SQLATTR (sqlText attr)"

definition packEXCSQLIMM :: "16 word \<Rightarrow> Conn \<Rightarrow> bytes" where [pack_defs]:
  "packEXCSQLIMM section_nr c = NewObject EXCSQLIMM (packPKGNAMCSN section_nr c @ Byte RDBCMTOK 0xF1)"

definition packPRPSQLSTT :: "16 word \<Rightarrow> Conn \<Rightarrow> bytes" where [pack_defs]:
  "packPRPSQLSTT section_nr c = NewObject PRPSQLSTT (packPKGNAMCSN section_nr c @ Byte RTNSQLDA 0xF1)"

definition packDSCSQLSTT :: "16 word \<Rightarrow> Conn \<Rightarrow> bytes" where [pack_defs]:
  "packDSCSQLSTT section_nr c = NewObject DSCSQLSTT (packPKGNAMCSN section_nr c @ Byte TYPSQLDA 0x01)"

definition packEXCSQLSTT :: "16 word \<Rightarrow> Conn \<Rightarrow> bytes" where [pack_defs]:
  "packEXCSQLSTT section_nr c = NewObject EXCSQLSTT (packPKGNAMCSN section_nr c @ Byte RDBCMTOK 0xF1)"

definition packOPNQRY :: "16 word \<Rightarrow> bool \<Rightarrow> Conn \<Rightarrow> bytes" where [pack_defs]:
  "packOPNQRY section_nr withParams c =
     NewObject OPNQRY
       (packPKGNAMCSN section_nr c @ Uint32 QRYBLKSZ (qryBlkSz c) @ Uint16 MAXBLKEXT 0xFFFF
        @ Byte QRYCLSIMP 0x01 @ (if withParams then Byte DYNDTAFMT 0xF1 else []))"

definition packCNTQRY :: "16 word \<Rightarrow> 64 word \<Rightarrow> Conn \<Rightarrow> bytes" where [pack_defs]:
  "packCNTQRY section_nr insid c =
     NewObject CNTQRY
       (packPKGNAMCSN section_nr c @ Uint32 QRYBLKSZ (qryBlkSz c) @ Uint64 QRYINSID insid
        @ Byte RTNEXTDTA 0x02)"

definition packCLSQRY :: "16 word \<Rightarrow> 64 word \<Rightarrow> Conn \<Rightarrow> bytes" where [pack_defs]:
  "packCLSQRY section_nr insid c = NewObject CLSQRY (packPKGNAMCSN section_nr c @ Uint64 QRYINSID insid)"

definition packRDBCMM :: bytes where [pack_defs]:
  "packRDBCMM = NewObject RDBCMM []"

definition packRDBRLLBCK :: bytes where [pack_defs]:
  "packRDBRLLBCK = NewObject RDBRLLBCK []"

section \<open>Replies\<close>

definition secChkCodeText :: "byte \<Rightarrow> string" where
  "secChkCodeText cd =
     (case map_of
        [(0x00, ''ok''), (0x01, ''security mechanism not supported''), (0x02, ''DCE informational status''),
         (0x03, ''DCE retryable error''), (0x04, ''DCE non-retryable error''),
         (0x05, ''GSSAPI informational status''), (0x06, ''GSSAPI retryable error''),
         (0x07, ''GSSAPI non-retryable error''), (0x08, ''local security service info''),
         (0x09, ''local security service retryable error''),
         (0x0A, ''local security service non-retryable error''), (0x0B, ''SECTKN missing or invalid''),
         (0x0E, ''password expired''), (0x0F, ''password invalid''), (0x10, ''password missing''),
         (0x12, ''user id missing''), (0x13, ''user id invalid''), (0x14, ''user id revoked''),
         (0x15, ''new password invalid''),
         (0x16, ''authentication failed due to connectivity restrictions''),
         (0x17, ''invalid GSS-API server credential''), (0x18, ''GSS-API server credential expired''),
         (0x19, ''continue: additional tokens required''), (0x1A, ''switch user: SECMEC not supported''),
         (0x1B, ''switch user: encryption not supported''), (0x1C, ''user id not allowed'')] cd of
        Some t \<Rightarrow> t | None \<Rightarrow> ''unknown'')"

definition dataReplies :: "CodePoint list" where
  "dataReplies =
     [SQLCARD, SQLDARD, QRYDSC, QRYDTA, EXTDTA, SQLDTARD, OPNQRYRM, ENDQRYRM, ENDUOWRM, EXCSATRD,
      ACCSECRD, SECCHKRM, ACCRDBRM, SQLRSLRD, SQLCINRD, CMDCMPRM, RDBUPDRM]"

text \<open>The first byte of a parameter that is present and not empty.\<close>

definition first_byte :: "Params \<Rightarrow> CodePoint \<Rightarrow> byte option" where
  "first_byte p cp = (case pMap p cp of Some (b # bs) \<Rightarrow> Some b | _ \<Rightarrow> None)"

definition replyDetail :: "Conn \<Rightarrow> CodePoint \<Rightarrow> Params \<Rightarrow> reply_detail" where
  "replyDetail c cp p =
     (let dgn = (case Params_EBCDICString p SRVDGN of Some s \<Rightarrow> DetailText (TrimSpace s) | None \<Rightarrow> NoDetail) in
      if cp = RDBNFNRM then DetailDatabase (Database (cfg c))
      else if cp = RDBATHRM then DetailText ''not authorized to database''
      else if cp = RDBAFLRM then DetailText ''database access failed''
      else if cp = CMDCHKRM then DetailText ''command check (malformed request)''
      else if cp = SYNTAXRM then
        (let d1 = (case first_byte p SYNERRCD of Some cd \<Rightarrow> DetailSyntax cd | None \<Rightarrow> dgn)
         in case Params_Uint16 p CODPNT of Some x \<Rightarrow> DetailAt d1 x | None \<Rightarrow> d1)
      else if cp = MGRLVLRM then DetailText ''manager-level conflict''
      else if cp = PRCCNVRM then
        (case first_byte p PRCCNVCD of Some cd \<Rightarrow> DetailConversation cd | None \<Rightarrow> dgn)
      else if cp \<in> {CMDNSPRM, OBJNSPRM, PRMNSPRM, VALNSPRM} then
        (case Params_Uint16 p CODPNT of Some x \<Rightarrow> DetailNotSupported x | None \<Rightarrow> dgn)
      else if cp = ABNUOWRM then DetailText ''unit of work abnormally ended (rolled back)''
      else if cp = QRYNOPRM then DetailText ''query not open''
      else if cp = QRYPOPRM then DetailText ''query previously opened''
      else if cp = DTAMCHRM then DetailText ''data descriptor mismatch''
      else if cp = OPNQFLRM then DetailText ''open query failure''
      else if cp = BGNBNDRM then
        (case first_byte p RSNCOD of Some cd \<Rightarrow> DetailBind cd | None \<Rightarrow> DetailText ''begin bind error'')
      else if cp = PKGBNARM then DetailText ''package bind not active''
      else if cp = PKGBPARM then DetailText ''package bind process active''
      else dgn)"

definition replyError :: "Conn \<Rightarrow> DSS \<Rightarrow> conn_error option" where
  "replyError c d =
     (if CodePt d \<in> set dataReplies then None
      else case ParseParams (Payload d) of
        Inl e \<Rightarrow> Some (ProtocolError (CodePt d) 0 NoDetail)
      | Inr p \<Rightarrow>
          Some (ProtocolError (CodePt d) (case Params_Uint16 p SVRCOD of Some v \<Rightarrow> v | None \<Rightarrow> 0)
                  (replyDetail c (CodePt d) p)))"

section \<open>Lemmas\<close>

lemma replyError_None: "replyError c d = None \<longleftrightarrow> CodePt d \<in> set dataReplies"
  by (auto simp: replyError_def split: sum.split)

text \<open>The part of a connection that sending and receiving leave alone.\<close>

definition session :: "Conn \<Rightarrow> Conn" where
  "session c = c\<lparr>rd := [], wres := [], sent := [], wr := NewWriter\<rparr>"

definition same_session :: "Conn \<Rightarrow> Conn \<Rightarrow> bool" where
  "same_session c c' \<longleftrightarrow> session c' = session c"

lemma same_session_rel [keeps_intros]: "reflp same_session" "transp same_session"
  by (auto simp: reflp_def transp_def same_session_def)

lemma same_sessionD:
  assumes "same_session c c'"
  shows "cfg c' = cfg c" "Server c' = Server c" "pkgID c' = pkgID c" "pkgCollection c' = pkgCollection c"
    "pkgCnsTkn c' = pkgCnsTkn c" "bindAttempted c' = bindAttempted c" "bindError c' = bindError c"
    "pkgSN c' = pkgSN c" "rdbnam c' = rdbnam c" "qryBlkSz c' = qryBlkSz c" "connClosed c' = connClosed c"
    "ddmUTF8 c' = ddmUTF8 c" "openQuery c' = openQuery c" "queries c' = queries c"
  using assms unfolding same_session_def session_def by (cases c; cases c'; simp)+

lemma same_session_updates [simp]:
  "same_session c (c\<lparr>rd := a\<rparr>)" "same_session c (c\<lparr>wr := w\<rparr>)"
  "same_session c (c\<lparr>wr := w, wres := b, sent := d\<rparr>)"
  by (simp_all add: same_session_def session_def)

lemma keeps_session_io [keeps_intros]:
  shows "keeps same_session (send ob corr sameNext isLast)" "keeps same_session flush"
    "keeps same_session readDSS" "keeps same_session (readChain lastCorr)"
  by (auto simp: keeps_def send_def flush_def readDSS_def readChain_def change_def Let_def
      split: prod.splits sum.splits option.splits if_splits)

lemma keeps_session_sends [keeps_intros]: "keeps same_session (sends rs)"
  by (induction rs rule: sends.induct) (auto intro!: keeps_intros)

lemma keeps_session_transmit [keeps_intros]: "keeps same_session (transmit rs lastCorr)"
  unfolding transmit_def by (intro keeps_intros)

section \<open>What a transmission puts on the wire\<close>

definition req_write :: "req \<Rightarrow> Writer \<Rightarrow> Writer" where
  "req_write r w = (case r of (ob, corr, sameNext, isLast) \<Rightarrow> WriteRequest ob corr sameNext isLast w)"

definition wire :: "req list \<Rightarrow> bytes" where
  "wire rs = concat (map (\<lambda>(ob, corr, sameNext, isLast). request_wire ob corr sameNext isLast) rs)"

lemma sends_effect: "sends rs c = (Inr (), c\<lparr>wr := fold req_write rs (wr c)\<rparr>)"
  by (induction rs arbitrary: c rule: sends.induct) (auto simp: act_defs send_def req_write_def)

lemma buf_req_writes: "buf (fold req_write rs w) = buf w @ wire rs"
  by (induction rs arbitrary: w) (auto simp: req_write_def wire_def buf_WriteRequest)

lemma request_wire_not_Nil [simp]: "request_wire ob corr sameNext isLast \<noteq> []"
  by (simp add: request_wire_def WriteRequest_def NewWriter_def Let_def)

lemma wire_not_Nil [simp]: "wire rs = [] \<longleftrightarrow> rs = []"
  by (cases rs) (auto simp: wire_def)

lemma flush_effect:
  assumes "buf (wr c) \<noteq> []" "flush c = (r, c')"
  shows "wr c' = NewWriter" "sent c' = sent c @ [buf (wr c)]" "rd c' = rd c" "same_session c c'"
  using assms by (auto simp: flush_def Flush_def NewWriter_def Let_def split: option.splits)

lemma readChain_effect:
  "readChain k c = (r, c') \<Longrightarrow> wr c' = wr c \<and> sent c' = sent c"
  by (auto simp: readChain_def split: prod.splits sum.splits)

lemma transmit_effect:
  assumes "rs \<noteq> []" "wr c = NewWriter" "transmit rs k c = (r, c')"
  shows "wr c' = NewWriter" "sent c' = sent c @ [wire rs]" "same_session c c'"
proof -
  let ?c1 = "c\<lparr>wr := fold req_write rs (wr c)\<rparr>"
  obtain s c2 where fl: "flush ?c1 = (s, c2)" by fastforce
  have buf: "buf (wr ?c1) = wire rs" using assms(2) by (simp add: buf_req_writes NewWriter_def)
  note e = flush_effect [OF _ fl, unfolded buf]
  show "wr c' = NewWriter" "sent c' = sent c @ [wire rs]"
    using assms e fl readChain_effect
    by (auto simp: transmit_def andthen_def sends_effect split: sum.splits dest!: readChain_effect)
  show "same_session c c'" using keeps_session_transmit assms(3) by (rule keepsD)
qed

section \<open>Reading a chain of replies\<close>

text \<open>
  A sequence of replies completes an exchange when its last reply ends a chain and either
  answers the last request or an error has been reported; it is a complete reply when no
  shorter prefix does.
\<close>

definition completes :: "ServerInfo \<Rightarrow> 16 word \<Rightarrow> bool \<Rightarrow> DSS list \<Rightarrow> bool" where
  "completes srv lastCorr sawError ds \<longleftrightarrow>
     ds \<noteq> [] \<and> \<not> Chained (last ds) \<and>
     (lastCorr \<le> CorrelationID (last ds) \<or> sawError \<or> list_ex (isErrorReply srv) ds)"

definition complete_reply :: "ServerInfo \<Rightarrow> 16 word \<Rightarrow> bool \<Rightarrow> DSS list \<Rightarrow> bool" where
  "complete_reply srv lastCorr sawError ds \<longleftrightarrow>
     completes srv lastCorr sawError ds
     \<and> list_all (\<lambda>n. \<not> completes srv lastCorr sawError (take n ds)) [0..<length ds]"

lemma complete_reply_Cons:
  "complete_reply srv k saw (d # ds) \<longleftrightarrow>
     (if \<not> Chained d \<and> (k \<le> CorrelationID d \<or> saw \<or> isErrorReply srv d) then ds = []
      else complete_reply srv k (saw \<or> isErrorReply srv d) ds)"
proof -
  have step: "completes srv k saw (d # es) \<longleftrightarrow>
      (if es = [] then \<not> Chained d \<and> (k \<le> CorrelationID d \<or> saw \<or> isErrorReply srv d)
       else completes srv k (saw \<or> isErrorReply srv d) es)" for es
    by (auto simp: completes_def)
  have zero: "\<not> completes srv k s (take 0 xs)" for s xs by (simp add: completes_def)
  have all: "list_all P [0..<Suc n] \<longleftrightarrow> P 0 \<and> list_all (\<lambda>i. P (Suc i)) [0..<n]" for P n
    by (simp add: upt_conv_Cons map_Suc_upt [symmetric] list.pred_map o_def del: upt_Suc)
  show ?thesis
  proof (cases "ds = []")
    case True
    then show ?thesis by (simp add: complete_reply_def step completes_def)
  next
    case False
    then obtain n where n: "length ds = Suc n" by (cases ds) auto
    have tk: "take (Suc i) ds \<noteq> []" for i using False by simp
    show ?thesis
      using False zero unfolding complete_reply_def
      by (auto simp: step all n tk list.size simp del: upt_Suc)
  qed
qed

lemma readReplies_iff:
  "readReplies srv k saw s = (Inr ds, s') \<longleftrightarrow>
     read_n (length ds) s = (Inr ds, s') \<and> complete_reply srv k saw ds"
proof (induction srv k saw s arbitrary: ds rule: readReplies.induct)
  case (1 srv k saw s)
  obtain r s1 where rs: "ReadDSS s = (r, s1)" by fastforce
  show ?case
  proof (cases r)
    case (Inl e)
    then show ?thesis
      by (cases ds) (auto simp: readReplies.simps [of srv k saw s] rs complete_reply_def completes_def)
  next
    case (Inr d)
    let ?stop = "\<not> Chained d \<and> (k \<le> CorrelationID d \<or> saw \<or> isErrorReply srv d)"
    let ?rec = "readReplies srv k (saw \<or> isErrorReply srv d) s1"
    have e: "readReplies srv k saw s = (if ?stop then (Inr [d], s1)
        else (case ?rec of (Inl e, s2) \<Rightarrow> (Inl e, s2) | (Inr ds, s2) \<Rightarrow> (Inr (d # ds), s2)))"
      using rs Inr by (simp add: readReplies.simps [of srv k saw s] Let_def)
    show ?thesis
    proof (cases ds)
      case Nil
      then show ?thesis
        by (auto simp: e complete_reply_def completes_def split: prod.splits sum.splits)
    next
      case (Cons d' es)
      have IH: "?rec = (Inr es, s') \<longleftrightarrow> read_n (length es) s1 = (Inr es, s')
          \<and> complete_reply srv k (saw \<or> isErrorReply srv d) es" if "\<not> ?stop"
        using "1.IH" [OF rs [symmetric] Inr refl] that by blast
      show ?thesis
      proof (cases ?stop)
        case True
        then show ?thesis using rs Inr Cons
          by (auto simp: e complete_reply_Cons split: prod.splits sum.splits)
      next
        case False
        have "readReplies srv k saw s = (Inr ds, s') \<longleftrightarrow> d' = d \<and> ?rec = (Inr es, s')"
          using False Cons by (auto simp: e split: prod.splits sum.splits)
        moreover have "read_n (length ds) s = (Inr ds, s') \<longleftrightarrow> d' = d \<and> read_n (length es) s1 = (Inr es, s')"
          using rs Inr Cons by (auto split: prod.splits sum.splits)
        ultimately show ?thesis using IH [OF False] False Cons by (auto simp: complete_reply_Cons)
      qed
    qed
  qed
qed

text \<open>
  C12: \<open>readChain\<close> always returns.  It succeeds exactly when the stream starts with a complete
  reply to the last request; it returns that reply, all of it and nothing after it, and
  leaves the stream right behind it for the next exchange.
\<close>

theorem readChain_iff:
  "readChain lastCorr c = (Inr ds, c') \<longleftrightarrow>
     read_n (length ds) (rd c) = (Inr ds, rd c') \<and> complete_reply (Server c) lastCorr False ds
     \<and> c' = c\<lparr>rd := rd c'\<rparr>"
proof -
  have "readChain lastCorr c = (Inr ds, c') \<longleftrightarrow>
      readReplies (Server c) lastCorr False (rd c) = (Inr ds, rd c') \<and> c' = c\<lparr>rd := rd c'\<rparr>"
    by (auto simp: readChain_def split: prod.splits sum.splits)
  then show ?thesis by (simp add: readReplies_iff)
qed

end
