(* ===== verification/Drda_Handshake.thy ===== *)
theory Drda_Handshake
  imports Drda_Wire
begin

text \<open>
  Connecting (\<^verbatim>\<open>internal/drda/conn.go\<close>): the defaults of \<^verbatim>\<open>dialTraced\<close>, the exchange of
  attributes, the negotiation of the security mechanism, authentication, access to the
  database and \<open>postConnect\<close>.  TCP and TLS set-up are not modelled; a connection starts from
  the bytes its peer delivers.

  The main result describes everything the handshake can put on the wire, whatever the peer
  answers.  In particular an explicitly configured security mechanism is never replaced.
\<close>

section \<open>Defaults and the new connection\<close>

definition dialConfig :: "string \<Rightarrow> Config \<Rightarrow> Config" where
  "dialConfig hostname conf =
     (let c1 = (if Port conf = 0 then conf\<lparr>Port := 50000\<rparr> else conf);
          c2 = (if QueryBlockSize c1 = 0 then c1\<lparr>QueryBlockSize := defaultQryBlkSz\<rparr> else c1);
          c3 = (if ClientName c2 = '''' then
                  c2\<lparr>ClientName := (if hostname = '''' then ''adbc-db2'' else hostname)\<rparr> else c2);
          c4 = (if ApplicationName c3 = '''' then c3\<lparr>ApplicationName := ''adbc-driver-db2''\<rparr> else c3);
          c5 = (if PackageID c4 = '''' then c4\<lparr>PackageID := defaultPkgID\<rparr> else c4)
      in (if PackageCollection c5 = '''' then c5\<lparr>PackageCollection := ''NULLID''\<rparr> else c5))"

definition newConn :: "(rune \<Rightarrow> rune) \<Rightarrow> Config \<Rightarrow> bytes \<Rightarrow> io_error option list \<Rightarrow> Conn" where
  "newConn u conf stream writes =
     \<lparr>cfg = conf, rd = stream, wres = writes, sent = [], wr = NewWriter, Server = zero_ServerInfo,
      pkgID = ToUpper u (PackageID conf), pkgCollection = ToUpper u (PackageCollection conf),
      pkgCnsTkn = defaultPkgCnsTkn, bindAttempted = False, bindError = None, pkgSN = defaultPkgSN,
      rdbnam = ToUpper u (Database conf), qryBlkSz = QueryBlockSize conf, connClosed = False,
      ddmUTF8 = False, openQuery = None, queries = []\<rparr>"

section \<open>Parsing the replies\<close>

definition ebcdic_or_empty :: "Params \<Rightarrow> CodePoint \<Rightarrow> string" where
  "ebcdic_or_empty p cp = (case Params_EBCDICString p cp of Some s \<Rightarrow> s | None \<Rightarrow> '''')"

definition parseEXCSATRD :: "bytes \<Rightarrow> ServerInfo \<Rightarrow> ServerInfo" where
  "parseEXCSATRD body srv =
     (case ParseParams body of
        Inl e \<Rightarrow> srv
      | Inr p \<Rightarrow>
          srv\<lparr>ServerClass := TrimSpace (ebcdic_or_empty p SRVCLSNM),
              ReleaseLevel := TrimSpace (ebcdic_or_empty p SRVRLSLV),
              ServerName := TrimSpace (ebcdic_or_empty p SRVNAM)\<rparr>)"

definition typdefDefaults :: "string \<Rightarrow> ServerInfo \<Rightarrow> ServerInfo" where
  "typdefDefaults td srv =
     (if td = ''QTDSQLX86'' then
        srv\<lparr>LittleEndian := True, sCCSIDSBC := 1252, sCCSIDDBC := 1200, sCCSIDMBC := 1208\<rparr>
      else if td \<in> {''QTDSQLASC'', ''QTDSQLJVM''} then
        srv\<lparr>LittleEndian := False, sCCSIDSBC := 819, sCCSIDDBC := 1200, sCCSIDMBC := 1208\<rparr>
      else if td \<in> {''QTDSQL370'', ''QTDSQL400''} then
        srv\<lparr>LittleEndian := False, sCCSIDSBC := 500, sCCSIDDBC := 1200, sCCSIDMBC := 1208\<rparr>
      else srv\<lparr>LittleEndian := False\<rparr>)"

definition typdefOverrides :: "Params \<Rightarrow> ServerInfo \<Rightarrow> ServerInfo" where
  "typdefOverrides p srv =
     (case pMap p TYPDEFOVR of
        None \<Rightarrow> srv
      | Some ov \<Rightarrow>
          (case ParseParams ov of
             Inl e \<Rightarrow> srv
           | Inr ps \<Rightarrow>
               let s1 = (case Params_Uint16 ps CCSIDSBC of Some v \<Rightarrow> srv\<lparr>sCCSIDSBC := v\<rparr> | None \<Rightarrow> srv);
                   s2 = (case Params_Uint16 ps CCSIDDBC of Some v \<Rightarrow> s1\<lparr>sCCSIDDBC := v\<rparr> | None \<Rightarrow> s1)
               in (case Params_Uint16 ps CCSIDMBC of Some v \<Rightarrow> s2\<lparr>sCCSIDMBC := v\<rparr> | None \<Rightarrow> s2)))"

definition parseACCRDBRM :: "bytes \<Rightarrow> ServerInfo \<Rightarrow> ddm_error + ServerInfo" where
  "parseACCRDBRM body srv =
     (case ParseParams body of
        Inl e \<Rightarrow> Inl e
      | Inr p \<Rightarrow>
          let td = TrimSpace (ebcdic_or_empty p TYPDEFNAM)
          in Inr (typdefOverrides p (typdefDefaults td
               (srv\<lparr>ProductID := TrimSpace (ebcdic_or_empty p PRDID), TypeDefName := td\<rparr>))))"

fun agrees1208 :: "bytes \<Rightarrow> bool" where
  "agrees1208 (m1 # m0 # l1 # l0 # rest) =
     (if BE_Uint16 [m1, m0] = CCSIDMGR \<and> BE_Uint16 [l1, l0] = 1208 then True else agrees1208 rest)"
| "agrees1208 _ = False"

definition excsatrdAgreesCCSID1208 :: "bytes \<Rightarrow> bool" where
  "excsatrdAgreesCCSID1208 body =
     (case ParseParams body of
        Inl e \<Rightarrow> False
      | Inr p \<Rightarrow> (case pMap p MGRLVLLS of None \<Rightarrow> False | Some ls \<Rightarrow> agrees1208 ls))"

section \<open>Security mechanisms\<close>

definition offeredSecMecs :: "Params \<Rightarrow> 16 word list" where
  "offeredSecMecs p =
     map (\<lambda>(cp, v). BE_Uint16 v) (filter (\<lambda>(cp, v). cp = SECMEC \<and> 2 \<le> length v) (pAll p))"

text \<open>\<open>None\<close> is the panic of \<^verbatim>\<open>offered[0]\<close> on an empty list.\<close>

definition pickSecMec :: "16 word list \<Rightarrow> 16 word option" where
  "pickSecMec offered =
     (case filter (\<lambda>want. want \<in> set offered) [SecMecEUSRIDPWD, SecMecUSRIDPWD, SecMecUSRIDONL] of
        m # ms \<Rightarrow> Some m
      | [] \<Rightarrow> (case offered of m # ms \<Rightarrow> Some m | [] \<Rightarrow> None))"

text \<open>The code of a SECCHKCD that is present and not zero.\<close>

definition secchkcd :: "Params \<Rightarrow> byte option" where
  "secchkcd p = (case first_byte p SECCHKCD of Some cd \<Rightarrow> if cd \<noteq> 0 then Some cd else None | None \<Rightarrow> None)"

definition firstSecMec :: "Config \<Rightarrow> 16 word" where
  "firstSecMec conf =
     (let m = (if SecurityMechanism conf = 0 then SecMecEUSRIDPWD else SecurityMechanism conf)
      in if useTLS conf \<and> SecurityMechanism conf = 0 then SecMecUSRIDPWD else m)"

section \<open>The handshake\<close>

definition checkReply :: "DSS \<Rightarrow> unit act" where
  "checkReply d = with_conn (\<lambda>c. case replyError c d of Some e \<Rightarrow> fails e | None \<Rightarrow> ok ())"

definition accsecReply :: "DSS \<Rightarrow> bytes \<times> 16 word \<Rightarrow> (bytes \<times> 16 word) act" where
  "accsecReply d st =
     (if CodePt d = EXCSATRD then
        andthen (change (\<lambda>c. c\<lparr>Server := parseEXCSATRD (Payload d) (Server c)\<rparr>)) (\<lambda>_. ok st)
      else if CodePt d = ACCSECRD then
        andthen (of_sum DdmError (ParseParams (Payload d))) (\<lambda>p.
          let token = (case pMap p SECTKN of Some t \<Rightarrow> t | None \<Rightarrow> []);
              offered = offeredSecMecs p
          in case secchkcd p of
               Some cd \<Rightarrow>
                 if cd = 0x01 \<and> offered \<noteq> [] then
                   (case pickSecMec offered of Some m \<Rightarrow> ok (token, m) | None \<Rightarrow> fails IndexPanic)
                 else fails (AccsecRejected cd (secChkCodeText cd))
             | None \<Rightarrow> (case offered of m # ms \<Rightarrow> ok (token, m) | [] \<Rightarrow> ok (token, snd st)))
      else if CodePt d = RDBNFNRM then with_conn (\<lambda>c. fails (DatabaseNotFound (Database (cfg c))))
      else andthen (checkReply d) (\<lambda>_. ok st))"

fun accsecReplies :: "DSS list \<Rightarrow> bytes \<times> 16 word \<Rightarrow> (bytes \<times> 16 word) act" where
  "accsecReplies [] st = ok st"
| "accsecReplies (d # ds) st = andthen (accsecReply d st) (accsecReplies ds)"

definition reaccsecReply :: "DSS \<Rightarrow> bytes \<Rightarrow> bytes act" where
  "reaccsecReply d token =
     (if CodePt d = ACCSECRD then
        andthen (of_sum DdmError (ParseParams (Payload d))) (\<lambda>p.
          case secchkcd p of
            Some cd \<Rightarrow> fails (AccsecRejected cd (secChkCodeText cd))
          | None \<Rightarrow> ok (case pMap p SECTKN of Some t \<Rightarrow> t | None \<Rightarrow> []))
      else andthen (checkReply d) (\<lambda>_. ok token))"

fun reaccsecReplies :: "DSS list \<Rightarrow> bytes \<Rightarrow> bytes act" where
  "reaccsecReplies [] token = ok token"
| "reaccsecReplies (d # ds) token = andthen (reaccsecReply d token) (reaccsecReplies ds)"

definition secchkReply :: "DSS \<Rightarrow> unit act" where
  "secchkReply d =
     (if CodePt d = SECCHKRM then
        andthen (of_sum DdmError (ParseParams (Payload d))) (\<lambda>p.
          case secchkcd p of
            Some cd \<Rightarrow> fails (AuthError cd (secChkCodeText cd)) | None \<Rightarrow> ok ())
      else if CodePt d = ACCRDBRM then
        with_conn (\<lambda>c. andthen (of_sum DdmError (parseACCRDBRM (Payload d) (Server c))) (\<lambda>srv.
          change (\<lambda>c. c\<lparr>Server := srv\<rparr>)))
      else if CodePt d = SQLCARD then
        with_conn (\<lambda>c. andthen (of_sum ReaderError (ParseSQLCARD (Payload d) (LittleEndian (Server c)))) (\<lambda>ca.
          case ca of Some a \<Rightarrow> if IsError ca then fails (SqlError a) else ok () | None \<Rightarrow> ok ()))
      else checkReply d)"

fun secchkReplies :: "DSS list \<Rightarrow> unit act" where
  "secchkReplies [] = ok ()"
| "secchkReplies (d # ds) = andthen (secchkReply d) (\<lambda>_. secchkReplies ds)"

text \<open>An exchange whose write and read errors are wrapped in a message.\<close>

definition transmitWrapped :: "string \<Rightarrow> string \<Rightarrow> req list \<Rightarrow> 16 word \<Rightarrow> DSS list act" where
  "transmitWrapped wmsg rmsg rs lastCorr =
     andthen (sends rs) (\<lambda>_. andthen (wrapping wmsg flush) (\<lambda>_. wrapping rmsg (readChain lastCorr)))"

definition ccsidMgrEXCSAT :: bytes where
  "ccsidMgrEXCSAT = NewObject EXCSAT (Bytes MGRLVLLS (BE_Put16 CCSIDMGR @ BE_Put16 1208))"

fun postConnectReplies :: "DSS list \<Rightarrow> unit act" where
  "postConnectReplies [] = ok ()"
| "postConnectReplies (d # ds) =
     andthen
       (if CodePt d = EXCSATRD then change (\<lambda>c. c\<lparr>ddmUTF8 := excsatrdAgreesCCSID1208 (Payload d)\<rparr>)
        else checkReply d)
       (\<lambda>_. postConnectReplies ds)"

text \<open>The list of session set-up statements that follows in the source is empty.\<close>

definition postConnect :: "unit act" where
  "postConnect =
     andthen (sends [(ccsidMgrEXCSAT, 1, False, True)]) (\<lambda>_.
     andthen flush (\<lambda>_.
     andthen (wrapping ''drda: CCSIDMGR EXCSAT'' (readChain 1)) postConnectReplies))"

definition negotiate :: "dhKeyPair \<Rightarrow> (bytes \<times> 16 word) act" where
  "negotiate kp = with_conn (\<lambda>c.
     let secmec = firstSecMec (cfg c) in
     andthen (transmitWrapped ''drda: send EXCSAT/ACCSEC'' ''drda: read EXCSATRD/ACCSECRD''
                [(packEXCSAT c, 1, False, False), (packACCSEC secmec kp c, 2, False, True)] 2) (\<lambda>replies.
     andthen (accsecReplies replies ([], secmec)) (\<lambda>(token, serverSecMec).
     if serverSecMec \<noteq> secmec \<and> SecurityMechanism (cfg c) \<noteq> 0 then fails (RefuseDowngrade secmec serverSecMec)
     else if serverSecMec \<noteq> secmec then
       andthen (transmit [(packACCSEC serverSecMec kp c, 1, False, True)] 1) (\<lambda>replies2.
       andthen (reaccsecReplies replies2 token) (\<lambda>token2. ok (token2, serverSecMec)))
     else ok (token, secmec))))"

definition authenticate :: "dhKeyPair \<Rightarrow> bytes \<Rightarrow> 16 word \<Rightarrow> unit act" where
  "authenticate kp token secmec =
     andthen (change (\<lambda>c. c\<lparr>Server := (Server c)\<lparr>SecMec := secmec\<rparr>\<rparr>)) (\<lambda>_. with_conn (\<lambda>c.
     andthen (of_sum id (packSECCHK secmec token kp c)) (\<lambda>secchk.
     andthen (transmitWrapped ''drda: send SECCHK/ACCRDB'' ''drda: read SECCHKRM/ACCRDBRM''
                [(secchk, 1, False, False), (packACCRDB c, 2, False, True)] 2) (\<lambda>replies.
     andthen (secchkReplies replies) (\<lambda>_. with_conn (\<lambda>c.
     if TypeDefName (Server c) = '''' then fails NoACCRDBRM else postConnect))))))"

definition handshake :: "nat option \<Rightarrow> unit act" where
  "handshake rnd =
     (case newDHKeyPair rnd of
        None \<Rightarrow> fails NoRandom
      | Some kp \<Rightarrow> andthen (negotiate kp) (\<lambda>(token, secmec). authenticate kp token secmec))"

text \<open>\<^verbatim>\<open>Dial\<close> after the socket is open: \<open>Inl\<close> closes it and returns the error.\<close>

definition Dial ::
  "(rune \<Rightarrow> rune) \<Rightarrow> string \<Rightarrow> nat option \<Rightarrow> bytes \<Rightarrow> io_error option list \<Rightarrow> Config \<Rightarrow> conn_error + Conn" where
  "Dial u hostname rnd stream writes conf =
     (case handshake rnd (newConn u (dialConfig hostname conf) stream writes) of
        (Inl e, c) \<Rightarrow> Inl e | (Inr _, c) \<Rightarrow> Inr c)"

section \<open>What the handshake transmits\<close>

definition same_frame :: "Conn \<Rightarrow> Conn \<Rightarrow> bool" where
  "same_frame c c' \<longleftrightarrow> cfg c' = cfg c \<and> rdbnam c' = rdbnam c \<and> sent c' = sent c \<and> wr c' = wr c"

lemma same_frame_rel [keeps_intros]: "reflp same_frame" "transp same_frame"
  by (auto simp: reflp_def transp_def same_frame_def)

lemma keeps_frame_check [keeps_intros]: "keeps same_frame (checkReply d)"
  unfolding checkReply_def by (auto intro!: keeps_intros split: option.split)

lemma keeps_frame_replies [keeps_intros]:
  shows "keeps same_frame (accsecReplies ds st)" "keeps same_frame (reaccsecReplies ds token)"
    "keeps same_frame (secchkReplies ds)" "keeps same_frame (postConnectReplies ds)"
proof -
  have upd: "same_frame c (c\<lparr>Server := s\<rparr>)" "same_frame c (c\<lparr>ddmUTF8 := b\<rparr>)" for c s b
    by (simp_all add: same_frame_def)
  have "keeps same_frame (accsecReply d st)" for d st
    unfolding accsecReply_def Let_def
    by (intro keeps_intros upd; auto intro!: keeps_intros upd split: option.split list.split)
  then show "keeps same_frame (accsecReplies ds st)"
    by (induction ds arbitrary: st) (auto intro!: keeps_intros)
  have "keeps same_frame (reaccsecReply d token)" for d token
    unfolding reaccsecReply_def
    by (intro keeps_intros upd; auto intro!: keeps_intros split: option.split)
  then show "keeps same_frame (reaccsecReplies ds token)"
    by (induction ds arbitrary: token) (auto intro!: keeps_intros)
  have "keeps same_frame (secchkReply d)" for d
    unfolding secchkReply_def
    by (intro keeps_intros upd; auto intro!: keeps_intros split: option.split)
  then show "keeps same_frame (secchkReplies ds)"
    by (induction ds) (auto intro!: keeps_intros)
  show "keeps same_frame (postConnectReplies ds)"
    by (induction ds) (auto intro!: keeps_intros upd)
qed

lemma andthen_Inr: "m c = (Inr x, c1) \<Longrightarrow> andthen m f c = f x c1"
  by (simp add: andthen_def)

lemma andthen_cases:
  assumes "andthen m f c = (r, c')"
  obtains e where "m c = (Inl e, c')" "r = Inl e" | x c1 where "m c = (Inr x, c1)" "f x c1 = (r, c')"
  using assms by (cases "m c"; cases "fst (m c)") (auto simp: andthen_def)

lemma transmitWrapped_effect:
  assumes "rs \<noteq> []" "wr c = NewWriter" "transmitWrapped wmsg rmsg rs k c = (r, c')"
  shows "wr c' = NewWriter \<and> sent c' = sent c @ [wire rs] \<and> same_session c c'"
proof -
  let ?c1 = "c\<lparr>wr := fold req_write rs (wr c)\<rparr>"
  obtain f c2 where f: "flush ?c1 = (f, c2)" by fastforce
  obtain g c3 where g: "readChain k c2 = (g, c3)" by fastforce
  have "\<exists>r0. transmit rs k c = (r0, c')"
    using assms(3) f g
    by (cases f; cases g) (simp_all add: transmitWrapped_def transmit_def act_defs sends_effect)
  then show ?thesis using transmit_effect [OF assms(1,2)] by auto
qed

lemma post_effect:
  assumes "wr c = NewWriter" "postConnect c = (r, c')"
  shows "wr c' = NewWriter \<and> sent c' = sent c @ [wire [(ccsidMgrEXCSAT, 1, False, True)]]"
proof -
  let ?rs = "[(ccsidMgrEXCSAT, 1, False, True)] :: req list"
  let ?c1 = "c\<lparr>wr := fold req_write ?rs (wr c)\<rparr>"
  obtain f c2 where f: "flush ?c1 = (f, c2)" by fastforce
  obtain g c3 where g: "readChain 1 c2 = (g, c3)" by fastforce
  have "\<exists>r0 c1. transmit ?rs 1 c = (r0, c1) \<and> (c1 = c' \<or> (\<exists>ds. postConnectReplies ds c1 = (r, c')))"
    using assms(2) f g
    by (cases f; cases g) (auto simp: postConnect_def transmit_def act_defs sends_effect simp del: sends.simps fold_simps)
  then obtain r0 c1 where t: "transmit ?rs 1 c = (r0, c1)"
    and c1: "c1 = c' \<or> (\<exists>ds. postConnectReplies ds c1 = (r, c'))" by blast
  have "same_frame c1 c'"
    using c1 keepsD [OF keeps_frame_replies(4)] by (auto simp: same_frame_def)
  then show ?thesis
    using transmit_effect [OF _ assms(1) t] by (simp add: same_frame_def)
qed

text \<open>
  The script of a handshake that ends up with mechanism \<open>m\<close>: the opening transmission, a
  second ACCSEC if \<open>m\<close> is not the mechanism proposed first, then the credentials under \<open>m\<close>
  and the final EXCSAT, unless the credentials cannot be built.
\<close>

definition opening_script :: "Conn \<Rightarrow> dhKeyPair \<Rightarrow> 16 word \<Rightarrow> bytes list" where
  "opening_script c kp m =
     wire [(packEXCSAT c, 1, False, False), (packACCSEC (firstSecMec (cfg c)) kp c, 2, False, True)]
     # (if m = firstSecMec (cfg c) then [] else [wire [(packACCSEC m kp c, 1, False, True)]])"

definition credentials_script :: "Conn \<Rightarrow> dhKeyPair \<Rightarrow> 16 word \<Rightarrow> bytes \<Rightarrow> bytes list" where
  "credentials_script c kp m token =
     (case packSECCHK m token kp c of
        Inl e \<Rightarrow> []
      | Inr ob \<Rightarrow> [wire [(ob, 1, False, False), (packACCRDB c, 2, False, True)],
                   wire [(ccsidMgrEXCSAT, 1, False, True)]])"

lemma pack_cong:
  assumes "cfg c' = cfg c" "rdbnam c' = rdbnam c"
  shows "packSECCHK m t kp c' = packSECCHK m t kp c" "packACCRDB c' = packACCRDB c"
  unfolding packSECCHK_def packACCRDB_def rdbnamEBCDIC_def assms by (rule refl)+

lemma negotiate_effect:
  assumes w: "wr c = NewWriter" and "negotiate kp c = (r, c')"
  shows "\<exists>m n. wr c' = NewWriter \<and> cfg c' = cfg c \<and> rdbnam c' = rdbnam c
           \<and> (SecurityMechanism (cfg c) \<noteq> 0 \<longrightarrow> m = SecurityMechanism (cfg c))
           \<and> sent c' = sent c @ take n (opening_script c kp m)
           \<and> (\<forall>token m'. r = Inr (token, m') \<longrightarrow> m' = m \<and> sent c' = sent c @ opening_script c kp m)"
proof -
  let ?m0 = "firstSecMec (cfg c)"
  let ?rs = "[(packEXCSAT c, 1, False, False), (packACCSEC ?m0 kp c, 2, False, True)]"
  have m0: "SecurityMechanism (cfg c) \<noteq> 0 \<Longrightarrow> ?m0 = SecurityMechanism (cfg c)"
    by (simp add: firstSecMec_def)
  obtain r1 c1 where t: "transmitWrapped ''drda: send EXCSAT/ACCSEC'' ''drda: read EXCSATRD/ACCSECRD'' ?rs 2 c = (r1, c1)"
    by fastforce
  then have c1: "wr c1 = NewWriter" "sent c1 = sent c @ [wire ?rs]" "cfg c1 = cfg c" "rdbnam c1 = rdbnam c"
    using transmitWrapped_effect [OF _ w t] same_sessionD by auto
  show ?thesis
  proof (cases r1)
    case (Inl e)
    then show ?thesis
      using assms(2) t c1 m0
      by (intro exI [of _ ?m0] exI [of _ 1]) (auto simp: negotiate_def act_defs opening_script_def Let_def)
  next
    case (Inr ds)
    obtain r2 c2 where a: "accsecReplies ds ([], ?m0) c1 = (r2, c2)" by fastforce
    then have "same_frame c1 c2" using keepsD [OF keeps_frame_replies(1)] by blast
    then have c2: "wr c2 = NewWriter" "sent c2 = sent c @ [wire ?rs]" "cfg c2 = cfg c" "rdbnam c2 = rdbnam c"
      using c1 by (auto simp: same_frame_def)
    show ?thesis
    proof (cases "\<exists>token m. r2 = Inr (token, m) \<and> m \<noteq> ?m0 \<and> SecurityMechanism (cfg c) = 0")
      case False
      then have "c' = c2" "\<And>token m'. r = Inr (token, m') \<Longrightarrow> m' = ?m0"
        using assms(2) t a Inr by (auto simp: negotiate_def act_defs Let_def split: sum.splits if_splits)
      then show ?thesis
        using c2 m0 by (intro exI [of _ ?m0] exI [of _ 1]) (simp add: opening_script_def)
    next
      case True
      then obtain token m where m: "r2 = Inr (token, m)" "m \<noteq> ?m0" "SecurityMechanism (cfg c) = 0" by blast
      let ?rs2 = "[(packACCSEC m kp c, 1, False, True)]"
      obtain r3 c3 where t2: "transmit ?rs2 1 c2 = (r3, c3)" by fastforce
      then have c3: "wr c3 = NewWriter" "sent c3 = sent c @ opening_script c kp m" "cfg c3 = cfg c" "rdbnam c3 = rdbnam c"
        using transmit_effect [OF _ c2(1) t2] same_sessionD c2 m(2) by (auto simp: opening_script_def)
      have "same_frame c3 c' \<and> (\<forall>token m'. r = Inr (token, m') \<longrightarrow> m' = m)"
      proof (cases r3)
        case (Inl e)
        then show ?thesis using assms(2) t a Inr m t2
          by (simp add: negotiate_def act_defs Let_def) (auto simp: same_frame_def)
      next
        case r3: (Inr ds2)
        obtain r4 c4 where r4: "reaccsecReplies ds2 token c3 = (r4, c4)" by fastforce
        then have "same_frame c3 c4" using keepsD [OF keeps_frame_replies(2)] by blast
        then show ?thesis using assms(2) t a Inr m t2 r3 r4
          by (auto simp: negotiate_def act_defs Let_def split: sum.splits)
      qed
      then show ?thesis
        using c3 m by (intro exI [of _ m] exI [of _ 2]) (auto simp: same_frame_def opening_script_def)
    qed
  qed
qed

lemma authenticate_effect:
  assumes w: "wr c = NewWriter" and "authenticate kp token m c = (r, c')"
  shows "wr c' = NewWriter
         \<and> (\<exists>n. sent c' = sent c @ take n (credentials_script c kp m token))
         \<and> (r = Inr () \<longrightarrow> sent c' = sent c @ credentials_script c kp m token)"
proof -
  let ?c0 = "c\<lparr>Server := (Server c)\<lparr>SecMec := m\<rparr>\<rparr>"
  have pk: "packSECCHK m token kp ?c0 = packSECCHK m token kp c" "packACCRDB ?c0 = packACCRDB c"
    by (rule pack_cong; simp)+
  show ?thesis
  proof (cases "packSECCHK m token kp c")
    case (Inl e)
    then have "r = Inl e" "c' = ?c0"
      using assms(2) pk by (simp_all add: authenticate_def act_defs)
    then show ?thesis using w Inl by (simp add: credentials_script_def)
  next
    case ob: (Inr ob)
    let ?rs = "[(ob, 1, False, False), (packACCRDB c, 2, False, True)]"
    let ?final = "wire [(ccsidMgrEXCSAT, 1, False, True)]"
    have script: "credentials_script c kp m token = [wire ?rs, ?final]" by (simp add: credentials_script_def ob)
    obtain r1 c1 where t: "transmitWrapped ''drda: send SECCHK/ACCRDB'' ''drda: read SECCHKRM/ACCRDBRM'' ?rs 2 ?c0 = (r1, c1)"
      by fastforce
    then have c1: "wr c1 = NewWriter" "sent c1 = sent c @ [wire ?rs]"
      using transmitWrapped_effect [OF _ _ t] w by auto
    show ?thesis
    proof (cases r1)
      case (Inl e)
      then show ?thesis using assms(2) t pk ob c1
        by (auto simp: authenticate_def act_defs script intro!: exI [of _ 1])
    next
      case (Inr ds)
      obtain r2 c2 where s: "secchkReplies ds c1 = (r2, c2)" by fastforce
      then have "same_frame c1 c2" using keepsD [OF keeps_frame_replies(3)] by blast
      then have c2: "wr c2 = NewWriter" "sent c2 = sent c @ [wire ?rs]" using c1 by (auto simp: same_frame_def)
      have "c' = c2 \<and> r \<noteq> Inr () \<or> postConnect c2 = (r, c')"
        using assms(2) t pk ob Inr s by (auto simp: authenticate_def act_defs split: sum.splits if_splits)
      then show ?thesis
      proof
        assume "c' = c2 \<and> r \<noteq> Inr ()"
        then show ?thesis using c2 by (auto simp: script intro!: exI [of _ 1])
      next
        assume "postConnect c2 = (r, c')"
        then show ?thesis using post_effect [OF c2(1)] c2 by (auto simp: script intro!: exI [of _ 2])
      qed
    qed
  qed
qed

text \<open>
  C3: everything a handshake can send, whatever the peer answers and whichever writes fail.
  The transmissions are an initial part of one script: EXCSAT with ACCSEC for the first
  mechanism, possibly one more ACCSEC for the mechanism \<open>m\<close> that was negotiated, the
  credentials under that same \<open>m\<close>, and the final EXCSAT; the whole script when the handshake
  succeeds.  If a mechanism is configured, \<open>m\<close> is that mechanism: it is never downgraded.
\<close>

theorem handshake_transmissions:
  "case handshake rnd (newConn u conf stream writes) of (r, c') \<Rightarrow>
     rnd = None \<or>
     (\<exists>kp m token n. newDHKeyPair rnd = Some kp
        \<and> (SecurityMechanism conf = 0 \<or> m = SecurityMechanism conf)
        \<and> (let c = newConn u conf stream writes;
               script = opening_script c kp m @ credentials_script c kp m token
           in sent c' = take n script \<and> (isl r \<or> sent c' = script)))"
proof (cases rnd)
  case None
  then show ?thesis by (simp split: prod.split)
next
  case (Some x)
  define c where "c = newConn u conf stream writes"
  have c: "wr c = NewWriter" "sent c = []" "cfg c = conf" by (simp_all add: c_def newConn_def)
  obtain kp where kp: "newDHKeyPair rnd = Some kp" using Some by (simp add: newDHKeyPair_def Let_def)
  obtain r c' where h: "handshake rnd c = (r, c')" by fastforce
  obtain r1 c1 where n: "negotiate kp c = (r1, c1)" by fastforce
  obtain m k where e: "wr c1 = NewWriter" "cfg c1 = conf" "rdbnam c1 = rdbnam c"
      "SecurityMechanism conf = 0 \<or> m = SecurityMechanism conf"
      "sent c1 = take k (opening_script c kp m)"
      "\<And>token m'. r1 = Inr (token, m') \<Longrightarrow> m' = m \<and> sent c1 = opening_script c kp m"
    using negotiate_effect [OF c(1) n] unfolding c(2,3) append_Nil by blast
  have "\<exists>token n. sent c' = take n (opening_script c kp m @ credentials_script c kp m token)
      \<and> (isl r \<or> sent c' = opening_script c kp m @ credentials_script c kp m token)"
  proof (cases r1)
    case (Inl err)
    then have "c' = c1" "isl r" using h n kp by (auto simp: handshake_def act_defs)
    then show ?thesis
      using e(5) by (intro exI [of _ "[]"] exI [of _ "min k (length (opening_script c kp m))"]) (simp add: min_def)
  next
    case (Inr tm)
    then obtain token where tm: "r1 = Inr (token, m)" "sent c1 = opening_script c kp m"
      using e(6) by (cases tm) auto
    then have a: "authenticate kp token m c1 = (r, c')" using h n kp by (simp add: handshake_def act_defs)
    have "credentials_script c1 kp m token = credentials_script c kp m token"
      unfolding credentials_script_def pack_cong [OF e(2) [folded c(3)] e(3)] by (rule refl)
    note cs = this
    obtain j where j: "sent c' = opening_script c kp m @ take j (credentials_script c kp m token)"
        "r = Inr () \<longrightarrow> sent c' = opening_script c kp m @ credentials_script c kp m token"
      using authenticate_effect [OF e(1) a] unfolding cs tm(2) by blast
    moreover have "isl r \<or> r = Inr ()" by (cases r) auto
    ultimately show ?thesis
      by (intro exI [of _ token] exI [of _ "length (opening_script c kp m) + j"]) (simp, blast)
  qed
  then show ?thesis
    using h kp e(4) by (auto simp: Let_def simp flip: c_def)
qed

text \<open>How strong the driver takes a mechanism to be.\<close>

definition strength :: "16 word \<Rightarrow> nat" where
  "strength m = (if m = SecMecEUSRIDPWD then 3 else if m = SecMecUSRIDPWD then 2
                 else if m = SecMecUSRIDONL then 1 else 0)"

text \<open>
  From what the server offers \<open>pickSecMec\<close> takes a mechanism of the list, and none of the
  list is stronger; it only panics on an empty list, which its caller excludes.
\<close>

theorem pickSecMec_strongest:
  "(case pickSecMec offered of
      None \<Rightarrow> offered = []
    | Some m \<Rightarrow> m \<in> set offered \<and> list_all (\<lambda>x. strength x \<le> strength m) offered)"
  by (auto simp: pickSecMec_def strength_def list_all_iff split: list.split)

end
