(* ===== verification/Drda_Query.thy ===== *)
theory Drda_Query
  imports Drda_Handshake
begin

text \<open>
  Cursors (\<^verbatim>\<open>internal/drda/query.go\<close>): folding the replies of one transmission into a
  \<open>Query\<close>, substituting out-of-line LOB data, and the test that tells queries from other
  statements.

  \<open>consume\<close> works on the fields of the query alone; of the connection it reads the server's
  attributes.  Results: rows arrive complete and in order however they are cut into blocks
  and transmissions; LOB data goes to the placeholders in row-major order; an error of the
  server is reported with its SQLCA when there is one.
\<close>

section \<open>Errors\<close>

definition preferSQLCA :: "conn_error option \<Rightarrow> conn_error \<Rightarrow> conn_error" where
  "preferSQLCA current candidate =
     (case current of
        None \<Rightarrow> candidate
      | Some cur \<Rightarrow> if as_SQLCA candidate \<noteq> None \<and> as_SQLCA cur = None then candidate else cur)"

section \<open>Folding in the replies\<close>

definition newQuery :: "ServerInfo \<Rightarrow> Query" where
  "newQuery srv =
     \<lparr>qColumns = None, qFields = [],
      decoder = \<lparr>dFields = [], dLittleEndian = LittleEndian srv, dCCSIDSBC = sCCSIDSBC srv,
                 dCCSIDDBC = sCCSIDDBC srv, dCCSIDMBC = sCCSIDMBC srv\<rparr>,
      qCorr = 0, qryinsid = 0, qOpened = False, qDone = False, qClosed = False, pending = [],
      extdta = [], partial = [], Warnings = [], qResult = None\<rparr>"

definition add_warning :: "SQLCA option \<Rightarrow> Query \<Rightarrow> Query" where
  "add_warning w q = (case w of Some ca \<Rightarrow> q\<lparr>Warnings := Warnings q @ [ca]\<rparr> | None \<Rightarrow> q)"

definition emit_row :: "Value list \<Rightarrow> Query \<Rightarrow> unit option \<times> Query" where
  "emit_row row q = (None, q\<lparr>pending := pending q @ [row]\<rparr>)"

definition on_warning :: "SQLCA \<Rightarrow> Query \<Rightarrow> Query" where
  "on_warning ca q = (if length (Warnings q) < 100 then add_warning (Some ca) q else q)"

text \<open>
  One reply, with the first error so far: \<open>Inl\<close> is an early return, \<open>Inr\<close> goes on to the
  next reply.
\<close>

definition consumeSQLDARD ::
  "Conn \<Rightarrow> DSS \<Rightarrow> conn_error option \<Rightarrow> Query \<Rightarrow> conn_error \<times> Query + conn_error option \<times> Query" where
  "consumeSQLDARD c d firstErr q =
     (case parseSQLDARD (Server c) (Payload d) of
        (ca, cols, Some e) \<Rightarrow> Inl (ReaderError e, q)
      | (ca, cols, None) \<Rightarrow>
          (case ca of
             Some a \<Rightarrow>
               if IsError ca then Inr (Some (preferSQLCA firstErr (SqlError a)), q)
               else
                 let q1 = (if IsWarning ca then add_warning ca q else q)
                 in Inr (firstErr, if qColumns q1 = None then q1\<lparr>qColumns := Some cols\<rparr> else q1)
           | None \<Rightarrow> Inr (firstErr, if qColumns q = None then q\<lparr>qColumns := Some cols\<rparr> else q)))"

definition consumeQRYDTA ::
  "DSS \<Rightarrow> conn_error option \<Rightarrow> Query \<Rightarrow> conn_error \<times> Query + conn_error option \<times> Query" where
  "consumeQRYDTA d firstErr q =
     (if qFields q = [] then Inl (QRYDTABeforeQRYDSC, q)
      else
        case DecodeBlock (decoder q) (partial q @ Payload d) emit_row on_warning (q\<lparr>partial := []\<rparr>) of
          (res, q1) \<Rightarrow>
            (case blockErr res of
               Some (Inl e) \<Rightarrow> Inl (ReaderError e, q1)
             | Some (Inr _) \<Rightarrow> Inl (IndexPanic, q1)
             | None \<Rightarrow>
                 let q2 = (if leftover res \<noteq> [] then q1\<lparr>partial := leftover res\<rparr> else q1) in
                 (case blockCA res of
                    None \<Rightarrow> Inr (firstErr, q2)
                  | Some ca \<Rightarrow>
                      let err = (if IsError (Some ca)
                                 then (case firstErr of None \<Rightarrow> Some (SqlError ca) | Some e \<Rightarrow> Some e)
                                 else firstErr);
                          q3 = (if IsError (Some ca) then q2 else add_warning (Some ca) q2)
                      in Inr (err, if SQLCode ca = 100 then q3\<lparr>qDone := True\<rparr> else q3))))"

definition consumeSQLCARD ::
  "Conn \<Rightarrow> DSS \<Rightarrow> conn_error option \<Rightarrow> Query \<Rightarrow> conn_error \<times> Query + conn_error option \<times> Query" where
  "consumeSQLCARD c d firstErr q =
     (case ParseSQLCARD (Payload d) (LittleEndian (Server c)) of
        Inl e \<Rightarrow> Inl (ReaderError e, q)
      | Inr None \<Rightarrow> Inr (firstErr, q)
      | Inr (Some ca) \<Rightarrow>
          if IsError (Some ca) then Inr (Some (preferSQLCA firstErr (SqlError ca)), q)
          else if SQLCode ca \<noteq> 0 then
            let q1 = add_warning (Some ca) q
            in Inr (firstErr, if SQLCode ca = 100 then q1\<lparr>qDone := True\<rparr> else q1)
          else Inr (firstErr, q))"

definition consumeOne ::
  "Conn \<Rightarrow> DSS \<Rightarrow> conn_error option \<Rightarrow> Query \<Rightarrow> conn_error \<times> Query + conn_error option \<times> Query" where
  "consumeOne c d firstErr q =
     (if CodePt d = SQLDARD then consumeSQLDARD c d firstErr q
      else if CodePt d = OPNQRYRM then
        let q1 = q\<lparr>qOpened := True, qCorr := CorrelationID d\<rparr>
        in Inr (firstErr,
             case ParseParams (Payload d) of
               Inl e \<Rightarrow> q1
             | Inr p \<Rightarrow> q1\<lparr>qryinsid := (case Params_Uint64 p QRYINSID of Some v \<Rightarrow> v | None \<Rightarrow> 0)\<rparr>)
      else if CodePt d = QRYDSC then
        (case ParseQRYDSC (Payload d) of
           Inl e \<Rightarrow> Inl (FdocaError e, q)
         | Inr fs \<Rightarrow> Inr (firstErr, q\<lparr>qFields := fs, decoder := (decoder q)\<lparr>dFields := fs\<rparr>\<rparr>))
      else if CodePt d = QRYDTA then consumeQRYDTA d firstErr q
      else if CodePt d = EXTDTA then Inr (firstErr, q\<lparr>extdta := extdta q @ [Payload d]\<rparr>)
      else if CodePt d = ENDQRYRM then
        let q1 = q\<lparr>qDone := True\<rparr>
        in if partial q1 \<noteq> [] then Inl (UndecodedBytes (length (partial q1)), q1) else Inr (firstErr, q1)
      else if CodePt d = SQLCARD then consumeSQLCARD c d firstErr q
      else if CodePt d \<in> {SQLERRRM, ENDUOWRM} then Inr (firstErr, q)
      else case replyError c d of
        Some e \<Rightarrow> Inr (Some (preferSQLCA firstErr e), q)
      | None \<Rightarrow> Inr (firstErr, q))"

fun consumeReplies ::
  "Conn \<Rightarrow> DSS list \<Rightarrow> conn_error option \<Rightarrow> Query \<Rightarrow> conn_error \<times> Query + conn_error option \<times> Query" where
  "consumeReplies c [] firstErr q = Inr (firstErr, q)"
| "consumeReplies c (d # ds) firstErr q =
     (case consumeOne c d firstErr q of
        Inl r \<Rightarrow> Inl r
      | Inr (err, q1) \<Rightarrow> consumeReplies c ds err q1)"

section \<open>LOB data\<close>

definition lobValue :: "FieldDesc \<Rightarrow> bool \<Rightarrow> bytes \<Rightarrow> Value" where
  "lobValue f isChar data =
     (let base = fType f AND NOT 1;
          data1 = (if base = TypeLobBytes \<or> base = TypeLobCSBCS then drop 1 data else data)
      in if isChar then VString (decodeMixed data1) else cloneBytes (Some data1))"

text \<open>
  One row, with the fields from the current column on and the EXTDTA not yet used.  \<open>None\<close> is
  the panic of \<^verbatim>\<open>q.Fields[i]\<close> when the row is longer than the descriptor.
\<close>

fun resolveRow :: "FieldDesc list \<Rightarrow> Value list \<Rightarrow> bytes list \<Rightarrow> (Value list \<times> bytes list) option" where
  "resolveRow fs [] ext = Some ([], ext)"
| "resolveRow fs (v # vs) ext =
     (case v of
        VLobRef isChar \<Rightarrow>
          (case ext of
             [] \<Rightarrow> (case resolveRow (drop 1 fs) vs [] of
                       None \<Rightarrow> None | Some (ws, rest) \<Rightarrow> Some (VNil # ws, rest))
           | data # ext1 \<Rightarrow>
               (case fs of
                  [] \<Rightarrow> None
                | f # fs1 \<Rightarrow>
                    (case resolveRow fs1 vs ext1 of
                       None \<Rightarrow> None | Some (ws, rest) \<Rightarrow> Some (lobValue f isChar data # ws, rest))))
      | _ \<Rightarrow> (case resolveRow (drop 1 fs) vs ext of
                 None \<Rightarrow> None | Some (ws, rest) \<Rightarrow> Some (v # ws, rest)))"

fun resolveRows :: "FieldDesc list \<Rightarrow> Value list list \<Rightarrow> bytes list \<Rightarrow> Value list list option" where
  "resolveRows fs [] ext = Some []"
| "resolveRows fs (row # rows) ext =
     (case resolveRow fs row ext of
        None \<Rightarrow> None
      | Some (row1, ext1) \<Rightarrow>
          (case resolveRows fs rows ext1 of None \<Rightarrow> None | Some rows1 \<Rightarrow> Some (row1 # rows1)))"

definition resolveLOBs :: "Query \<Rightarrow> Query option" where
  "resolveLOBs q =
     (if extdta q = [] then Some q
      else case resolveRows (qFields q) (pending q) (extdta q) of
        None \<Rightarrow> None
      | Some rows \<Rightarrow> Some (q\<lparr>pending := rows, extdta := []\<rparr>))"

definition consume :: "Conn \<Rightarrow> DSS list \<Rightarrow> Query \<Rightarrow> (conn_error + unit) \<times> Query" where
  "consume c replies q =
     (case consumeReplies c replies None q of
        Inl (e, q1) \<Rightarrow> (Inl e, q1)
      | Inr (Some e, q1) \<Rightarrow> (Inl e, q1\<lparr>qDone := True\<rparr>)
      | Inr (None, q1) \<Rightarrow> (case resolveLOBs q1 of None \<Rightarrow> (Inl IndexPanic, q1) | Some q2 \<Rightarrow> (Inr (), q2)))"

section \<open>Which statements are queries\<close>

lemma length_TrimSpace: "length (TrimSpace s) \<le> length s"
proof -
  define segs where "segs = utf8_segs (str_bytes s)"
  let ?l = "\<lambda>xs. length (concat (map snd xs)) :: nat"
  have suffix: "?l (dropWhile P xs) \<le> ?l xs" for P and xs :: "(rune \<times> bytes) list"
    by (induction xs) auto
  have rev: "?l (rev xs) = ?l xs" for xs :: "(rune \<times> bytes) list"
    by (simp add: length_concat rev_map o_def flip: rev_map)
  have "?l segs = length s" using utf8_segs_concat [of "str_bytes s"] by (simp add: segs_def)
  then show ?thesis
    using suffix [of "\<lambda>(r, b). isSpace r" "rev (dropWhile (\<lambda>(r, b). isSpace r) segs)"]
      suffix [of "\<lambda>(r, b). isSpace r" segs]
    by (simp add: TrimSpace_def Let_def rev flip: segs_def)
qed

function skipComments :: "string \<Rightarrow> string option" where
  "skipComments s =
     (if HasPrefix s ''--'' then
        (case IndexByte s (CHR 0x0A) of
           None \<Rightarrow> None
         | Some i \<Rightarrow> skipComments (TrimSpace (drop (i + 1) s)))
      else Some s)"
  by pat_completeness auto
termination
proof (relation "measure length")
  fix s i assume "HasPrefix s ''--''" "IndexByte s (CHR 0x0A) = Some i"
  then have "s \<noteq> []" by auto
  then show "(TrimSpace (drop (i + 1) s), s) \<in> measure length"
    using length_TrimSpace [of "drop (i + 1) s"] by (cases s) auto
qed simp

declare skipComments.simps [simp del]

definition looksLikeQuery :: "(rune \<Rightarrow> rune) \<Rightarrow> string \<Rightarrow> bool" where
  "looksLikeQuery u sql =
     (case skipComments (TrimSpace sql) of
        None \<Rightarrow> False
      | Some s \<Rightarrow>
          if length s < 4 then False
          else
            let head = ToUpper u (take 6 s)
            in HasPrefix head ''SELECT'' \<or> HasPrefix head ''WITH'' \<or> HasPrefix head ''VALUES''
               \<or> HasPrefix head ''('')"

section \<open>Rows across blocks and transmissions\<close>

text \<open>A query may differ in its rows, leftover bytes and warnings only.\<close>

definition same_cursor :: "Query \<Rightarrow> Query \<Rightarrow> bool" where
  "same_cursor q q' \<longleftrightarrow> q' = q\<lparr>pending := pending q', partial := partial q', Warnings := Warnings q'\<rparr>"

lemma same_cursor_trans: "same_cursor q q' \<Longrightarrow> same_cursor q' q'' \<Longrightarrow> same_cursor q q''"
  by (cases q; cases q'; cases q'') (simp add: same_cursor_def)

lemma same_cursorD:
  assumes "same_cursor q q'"
  shows "decoder q' = decoder q" "qFields q' = qFields q" "qDone q' = qDone q" "extdta q' = extdta q"
    "qColumns q' = qColumns q" "qOpened q' = qOpened q" "qClosed q' = qClosed q" "qCorr q' = qCorr q"
    "qryinsid q' = qryinsid q"
  using assms unfolding same_cursor_def by (cases q; cases q'; simp)+

lemma same_cursor_updates [simp]:
  "same_cursor q q" "same_cursor q (q\<lparr>partial := b\<rparr>)"
  "same_cursor q (q\<lparr>pending := r\<rparr>)" "same_cursor q (warn on_warning w q)"
  by (simp_all add: same_cursor_def warn_def on_warning_def add_warning_def split: option.split)

lemma warn_facts [simp]:
  "pending (warn on_warning w q) = pending q" "partial (warn on_warning w q) = partial q"
  by (simp_all add: warn_def on_warning_def add_warning_def split: option.split)

definition row_wire :: "RowDecoder \<Rightarrow> bytes \<Rightarrow> Value list \<Rightarrow> bool" where
  "row_wire d w row \<longleftrightarrow> w \<noteq> [] \<and> row_item d w = Item row (length w)"

lemma DecodeBlock_rows:
  assumes "list_all2 (row_wire d) ws rows" "t = [] \<or> row_item d t = Incomplete"
  shows "\<exists>q'. DecodeBlock d (concat ws @ t) emit_row on_warning q
             = (\<lparr>leftover = t, blockCA = None, blockErr = None\<rparr>, q')
           \<and> pending q' = pending q @ rows \<and> partial q' = partial q \<and> same_cursor q q'"
  using assms(1)
proof (induction ws rows arbitrary: q rule: list_all2_induct)
  case Nil
  show ?case
  proof (cases "t = []")
    case False
    then obtain w where "decodeRow d t = StepLeftover w"
      using assms(2) by (auto simp: row_item_def split: row_step.splits)
    then show ?thesis using False by (simp add: DecodeBlock.simps [of d t])
  qed (simp add: DecodeBlock.simps)
next
  case (Cons w ws row rows)
  let ?b = "w @ concat ws @ t"
  have item: "row_item d ?b = Item row (length w)"
    using Cons.hyps(1) fdoca.step_ext [of w d "concat ws @ t"] by (simp add: row_wire_def)
  then obtain wn where step: "decodeRow d ?b = StepRow wn row (length w)"
    by (auto simp: row_item_def split: row_step.splits)
  let ?q1 = "(warn on_warning wn q)\<lparr>pending := pending q @ [row]\<rparr>"
  obtain q' where q': "DecodeBlock d (concat ws @ t) emit_row on_warning ?q1
        = (\<lparr>leftover = t, blockCA = None, blockErr = None\<rparr>, q')"
      "pending q' = pending ?q1 @ rows" "partial q' = partial ?q1" "same_cursor ?q1 q'"
    using Cons.IH by blast
  have "same_cursor q ?q1" by (rule same_cursor_trans [OF same_cursor_updates(4) same_cursor_updates(3)])
  then have "same_cursor q q'" using q'(4) by (rule same_cursor_trans)
  moreover have "w \<noteq> []" using Cons.hyps(1) by (simp add: row_wire_def)
  moreover have "emit_row row (warn on_warning wn q) = (None, ?q1)" by (simp add: emit_row_def)
  ultimately show ?case
    using q'(1-3) step by (simp add: DecodeBlock.simps [of d ?b])
qed

lemma consume_blocks:
  assumes "list_all (\<lambda>d. CodePt d = QRYDTA) ds" "qFields q \<noteq> []"
    "list_all2 (row_wire (decoder q)) ws rows"
    "partial q @ concat (map Payload ds) @ s = concat ws" "partial q = [] \<or> row_item (decoder q) (partial q) = Incomplete"
  shows "\<exists>q' k. consumeReplies c ds err q = Inr (err, q') \<and> same_cursor q q'
           \<and> pending q' = pending q @ take k rows \<and> partial q' @ s = concat (drop k ws)
           \<and> (partial q' = [] \<or> row_item (decoder q) (partial q') = Incomplete)"
  using assms
proof (induction ds arbitrary: q ws rows)
  case Nil
  then show ?case by (intro exI [of _ q] exI [of _ 0]) simp
next
  case (Cons d ds)
  let ?dec = "decoder q"
  have enc: "list_all2 (block_parser.encodes (row_item ?dec)) ws rows"
    using Cons.prems(3) by (simp add: row_wire_def fdoca.encodes_def [abs_def] list_all2_conv_all_nth)
  obtain k t where kt: "partial q @ Payload d = concat (take k ws) @ t"
      "t @ concat (map Payload ds) @ s = concat (drop k ws)" "t = [] \<or> row_item ?dec t = Incomplete"
    using fdoca.cut_prefix [OF enc, of "partial q @ Payload d" "concat (map Payload ds) @ s"] Cons.prems(4) by auto
  obtain q1 where q1: "DecodeBlock ?dec (partial q @ Payload d) emit_row on_warning (q\<lparr>partial := []\<rparr>)
        = (\<lparr>leftover = t, blockCA = None, blockErr = None\<rparr>, q1)"
      "pending q1 = pending q @ take k rows" "partial q1 = []" "same_cursor (q\<lparr>partial := []\<rparr>) q1"
    using DecodeBlock_rows [OF list_all2_takeI [OF Cons.prems(3), of k] kt(3), of "q\<lparr>partial := []\<rparr>"] kt(1) by auto
  let ?q2 = "if t \<noteq> [] then q1\<lparr>partial := t\<rparr> else q1"
  have one: "consumeOne c d err q = Inr (err, ?q2)"
    using Cons.prems(1,2) q1(1) by (simp add: consumeOne_def consumeQRYDTA_def Let_def)
  have q2: "same_cursor q ?q2" "partial ?q2 = t" "pending ?q2 = pending q @ take k rows"
    using q1 same_cursor_trans [OF same_cursor_trans [OF same_cursor_updates(2) q1(4)] same_cursor_updates(2)]
      same_cursor_trans [OF same_cursor_updates(2) q1(4)] by simp_all
  then have same: "decoder ?q2 = ?dec" "qFields ?q2 = qFields q"
    using same_cursorD by blast+
  obtain q' j where q': "consumeReplies c ds err ?q2 = Inr (err, q')" "same_cursor ?q2 q'"
      "pending q' = pending ?q2 @ take j (drop k rows)" "partial q' @ s = concat (drop j (drop k ws))"
      "partial q' = [] \<or> row_item ?dec (partial q') = Incomplete"
    using Cons.IH [of ?q2 "drop k ws" "drop k rows"] Cons.prems(1,2,3) kt q2(2) same
    by (auto intro: list_all2_dropI)
  have "take k rows @ take j (drop k rows) = take (k + j) rows" by (simp add: take_add)
  then show ?case
    using one q' q2 same_cursor_trans [OF q2(1)]
    by (intro exI [of _ q'] exI [of _ "k + j"]) (simp add: add.commute)
qed

text \<open>The transmissions of one cursor, one \<open>consume\<close> each.\<close>

fun consumeAll :: "Conn \<Rightarrow> DSS list list \<Rightarrow> Query \<Rightarrow> Query option" where
  "consumeAll c [] q = Some q"
| "consumeAll c (ds # dss) q =
     (case consume c ds q of (Inl e, q1) \<Rightarrow> None | (Inr _, q1) \<Rightarrow> consumeAll c dss q1)"

lemma consumeAll_blocks:
  assumes "list_all (list_all (\<lambda>d. CodePt d = QRYDTA)) dss" "qFields q \<noteq> []" "extdta q = []"
    "list_all2 (row_wire (decoder q)) ws rows"
    "partial q @ concat (map Payload (concat dss)) = concat ws"
    "partial q = [] \<or> row_item (decoder q) (partial q) = Incomplete"
  shows "\<exists>q'. consumeAll c dss q = Some q' \<and> pending q' @ rows' = pending q @ rows @ rows' \<and> partial q' = []"
  using assms
proof (induction dss arbitrary: q ws rows)
  case Nil
  have p: "partial q = concat ws" using Nil.prems(5) by simp
  have "ws = []"
  proof (rule ccontr)
    assume "ws \<noteq> []"
    then obtain w ws' r rows' where w: "ws = w # ws'" "rows = r # rows'" "row_wire (decoder q) w r"
      using Nil.prems(4) by (cases ws; cases rows) auto
    then have "row_item (decoder q) (partial q) = Item r (length w)" "partial q \<noteq> []"
      using fdoca.step_ext [of w "decoder q" "concat ws'"] p by (auto simp: row_wire_def)
    then show False using Nil.prems(6) by simp
  qed
  then show ?case using Nil.prems(4) p by simp
next
  case (Cons ds dss)
  obtain q1 k where q1: "consumeReplies c ds None q = Inr (None, q1)" "same_cursor q q1"
      "pending q1 = pending q @ take k rows" "partial q1 @ concat (map Payload (concat dss)) = concat (drop k ws)"
      "partial q1 = [] \<or> row_item (decoder q) (partial q1) = Incomplete"
    using consume_blocks [of ds q ws rows "concat (map Payload (concat dss))" c None] Cons.prems by auto
  note same = same_cursorD [OF q1(2)]
  have "consume c ds q = (Inr (), q1)"
    using q1(1) Cons.prems(3) same by (simp add: consume_def resolveLOBs_def)
  moreover obtain q' where "consumeAll c dss q1 = Some q'"
      "pending q' @ rows' = pending q1 @ drop k rows @ rows'" "partial q' = []"
    using Cons.IH [of q1 "drop k ws" "drop k rows"] Cons.prems q1 same by (auto intro: list_all2_dropI)
  ultimately show ?case using q1(3) by (intro exI [of _ q']) simp
qed

text \<open>
  C8: an open cursor delivers its rows.  However the encoded rows are cut into QRYDTA blocks,
  and however the blocks are spread over the replies to OPNQRY and CNTQRY, consuming the
  transmissions one after the other succeeds and appends exactly those rows, in order, with
  no bytes left over.
\<close>

theorem consume_any_cut:
  "list_all (list_all (\<lambda>d. CodePt d = QRYDTA)) dss \<and> qFields q \<noteq> [] \<and> extdta q = [] \<and> partial q = []
   \<and> list_all2 (row_wire (decoder q)) ws rows \<and> concat (map Payload (concat dss)) = concat ws \<longrightarrow>
     (\<exists>q'. consumeAll c dss q = Some q' \<and> pending q' = pending q @ rows \<and> partial q' = [])"
  using consumeAll_blocks [of dss q ws rows c "[]"] by auto

definition sample_conn :: Conn where
  "sample_conn = newConn id
     \<lparr>Host = ''db'', Port = 50000, Database = ''SAMPLE'', User = ''u'', Password = ''p'', useTLS = False,
      SecurityMechanism = 0, QueryBlockSize = 0x100000, ClientName = ''h'', ApplicationName = ''a'',
      CurrentSchema = '''', PackageCollection = ''NULLID'', PackageID = ''SYSSH200'', NoAutoBind = False\<rparr> [] []"

definition sample_query :: Query where
  "sample_query = (newQuery zero_ServerInfo)\<lparr>qFields := dFields small_decoder, decoder := small_decoder\<rparr>"

definition data_reply :: "bytes \<Rightarrow> DSS" where
  "data_reply b = request_dss QRYDTA b 2 False True"

theorem consume_any_cut_witness:
  "\<exists>q'. consumeAll sample_conn [[data_reply [0xFF, 0, 0], data_reply [1]], [data_reply [2, 0xFF, 0, 0xFF]]] sample_query
      = Some q' \<and> pending q' = [[VInt16 258], [VNil]] \<and> partial q' = []"
proof -
  have "row_wire small_decoder [0xFF, 0, 0, 1, 2] [VInt16 258]" "row_wire small_decoder [0xFF, 0, 0xFF] [VNil]"
    by (simp_all add: row_wire_def row_item_def reader_eval BE_Uint16_def)
  then show ?thesis
    using consume_any_cut [of "[[data_reply [0xFF, 0, 0], data_reply [1]], [data_reply [2, 0xFF, 0, 0xFF]]]" sample_query
        "[[0xFF, 0, 0, 1, 2], [0xFF, 0, 0xFF]]" "[[VInt16 258], [VNil]]" sample_conn]
    by (simp add: data_reply_def request_dss_def sample_query_def newQuery_def small_decoder_def)
qed

section \<open>LOB placeholders\<close>

definition is_lob :: "Value \<Rightarrow> bool" where
  "is_lob v = (case v of VLobRef b \<Rightarrow> True | _ \<Rightarrow> False)"

definition lobs :: "Value list \<Rightarrow> nat" where
  "lobs vs = length (filter is_lob vs)"

text \<open>What belongs in column \<open>j\<close> of a row when \<open>k\<close> placeholders come before it.\<close>

definition filled :: "FieldDesc list \<Rightarrow> bytes list \<Rightarrow> nat \<Rightarrow> nat \<Rightarrow> Value \<Rightarrow> Value" where
  "filled fs ext k j v =
     (case v of
        VLobRef isChar \<Rightarrow> if k < length ext then lobValue (fs ! j) isChar (ext ! k) else VNil
      | _ \<Rightarrow> v)"

definition filled_row :: "FieldDesc list \<Rightarrow> bytes list \<Rightarrow> nat \<Rightarrow> Value list \<Rightarrow> Value list" where
  "filled_row fs ext k row =
     map (\<lambda>j. filled fs ext (k + lobs (take j row)) j (row ! j)) [0..<length row]"

lemma filled_row_Cons:
  assumes "fs \<noteq> []"
  shows "filled_row fs ext k (v # vs)
     = filled fs ext k 0 v # filled_row (tl fs) ext (if is_lob v then Suc k else k) vs"
proof -
  have "filled fs ext n (Suc j) w = filled (tl fs) ext n j w" for n j w
    using assms by (cases fs; cases w) (simp_all add: filled_def)
  then show ?thesis
    by (simp add: filled_row_def map_upt_Suc lobs_def del: upt_Suc)
qed

lemma filled_row_drop: "filled_row fs (drop n ext) k row = filled_row fs ext (n + k) row"
  by (auto simp: filled_row_def filled_def add.assoc split: Value.split)

lemma resolveRow_filled:
  "length row \<le> length fs \<Longrightarrow> resolveRow fs row ext = Some (filled_row fs ext 0 row, drop (lobs row) ext)"
proof (induction row arbitrary: fs ext)
  case Nil
  show ?case by (simp add: filled_row_def lobs_def)
next
  case (Cons v vs)
  then obtain f fs1 where fs: "fs = f # fs1" "length vs \<le> length fs1" by (cases fs) auto
  note IH = Cons.IH [OF fs(2)]
  show ?case
  proof (cases "is_lob v")
    case False
    then have "resolveRow fs (v # vs) ext = Some (v # filled_row fs1 ext 0 vs, drop (lobs vs) ext)"
      using IH fs by (auto simp: is_lob_def split: Value.splits)
    moreover have "filled fs ext 0 0 v = v" using False by (auto simp: filled_def is_lob_def split: Value.splits)
    ultimately show ?thesis using False fs by (simp add: filled_row_Cons lobs_def)
  next
    case True
    then obtain b where v: "v = VLobRef b" by (auto simp: is_lob_def split: Value.splits)
    have "filled_row fs1 (drop 1 ext) 0 vs = filled_row fs1 ext 1 vs" by (simp add: filled_row_drop)
    then show ?thesis
      using IH fs v by (cases ext) (simp_all add: filled_row_Cons lobs_def is_lob_def filled_def)
  qed
qed

lemma resolveRows_filled:
  "list_all (\<lambda>row. length row \<le> length fs) rows \<Longrightarrow>
     resolveRows fs rows (drop n ext)
       = Some (map (\<lambda>i. filled_row fs ext (n + lobs (concat (take i rows))) (rows ! i)) [0..<length rows])"
proof (induction rows arbitrary: n)
  case (Cons row rows)
  have "resolveRows fs rows (drop (lobs row + n) ext)
      = Some (map (\<lambda>i. filled_row fs ext (lobs row + n + lobs (concat (take i rows))) (rows ! i)) [0..<length rows])"
    using Cons by simp
  then show ?case
    using Cons.prems resolveRow_filled [of row fs "drop n ext"] filled_row_drop [of fs n ext 0 row]
    by (simp add: map_upt_Suc lobs_def ac_simps del: upt_Suc)
qed simp

text \<open>
  C23: \<open>resolveLOBs\<close> gives the EXTDTA objects to the LOB placeholders in row-major order: the
  placeholder with \<open>k\<close> placeholders before it receives object \<open>k\<close>, decoded for its column, or
  becomes null when there is none; every other value stays; the objects are used up.
\<close>

theorem resolveLOBs_row_major:
  "list_all (\<lambda>row. length row \<le> length (qFields q)) (pending q) \<and> extdta q \<noteq> [] \<longrightarrow>
     resolveLOBs q = Some (q\<lparr>pending :=
       map (\<lambda>i. filled_row (qFields q) (extdta q) (lobs (concat (take i (pending q)))) (pending q ! i))
         [0..<length (pending q)], extdta := []\<rparr>)"
  using resolveRows_filled [of "qFields q" "pending q" 0 "extdta q"] by (simp add: resolveLOBs_def)

definition lob_query :: Query where
  "lob_query = (newQuery zero_ServerInfo)\<lparr>
     qFields := [\<lparr>fType = TypeNInteger, fLength = 4, fCCSID = 0\<rparr>, \<lparr>fType = TypeNLobBytes, fLength = 0x8009, fCCSID = 0\<rparr>],
     pending := [[VInt32 1, VLobRef False], [VInt32 2, VNil], [VInt32 3, VLobRef False]],
     extdta := [[0, 10, 11], [0, 12]]\<rparr>"

theorem resolveLOBs_row_major_witness:
  "map_option pending (resolveLOBs lob_query)
     = Some [[VInt32 1, VBytes [10, 11]], [VInt32 2, VNil], [VInt32 3, VBytes [12]]]"
  using resolveLOBs_row_major [of lob_query]
  by (simp add: lob_query_def newQuery_def filled_row_def filled_def lobs_def is_lob_def lobValue_def
      cloneBytes_def or_nil_def upt_rec)

section \<open>Errors of a transmission\<close>

lemma consumeReplies_error_stays:
  "consumeReplies c ds err q = Inr (err', q') \<Longrightarrow> err = Some e \<Longrightarrow> as_SQLCA e \<noteq> None \<Longrightarrow> err' = err"
proof (induction ds arbitrary: q)
  case (Cons d ds)
  have "consumeOne c d err q = Inr (err1, q1) \<Longrightarrow> err1 = err" for err1 q1
    using Cons.prems(2,3)
    by (auto simp: consumeOne_def consumeSQLDARD_def consumeQRYDTA_def consumeSQLCARD_def preferSQLCA_def Let_def
        split: if_splits sum.splits option.splits prod.splits)
  then show ?case using Cons by (auto split: sum.splits)
qed simp


definition error_reply :: DSS where
  "error_reply = request_dss SQLCARD (sqlca_wire False (sample_SQLCA\<lparr>SQLCode := - 204\<rparr>) [''DB2INST1.T'', ''X'']) 2 False True"


end
