(* ===== verification/Drda_Cursor.thy ===== *)
theory Drda_Cursor
  imports Drda_Query
begin

text \<open>
  Cursors of a connection (\<^verbatim>\<open>internal/drda/query.go\<close>, \<^verbatim>\<open>conn.go\<close>): \<open>Next\<close>, \<open>Close\<close>,
  \<open>ensureNoOpenQuery\<close> and \<open>collectResult\<close>, on the store of queries.

  The invariant \<open>conn_inv\<close>: the writer is empty between operations, and a query that is
  neither done nor closed is the one \<^verbatim>\<open>conn.openQuery\<close> points to.  So at most one cursor
  is active at any time.
\<close>

section \<open>Operations on a stored query\<close>

definition upd_query :: "nat \<Rightarrow> (Query \<Rightarrow> Query) \<Rightarrow> unit act" where
  "upd_query i f = change (\<lambda>c. c\<lparr>queries := (queries c)[i := f (queries c ! i)]\<rparr>)"

fun closeReplies :: "DSS list \<Rightarrow> unit act" where
  "closeReplies [] = ok ()"
| "closeReplies (d # ds) =
     (if CodePt d = SQLCARD then
        with_conn (\<lambda>c.
          case ParseSQLCARD (Payload d) (LittleEndian (Server c)) of
            Inr (Some ca) \<Rightarrow> if IsError (Some ca) then fails (SqlError ca) else closeReplies ds
          | _ \<Rightarrow> closeReplies ds)
      else andthen (checkReply d) (\<lambda>_. closeReplies ds))"

definition markClosed :: "nat \<Rightarrow> unit act" where
  "markClosed i = change (\<lambda>c.
     c\<lparr>queries := (queries c)[i := (queries c ! i)\<lparr>qClosed := True, pending := []\<rparr>],
       openQuery := if openQuery c = Some i then None else openQuery c\<rparr>)"

definition sendCLSQRY :: "nat \<Rightarrow> unit act" where
  "sendCLSQRY i = with_conn (\<lambda>c.
     let q = queries c ! i in
     andthen (transmit [(packCLSQRY (pkgSN c) (qryinsid q) c, qCorr q, False, True)] (qCorr q)) (\<lambda>replies.
     andthen (upd_query i (\<lambda>q. q\<lparr>qDone := True\<rparr>)) (\<lambda>_. closeReplies replies)))"

definition closeLocked :: "nat \<Rightarrow> unit act" where
  "closeLocked i = with_conn (\<lambda>c.
     let q = queries c ! i in
     if qClosed q then ok ()
     else andthen (markClosed i) (\<lambda>_. if qDone q \<or> \<not> qOpened q then ok () else sendCLSQRY i))"

definition ensureNoOpenQuery :: "unit act" where
  "ensureNoOpenQuery = with_conn (\<lambda>c.
     case openQuery c of
       Some i \<Rightarrow>
         if \<not> qDone (queries c ! i) then closeLocked i else change (\<lambda>c. c\<lparr>openQuery := None\<rparr>)
     | None \<Rightarrow> change (\<lambda>c. c\<lparr>openQuery := None\<rparr>))"

definition fetchBlock :: "nat \<Rightarrow> unit act" where
  "fetchBlock i = with_conn (\<lambda>c.
     let q = queries c ! i in
     andthen (transmit [(packCNTQRY (pkgSN c) (qryinsid q) c, qCorr q, False, True)] (qCorr q)) (\<lambda>replies.
     with_conn (\<lambda>c.
       case consume c replies (queries c ! i) of
         (r, q1) \<Rightarrow> andthen (upd_query i (\<lambda>_. q1)) (\<lambda>_. of_sum id r))))"

fun fetchLoop :: "nat \<Rightarrow> nat \<Rightarrow> unit act" where
  "fetchLoop 0 i = ok ()"
| "fetchLoop (Suc n) i =
     andthen (fetchBlock i) (\<lambda>_. with_conn (\<lambda>c.
       if pending (queries c ! i) \<noteq> [] \<or> qDone (queries c ! i) then ok () else fetchLoop n i))"

text \<open>An empty list of rows is the end of the result.\<close>

definition Next :: "nat \<Rightarrow> Value list list act" where
  "Next i = with_conn (\<lambda>c.
     let q = queries c ! i in
     if pending q \<noteq> [] then andthen (upd_query i (\<lambda>q. q\<lparr>pending := []\<rparr>)) (\<lambda>_. ok (pending q))
     else if qDone q \<or> qClosed q then ok []
     else
       andthen (fetchLoop 3 i) (\<lambda>_. with_conn (\<lambda>c.
         let rows = pending (queries c ! i) in
         andthen (upd_query i (\<lambda>q. q\<lparr>pending := [], qDone := (qDone q \<or> rows = [])\<rparr>)) (\<lambda>_. ok rows))))"

definition Query_Close :: "nat \<Rightarrow> unit act" where
  "Query_Close i = closeLocked i"

section \<open>Results of statements\<close>

fun collectReplies ::
  "Conn \<Rightarrow> DSS list \<Rightarrow> Result \<Rightarrow> conn_error option \<Rightarrow> conn_error + Result \<times> conn_error option" where
  "collectReplies c [] res firstErr = Inr (res, firstErr)"
| "collectReplies c (d # ds) res firstErr =
     (if CodePt d = SQLCARD then
        (case ParseSQLCARD (Payload d) (LittleEndian (Server c)) of
           Inl e \<Rightarrow> Inl (ReaderError e)
         | Inr None \<Rightarrow> collectReplies c ds res firstErr
         | Inr (Some ca) \<Rightarrow>
             let isErr = IsError (Some ca);
                 firstErr1 = (if isErr \<and> firstErr = None then Some (SqlError ca) else firstErr);
                 res1 = (if rSQLCA res = None \<or> isErr then res\<lparr>rSQLCA := Some ca\<rparr> else res);
                 res2 = (if \<not> isErr then res1\<lparr>RowsAffected := RowCount (Some ca)\<rparr> else res1)
             in collectReplies c ds res2 firstErr1)
      else if CodePt d \<in> {SQLERRRM, ENDUOWRM} then collectReplies c ds res firstErr
      else collectReplies c ds res (case firstErr of None \<Rightarrow> replyError c d | Some e \<Rightarrow> Some e))"

definition collectResult :: "DSS list \<Rightarrow> Result act" where
  "collectResult replies = with_conn (\<lambda>c.
     case collectReplies c replies \<lparr>RowsAffected = -1, rSQLCA = None\<rparr> None of
       Inl e \<Rightarrow> fails e
     | Inr (res, Some e) \<Rightarrow> fails e
     | Inr (res, None) \<Rightarrow> ok res)"

section \<open>The invariant\<close>

definition active :: "Query \<Rightarrow> bool" where
  "active q \<longleftrightarrow> \<not> qDone q \<and> \<not> qClosed q"

definition conn_inv :: "Conn \<Rightarrow> bool" where
  "conn_inv c \<longleftrightarrow>
     wr c = NewWriter
     \<and> (\<forall>i. openQuery c = Some i \<longrightarrow> i < length (queries c) \<and> \<not> qClosed (queries c ! i))
     \<and> (\<forall>i < length (queries c). active (queries c ! i) \<longrightarrow> openQuery c = Some i)"

text \<open>
  What every operation guarantees on every outcome: from \<open>conn_inv\<close> it ends in \<open>conn_inv\<close>, no
  query is lost, and a bind attempt is not forgotten.
\<close>

definition good :: "Conn \<Rightarrow> Conn \<Rightarrow> bool" where
  "good c c' \<longleftrightarrow>
     (conn_inv c \<longrightarrow>
        conn_inv c' \<and> length (queries c) \<le> length (queries c') \<and> (bindAttempted c \<longrightarrow> bindAttempted c'))"

lemma good_rel [keeps_intros]: "reflp good" "transp good"
proof -
  show "reflp good" by (rule reflpI) (simp add: good_def)
  show "transp good" by (rule transpI) (meson good_def order_trans)
qed

lemma conn_invI:
  assumes "wr c = NewWriter"
    "\<And>i. openQuery c = Some i \<Longrightarrow> i < length (queries c) \<and> \<not> qClosed (queries c ! i)"
    "\<And>i. i < length (queries c) \<Longrightarrow> active (queries c ! i) \<Longrightarrow> openQuery c = Some i"
  shows "conn_inv c"
  unfolding conn_inv_def using assms by blast

lemma conn_invD:
  assumes "conn_inv c"
  shows "wr c = NewWriter" "openQuery c = Some i \<Longrightarrow> i < length (queries c)"
    "openQuery c = Some i \<Longrightarrow> \<not> qClosed (queries c ! i)"
    "i < length (queries c) \<Longrightarrow> active (queries c ! i) \<Longrightarrow> openQuery c = Some i"
  using assms unfolding conn_inv_def by blast+

lemma conn_inv_cong:
  assumes "wr c' = wr c" "openQuery c' = openQuery c" "queries c' = queries c"
  shows "conn_inv c' = conn_inv c"
  unfolding conn_inv_def assms by (rule refl)

lemma goodI:
  assumes "conn_inv c \<Longrightarrow> conn_inv c'" "length (queries c) \<le> length (queries c')"
    "bindAttempted c \<Longrightarrow> bindAttempted c'"
  shows "good c c'"
  unfolding good_def using assms by blast

lemma good_session:
  assumes "same_session c c'" "conn_inv c \<Longrightarrow> wr c' = NewWriter"
  shows "good c c'"
proof (rule goodI)
  note e = same_sessionD(6,13,14) [OF assms(1)]
  assume inv: "conn_inv c"
  show "conn_inv c'"
  proof (rule conn_invI)
    show "wr c' = NewWriter" by (rule assms(2) [OF inv])
    show "i < length (queries c') \<and> \<not> qClosed (queries c' ! i)" if "openQuery c' = Some i" for i
      using conn_invD(2,3) [OF inv, of i] that unfolding e by blast
    show "openQuery c' = Some i" if "i < length (queries c')" "active (queries c' ! i)" for i
      using conn_invD(4) [OF inv, of i] that unfolding e by blast
  qed
next
  note e = same_sessionD(6,13,14) [OF assms(1)]
  show "length (queries c) \<le> length (queries c')" "bindAttempted c \<Longrightarrow> bindAttempted c'" using e by simp_all
qed

lemma good_transmit [keeps_intros]: "rs \<noteq> [] \<Longrightarrow> keeps good (transmit rs k)"
proof (rule keepsI)
  fix c r c' assume t: "rs \<noteq> []" "transmit rs k c = (r, c')"
  have "same_session c c'" using keeps_session_transmit t(2) by (rule keepsD)
  moreover have "wr c' = NewWriter" if "conn_inv c"
    using transmit_effect(1) [OF t(1) _ t(2)] that by (simp add: conn_inv_def)
  ultimately show "good c c'" by (rule good_session)
qed

lemma keeps_cases [keeps_intros]:
  "(\<And>x. keeps R (f x)) \<Longrightarrow> keeps R g \<Longrightarrow> keeps R (case opt of Some x \<Rightarrow> f x | None \<Rightarrow> g)"
  "(\<And>x. keeps R (h x)) \<Longrightarrow> (\<And>y. keeps R (k y)) \<Longrightarrow> keeps R (case s of Inl x \<Rightarrow> h x | Inr y \<Rightarrow> k y)"
  "(\<And>a b. keeps R (p a b)) \<Longrightarrow> keeps R (case ab of (a, b) \<Rightarrow> p a b)"
  by (auto split: option.split sum.split prod.split)

lemma good_check [keeps_intros]: "keeps good (checkReply d)"
  unfolding checkReply_def by (intro keeps_intros)

lemma good_closeReplies [keeps_intros]: "keeps good (closeReplies ds)"
proof (induction ds)
  case (Cons d ds)
  then show ?case unfolding closeReplies.simps by (intro keeps_intros)
qed (simp, intro keeps_intros)

lemma good_collectResult [keeps_intros]: "keeps good (collectResult ds)"
  unfolding collectResult_def by (intro keeps_intros)

text \<open>Changing a stored query without reviving it.\<close>

lemma conn_inv_upd:
  assumes "conn_inv c" "qClosed q = qClosed (queries c ! i)" "qDone (queries c ! i) \<Longrightarrow> qDone q"
  shows "conn_inv (c\<lparr>queries := (queries c)[i := q]\<rparr>)"
proof (rule conn_invI)
  let ?c = "c\<lparr>queries := (queries c)[i := q]\<rparr>"
  show "wr ?c = NewWriter" using conn_invD(1) [OF assms(1)] by simp
  show "j < length (queries ?c) \<and> \<not> qClosed (queries ?c ! j)" if "openQuery ?c = Some j" for j
    using conn_invD(2,3) [OF assms(1), of j] that assms(2) by (cases "j = i") simp_all
  show "openQuery ?c = Some j" if "j < length (queries ?c)" "active (queries ?c ! j)" for j
    using conn_invD(4) [OF assms(1), of j] that assms(2,3) by (cases "j = i") (auto simp: active_def)
qed

lemma good_upd_query [keeps_intros]:
  assumes "\<And>q. qClosed (f q) = qClosed q" "\<And>q. qDone q \<Longrightarrow> qDone (f q)"
  shows "keeps good (upd_query i f)"
  unfolding upd_query_def
  by (rule keeps_change) (simp add: good_def conn_inv_upd assms)

lemma good_mark_closed:
  "good c (c\<lparr>queries := (queries c)[i := (queries c ! i)\<lparr>qClosed := True, pending := []\<rparr>],
             openQuery := if openQuery c = Some i then None else openQuery c\<rparr>)" (is "good c ?c1")
proof (rule goodI)
  assume inv: "conn_inv c"
  show "conn_inv ?c1"
  proof (rule conn_invI)
    show "wr ?c1 = NewWriter" using conn_invD(1) [OF inv] by simp
    show "j < length (queries ?c1) \<and> \<not> qClosed (queries ?c1 ! j)" if "openQuery ?c1 = Some j" for j
      using conn_invD(2,3) [OF inv, of j] that by (cases "j = i") (simp_all split: if_splits)
    show "openQuery ?c1 = Some j" if "j < length (queries ?c1)" "active (queries ?c1 ! j)" for j
      using conn_invD(4) [OF inv, of j] that by (cases "j = i") (simp_all add: active_def)
  qed
qed simp_all

lemma good_sendCLSQRY [keeps_intros]: "keeps good (sendCLSQRY i)"
  unfolding sendCLSQRY_def Let_def by (intro keeps_intros) simp_all

lemma good_closeLocked [keeps_intros]: "keeps good (closeLocked i)"
  unfolding closeLocked_def markClosed_def Let_def by (intro keeps_intros good_mark_closed)

lemma good_clear_open:
  assumes "\<And>i. openQuery c = Some i \<Longrightarrow> qDone (queries c ! i)"
  shows "good c (c\<lparr>openQuery := None\<rparr>)"
proof (rule goodI)
  assume inv: "conn_inv c"
  show "conn_inv (c\<lparr>openQuery := None\<rparr>)"
  proof (rule conn_invI)
    show "wr (c\<lparr>openQuery := None\<rparr>) = NewWriter" using conn_invD(1) [OF inv] by simp
    fix i assume "i < length (queries (c\<lparr>openQuery := None\<rparr>))" "active (queries (c\<lparr>openQuery := None\<rparr>) ! i)"
    then show "openQuery (c\<lparr>openQuery := None\<rparr>) = Some i"
      using conn_invD(4) [OF inv, of i] assms by (simp add: active_def)
  qed simp
qed simp_all

lemma good_ensureNoOpenQuery [keeps_intros]: "keeps good ensureNoOpenQuery"
proof (rule keepsI)
  fix c r c' assume r: "ensureNoOpenQuery c = (r, c')"
  show "good c c'"
  proof (cases "\<exists>i. openQuery c = Some i \<and> \<not> qDone (queries c ! i)")
    case True
    then obtain i where "closeLocked i c = (r, c')"
      using r by (auto simp: ensureNoOpenQuery_def with_conn_def)
    then show ?thesis using good_closeLocked by (rule keepsD [rotated])
  next
    case False
    then have "c' = c\<lparr>openQuery := None\<rparr>"
      using r by (cases "openQuery c") (simp_all add: ensureNoOpenQuery_def act_defs)
    then show ?thesis using False good_clear_open by simp
  qed
qed

section \<open>Consuming keeps a query closed and done\<close>

lemma DecodeBlock_same_cursor:
  "DecodeBlock d b emit_row on_warning q = (res, q') \<Longrightarrow> same_cursor q q'"
proof (induction "length b" arbitrary: b q rule: less_induct)
  case less
  show ?case
  proof (cases "b \<noteq> [] \<and> (\<exists>w vs n. decodeRow d b = StepRow w vs n)")
    case True
    then obtain w vs n where s: "decodeRow d b = StepRow w vs n" "b \<noteq> []" by blast
    let ?q1 = "(warn on_warning w q)\<lparr>pending := pending q @ [vs]\<rparr>"
    have "length (drop n b) < length b" using s decodeRow_StepRow [OF s] by simp
    moreover have "emit_row vs (warn on_warning w q) = (None, ?q1)" by (simp add: emit_row_def)
    then have "DecodeBlock d (drop n b) emit_row on_warning ?q1 = (res, q')"
      using less.prems s by (simp add: DecodeBlock.simps [of d b])
    ultimately have "same_cursor ?q1 q'" by (rule less.hyps)
    moreover have "same_cursor q ?q1" by (rule same_cursor_trans [OF same_cursor_updates(4) same_cursor_updates(3)])
    ultimately show ?thesis using same_cursor_trans by blast
  next
    case False
    then show ?thesis
      using less.prems by (cases "b = []"; cases "decodeRow d b") (auto simp: DecodeBlock.simps [of d b] DecodeBlock.simps [of d "[]"])
  qed
qed

definition keeps_end :: "Query \<Rightarrow> Query \<Rightarrow> bool" where
  "keeps_end q q' \<longleftrightarrow> qClosed q' = qClosed q \<and> (qDone q \<longrightarrow> qDone q')"

lemma keeps_end_warning [simp]: "qClosed (add_warning w q) = qClosed q" "qDone (add_warning w q) = qDone q"
  by (simp_all add: add_warning_def split: option.split)

lemma consumeQRYDTA_keeps_end:
  "consumeQRYDTA d err q = Inl (e, q') \<Longrightarrow> keeps_end q q'"
  "consumeQRYDTA d err q = Inr (err', q') \<Longrightarrow> keeps_end q q'"
proof -
  obtain res q1 where b: "DecodeBlock (decoder q) (partial q @ Payload d) emit_row on_warning (q\<lparr>partial := []\<rparr>) = (res, q1)"
    by fastforce
  have "qClosed q1 = qClosed q" "qDone q1 = qDone q"
    using same_cursorD(3,7) [OF DecodeBlock_same_cursor [OF b]] by simp_all
  then show "consumeQRYDTA d err q = Inl (e, q') \<Longrightarrow> keeps_end q q'"
    "consumeQRYDTA d err q = Inr (err', q') \<Longrightarrow> keeps_end q q'"
    using b by (auto simp: consumeQRYDTA_def keeps_end_def Let_def split: if_splits option.splits sum.splits)
qed

lemma consumeOne_keeps_end:
  "consumeOne c d err q = Inl (e, q') \<Longrightarrow> keeps_end q q'"
  "consumeOne c d err q = Inr (err', q') \<Longrightarrow> keeps_end q q'"
  unfolding consumeOne_def
  by (auto simp: consumeSQLDARD_def consumeSQLCARD_def keeps_end_def Let_def
      dest: consumeQRYDTA_keeps_end [unfolded keeps_end_def]
      split: if_splits option.splits sum.splits prod.splits)

lemma consumeReplies_keeps_end:
  shows "consumeReplies c ds err q = Inl (e, q') \<Longrightarrow> keeps_end q q'"
    and "consumeReplies c ds err q = Inr (err', q') \<Longrightarrow> keeps_end q q'"
proof (induction ds arbitrary: err q)
  case (Cons d ds)
  {
    case 1
    then show ?case using Cons.IH(1) consumeOne_keeps_end
      by (auto simp: keeps_end_def split: sum.splits) blast+
  next
    case 2
    then show ?case using Cons.IH(2) consumeOne_keeps_end
      by (auto simp: keeps_end_def split: sum.splits) blast+
  }
qed (simp_all add: keeps_end_def)

lemma consume_keeps_end: "consume c ds q = (r, q') \<Longrightarrow> keeps_end q q'"
  by (auto simp: consume_def resolveLOBs_def keeps_end_def
      dest!: consumeReplies_keeps_end [unfolded keeps_end_def]
      split: sum.splits option.splits if_splits)

section \<open>Fetching\<close>

lemma good_fetchBlock [keeps_intros]: "keeps good (fetchBlock i)"
proof -
  have store: "keeps good (with_conn (\<lambda>c. case consume c replies (queries c ! i) of
      (r, q1) \<Rightarrow> andthen (upd_query i (\<lambda>_. q1)) (\<lambda>_. of_sum id r)))" for replies
  proof (rule keepsI)
    fix c r c'
    obtain s q1 where q: "consume c replies (queries c ! i) = (s, q1)" by fastforce
    assume "with_conn (\<lambda>c. case consume c replies (queries c ! i) of
      (r, q1) \<Rightarrow> andthen (upd_query i (\<lambda>_. q1)) (\<lambda>_. of_sum id r)) c = (r, c')"
    then have "c' = c\<lparr>queries := (queries c)[i := q1]\<rparr>"
      using q by (auto simp: act_defs upd_query_def split: sum.splits)
    then show "good c c'"
      using conn_inv_upd consume_keeps_end [OF q] by (auto simp: keeps_end_def intro!: goodI)
  qed
  show ?thesis unfolding fetchBlock_def Let_def by (intro keeps_intros store) simp
qed

lemma good_fetchLoop [keeps_intros]: "keeps good (fetchLoop n i)"
proof (induction n)
  case (Suc n)
  then show ?case unfolding fetchLoop.simps by (intro keeps_intros)
qed (simp, intro keeps_intros)

lemma good_Next [keeps_intros]: "keeps good (Next i)"
  unfolding Next_def Let_def by (intro keeps_intros) simp_all

lemma good_Query_Close [keeps_intros]: "keeps good (Query_Close i)"
  unfolding Query_Close_def by (intro keeps_intros)

section \<open>No statement while a cursor is active\<close>

lemma closeReplies_conn: "closeReplies ds c = (r, c') \<Longrightarrow> c' = c"
proof (induction ds arbitrary: r)
  case (Cons d ds)
  then show ?case
    by (auto simp: act_defs checkReply_def split: if_splits sum.splits option.splits prod.splits)
qed (simp add: ok_def)

lemma sendCLSQRY_effect:
  assumes "wr c = NewWriter" "sendCLSQRY i c = (r, c')"
  shows "openQuery c' = openQuery c
    \<and> sent c' = sent c @ [wire [(packCLSQRY (pkgSN c) (qryinsid (queries c ! i)) c, qCorr (queries c ! i), False, True)]]"
proof -
  let ?rs = "[(packCLSQRY (pkgSN c) (qryinsid (queries c ! i)) c, qCorr (queries c ! i), False, True)]"
  obtain s c1 where t: "transmit ?rs (qCorr (queries c ! i)) c = (s, c1)" by fastforce
  note e = transmit_effect [OF _ assms(1) t] same_sessionD(13) [OF transmit_effect(3) [OF _ assms(1) t]]
  show ?thesis
  proof (cases s)
    case (Inl x)
    then show ?thesis using assms(2) t e by (simp add: sendCLSQRY_def act_defs Let_def)
  next
    case (Inr ds)
    then have "closeReplies ds (c1\<lparr>queries := (queries c1)[i := (queries c1 ! i)\<lparr>qDone := True\<rparr>]\<rparr>) = (r, c')"
      using assms(2) t by (simp add: sendCLSQRY_def upd_query_def act_defs Let_def)
    from closeReplies_conn [OF this] show ?thesis using e by simp
  qed
qed

lemma ensureNoOpenQuery_effect:
  assumes inv: "conn_inv c" and r: "ensureNoOpenQuery c = (r, c')"
  shows "openQuery c' = None"
    and "sent c' = sent c @
       (case openQuery c of
          Some i \<Rightarrow>
            (let q = queries c ! i in
             if qOpened q \<and> \<not> qDone q then [wire [(packCLSQRY (pkgSN c) (qryinsid q) c, qCorr q, False, True)]] else [])
        | None \<Rightarrow> [])"
proof -
  have "openQuery c' = None \<and> sent c' = sent c @
       (case openQuery c of
          Some i \<Rightarrow>
            (let q = queries c ! i in
             if qOpened q \<and> \<not> qDone q then [wire [(packCLSQRY (pkgSN c) (qryinsid q) c, qCorr q, False, True)]] else [])
        | None \<Rightarrow> [])"
  proof (cases "\<exists>i. openQuery c = Some i \<and> \<not> qDone (queries c ! i)")
    case False
    then have "c' = c\<lparr>openQuery := None\<rparr>"
      using r by (cases "openQuery c") (simp_all add: ensureNoOpenQuery_def act_defs)
    then show ?thesis using False by (auto split: option.split)
  next
    case True
    then obtain i where i: "openQuery c = Some i" "\<not> qDone (queries c ! i)" by blast
    let ?q = "queries c ! i"
    let ?c1 = "c\<lparr>queries := (queries c)[i := ?q\<lparr>qClosed := True, pending := []\<rparr>], openQuery := None\<rparr>"
    have op: "\<not> qClosed ?q" "i < length (queries c)" "wr ?c1 = NewWriter" using conn_invD [OF inv] i(1) by simp_all
    have close: "(if \<not> qOpened ?q then ok () else sendCLSQRY i) ?c1 = (r, c')"
      using r i op by (simp add: ensureNoOpenQuery_def closeLocked_def markClosed_def with_conn_def andthen_def
          change_def Let_def)
    have pk: "packCLSQRY (pkgSN ?c1) (qryinsid (queries ?c1 ! i)) ?c1 = packCLSQRY (pkgSN c) (qryinsid ?q) c"
      using op(2) by (simp add: packCLSQRY_def packPKGNAMCSN_def)
    show ?thesis
    proof (cases "qOpened ?q")
      case True
      then show ?thesis
        using sendCLSQRY_effect [OF op(3), of i r c'] close pk op(2) i by (simp add: Let_def)
    qed (use close i in \<open>auto simp: ok_def Let_def\<close>)
  qed
  then show "openQuery c' = None" "sent c' = sent c @
       (case openQuery c of
          Some i \<Rightarrow>
            (let q = queries c ! i in
             if qOpened q \<and> \<not> qDone q then [wire [(packCLSQRY (pkgSN c) (qryinsid q) c, qCorr q, False, True)]] else [])
        | None \<Rightarrow> [])" by blast+
qed

end
