(* ===== verification/Drda_Bind.thy ===== *)
theory Drda_Bind
  imports Drda_Cursor
begin

text \<open>
  Package binding (\<^verbatim>\<open>internal/drda/bind.go\<close>): recognising SQL0805N for the connection's own
  package, the bind conversation and \<open>autoBind\<close>, which binds at most once per connection.
\<close>

abbreviation cpPKGISOLVL :: "16 word" where "cpPKGISOLVL \<equiv> 0x2124"
abbreviation cpMAXSCTNBR :: "16 word" where "cpMAXSCTNBR \<equiv> 0x2127"
abbreviation isolvlCS :: "16 word" where "isolvlCS \<equiv> 0x2442"
abbreviation lmtblkprc :: "16 word" where "lmtblkprc \<equiv> 0x2417"
abbreviation bindMaxSect :: "16 word" where "bindMaxSect \<equiv> 65"

section \<open>The conversation\<close>

definition isOurPackageNotFound :: "(rune \<Rightarrow> rune) \<Rightarrow> Conn \<Rightarrow> conn_error \<Rightarrow> bool" where
  "isOurPackageNotFound u c err \<longleftrightarrow>
     (case as_SQLCA err of
        None \<Rightarrow> False
      | Some ca \<Rightarrow>
          if sint (SQLCode ca) \<noteq> -805 then False
          else
            let msg = ToUpper u (Message ca)
            in Contains msg (ToUpper u (pkgCollection c @ ''.'' @ pkgID c))
               \<or> Contains msg (ToUpper u (pkgCollection c @ ''.'' @ pkgID c @ ''.'')))"

definition packPKGNAMCT :: "Conn \<Rightarrow> bytes" where
  "packPKGNAMCT c =
     (let pad = (if ddmUTF8 c then PadASCII else PadEBCDIC)
      in Bytes PKGNAMCT
           (pad (rdbnam c) 18 @ pad (pkgCollection c) 18 @ pad (pkgID c) 18 @ PadASCII (pkgCnsTkn c) 8))"

definition declareCursor :: "nat \<Rightarrow> string" where
  "declareCursor sect =
     ''DECLARE SQL_CURSH200C'' @ nat_str sect @ '' CURSOR WITH HOLD FOR STATEMENT'' @ nat_str ((sect - 1) * 10 + 1)"

text \<open>The loop over the odd sections below 65; the correlation id starts at 2.\<close>

fun bindSections :: "Conn \<Rightarrow> nat list \<Rightarrow> 16 word \<Rightarrow> req list \<times> 16 word" where
  "bindSections c [] corr = ([], corr)"
| "bindSections c (sect # sects) corr =
     (case bindSections c sects (corr + 1) of
        (rs, corr1) \<Rightarrow>
          ((NewObject BNDSQLSTT (packPKGNAMCSN (word_of_nat sect) c), corr, True, False)
           # (packSQLSTT (declareCursor sect), corr, False, False) # rs, corr1))"

definition oddSections :: "nat list" where
  "oddSections = filter odd [1..<unat bindMaxSect]"

definition bindRequests :: "Conn \<Rightarrow> req list \<times> 16 word" where
  "bindRequests c =
     (case bindSections c oddSections 2 of
        (rs, corr) \<Rightarrow>
          ((NewObject BGNBND (packPKGNAMCT c @ Uint16 cpPKGISOLVL isolvlCS @ Uint16 QRYBLKCTL lmtblkprc), 1, False, False)
           # rs @ [(NewObject ENDBND (packPKGNAMCT c @ Uint16 cpMAXSCTNBR bindMaxSect), corr, False, True)], corr))"

text \<open>The reply loop: the first SQLCA error and the first reply-message error so far.\<close>

function bindReplies ::
  "16 word \<Rightarrow> conn_error option \<Rightarrow> conn_error option \<Rightarrow> (conn_error option \<times> conn_error option) act" where
  "bindReplies corr caErr rmErr c =
     (case ReadDSS (rd c) of
        (Inl e, s) \<Rightarrow> (Inl (DdmError e), c\<lparr>rd := s\<rparr>)
      | (Inr d, s) \<Rightarrow>
          let c1 = c\<lparr>rd := s\<rparr>;
              step =
                (if CodePt d = SQLCARD then
                   (case ParseSQLCARD (Payload d) (LittleEndian (Server c)) of
                      Inl e \<Rightarrow> Inl (ReaderError e)
                    | Inr None \<Rightarrow> Inr (caErr, rmErr)
                    | Inr (Some ca) \<Rightarrow>
                        Inr (if IsError (Some ca) \<and> caErr = None then Some (SqlError ca) else caErr, rmErr))
                 else if CodePt d \<in> {RDBUPDRM, ENDUOWRM} then Inr (caErr, rmErr)
                 else Inr (caErr, case rmErr of None \<Rightarrow> replyError c d | Some e \<Rightarrow> Some e))
          in (case step of
                Inl e \<Rightarrow> (Inl e, c1)
              | Inr (caErr1, rmErr1) \<Rightarrow>
                  if \<not> Chained d \<and> (corr \<le> CorrelationID d \<or> caErr1 \<noteq> None \<or> rmErr1 \<noteq> None)
                  then (Inr (caErr1, rmErr1), c1)
                  else bindReplies corr caErr1 rmErr1 c1))"
  by pat_completeness auto
termination
  by (relation "measure (\<lambda>(corr, caErr, rmErr, c). length (rd c))")
     (auto dest!: ReadDSS_consumes [OF sym])

declare bindReplies.simps [simp del]

definition bindPackage :: "unit act" where
  "bindPackage = with_conn (\<lambda>c.
     case bindRequests c of
       (rs, corr) \<Rightarrow>
         andthen (sends rs) (\<lambda>_.
         andthen flush (\<lambda>_.
         andthen (bindReplies corr None None) (\<lambda>(caErr, rmErr).
         case (case caErr of Some e \<Rightarrow> Some e | None \<Rightarrow> rmErr) of
           Some e \<Rightarrow> fails (BindFailed (pkgCollection c) (pkgID c) e)
         | None \<Rightarrow>
             andthen (transmit [(packRDBCMM, 1, False, True)] 1) (\<lambda>replies.
             andthen (collectResult replies) (\<lambda>_. ok ()))))))"

section \<open>autoBind\<close>

text \<open>\<open>Inr ()\<close>: the package was bound and the operation is to be retried; \<open>Inl\<close>: the error to report.\<close>

definition autoBind :: "(rune \<Rightarrow> rune) \<Rightarrow> conn_error \<Rightarrow> unit act" where
  "autoBind u err = with_conn (\<lambda>c.
     let pkgErr = PackageError (pkgCollection c) (pkgID c) err in
     if \<not> isOurPackageNotFound u c err then fails err
     else if NoAutoBind (cfg c) then fails (pkgErr None)
     else if bindAttempted c then
       (case bindError c of Some be \<Rightarrow> fails (pkgErr (Some be)) | None \<Rightarrow> fails err)
     else
       andthen (change (\<lambda>c. c\<lparr>bindAttempted := True\<rparr>)) (\<lambda>_ c1.
         (case bindPackage c1 of
            (Inr _, c2) \<Rightarrow> (Inr (), c2)
          | (Inl berr, c2) \<Rightarrow> (Inl (pkgErr (Some berr)), c2\<lparr>bindError := Some berr\<rparr>))))"

text \<open>Run a statement; after its failure ask \<open>autoBind\<close> and possibly run it once more.\<close>

definition retrying :: "(rune \<Rightarrow> rune) \<Rightarrow> 'a act \<Rightarrow> 'a act" where
  "retrying u m c =
     (case m c of
        (Inr x, c1) \<Rightarrow> (Inr x, c1)
      | (Inl err, c1) \<Rightarrow>
          (case autoBind u err c1 of
             (Inl e, c2) \<Rightarrow> (Inl e, c2)
           | (Inr _, c2) \<Rightarrow> m c2))"

section \<open>Invariant\<close>

lemma bindReplies_effect:
  "bindReplies corr caErr rmErr c = (r, c') \<Longrightarrow> same_session c c' \<and> wr c' = wr c \<and> sent c' = sent c"
proof (induction corr caErr rmErr c rule: bindReplies.induct)
  case (1 corr caErr rmErr c)
  obtain x s where rs: "ReadDSS (rd c) = (x, s)" by fastforce
  have c1: "same_session c (c\<lparr>rd := s\<rparr>)" by simp
  show ?case
  proof (cases x)
    case (Inl e)
    then show ?thesis using "1.prems" rs c1 by (simp add: bindReplies.simps [of corr caErr rmErr c]) auto
  next
    case (Inr d)
    note IH = "1.IH" [OF rs [symmetric] Inr refl refl]
    consider "c' = c\<lparr>rd := s\<rparr>" | a b where "bindReplies corr a b (c\<lparr>rd := s\<rparr>) = (r, c')"
        "same_session (c\<lparr>rd := s\<rparr>) c' \<and> wr c' = wr c \<and> sent c' = sent c"
      using "1.prems" rs Inr IH
      by (simp add: bindReplies.simps [of corr caErr rmErr c] Let_def split: sum.splits prod.splits if_splits)
    then show ?thesis
      using c1 transpD [OF same_session_rel(2) c1] by cases auto
  qed
qed

lemma bindRequests_not_Nil: "fst (bindRequests c) \<noteq> []"
  by (simp add: bindRequests_def split: prod.split)

lemma bindPackage_effect:
  assumes "wr c = NewWriter" "bindPackage c = (r, c')"
  shows "same_session c c' \<and> wr c' = NewWriter"
proof -
  obtain rs corr where b: "bindRequests c = (rs, corr)" by fastforce
  then have rs: "rs \<noteq> []" using bindRequests_not_Nil [of c] by simp
  let ?c1 = "c\<lparr>wr := fold req_write rs (wr c)\<rparr>"
  obtain f c2 where f: "flush ?c1 = (f, c2)" by fastforce
  have "buf (wr ?c1) \<noteq> []" using assms(1) rs by (simp add: buf_req_writes NewWriter_def)
  note e = flush_effect [OF this f]
  have c2: "same_session c c2" using transpD [OF same_session_rel(2), OF _ e(4)] by simp
  show ?thesis
  proof (cases f)
    case (Inl x)
    then show ?thesis using assms(2) b f e c2
      by (simp add: bindPackage_def act_defs sends_effect)
  next
    case (Inr y)
    obtain g c3 where g: "bindReplies corr None None c2 = (g, c3)" by fastforce
    then have c3: "same_session c c3" "wr c3 = NewWriter"
      using bindReplies_effect [OF g] e c2 transpD [OF same_session_rel(2)] by auto
    consider "c' = c3" | "andthen (transmit [(packRDBCMM, 1, False, True)] 1) (\<lambda>replies.
             andthen (collectResult replies) (\<lambda>_. ok ())) c3 = (r, c')"
      using assms(2) b f Inr g
      by (auto simp: bindPackage_def with_conn_def andthen_def [of "sends rs"] sends_effect
          andthen_def [of flush] andthen_def [of "bindReplies _ _ _"] fails_def
          split: sum.splits option.splits prod.splits)
    then show ?thesis
    proof cases
      case 1
      then show ?thesis using c3 by simp
    next
      case 2
      obtain h c4 where h: "transmit [(packRDBCMM, 1, False, True)] 1 c3 = (h, c4)" by fastforce
      note t = transmit_effect [OF _ c3(2) h]
      have "c' = c4"
        using 2 h by (auto simp: act_defs collectResult_def split: sum.splits option.splits prod.splits)
      then show ?thesis using t c3 transpD [OF same_session_rel(2)] by auto
    qed
  qed
qed

lemma keeps_session_bind [keeps_intros]: "keeps same_session bindPackage"
proof -
  have "keeps same_session (bindReplies corr caErr rmErr)" for corr caErr rmErr
    by (rule keepsI) (blast dest: bindReplies_effect)
  then show ?thesis
    unfolding bindPackage_def collectResult_def by (intro keeps_intros)
qed

lemma good_autoBind [keeps_intros]: "keeps good (autoBind u err)"
proof (rule keepsI)
  fix c r c' assume a: "autoBind u err c = (r, c')"
  show "good c c'"
  proof (cases "isOurPackageNotFound u c err \<and> \<not> NoAutoBind (cfg c) \<and> \<not> bindAttempted c")
    case False
    then have "c' = c"
      using a by (auto simp: autoBind_def with_conn_def fails_def Let_def split: if_splits option.splits)
    then show ?thesis using reflpD [OF good_rel(1)] by simp
  next
    case True
    let ?c0 = "c\<lparr>bindAttempted := True\<rparr>"
    obtain s c2 where b: "bindPackage ?c0 = (s, c2)" by fastforce
    have c': "c' = c2 \<or> (\<exists>e. c' = c2\<lparr>bindError := Some e\<rparr>)"
      using a True b by (cases s) (auto simp: autoBind_def with_conn_def andthen_def change_def Let_def)
    note e = same_sessionD(6,13,14) [OF keepsD [OF keeps_session_bind b]]
    then have fields: "openQuery c' = openQuery c" "queries c' = queries c" "bindAttempted c'"
      using c' by auto
    show ?thesis
    proof (rule goodI)
      assume inv: "conn_inv c"
      have "wr c2 = NewWriter" using bindPackage_effect [OF _ b] conn_invD(1) [OF inv] by simp
      then have "wr c' = NewWriter" using c' by auto
      then show "conn_inv c'" using inv unfolding conn_inv_def fields by blast
    qed (simp_all add: fields)
  qed
qed

lemma good_retrying [keeps_intros]:
  assumes "keeps good m"
  shows "keeps good (retrying u m)"
proof (rule keepsI)
  fix c r c' assume r: "retrying u m c = (r, c')"
  obtain s c1 where m: "m c = (s, c1)" by fastforce
  note g1 = keepsD [OF assms m]
  show "good c c'"
  proof (cases s)
    case (Inr x)
    then show ?thesis using r m g1 by (simp add: retrying_def)
  next
    case (Inl err)
    obtain t c2 where a: "autoBind u err c1 = (t, c2)" by fastforce
    note g2 = transpD [OF good_rel(2) g1 keepsD [OF good_autoBind a]]
    show ?thesis
    proof (cases t)
      case (Inr y)
      then have "m c2 = (r, c')" using r m Inl a by (simp add: retrying_def)
      then show ?thesis using transpD [OF good_rel(2) g2] keepsD [OF assms] by blast
    qed (use r m Inl a g2 in \<open>simp add: retrying_def\<close>)
  qed
qed

section \<open>Properties\<close>



text \<open>
  The bind conversation is complete.  Whatever the connection, \<open>bindRequests\<close> declares a
  cursor for each of the 32 odd sections 1, 3, ..., 63, one command and statement each with
  correlation ids 2 to 33, between BGNBND (1) and ENDBND (34); only ENDBND ends the chain.
\<close>

theorem bindRequests_complete:
  "snd (bindRequests c) = 34
   \<and> map (\<lambda>(ob, corr, same, isLast). (Object_CodePoint ob, unat corr, same, isLast)) (fst (bindRequests c))
       = (BGNBND, 1, False, False)
         # concat (map (\<lambda>i. [(BNDSQLSTT, i + 2, True, False), (SQLSTT, i + 2, False, False)]) [0..<32])
         @ [(ENDBND, 34, False, True)]
   \<and> map (\<lambda>(ob, corr, same, isLast). ob) (filter (\<lambda>(ob, corr, same, isLast). Object_CodePoint ob = SQLSTT) (fst (bindRequests c)))
       = map (\<lambda>i. packSQLSTT (declareCursor (2 * i + 1))) [0..<32]"
proof -
  have odd: "oddSections = [1, 3, 5, 7, 9, 11, 13, 15, 17, 19, 21, 23, 25, 27, 29, 31, 33, 35, 37, 39, 41, 43, 45,
      47, 49, 51, 53, 55, 57, 59, 61, 63]"
    by (simp add: oddSections_def upt_rec [of _ 65])
  show ?thesis
    by (simp add: bindRequests_def odd packSQLSTT_def upt_rec [of _ 32])
qed

end
