(* ===== verification/Drda_ParamsOk.thy ===== *)
theory Drda_ParamsOk
  imports Drda_Params
begin

text \<open>
  What the server reads: the field decoders of \<open>Drda_FDOCA\<close> applied to the parameter
  bytes of \<open>Drda_Params\<close>.  The encoder and the decoder were written for opposite
  directions of the protocol, so their agreement is a check of both.
\<close>

section \<open>Digit strings\<close>

lemma digits_nat_dropWhile: "digits_nat (dropWhile (\<lambda>d. d = 0) ds) = digits_nat ds"
  by (induction ds) (auto simp: digits_nat_Cons)

lemma digits_or_zero_digits:
  assumes "list_all (\<lambda>d. d < 10) ds"
  shows "digits_or_zero ds = int (digits_nat ds)"
proof -
  have tr: "trimLeftSet ''0'' (map digit_char ds) = map digit_char (dropWhile (\<lambda>d. d = 0) ds)"
    using assms by (induction ds) (auto simp: trimLeftSet_def digit_char_facts)
  have l: "list_all (\<lambda>d. d < 10) (dropWhile (\<lambda>d. d = 0) ds)"
    using assms by (auto simp: list_all_iff dest: set_dropWhileD)
  show ?thesis
  proof (cases "dropWhile (\<lambda>d. d = 0) ds = []")
    case True
    then show ?thesis
      using digits_nat_dropWhile [of ds] unfolding digits_or_zero_def tr True
      by (simp add: big_SetString_def True)
  next
    case False
    then show ?thesis
      using big_SetString_digits(1) [OF l False] digits_nat_dropWhile [of ds]
      by (simp add: digits_or_zero_def tr)
  qed
qed

lemma decimal_digits_facts:
  assumes "length (nat_digits (nat \<bar>n\<bar>)) \<le> p"
  shows "length (decimal_digits p n) = p" "list_all (\<lambda>d. d < 10) (decimal_digits p n)"
    "digits_nat (decimal_digits p n) = nat \<bar>n\<bar>"
  using assms
  by (auto simp: decimal_digits_def Let_def list_all_iff digits_nat_append split: if_splits
      dest: nat_digits_less)

section \<open>Packed decimals\<close>

lemma nibbles_pack:
  assumes "even (length ns)" "list_all (\<lambda>x. x < 16) ns"
  shows "concat (map (\<lambda>c. [hi_nibble c, lo_nibble c]) (pack_nibbles ns)) = ns"
    "length (pack_nibbles ns) = length ns div 2"
proof -
  have "concat (map (\<lambda>c. [hi_nibble c, lo_nibble c]) (pack_nibbles ns)) = ns
      \<and> length (pack_nibbles ns) = length ns div 2"
    using assms
  proof (induction ns rule: pack_nibbles.induct)
    case (1 a b rest)
    then have ab: "a < 16" "b < 16" by auto
    then have "unat (word_of_nat (16 * a + b) :: byte) = 16 * a + b"
      by (subst unat_of_nat) simp
    then show ?case using 1 ab by (simp add: hi_nibble_def lo_nibble_def)
  qed auto
  then show "concat (map (\<lambda>c. [hi_nibble c, lo_nibble c]) (pack_nibbles ns)) = ns"
    "length (pack_nibbles ns) = length ns div 2" by auto
qed

lemma appendPackedDecimal_value:
  assumes "appendPackedDecimal d p s = Inr b"
  shows "length b = (p + 2) div 2" "packed_value b = rescale d s"
proof -
  let ?n = "rescale d s"
  let ?ds = "decimal_digits p ?n"
  let ?ds1 = "if even (length ?ds) then 0 # ?ds else ?ds"
  let ?ns = "?ds1 @ [if ?n < 0 then 0xD else 0xC]"
  have fit: "length (nat_digits (nat \<bar>?n\<bar>)) \<le> p" and b: "b = pack_nibbles ?ns"
    using assms by (auto simp: appendPackedDecimal_def Let_def split: if_splits)
  note D = decimal_digits_facts [OF fit]
  have d1: "list_all (\<lambda>x. x < 10) ?ds1" "digits_nat ?ds1 = nat \<bar>?n\<bar>"
    using D by (auto simp: digits_nat_Cons)
  have ns: "even (length ?ns)" "list_all (\<lambda>x. x < 16) ?ns"
    using D(2) by (auto simp: list_all_iff dest!: bspec)
  show "length b = (p + 2) div 2"
    using nibbles_pack(2) [OF ns] D(1) by (auto simp: b)
  show "packed_value b = ?n"
    unfolding packed_value_def b nibbles_pack(1) [OF ns]
    using digits_or_zero_digits [OF d1(1)] d1(2) by (simp add: Let_def)
qed

section \<open>Zoned decimals\<close>

lemma zoned_byte:
  assumes "d < 10"
  shows "lo_nibble (0xF0 OR word_of_nat d) = d" "lo_nibble (0xC0 OR word_of_nat d) = d"
    "lo_nibble (0xD0 OR word_of_nat d) = d"
    "hi_nibble (0xC0 OR word_of_nat d) = 12" "hi_nibble (0xD0 OR word_of_nat d) = 13"
proof -
  have "d \<in> {0, 1, 2, 3, 4, 5, 6, 7, 8, 9}" using assms by auto
  then show "lo_nibble (0xF0 OR word_of_nat d) = d" "lo_nibble (0xC0 OR word_of_nat d) = d"
    "lo_nibble (0xD0 OR word_of_nat d) = d"
    "hi_nibble (0xC0 OR word_of_nat d) = 12" "hi_nibble (0xD0 OR word_of_nat d) = 13"
    by (auto simp: lo_nibble_def hi_nibble_def)
qed

lemma appendZonedDecimal_value:
  assumes "appendZonedDecimal d p s = Inr b"
  shows "length b = p" "zoned_value b = rescale d s"
proof -
  let ?n = "rescale d s"
  let ?ds = "decimal_digits p ?n"
  let ?z = "\<lambda>i. if i = length ?ds - 1 then if ?n < 0 then 0xD0 else 0xC0 else 0xF0 :: byte"
  have fit: "length (nat_digits (nat \<bar>?n\<bar>)) \<le> p"
    and b: "b = map (\<lambda>i. ?z i OR word_of_nat (?ds ! i)) [0..<length ?ds]"
    using assms by (auto simp: appendZonedDecimal_def Let_def split: if_splits)
  note D = decimal_digits_facts [OF fit]
  show len: "length b = p" using D by (simp add: b)
  have p: "0 < p" using fit by (cases "nat_digits (nat \<bar>?n\<bar>)") auto
  have dig: "?ds ! i < 10" if "i < p" for i
    using D that by (simp add: list_all_length)
  have lo: "lo_nibble (?z i OR word_of_nat (?ds ! i)) = ?ds ! i" if "i < p" for i
    using zoned_byte(1-3) [OF dig [OF that]]
    by (cases "?n < 0"; cases "i = length ?ds - 1") (simp_all only: if_True if_False simp_thms)
  have "map (\<lambda>c. if 9 < lo_nibble c then 0 else lo_nibble c) b = ?ds"
  proof (rule nth_equalityI)
    fix i assume "i < length (map (\<lambda>c. if 9 < lo_nibble c then 0 else lo_nibble c) b)"
    then have i: "i < p" using len by simp
    then have "b ! i = ?z i OR word_of_nat (?ds ! i)" using D(1) by (simp add: b)
    then show "map (\<lambda>c. if 9 < lo_nibble c then 0 else lo_nibble c) b ! i = ?ds ! i"
      using lo [OF i] dig [OF i] i len by simp
  qed (use D(1) len in simp)
  moreover have "hi_nibble (last b) = (if ?n < 0 then 13 else 12)" "b \<noteq> []"
    using p len dig [of "p - 1"] zoned_byte D(1) by (auto simp: b last_map)
  ultimately show "zoned_value b = ?n"
    using digits_or_zero_digits [OF D(2)] D(3) by (simp add: zoned_value_def Let_def)
qed

section \<open>Dates and times\<close>

lemma TrimSpace_ascii:
  assumes "is_ascii s" "s \<noteq> []" "\<not> isSpace (of_char (hd s))" "\<not> isSpace (of_char (last s))"
  shows "TrimSpace s = s"
proof -
  have segs: "utf8_segs b = map (\<lambda>c. (unat c, [c])) b" if "\<not> hasHigh b" for b
    using that
  proof (induction b)
    case (Cons c b)
    then have "unat c < 128" "\<not> hasHigh b" by (auto simp: hasHigh_def word_le_nat_alt)
    then show ?case using Cons.IH by (simp add: utf8_DecodeRune_def utf8_step_def)
  qed simp
  let ?m = "map (\<lambda>c. (unat c, [c])) (str_bytes s)"
  have un: "unat (char_byte c) = of_char c" for c
    using of_char_less_256 [of c] by (simp add: char_byte_def unat_of_nat)
  obtain c t where ct: "s = c # t" using assms(2) by (cases s) auto
  obtain t' c' where ct': "s = t' @ [c']" using assms(2) by (cases s rule: rev_cases) auto
  have "dropWhile (\<lambda>(r, b). isSpace r) ?m = ?m"
    using assms(3) by (simp add: ct str_bytes_def un)
  moreover have "dropWhile (\<lambda>(r, b). isSpace r) (rev ?m) = rev ?m"
    using assms(4) by (simp add: ct' str_bytes_def un)
  moreover have "concat (map snd ?m) = str_bytes s" by (simp add: o_def concat_map_singleton)
  ultimately show ?thesis
    using segs [OF ascii_not_high [OF assms(1)]] by (simp add: TrimSpace_def Let_def)
qed

definition plain :: "string \<Rightarrow> bool" where
  "plain s \<longleftrightarrow> list_all (\<lambda>c. (of_char c :: nat) < 128 \<and> \<not> isSpace (of_char c)) s"

lemma plain_append [simp]: "plain (s @ t) \<longleftrightarrow> plain s \<and> plain t"
  by (simp add: plain_def)

lemma plain_Nil [simp]: "plain ''''"
  by (simp add: plain_def)

lemma plain_Cons: "plain (c # s) \<longleftrightarrow> (of_char c :: nat) < 128 \<and> \<not> isSpace (of_char c) \<and> plain s"
  by (simp add: plain_def)

lemma TrimSpace_plain: "plain s \<Longrightarrow> TrimSpace s = s"
proof (cases "s = []")
  case True
  then show ?thesis by (simp add: TrimSpace_def str_bytes_def bytes_str_def)
next
  case False
  assume "plain s"
  then show ?thesis
    using False by (intro TrimSpace_ascii) (auto simp: plain_def is_ascii_def list_all_iff)
qed

lemma plain_digits: "list_all (\<lambda>d. d < 10) ds \<Longrightarrow> plain (map digit_char ds)"
  by (induction ds) (auto simp: plain_Cons of_char_digit_char isSpace_def)

lemma plain_fmt_0d: "0 \<le> i \<Longrightarrow> plain (fmt_0d w i)"
proof -
  assume "0 \<le> i"
  moreover have "list_all (\<lambda>d. d < 10) (replicate k 0 @ nat_digits n)" for k n
    by (auto simp: list_all_iff dest: nat_digits_less)
  ultimately show ?thesis
    unfolding fmt_0d_def zero_pad_digits using plain_digits by (simp del: map_append)
qed

lemma two_digits:
  assumes "0 \<le> i" "i < 100"
  shows "length (fmt_0d 2 i) = 2" "Atoi (fmt_0d 2 i) = Some i" "plain (fmt_0d 2 i)"
  using assms fmt_0d_length [of 2 i] Atoi_fmt_0d [of 2 i] plain_fmt_0d [of i 2] by simp_all

lemma month_days_le: "month_days y m \<le> 31"
  by (simp add: month_days_def)

lemma Date_String_fields:
  assumes "date_ok d"
  shows "length (fmt_0d 4 (Year d)) = 4" "Atoi (fmt_0d 4 (Year d)) = Some (Year d)"
    "length (fmt_0d 2 (Month d)) = 2" "Atoi (fmt_0d 2 (Month d)) = Some (Month d)"
    "length (fmt_0d 2 (Day d)) = 2" "Atoi (fmt_0d 2 (Day d)) = Some (Day d)"
    "length (Date_String d) = 10" "plain (Date_String d)"
proof -
  have r: "0 \<le> Year d" "Year d < 10000" "0 \<le> Month d" "Month d < 100" "0 \<le> Day d" "Day d < 100"
    using assms month_days_le [of "Year d" "Month d"] by (auto simp: date_ok_def)
  show y: "length (fmt_0d 4 (Year d)) = 4" "Atoi (fmt_0d 4 (Year d)) = Some (Year d)"
    using r fmt_0d_length [of 4 "Year d"] Atoi_fmt_0d [of 4 "Year d"] by simp_all
  show m: "length (fmt_0d 2 (Month d)) = 2" "Atoi (fmt_0d 2 (Month d)) = Some (Month d)"
    and d: "length (fmt_0d 2 (Day d)) = 2" "Atoi (fmt_0d 2 (Day d)) = Some (Day d)"
    using r two_digits by auto
  show "length (Date_String d) = 10" using y m d by (simp add: Date_String_def)
  show "plain (Date_String d)"
    using r plain_fmt_0d by (simp add: Date_String_def plain_Cons isSpace_def)
qed

lemma parseDate_Date_String:
  assumes "date_ok d"
  shows "parseDate (Date_String d) = VDate d"
proof -
  note f = Date_String_fields [OF assms]
  have "take 4 (Date_String d) = fmt_0d 4 (Year d)" "take 2 (drop 5 (Date_String d)) = fmt_0d 2 (Month d)"
    "take 2 (drop 8 (Date_String d)) = fmt_0d 2 (Day d)"
    using f by (simp_all add: Date_String_def)
  then show ?thesis
    using f by (simp add: parseDate_def TrimSpace_plain)
qed

lemma Time_fields:
  assumes "time_ok t"
  shows "length (fmt_0d 2 (Hour t)) = 2" "Atoi (fmt_0d 2 (Hour t)) = Some (Hour t)"
    "length (fmt_0d 2 (Minute t)) = 2" "Atoi (fmt_0d 2 (Minute t)) = Some (Minute t)"
    "length (fmt_0d 2 (Second t)) = 2" "Atoi (fmt_0d 2 (Second t)) = Some (Second t)"
    "plain (fmt_0d 2 (Hour t))" "plain (fmt_0d 2 (Minute t))" "plain (fmt_0d 2 (Second t))"
  using assms two_digits by (simp_all add: time_ok_def)

text \<open>\<open>parseTime\<close> does not look at the separators.\<close>

lemma parseTime_fields:
  assumes "time_ok t" "plain [a]" "plain [b]"
  shows "parseTime (fmt_0d 2 (Hour t) @ [a] @ fmt_0d 2 (Minute t) @ [b] @ fmt_0d 2 (Second t)) = VTime t"
proof -
  let ?s = "fmt_0d 2 (Hour t) @ [a] @ fmt_0d 2 (Minute t) @ [b] @ fmt_0d 2 (Second t)"
  note f = Time_fields [OF assms(1)]
  have "plain ?s" using f assms plain_append by (metis append_Cons append_Nil)
  moreover have "take 2 ?s = fmt_0d 2 (Hour t)" "take 2 (drop 3 ?s) = fmt_0d 2 (Minute t)"
    "take 2 (drop 6 ?s) = fmt_0d 2 (Second t)" "length ?s = 8"
    using f by simp_all
  ultimately show ?thesis using f unfolding parseTime_def by (simp only: TrimSpace_plain) simp
qed

lemma parseTime_Time_String: "time_ok t \<Longrightarrow> parseTime (Time_String t) = VTime t"
  using parseTime_fields [of t "CHR '':''" "CHR '':''"] by (simp add: Time_String_def plain_Cons isSpace_def)

lemma length_Time_String: "time_ok t \<Longrightarrow> length (Time_String t) = 8"
  by (simp add: Time_String_def Time_fields)

definition timestamp_ok :: "Timestamp \<Rightarrow> bool" where
  "timestamp_ok ts \<longleftrightarrow> date_ok (tsDate ts) \<and> time_ok (tsTime ts) \<and> 0 \<le> Nanos ts \<and> Nanos ts < 10 ^ 9"

lemma formatTimestamp_parse:
  assumes "timestamp_ok ts"
  obtains s where "formatTimestamp (VTimestamp ts) = Some s" "length s = 32" "parseTimestamp s = VTimestamp ts"
proof -
  let ?d = "Date_String (tsDate ts)"
  let ?t = "fmt_0d 2 (Hour (tsTime ts)) @ ''.'' @ fmt_0d 2 (Minute (tsTime ts)) @ ''.'' @ fmt_0d 2 (Second (tsTime ts))"
  let ?n = "fmt_0d 9 (Nanos ts)"
  let ?s = "?d @ ''-'' @ ?t @ ''.'' @ ?n @ ''000''"
  have ok: "date_ok (tsDate ts)" "time_ok (tsTime ts)" "0 \<le> Nanos ts" "Nanos ts < 10 ^ 9"
    using assms by (simp_all add: timestamp_ok_def)
  note d = Date_String_fields [OF ok(1)] and t = Time_fields [OF ok(2)]
  have n: "length ?n = 9" "Atoi ?n = Some (Nanos ts)" "plain ?n"
    using ok fmt_0d_length [of 9 "Nanos ts"] Atoi_fmt_0d [of 9 "Nanos ts"] plain_fmt_0d by simp_all
  have "plain ?s" using d t n by (simp add: plain_Cons isSpace_def)
  moreover have "length ?s = 32" using d t n by simp
  moreover have "take 10 ?s = ?d" "drop 20 ?s = ?n @ ''000''" using d t n by simp_all
  moreover have "take 8 (drop 11 ?s) = ?t" using d(7) t n by simp
  moreover have "parseTime ?t = VTime (tsTime ts)"
    using parseTime_fields [OF ok(2), of "CHR ''.''" "CHR ''.''"] by (simp add: plain_Cons isSpace_def)
  moreover have "frac_nanos (?n @ ''000'') = Nanos ts" using n by (simp add: frac_nanos_def)
  ultimately have "parseTimestamp ?s = VTimestamp ts"
    unfolding parseTimestamp_def using parseDate_Date_String [OF ok(1)]
    by (simp only: TrimSpace_plain Let_def) simp
  then show thesis
    using that [of ?s] \<open>length ?s = 32\<close> by (simp add: formatTimestamp_def)
qed

section \<open>What the server reads from one parameter\<close>

text \<open>
  The value the server sees, where the encoding carries it exactly; \<open>None\<close> makes no claim
  (text with non-ASCII characters, strings bound as dates, decimals outside the range of
  DECFLOAT, row ids).
\<close>

definition got_value :: "'a conv \<Rightarrow> ('a \<Rightarrow> Value) \<Rightarrow> Value option" where
  "got_value c f = (case c of Got a \<Rightarrow> Some (f a) | _ \<Rightarrow> None)"

definition decfloat_exact :: "nat \<Rightarrow> Decimal \<Rightarrow> bool" where
  "decfloat_exact n d \<longleftrightarrow>
     (n = 8 \<and> decfloat_fits 398 8 16 d \<and> hd (coeff_digits 16 d) \<le> 8) \<or>
     (n = 16 \<and> decfloat_fits 6176 12 34 d \<and> hd (coeff_digits 34 d) \<le> 8)"

definition wire_value :: "float_ops \<Rightarrow> paramEncoding \<Rightarrow> Value \<Rightarrow> Value option" where
  "wire_value F e v =
     (let t = drdaType e; scale = unat (pLength e AND 0xFF); n = unat (pLength e) in
      if t = TypeNSmall then got_value (toInt64 F v) (\<lambda>x. VInt16 (ucast x))
      else if t = TypeNInteger then got_value (toInt64 F v) (\<lambda>x. VInt32 (ucast x))
      else if t = TypeNInteger8 then got_value (toInt64 F v) VInt64
      else if t = TypeNFloat4 then got_value (toFloat64 F v) (\<lambda>x. VFloat32 (f64_to_f32 F x))
      else if t = TypeNFloat8 then got_value (toFloat64 F v) VFloat64
      else if t = TypeNBoolean then (if n = 1 then Some v else None)
      else if t \<in> {TypeNDecimal, TypeNZDecimal} then
        got_value (toDecimal F v) (\<lambda>d. VDecimal \<lparr>Unscaled = rescale d scale, dScale = int scale\<rparr>)
      else if t = TypeNDecFloat then
        (case toDecimal F v of Got d \<Rightarrow> if decfloat_exact n d then Some (VDecimal d) else None | _ \<Rightarrow> None)
      else if t = TypeNDate then
        (case v of VDate d \<Rightarrow> if date_ok d \<and> n = 10 then Some v else None | _ \<Rightarrow> None)
      else if t = TypeNTime then
        (case v of VTime x \<Rightarrow> if time_ok x \<and> n = 8 then Some v else None | _ \<Rightarrow> None)
      else if t = TypeNTimestamp then
        (case v of VTimestamp ts \<Rightarrow> if timestamp_ok ts \<and> n = 32 then Some v else None | _ \<Rightarrow> None)
      else if t = TypeNVarMix then
        (case toString F v of Got s \<Rightarrow> if is_ascii s \<and> length s < 65536 then Some (VString s) else None | _ \<Rightarrow> None)
      else if t = TypeNFixBytes then
        (case toBytes v of Some b \<Rightarrow> if n < 0x8000 then Some (VBytes (take n b @ replicate (n - length b) 0)) else None
         | None \<Rightarrow> None)
      else if t = TypeNVarBinary then map_option VBytes (toBytes v)
      else if t \<in> {TypeNLobBytes, TypeNLobCMixed} then
        (if pLength e = 0x8009 then Some (VLobRef (t = TypeNLobCMixed)) else None)
      else None)"

lemma need_Inr: "need v want c f = Inr b \<longleftrightarrow> (\<exists>a. c = Got a \<and> f a = Inr b)"
  by (auto simp: need_def split: conv.splits)

lemma option_conv_Got [simp]: "option_conv x = Got a \<longleftrightarrow> x = Some a"
  by (auto simp: option_conv_def split: option.splits)

lemma got_value_Some: "got_value c f = Some x \<longleftrightarrow> (\<exists>a. c = Got a \<and> x = f a)"
  by (auto simp: got_value_def split: conv.splits)

lemma reads_nullable:
  assumes "FieldDesc_Nullable f" "reads le sbc (decodeBase d f) bs v"
  shows "reads le sbc (decodeField d f) (0 # bs) v"
  unfolding decodeField_def using assms by (auto intro!: reads_u8_then)

lemma reads_take_return:
  "length bs = n \<Longrightarrow> g (Some bs) = v \<Longrightarrow>
     reads le sbc (do { b \<leftarrow> reader_take n; State_Monad.return (g b) }) bs v"
  by (rule reads_take_then) auto

lemma reads_len16:
  "length bs < 65536 \<Longrightarrow> g (Some bs) = v \<Longrightarrow>
     reads le sbc (do { k \<leftarrow> reader_u16BE; b \<leftarrow> reader_take (unat k); State_Monad.return (g b) })
       (BE_Put16 (word_of_nat (length bs)) @ bs) v"
  by (rule reads_bind [OF reads_u16BE]) (auto intro!: reads_take_return simp: unat_of_nat16)

lemma enc_field_sel [simp]:
  "fType (enc_field e) = drdaType e" "fLength (enc_field e) = pLength e" "fCCSID (enc_field e) = 0"
  by (simp_all add: enc_field_def)

lemma enc_nullable: "drdaType e AND 1 = 1 \<Longrightarrow> FieldDesc_Nullable (enc_field e)"
  by (simp add: FieldDesc_Nullable_def IsNullable_def)

definition decoder_for :: "bool \<Rightarrow> RowDecoder \<Rightarrow> bool" where
  "decoder_for le d \<longleftrightarrow> dLittleEndian d = le \<and> (dCCSIDMBC d = 0 \<or> dCCSIDMBC d = 1208)"

lemma decoder_u32_put: "dLittleEndian d = le \<Longrightarrow> reads le sbc (decoder_u32 d) (put32 le x) x"
  unfolding decoder_u32_def by (rule reads_take_return) (auto simp: put32_def)

lemma len_8009: "(0x8009 AND 0x7FFF :: 16 word) = 9" by simp

lemma unat_and_7FFF: "unat (w :: 16 word) < 0x8000 \<Longrightarrow> unat (w AND 0x7FFF) = unat w"
  using and_mask_mod [of "unat w" 15] by (simp add: unsigned_and_eq)

lemma reads_then_return:
  "reads le sbc m bs x \<Longrightarrow> reads le sbc (do { v \<leftarrow> m; State_Monad.return (f v) }) bs (f x)"
  by (rule reads_bind_return) (auto intro: reads_return)

lemmas param_defs = decodeBase_def Let_def wire_value_def appendParam_def

lemma reads_integers:
  assumes "appendParam le F e v = Inr b" "wire_value F e v = Some v'" "dLittleEndian d = le"
    and "drdaType e \<in> {TypeNSmall, TypeNInteger, TypeNInteger8, TypeNFloat4, TypeNFloat8}"
  shows "reads le sbc (decodeBase d (enc_field e)) b v'"
  using assms
  by (elim insertE emptyE)
     (auto simp: param_defs need_Inr got_value_Some
       intro!: reads_then_return [where f = VInt16] reads_then_return [where f = VInt32]
         reads_then_return [where f = VInt64] reads_then_return [where f = VFloat32]
         reads_then_return [where f = VFloat64] reads_u decoder_u32_put)

lemma reads_decimals:
  assumes "appendParam le F e v = Inr b" "wire_value F e v = Some v'"
    and "drdaType e \<in> {TypeNDecimal, TypeNZDecimal}"
  shows "reads le sbc (decodeBase d (enc_field e)) b v'"
  using assms
  by (elim insertE emptyE)
     (auto simp: param_defs need_Inr got_value_Some Precision_def Scale_def
       decodePackedDecimal_def decodeZonedDecimal_def
       intro!: reads_take_return dest: appendPackedDecimal_value appendZonedDecimal_value)

lemma decfloat_exact_value:
  assumes "decfloat_exact n d" "encodeDecFloat d n = Some b"
  shows "length b = n" "decFloat_value b = VDecimal d"
  using assms decFloat_roundtrip [OF formats(1), of 398 d] decFloat_roundtrip [OF formats(2), of 6176 d]
  by (auto simp: decfloat_exact_def encodeDecFloat_def decFloat_value_def decodeDecFloat_def)

lemma reads_text_forms:
  assumes "appendParam le F e v = Inr b" "wire_value F e v = Some v'"
    and "drdaType e \<in> {TypeNDecFloat, TypeNDate, TypeNTime, TypeNBoolean}"
  shows "reads le sbc (decodeBase d (enc_field e)) b v'"
  using assms
  by (elim insertE emptyE)
     (auto simp: param_defs need_Inr or_nil_def formatDate_def formatTime_def Date_String_fields
       length_Time_String parseDate_Date_String parseTime_Time_String decfloat_exact_value
       split: Value.splits if_splits conv.splits option.splits
       intro!: reads_take_return)

lemma reads_timestamp:
  assumes "appendParam le F e v = Inr b" "wire_value F e v = Some v'" "drdaType e = TypeNTimestamp"
  shows "reads le sbc (decodeBase d (enc_field e)) b v'"
proof -
  obtain ts where v: "v = VTimestamp ts" "v' = v" "timestamp_ok ts" "unat (pLength e) = 32"
    using assms by (auto simp: wire_value_def Let_def split: Value.splits if_splits)
  obtain s where s: "formatTimestamp (VTimestamp ts) = Some s" "length s = 32" "parseTimestamp s = VTimestamp ts"
    using formatTimestamp_parse [OF v(3)] .
  then have "b = str_bytes s"
    using assms v by (simp add: appendParam_def Let_def need_def option_conv_def PadASCII_def)
  then show ?thesis
    using s v assms(3) by (auto simp: decodeBase_def Let_def or_nil_def intro!: reads_take_return)
qed

lemma reads_strings:
  assumes "appendParam le F e v = Inr b" "wire_value F e v = Some v'"
    and "dCCSIDMBC d = 0 \<or> dCCSIDMBC d = 1208"
    and "drdaType e \<in> {TypeNVarMix, TypeNFixBytes, TypeNVarBinary}"
  shows "reads le sbc (decodeBase d (enc_field e)) b v'"
  using assms
  by (elim insertE emptyE)
     (auto simp: param_defs need_Inr or_nil_def cloneBytes_def decodeText_def text_base_def pick_ccsid_def
       decode_ascii unat_and_7FFF
       split: if_splits conv.splits option.splits
       intro!: reads_take_return reads_len16 reads_len16 [where bs = "str_bytes _", simplified])

lemma reads_lobs:
  assumes "appendParam le F e v = Inr b" "wire_value F e v = Some v'"
    and "drdaType e \<in> {TypeNLobBytes, TypeNLobCMixed}"
  shows "reads le sbc (decodeBase d (enc_field e)) b v'"
  using assms
  by (elim insertE emptyE)
     (auto simp: param_defs need_Inr lob_length_def split: if_splits intro!: reads_take_return)

lemma wire_value_types:
  "wire_value F e v = Some v' \<Longrightarrow>
     drdaType e \<in> {TypeNSmall, TypeNInteger, TypeNInteger8, TypeNFloat4, TypeNFloat8, TypeNBoolean,
       TypeNDecimal, TypeNZDecimal, TypeNDecFloat, TypeNDate, TypeNTime, TypeNTimestamp, TypeNVarMix,
       TypeNFixBytes, TypeNVarBinary, TypeNLobBytes, TypeNLobCMixed}"
  by (auto simp: wire_value_def Let_def split: if_splits)

lemma reads_param:
  assumes "appendParam le F e v = Inr b" "wire_value F e v = Some v'" "decoder_for le d"
  shows "reads le sbc (decodeField d (enc_field e)) (0 # b) v'"
proof -
  have le: "dLittleEndian d = le" and mbc: "dCCSIDMBC d = 0 \<or> dCCSIDMBC d = 1208"
    using assms(3) by (auto simp: decoder_for_def)
  note t = wire_value_types [OF assms(2)]
  have "drdaType e AND 1 = 1" using t by auto
  then have "FieldDesc_Nullable (enc_field e)" by (rule enc_nullable)
  moreover have "reads le sbc (decodeBase d (enc_field e)) b v'"
    using t reads_integers [OF assms(1,2) le] reads_decimals [OF assms(1,2)]
      reads_text_forms [OF assms(1,2)] reads_timestamp [OF assms(1,2)] reads_strings [OF assms(1,2) mbc]
      reads_lobs [OF assms(1,2)] by blast
  ultimately show ?thesis by (rule reads_nullable)
qed

section \<open>A row of parameters\<close>

definition sent_value :: "float_ops \<Rightarrow> paramEncoding \<Rightarrow> Value \<Rightarrow> Value option" where
  "sent_value F e v =
     (if v = VNil then if drdaType e AND 1 = 1 then Some VNil else None else wire_value F e v)"

lemma reads_sent_field:
  assumes "v = VNil \<longrightarrow> b = [0xFF]"
    and "v \<noteq> VNil \<longrightarrow> (\<exists>b'. appendParam le F e v = Inr b' \<and> b = 0 # b')"
    and "sent_value F e v = Some v'" "decoder_for le d"
  shows "reads le sbc (decodeField d (enc_field e)) b v'"
proof (cases "v = VNil")
  case True
  then have v: "b = [0xFF]" "v' = VNil" "drdaType e AND 1 = 1"
    using assms by (auto simp: sent_value_def split: if_splits)
  have "reads le sbc (decodeField d (enc_field e)) [0xFF] VNil"
    unfolding decodeField_def using enc_nullable [OF v(3)]
    by (auto intro!: reads_u8_then reads_return)
  then show ?thesis using v by simp
next
  case False
  then show ?thesis using assms reads_param by (auto simp: sent_value_def)
qed

lemma reads_fields_Cons:
  assumes "reads le sbc (decodeField d f) b v" "reads le sbc (decodeFields d fs) bs (Some vs)"
  shows "reads le sbc (decodeFields d (f # fs)) (b @ bs) (Some (v # vs))"
proof -
  have f: "reads le sbc (reader_failed \<bind> g) cs a" if "reads le sbc (g False) cs a" for g cs and a :: "Value list option"
    using that by (simp add: reads_def reader_failed_def)
  have "reads le sbc (do { vs \<leftarrow> decodeFields d fs; State_Monad.return (map_option (Cons v) vs) }) bs (Some (v # vs))"
    using reads_then_return [OF assms(2), of "map_option (Cons v)"] by simp
  then show ?thesis
    by (auto intro!: reads_bind [OF assms(1)] f)
qed

lemma reads_encodeValues:
  "encodeValues le F i evs = Inr (dta, ext) \<Longrightarrow>
     list_all2 (\<lambda>(e, v) v'. sent_value F e v = Some v') evs vs' \<Longrightarrow> decoder_for le d \<Longrightarrow>
     reads le sbc (decodeFields d (map (enc_field \<circ> fst) evs)) dta (Some vs')"
proof (induction evs arbitrary: i dta ext vs')
  case Nil
  then show ?case by (auto intro: reads_return)
next
  case (Cons ev evs)
  obtain e v where ev: "ev = (e, v)" by fastforce
  obtain v' ws where vs: "vs' = v' # ws" "sent_value F e v = Some v'"
      "list_all2 (\<lambda>(e, v) v'. sent_value F e v = Some v') evs ws"
    using Cons.prems(2) by (auto simp: ev list_all2_Cons1)
  obtain b dta' ext' where b: "dta = b @ dta'" "encodeValues le F (i + 1) evs = Inr (dta', ext')"
      "v = VNil \<longrightarrow> b = [0xFF]" "v \<noteq> VNil \<longrightarrow> (\<exists>b'. appendParam le F e v = Inr b' \<and> b = 0 # b')"
  proof (cases "v = VNil")
    case True
    then show thesis
      using Cons.prems(1) that [of "[0xFF]"] by (auto simp: ev split: sum.splits prod.splits)
  next
    case False
    then obtain b' where "appendParam le F e v = Inr b'"
      using Cons.prems(1) by (auto simp: ev split: sum.splits)
    then show thesis
      using Cons.prems(1) False that [of "0 # b'"] by (auto simp: ev split: sum.splits prod.splits)
  qed
  show ?case
    using reads_fields_Cons [OF reads_sent_field [OF b(3,4) vs(2) Cons.prems(3)]
        Cons.IH [OF b(2) vs(3) Cons.prems(3)]]
    by (simp add: b(1) vs(1) ev)
qed

section \<open>Calendar round trip\<close>

lemma days_before_year_bounds:
  "146097 * (y - 1) - 699 \<le> 400 * days_before_year y" "400 * days_before_year y \<le> 146097 * (y - 1) + 396"
proof -
  define k where "k = y - 1"
  have d: "n * (k div n) \<le> k \<and> k < n * (k div n) + n" if "0 < n" for n :: int
    using that mult_div_mod_eq [of n k] pos_mod_bound [of n k] pos_mod_sign [of n k] by linarith
  define a b c where "a = k div 4" and "b = k div 100" and "c = k div 400"
  have bounds: "4 * a \<le> k" "k < 4 * a + 4" "100 * b \<le> k" "k < 100 * b + 100" "400 * c \<le> k" "k < 400 * c + 400"
    using d [of 4] d [of 100] d [of 400] by (simp_all add: a_def b_def c_def)
  have e: "days_before_year y = 365 * k + a - b + c"
    by (simp add: days_before_year_def k_def a_def b_def c_def)
  show "146097 * (y - 1) - 699 \<le> 400 * days_before_year y"
    using bounds unfolding e k_def [symmetric] by simp
  show "400 * days_before_year y \<le> 146097 * (y - 1) + 396"
    using bounds unfolding e k_def [symmetric] by simp
qed

lemma days_before_year_less: "days_before_year y < days_before_year (y + 1)"
  by (simp add: days_before_year_Suc)

lemma civil_year_eq:
  assumes "days_before_year y \<le> n" "n < days_before_year (y + 1)"
  shows "civil_year n = y"
proof -
  define q where "q = n * 400 div 146097"
  have q: "146097 * q \<le> n * 400" "n * 400 < 146097 * q + 146097"
    using mult_div_mod_eq [of 146097 "n * 400"] pos_mod_bound [of 146097 "n * 400"]
      pos_mod_sign [of 146097 "n * 400"] by (simp_all add: q_def)
  have l: "146097 * (y - 1) - 699 \<le> n * 400"
    using assms(1) days_before_year_bounds(1) [of y] by simp
  have "400 * days_before_year (y + 1) \<le> 146097 * y + 396"
    using days_before_year_bounds(2) [of "y + 1"] by simp
  then have u: "n * 400 < 146097 * y" using assms(2) by simp
  have "y - 2 \<le> q" using q(2) l by simp
  moreover have "q \<le> y - 1" using q(1) u by simp
  ultimately consider "q + 1 = y" | "q + 1 = y - 1" by linarith
  then show ?thesis
    using assms days_before_year_less [of "y - 1"]
    by cases (auto simp: civil_year_def Let_def add.commute simp flip: q_def)
qed

lemma civil_month_eq:
  assumes "1 \<le> m" "m \<le> 12" "days_before_month y m \<le> k" "k < days_before_month y m + month_days y m"
  shows "civil_month y k = m"
  using month_range [OF assms(1,2)] assms(3,4)
  by (elim insertE emptyE; cases "is_leap y";
      simp add: civil_month_def days_before_month_def month_days_def)

lemma civil_date_unix_days:
  assumes "date_ok d"
  shows "civil_date (unix_days (Year d) (Month d) (Day d)) = d"
proof -
  let ?y = "Year d" and ?m = "Month d"
  let ?k = "days_before_month ?y ?m + (Day d - 1)"
  have m: "1 \<le> ?m" "?m \<le> 12" "1 \<le> Day d" "Day d \<le> month_days ?y ?m"
    using assms by (simp_all add: date_ok_def)
  have k: "0 \<le> ?k" "?k < (if is_leap ?y then 366 else 365)"
    using month_range [OF m(1,2)] m(3,4)
    by (elim insertE emptyE; cases "is_leap ?y"; simp add: days_before_month_def month_days_def)+
  have n: "unix_days ?y ?m (Day d) + 719162 = days_before_year ?y + ?k"
    using m by (simp add: unix_days_month)
  have y: "civil_year (days_before_year ?y + ?k) = ?y"
    using k by (intro civil_year_eq) (auto simp: days_before_year_Suc)
  have "civil_month ?y ?k = ?m" using m by (intro civil_month_eq) auto
  then show ?thesis
    using y by (simp add: civil_date_def n Let_def)
qed

lemma format_timestamp_eq:
  assumes "timestamp_ok ts" "Hour (tsTime ts) < 24"
  shows "formatTimestamp (VTimestamp ts) = Some (format_timestamp ts @ ''000'')"
proof -
  let ?d = "tsDate ts" and ?t = "tsTime ts"
  define u where "u = unix_days (Year ?d) (Month ?d) (Day ?d)"
  define h mi s where "h = Hour ?t" and "mi = Minute ?t" and "s = Second ?t"
  have ok: "date_ok ?d" "0 \<le> h" "h < 24" "0 \<le> mi" "mi < 60" "0 \<le> s" "s < 60" "0 \<le> Nanos ts" "Nanos ts < 10 ^ 9"
    using assms by (auto simp: timestamp_ok_def time_ok_def h_def mi_def s_def)
  define r where "r = h * 3600 + mi * 60 + s"
  have r: "0 \<le> r" "r < 86400" using ok by (auto simp: r_def)
  have hms: "r div 3600 = h" "r div 60 mod 60 = mi" "r mod 60 = s"
  proof -
    have "r = 3600 * h + (mi * 60 + s)" by (simp add: r_def)
    then show "r div 3600 = h" using ok int_div_pos_eq [of r 3600 h "mi * 60 + s"] by simp
    have e: "r = 60 * (h * 60 + mi) + s" by (simp add: r_def)
    then have "r div 60 = h * 60 + mi" using ok int_div_pos_eq [of r 60 "h * 60 + mi" s] by simp
    then show "r div 60 mod 60 = mi" using ok int_mod_pos_eq [of "h * 60 + mi" 60 h mi] by simp
    show "r mod 60 = s" using e ok int_mod_pos_eq [of r 60 "h * 60 + mi" s] by simp
  qed
  have t: "ToTime ts = (u * 86400 + r, Nanos ts)"
    using ok int_div_pos_eq [of "Nanos ts" "10 ^ 9" 0 "Nanos ts"] int_mod_pos_eq [of "Nanos ts" "10 ^ 9" 0 "Nanos ts"]
    by (simp add: ToTime_def u_def r_def h_def mi_def s_def)
  have d: "(u * 86400 + r) div 86400 = u" "(u * 86400 + r) mod 86400 = r"
    using r int_div_pos_eq [of "u * 86400 + r" 86400 u r] int_mod_pos_eq [of "u * 86400 + r" 86400 u r]
    by simp_all
  have "format_timestamp ts = Date_String ?d @ ''-'' @ fmt_0d 2 h @ ''.'' @ fmt_0d 2 mi @ ''.'' @ fmt_0d 2 s
      @ ''.'' @ fmt_0d 9 (Nanos ts)"
    unfolding format_timestamp_def t Let_def prod.case d hms
    by (simp only: civil_date_unix_days [OF ok(1), folded u_def])
  then show ?thesis by (simp add: formatTimestamp_def h_def mi_def s_def)
qed

section \<open>Decimal text\<close>

lemma IndexByte_append: "x \<notin> set p \<Longrightarrow> IndexByte (p @ x # s) x = Some (length p)"
  by (induction p) auto

lemma IndexByte_None: "x \<notin> set p \<Longrightarrow> IndexByte p x = None"
  by (induction p) auto

lemma digit_text:
  assumes "list_all (\<lambda>d. d < 10) ds"
  shows "CHR ''.'' \<notin> set (map digit_char ds)" "CHR ''-'' \<notin> set (map digit_char ds)"
    "CHR ''+'' \<notin> set (map digit_char ds)" "plain (map digit_char ds)"
proof -
  have "digit_char d \<noteq> CHR ''.'' \<and> digit_char d \<noteq> CHR ''-'' \<and> digit_char d \<noteq> CHR ''+''" if "d \<in> set ds" for d
    using assms that digit_char_facts [of d] by (auto simp: list_all_iff)
  then show "CHR ''.'' \<notin> set (map digit_char ds)" "CHR ''-'' \<notin> set (map digit_char ds)"
    "CHR ''+'' \<notin> set (map digit_char ds)" by fastforce+
  show "plain (map digit_char ds)" using assms by (rule plain_digits)
qed

text \<open>A sign, digits, and a point before the last \<open>k\<close> digits.\<close>

lemma parseDecimal_digits:
  assumes ds: "list_all (\<lambda>d. d < 10) ds" and k: "k < length ds" "k < 2 ^ 31"
  defines "t \<equiv> map digit_char (take (length ds - k) ds)
      @ (if k = 0 then '''' else CHR ''.'' # map digit_char (drop (length ds - k) ds))"
  shows "parseDecimalString t = Some \<lparr>Unscaled = int (digits_nat ds), dScale = int k\<rparr>"
    "parseDecimalString (CHR ''-'' # t) = Some \<lparr>Unscaled = - int (digits_nat ds), dScale = int k\<rparr>"
proof -
  let ?a = "map digit_char (take (length ds - k) ds)" and ?b = "map digit_char (drop (length ds - k) ds)"
  have la: "list_all (\<lambda>d. d < 10) (take (length ds - k) ds)" "list_all (\<lambda>d. d < 10) (drop (length ds - k) ds)"
    using ds by (auto simp: list_all_iff dest: in_set_takeD in_set_dropD)
  note a = digit_text [OF la(1)] and b = digit_text [OF la(2)]
  have pl: "plain t" "plain (CHR ''-'' # t)"
    using a(4) b(4) by (simp_all add: t_def plain_Cons isSpace_def)
  have ne: "t \<noteq> []" "hd t \<noteq> CHR ''-''" "hd t \<noteq> CHR ''+''"
    using k a by (cases "take (length ds - k) ds"; auto simp: t_def)+
  have split: "(case IndexByte t CHR ''.'' of Some i \<Rightarrow> (take i t, drop (i + 1) t) | None \<Rightarrow> (t, ''''))
      = (?a, if k = 0 then '''' else ?b)"
  proof (cases "k = 0")
    case True
    then have "t = ?a" by (simp add: t_def)
    then show ?thesis using IndexByte_None [OF a(1)] True by simp
  next
    case False
    then show ?thesis using IndexByte_append [OF a(1), of ?b] by (simp add: t_def)
  qed
  have dig: "?a @ (if k = 0 then '''' else ?b) = map digit_char ds" by (simp flip: map_append)
  have big: "big_SetString (map digit_char ds) = Some (int (digits_nat ds))" "map digit_char ds \<noteq> ''''"
    using big_SetString_digits(1) [OF ds] k by (cases ds; simp)+
  have sc: "int32 (int (length (if k = 0 then '''' else ?b))) = int k"
    using k by (simp add: int32_def signed_take_bit_int_eq_self)
  show "parseDecimalString t = Some \<lparr>Unscaled = int (digits_nat ds), dScale = int k\<rparr>"
    unfolding parseDecimalString_def TrimSpace_plain [OF pl(1)] Let_def
    using ne split dig big sc by (simp del: map_append)
  show "parseDecimalString (CHR ''-'' # t) = Some \<lparr>Unscaled = - int (digits_nat ds), dScale = int k\<rparr>"
    unfolding parseDecimalString_def TrimSpace_plain [OF pl(2)] Let_def list.sel
    using split dig big sc by (simp del: map_append)
qed

lemma Decimal_String_shape:
  assumes "0 \<le> dScale d"
  defines "k \<equiv> nat (dScale d)"
  defines "ds \<equiv> (let n = nat_digits (nat \<bar>Unscaled d\<bar>) in
      if k = 0 then n else replicate (k + 1 - length n) 0 @ n)"
  shows "Decimal_String d = (if Unscaled d < 0 then ''-'' else '''')
      @ map digit_char (take (length ds - k) ds)
      @ (if k = 0 then '''' else CHR ''.'' # map digit_char (drop (length ds - k) ds))"
    "k < length ds" "list_all (\<lambda>x. x < 10) ds" "digits_nat ds = nat \<bar>Unscaled d\<bar>"
proof -
  let ?n = "nat_digits (nat \<bar>Unscaled d\<bar>)"
  have nn: "0 < length ?n" by simp
  show "k < length ds" using nn by (auto simp: ds_def Let_def)
  show "list_all (\<lambda>x. x < 10) ds"
    by (auto simp: ds_def Let_def list_all_iff split: if_splits dest: nat_digits_less)
  show "digits_nat ds = nat \<bar>Unscaled d\<bar>" by (simp add: ds_def Let_def digits_nat_append)
  define N where "N = map digit_char ?n"
  have hd: "hd N \<noteq> CHR ''-''" "N \<noteq> []"
    using digit_text(2) [OF nat_digits_ok [of "nat \<bar>Unscaled d\<bar>"]] hd_in_set [of N]
    by (auto simp: N_def)
  have s: "int_str (Unscaled d) = (if Unscaled d < 0 then ''-'' else '''') @ N"
    by (simp add: int_str_def nat_str_def N_def)
  have z: "zero_pad (k + 1) N = map digit_char ds" if "k \<noteq> 0"
    using that by (simp add: zero_pad_def ds_def Let_def N_def)
  show "Decimal_String d = (if Unscaled d < 0 then ''-'' else '''')
      @ map digit_char (take (length ds - k) ds)
      @ (if k = 0 then '''' else CHR ''.'' # map digit_char (drop (length ds - k) ds))"
  proof (cases "k = 0")
    case True
    then show ?thesis using assms by (simp add: Decimal_String_def s ds_def N_def)
  next
    case False
    then have "\<not> dScale d \<le> 0" by (simp add: k_def)
    then show ?thesis
      using False hd z unfolding Decimal_String_def s k_def [symmetric] Let_def
      by (simp add: take_map drop_map)
  qed
qed

section \<open>Properties\<close>

text \<open>
  The FDODSC of any list of parameter encodings, however many continuation triplets it
  takes beyond 84 parameters, is parsed back to exactly those types and lengths.
\<close>

theorem ParseQRYDSC_fdodsc: "ParseQRYDSC (fdodsc encs) = Inr (map enc_field encs)"
  by (rule ParseQRYDSC_fdodsc_fields)


definition sample_floats :: float_ops where
  "sample_floats = \<lparr>f32_to_f64 = ucast, f64_to_f32 = ucast, f64_to_i64 = id, i64_to_f64 = id,
     decimal_to_f64 = (\<lambda>d. 0), f64_text = (\<lambda>x. ''0'')\<rparr>"

definition sample_param :: "16 word \<Rightarrow> int \<Rightarrow> int \<Rightarrow> ColumnDesc" where
  "sample_param t p s = \<lparr>cName = '''', cLabel = '''', cSQLType = t, cLength = 0, cPrecision = p, cScale = s,
     cCCSID = 0, cBaseTable = '''', cBaseSchema = '''', cBaseColumn = '''', cUpdatable = False,
     cGenerated = False\<rparr>"

lemmas param_eval = encodeSQLDTA_def sample_param_def encodingFor_def ColumnDesc_Base_def BaseSQLType_def
  promote_def enc_def appendParam_def toInt64_def toString_def need_def Let_def prec_scale_def
  toDecimal_def appendPackedDecimal_def rescale_def nat_digits.simps decoder_for_def sent_value_def
  wire_value_def got_value_def small_decoder_def is_ascii_def


text \<open>
  An exact decimal survives its text form: \<open>parseDecimalString\<close> reads back every
  \<open>Decimal\<close> with a non-negative scale from its \<open>String\<close>, coefficient and scale unchanged.
\<close>

theorem parseDecimalString_String:
  "0 \<le> dScale d \<and> dScale d < 2 ^ 31 \<longrightarrow> parseDecimalString (Decimal_String d) = Some d"
proof
  assume sc: "0 \<le> dScale d \<and> dScale d < 2 ^ 31"
  define k where "k = nat (dScale d)"
  define ds where "ds = (let n = nat_digits (nat \<bar>Unscaled d\<bar>) in
      if k = 0 then n else replicate (k + 1 - length n) 0 @ n)"
  note sh = Decimal_String_shape [of d, folded k_def, folded ds_def]
  have "k < 2 ^ 31" using sc by (simp add: k_def nat_less_iff)
  note p = parseDecimal_digits [OF sh(3) sh(2) this]
  show "parseDecimalString (Decimal_String d) = Some d"
    using sc sh(1,4) p by (cases "Unscaled d < 0") (auto simp: k_def)
qed

theorem parseDecimalString_String_witness:
  "parseDecimalString (Decimal_String \<lparr>Unscaled = - 5, dScale = 3\<rparr>) = Some \<lparr>Unscaled = - 5, dScale = 3\<rparr>"
  using parseDecimalString_String [of "\<lparr>Unscaled = - 5, dScale = 3\<rparr>"] by simp

text \<open>
  A timestamp bound as character data and one bound as TIMESTAMP are the same text: going
  through \<^verbatim>\<open>time.Time\<close> and back (day count, calendar, clock) changes no field of a valid
  timestamp before 24:00, and the TIMESTAMP form only adds three zeros.
\<close>

theorem toString_timestamp:
  "timestamp_ok ts \<and> Hour (tsTime ts) < 24 \<longrightarrow>
     (\<exists>s. toString F (VTimestamp ts) = Got s \<and> formatTimestamp (VTimestamp ts) = Some (s @ ''000'')
        \<and> parseTimestamp (s @ ''000'') = VTimestamp ts)"
proof
  assume ts: "timestamp_ok ts \<and> Hour (tsTime ts) < 24"
  obtain s where "formatTimestamp (VTimestamp ts) = Some s" "parseTimestamp s = VTimestamp ts"
    using formatTimestamp_parse ts by blast
  then show "\<exists>s. toString F (VTimestamp ts) = Got s \<and> formatTimestamp (VTimestamp ts) = Some (s @ ''000'')
        \<and> parseTimestamp (s @ ''000'') = VTimestamp ts"
    using format_timestamp_eq [of ts] ts by (simp add: toString_def)
qed

theorem toString_timestamp_witness:
  "\<exists>s. toString sample_floats (VTimestamp \<lparr>tsDate = \<lparr>Year = 2024, Month = 2, Day = 29\<rparr>,
       tsTime = \<lparr>Hour = 23, Minute = 59, Second = 58\<rparr>, Nanos = 1\<rparr>) = Got s
     \<and> parseTimestamp (s @ ''000'') = VTimestamp \<lparr>tsDate = \<lparr>Year = 2024, Month = 2, Day = 29\<rparr>,
       tsTime = \<lparr>Hour = 23, Minute = 59, Second = 58\<rparr>, Nanos = 1\<rparr>"
  using toString_timestamp [of "\<lparr>tsDate = \<lparr>Year = 2024, Month = 2, Day = 29\<rparr>,
       tsTime = \<lparr>Hour = 23, Minute = 59, Second = 58\<rparr>, Nanos = 1\<rparr>" sample_floats]
  by (auto simp: timestamp_ok_def date_ok_def time_ok_def month_days_def is_leap_def)

text \<open>
  Binding an integer to a SMALLINT or INTEGER parameter never fails, and the value the
  server sees equals the bound one exactly when it is in the range of the parameter type;
  outside it, it is silently reduced modulo \<open>2 ^ 16\<close> or \<open>2 ^ 32\<close>.
\<close>

theorem integer_binding_wraps:
  "appendParam le F (enc TypeNSmall 2) (VInt64 x) = Inr (put16 le (ucast x)) \<and>
   appendParam le F (enc TypeNInteger 4) (VInt64 x) = Inr (put32 le (ucast x)) \<and>
   (sint (ucast x :: 16 word) = sint x \<longleftrightarrow> - (2 ^ 15) \<le> sint x \<and> sint x < 2 ^ 15) \<and>
   (sint (ucast x :: 32 word) = sint x \<longleftrightarrow> - (2 ^ 31) \<le> sint x \<and> sint x < 2 ^ 31)"
proof -
  have s: "sint (ucast x :: 16 word) = signed_take_bit 15 (sint x)"
    "sint (ucast x :: 32 word) = signed_take_bit 31 (sint x)"
    by (simp_all add: sint_uint unsigned_ucast_eq signed_take_bit_take_bit signed_take_bit_signed_take_bit)
  have eq: "signed_take_bit n i = i \<longleftrightarrow> - (2 ^ n) \<le> i \<and> i < 2 ^ n" for n and i :: int
    using signed_take_bit_int_eq_self_iff [of n i] by auto
  show ?thesis
    unfolding s eq by (simp add: appendParam_def enc_def need_def toInt64_def Let_def)
qed

end
