(* ===== verification/Drda_Stmt.thy ===== *)
theory Drda_Stmt
  imports Drda_Bind Drda_ParamsOk
begin

text \<open>
  Statements (\<^verbatim>\<open>internal/drda/conn.go\<close>, \<^verbatim>\<open>query.go\<close>, \<^verbatim>\<open>params.go\<close>): immediate execution,
  queries, description, parameterised batches and queries, commit and rollback.  Every one
  first closes an open cursor; every one keeps \<open>conn_inv\<close>, so that the invariant holds in
  every state a session can reach.
\<close>

section \<open>Immediate execution and units of work\<close>

definition execImmediateLocked :: "string \<Rightarrow> Result act" where
  "execImmediateLocked sql =
     andthen ensureNoOpenQuery (\<lambda>_. with_conn (\<lambda>c.
     andthen (transmit [(packEXCSQLIMM (pkgSN c) c, 1, True, False), (packSQLSTT sql, 1, False, True)] 1)
       collectResult))"

definition ExecImmediate :: "(rune \<Rightarrow> rune) \<Rightarrow> string \<Rightarrow> Result act" where
  "ExecImmediate u sql = retrying u (execImmediateLocked sql)"

definition endUnitOfWork :: "bytes \<Rightarrow> unit act" where
  "endUnitOfWork command =
     andthen ensureNoOpenQuery (\<lambda>_.
     andthen (transmit [(command, 1, False, True)] 1) (\<lambda>replies.
     andthen (collectResult replies) (\<lambda>_. ok ())))"

definition Commit :: "unit act" where
  "Commit = endUnitOfWork packRDBCMM"

definition Rollback :: "unit act" where
  "Rollback = endUnitOfWork packRDBRLLBCK"

text \<open>\<open>cerr\<close> is the result of closing the socket.\<close>

definition Conn_Close :: "io_error option \<Rightarrow> unit act" where
  "Conn_Close cerr = with_conn (\<lambda>c.
     if connClosed c then ok ()
     else andthen (change (\<lambda>c. c\<lparr>connClosed := True\<rparr>)) (\<lambda>_.
       case cerr of Some e \<Rightarrow> fails (WriteError e) | None \<Rightarrow> ok ()))"

section \<open>Describe\<close>

fun describeReplies ::
  "Conn \<Rightarrow> DSS list \<Rightarrow> ColumnDesc list option \<Rightarrow> ColumnDesc list option
     \<Rightarrow> conn_error + ColumnDesc list option \<times> ColumnDesc list option" where
  "describeReplies c [] cols params = Inr (cols, params)"
| "describeReplies c (d # ds) cols params =
     (if CodePt d = SQLDARD then
        (case parseSQLDARD (Server c) (Payload d) of
           (ca, desc, Some e) \<Rightarrow> Inl (ReaderError e)
         | (ca, desc, None) \<Rightarrow>
             (case (if IsError ca then ca else None) of
                Some a \<Rightarrow> Inl (SqlError a)
              | None \<Rightarrow>
                  if CorrelationID d = 1 \<and> cols = None then describeReplies c ds (Some desc) params
                  else describeReplies c ds cols (Some desc)))
      else if CodePt d = SQLCARD then
        (case ParseSQLCARD (Payload d) (LittleEndian (Server c)) of
           Inl e \<Rightarrow> Inl (ReaderError e)
         | Inr ca \<Rightarrow>
             (case (if IsError ca then ca else None) of
                Some a \<Rightarrow> Inl (SqlError a)
              | None \<Rightarrow> describeReplies c ds cols params))
      else
        (case replyError c d of
           Some e \<Rightarrow> Inl e
         | None \<Rightarrow> describeReplies c ds cols params))"

definition describeLocked :: "string \<Rightarrow> (ColumnDesc list option \<times> ColumnDesc list option) act" where
  "describeLocked sql =
     andthen ensureNoOpenQuery (\<lambda>_. with_conn (\<lambda>c.
     andthen (transmit [(packPRPSQLSTT (pkgSN c) c, 1, True, False), (packSQLSTT sql, 1, False, False),
                        (packDSCSQLSTT (pkgSN c) c, 2, False, True)] 2) (\<lambda>replies. with_conn (\<lambda>c.
     of_sum id (describeReplies c replies None None)))))"

definition Describe ::
  "(rune \<Rightarrow> rune) \<Rightarrow> string \<Rightarrow> (ColumnDesc list option \<times> ColumnDesc list option) act" where
  "Describe u sql = retrying u (describeLocked sql)"

section \<open>Queries\<close>

text \<open>
  A new query is a local value until it is handed out; then it gets its place in the store.
\<close>

definition hand_out :: "Query \<Rightarrow> nat act" where
  "hand_out q = with_conn (\<lambda>c.
     andthen (change (\<lambda>c. c\<lparr>queries := queries c @ [q]\<rparr>)) (\<lambda>_. ok (length (queries c))))"

definition hand_out_open :: "Query \<Rightarrow> nat act" where
  "hand_out_open q = with_conn (\<lambda>c.
     andthen (change (\<lambda>c. c\<lparr>queries := queries c @ [q], openQuery := Some (length (queries c))\<rparr>)) (\<lambda>_.
     ok (length (queries c))))"

text \<open>Send, receive and fold the replies into a local query.\<close>

definition exchangeInto :: "Query \<Rightarrow> req list \<Rightarrow> 16 word \<Rightarrow> Query act" where
  "exchangeInto q rs lastCorr =
     andthen (transmit rs lastCorr) (\<lambda>replies. with_conn (\<lambda>c.
     case consume c replies q of (Inl e, q1) \<Rightarrow> fails e | (Inr _, q1) \<Rightarrow> ok q1))"

definition queryLocked :: "(rune \<Rightarrow> rune) \<Rightarrow> string \<Rightarrow> nat act" where
  "queryLocked u sql =
     andthen ensureNoOpenQuery (\<lambda>_. with_conn (\<lambda>c.
     let q = newQuery (Server c) in
     if looksLikeQuery u sql then
       andthen (exchangeInto q [(packPRPSQLSTT (pkgSN c) c, 1, True, False), (packSQLSTT sql, 1, False, False),
                                (packOPNQRY (pkgSN c) False c, 2, False, True)] 2) (\<lambda>q1.
       if \<not> qOpened q1 \<and> qResult q1 = None then fails NoCursor else hand_out_open q1)
     else
       andthen (exchangeInto q [(packPRPSQLSTT (pkgSN c) c, 1, True, False), (packSQLSTT sql, 1, False, True)] 1) (\<lambda>q1.
       if (case qColumns q1 of Some cols \<Rightarrow> cols \<noteq> [] | None \<Rightarrow> False) then
         andthen (exchangeInto q1 [(packOPNQRY (pkgSN c) False c, 2, False, True)] 2) hand_out_open
       else
         andthen (transmit [(packEXCSQLSTT (pkgSN c) c, 2, False, True)] 2) (\<lambda>replies.
         andthen (collectResult replies) (\<lambda>res.
         hand_out (q1\<lparr>qResult := Some res, qDone := True\<rparr>))))))"

definition Conn_Query :: "(rune \<Rightarrow> rune) \<Rightarrow> string \<Rightarrow> nat act" where
  "Conn_Query u sql = retrying u (queryLocked u sql)"

section \<open>Parameters\<close>

record ParamStatement =
  psSql :: string
  psColumns :: "ColumnDesc list option"
  psParams :: "ColumnDesc list option"

definition PrepareParams :: "(rune \<Rightarrow> rune) \<Rightarrow> string \<Rightarrow> ParamStatement act" where
  "PrepareParams u sql =
     andthen (Describe u sql) (\<lambda>(cols, params). ok \<lparr>psSql = sql, psColumns = cols, psParams = params\<rparr>)"

definition paramList :: "ParamStatement \<Rightarrow> ColumnDesc list" where
  "paramList ps = (case psParams ps of Some p \<Rightarrow> p | None \<Rightarrow> [])"

text \<open>The EXTDTA requests that follow an SQLDTA; \<open>isLast\<close> is the flag of the final one.\<close>

fun extReqs :: "bytes list \<Rightarrow> 16 word \<Rightarrow> bool \<Rightarrow> req list" where
  "extReqs [] corr isLast = []"
| "extReqs [e] corr isLast = [(e, corr, False, isLast)]"
| "extReqs (e # f # es) corr isLast = (e, corr, True, False) # extReqs (f # es) corr isLast"

text \<open>The rows of a batch; the result is the correlation id after the last row.\<close>

fun sendRows :: "float_ops \<Rightarrow> ParamStatement \<Rightarrow> Value list list \<Rightarrow> 16 word \<Rightarrow> (16 word) act" where
  "sendRows F ps [] corr = ok corr"
| "sendRows F ps (row # rows) corr = with_conn (\<lambda>c.
     case encodeSQLDTA (LittleEndian (Server c)) F (paramList ps) row of
       Inl e \<Rightarrow> andthen (change (\<lambda>c. c\<lparr>wr := Reset (wr c)\<rparr>)) (\<lambda>_. fails (ParamError e))
     | Inr (sqldta, ext) \<Rightarrow>
         andthen (sends ((packEXCSQLSTT (pkgSN c) c, corr, True, False) # (sqldta, corr, ext \<noteq> [], False)
                         # extReqs ext corr False)) (\<lambda>_.
         sendRows F ps rows (corr + 1)))"

fun batchReplies :: "Conn \<Rightarrow> DSS list \<Rightarrow> int \<Rightarrow> conn_error option \<Rightarrow> conn_error + int \<times> conn_error option" where
  "batchReplies c [] n firstErr = Inr (n, firstErr)"
| "batchReplies c (d # ds) n firstErr =
     (if CodePt d = SQLCARD then
        (case ParseSQLCARD (Payload d) (LittleEndian (Server c)) of
           Inl e \<Rightarrow> Inl (ReaderError e)
         | Inr None \<Rightarrow> batchReplies c ds n firstErr
         | Inr (Some ca) \<Rightarrow>
             if IsError (Some ca) then
               batchReplies c ds n (case firstErr of None \<Rightarrow> Some (SqlError ca) | Some e \<Rightarrow> Some e)
             else if 2 \<le> CorrelationID d then batchReplies c ds (n + RowCount (Some ca)) firstErr
             else batchReplies c ds n firstErr)
      else if CodePt d = SQLDARD then
        (case parseSQLDARD (Server c) (Payload d) of
           (ca, cols, Some e) \<Rightarrow> Inl (ReaderError e)
         | (ca, cols, None) \<Rightarrow>
             batchReplies c ds n
               (case (ca, firstErr) of
                  (Some a, None) \<Rightarrow> if IsError ca then Some (SqlError a) else None
                | _ \<Rightarrow> firstErr))
      else if CodePt d \<in> {SQLERRRM, RDBUPDRM, ENDUOWRM} then batchReplies c ds n firstErr
      else batchReplies c ds n (case firstErr of None \<Rightarrow> replyError c d | Some e \<Rightarrow> Some e))"

text \<open>
  The value is the affected-row count with the error that is returned beside it; the early
  error returns, with count zero, are \<open>Inl\<close>.
\<close>

definition batchLocked :: "float_ops \<Rightarrow> ParamStatement \<Rightarrow> Value list list \<Rightarrow> (int \<times> conn_error option) act" where
  "batchLocked F ps rows = with_conn (\<lambda>c.
     if rows = [] then ok (0, None)
     else
       andthen (sends [(packPRPSQLSTT (pkgSN c) c, 1, True, False), (packSQLSTT (psSql ps), 1, False, False)]) (\<lambda>_.
       andthen (sendRows F ps rows 2) (\<lambda>corr.
       andthen (change (\<lambda>c. c\<lparr>wr := UnchainLast (wr c)\<rparr>)) (\<lambda>_.
       andthen flush (\<lambda>_.
       andthen (readChain (corr - 1)) (\<lambda>replies. with_conn (\<lambda>c.
       of_sum id (batchReplies c replies 0 None))))))))"

definition ExecBatch :: "float_ops \<Rightarrow> ParamStatement \<Rightarrow> Value list list \<Rightarrow> (int \<times> conn_error option) act" where
  "ExecBatch F ps rows = andthen ensureNoOpenQuery (\<lambda>_. batchLocked F ps rows)"

definition QueryParams :: "float_ops \<Rightarrow> ParamStatement \<Rightarrow> Value list \<Rightarrow> nat act" where
  "QueryParams F ps values =
     andthen ensureNoOpenQuery (\<lambda>_. with_conn (\<lambda>c.
     case encodeSQLDTA (LittleEndian (Server c)) F (paramList ps) values of
       Inl e \<Rightarrow> fails (ParamError e)
     | Inr (sqldta, ext) \<Rightarrow>
         andthen (exchangeInto ((newQuery (Server c))\<lparr>qColumns := psColumns ps\<rparr>)
           ([(packPRPSQLSTT (pkgSN c) c, 1, True, False), (packSQLSTT (psSql ps), 1, False, False),
             (packOPNQRY (pkgSN c) True c, 2, True, False), (sqldta, 2, ext \<noteq> [], ext = [])]
            @ extReqs ext 2 True) 2) (\<lambda>q1.
         if \<not> qOpened q1 then fails NoCursorParams else hand_out_open q1)))"

section \<open>The invariant\<close>

lemma keeps_session_flush_read: "keeps same_session (andthen flush (\<lambda>_. readChain k))"
  by (intro keeps_intros)

lemma good_execImmediate [keeps_intros]: "keeps good (execImmediateLocked sql)"
  unfolding execImmediateLocked_def by (intro keeps_intros) simp

lemma good_ExecImmediate [keeps_intros]: "keeps good (ExecImmediate u sql)"
  unfolding ExecImmediate_def by (intro keeps_intros)

lemma good_units [keeps_intros]: "keeps good Commit" "keeps good Rollback"
  unfolding Commit_def Rollback_def endUnitOfWork_def by (intro keeps_intros; simp)+

lemma good_Conn_Close [keeps_intros]: "keeps good (Conn_Close cerr)"
proof -
  have "conn_inv (c\<lparr>connClosed := True\<rparr>) = conn_inv c" for c by (rule conn_inv_cong) simp_all
  then have "good c (c\<lparr>connClosed := True\<rparr>)" for c by (intro goodI) simp_all
  then show ?thesis unfolding Conn_Close_def by (intro keeps_intros)
qed

lemma good_Describe [keeps_intros]: "keeps good (Describe u sql)"
  unfolding Describe_def describeLocked_def by (intro keeps_intros) simp_all

lemma good_PrepareParams [keeps_intros]: "keeps good (PrepareParams u sql)"
  unfolding PrepareParams_def by (intro keeps_intros)

text \<open>Handing out a query is good when no other is active.\<close>

lemma conn_inv_hand_out:
  assumes "conn_inv c" "openQuery c = None"
  shows "\<not> qClosed q \<Longrightarrow> conn_inv (c\<lparr>queries := queries c @ [q], openQuery := Some (length (queries c))\<rparr>)"
    and "\<not> active q \<Longrightarrow> conn_inv (c\<lparr>queries := queries c @ [q]\<rparr>)"
proof -
  have none: "\<not> active (queries c ! i)" if "i < length (queries c)" for i
    using conn_invD(4) [OF assms(1) that] assms(2) by auto
  show "conn_inv (c\<lparr>queries := queries c @ [q], openQuery := Some (length (queries c))\<rparr>)" if "\<not> qClosed q"
    using that none conn_invD(1) [OF assms(1)] by (intro conn_invI) (auto simp: nth_append split: if_splits)
  show "conn_inv (c\<lparr>queries := queries c @ [q]\<rparr>)" if "\<not> active q"
    using that none conn_invD(1) [OF assms(1)] assms(2) by (intro conn_invI) (auto simp: nth_append split: if_splits)
qed

text \<open>
  The shape of every query-opening operation: from a state with no open cursor it keeps
  \<open>good\<close> and does not open one, up to the hand-out.
\<close>

definition idle_good :: "Conn \<Rightarrow> Conn \<Rightarrow> bool" where
  "idle_good c c' \<longleftrightarrow> (conn_inv c \<and> openQuery c = None \<longrightarrow> good c c')"

definition idle :: "Conn \<Rightarrow> Conn \<Rightarrow> bool" where
  "idle c c' \<longleftrightarrow> good c c' \<and> openQuery c' = openQuery c"

lemma idle_rel [keeps_intros]: "reflp idle" "transp idle"
proof -
  show "reflp idle" by (rule reflpI) (simp add: idle_def reflpD [OF good_rel(1)])
  show "transp idle" by (rule transpI) (metis idle_def transpD [OF good_rel(2)])
qed

lemma idle_transmit [keeps_intros]: "rs \<noteq> [] \<Longrightarrow> keeps idle (transmit rs k)"
  by (rule keepsI)
     (simp add: idle_def keepsD [OF good_transmit] same_sessionD(13) [OF keepsD [OF keeps_session_transmit]])

lemma idle_collectResult [keeps_intros]: "keeps idle (collectResult ds)"
  unfolding collectResult_def by (intro keeps_intros keeps_cases)

lemma idle_exchangeInto [keeps_intros]: "rs \<noteq> [] \<Longrightarrow> keeps idle (exchangeInto q rs k)"
  unfolding exchangeInto_def by (intro keeps_intros)

lemma exchangeInto_closed: "exchangeInto q rs k c = (Inr q1, c') \<Longrightarrow> qClosed q1 = qClosed q"
  by (auto simp: exchangeInto_def act_defs split: sum.splits prod.splits
      dest!: consume_keeps_end [unfolded keeps_end_def])

text \<open>Sequential composition that starts idle, with what is known of the intermediate value.\<close>

lemma idle_then:
  assumes "keeps idle m" "\<And>x c c1. m c = (Inr x, c1) \<Longrightarrow> keeps idle_good (f x)"
  shows "keeps idle_good (andthen m f)"
proof (rule keepsI)
  fix c r c' assume a: "andthen m f c = (r, c')"
  show "idle_good c c'"
    unfolding idle_good_def
  proof
    assume inv: "conn_inv c \<and> openQuery c = None"
    from a show "good c c'"
    proof (cases rule: andthen_cases)
      case (1 e)
      then show ?thesis using keepsD [OF assms(1)] by (auto simp: idle_def)
    next
      case (2 x c1)
      have i: "idle c c1" using keepsD [OF assms(1) 2(1)] .
      then have "conn_inv c1 \<and> openQuery c1 = None" using inv by (auto simp: idle_def good_def)
      then have "good c1 c'" using keepsD [OF assms(2) [OF 2(1)] 2(2)] by (simp add: idle_good_def)
      then show ?thesis using i transpD [OF good_rel(2)] by (auto simp: idle_def)
    qed
  qed
qed

lemma idle_good_mono: "keeps idle m \<Longrightarrow> keeps idle_good m"
  unfolding keeps_def idle_def idle_good_def by blast

lemma idle_good_fails: "keeps idle_good (fails e)"
  by (rule idle_good_mono) (intro keeps_intros)

lemma idle_good_hand_out:
  shows "\<not> qClosed q \<Longrightarrow> keeps idle_good (hand_out_open q)"
    and "\<not> active q \<Longrightarrow> keeps idle_good (hand_out q)"
proof -
  show "\<not> qClosed q \<Longrightarrow> keeps idle_good (hand_out_open q)"
    by (rule keepsI) (auto simp: idle_good_def hand_out_open_def act_defs conn_inv_hand_out intro!: goodI)
  show "\<not> active q \<Longrightarrow> keeps idle_good (hand_out q)"
    by (rule keepsI) (auto simp: idle_good_def hand_out_def act_defs conn_inv_hand_out intro!: goodI)
qed

lemma good_from_idle:
  assumes f: "\<And>c r c'. conn_inv c \<Longrightarrow> openQuery c = None \<Longrightarrow> f c c = (r, c') \<Longrightarrow> good c c'"
  shows "keeps good (andthen ensureNoOpenQuery (\<lambda>_. with_conn f))"
proof (rule keepsI)
  fix c r c' assume a: "andthen ensureNoOpenQuery (\<lambda>_. with_conn f) c = (r, c')"
  have "good c c'" if inv: "conn_inv c"
    using a
  proof (cases rule: andthen_cases)
    case (1 e)
    then show ?thesis using keepsD [OF good_ensureNoOpenQuery] by blast
  next
    case (2 x c1)
    have g: "good c c1" using keepsD [OF good_ensureNoOpenQuery 2(1)] .
    then have "conn_inv c1" "openQuery c1 = None"
      using inv ensureNoOpenQuery_effect(1) [OF inv 2(1)] by (auto simp: good_def)
    then have "good c1 c'" using f [of c1 r c'] 2(2) by (simp add: with_conn_def)
    then show ?thesis using transpD [OF good_rel(2) g] by blast
  qed
  then show "good c c'" by (auto simp: good_def)
qed

lemma good_after_ensure:
  assumes "\<And>c. keeps idle_good (f c)"
  shows "keeps good (andthen ensureNoOpenQuery (\<lambda>_. with_conn f))"
proof (rule good_from_idle)
  fix c r c' assume "conn_inv c" "openQuery c = None" "f c c = (r, c')"
  then show "good c c'" using keepsD [OF assms] by (auto simp: idle_good_def)
qed

lemma newQuery_closed [simp]: "qClosed (newQuery srv) = False"
  by (simp add: newQuery_def)

lemma good_queryLocked [keeps_intros]: "keeps good (queryLocked u sql)"
  unfolding queryLocked_def Let_def
  by (intro good_after_ensure keeps_if idle_then keeps_intros idle_good_hand_out idle_good_fails)
     (auto simp: active_def dest!: exchangeInto_closed)

lemma good_Conn_Query [keeps_intros]: "keeps good (Conn_Query u sql)"
  unfolding Conn_Query_def by (intro keeps_intros)

lemma good_QueryParams [keeps_intros]: "keeps good (QueryParams F ps values)"
  unfolding QueryParams_def
  by (intro good_after_ensure keeps_if idle_then keeps_intros idle_good_hand_out idle_good_fails keeps_cases)
     (auto dest!: exchangeInto_closed)

section \<open>The requests of a batch\<close>

text \<open>The requests a batch sends after preparing, as one list.\<close>

fun batchReqs :: "Conn \<Rightarrow> float_ops \<Rightarrow> ParamStatement \<Rightarrow> Value list list \<Rightarrow> 16 word \<Rightarrow> param_error + req list" where
  "batchReqs c F ps [] corr = Inr []"
| "batchReqs c F ps (row # rows) corr =
     (case encodeSQLDTA (LittleEndian (Server c)) F (paramList ps) row of
        Inl e \<Rightarrow> Inl e
      | Inr (sqldta, ext) \<Rightarrow>
          (case batchReqs c F ps rows (corr + 1) of
             Inl e \<Rightarrow> Inl e
           | Inr rs \<Rightarrow> Inr ((packEXCSQLSTT (pkgSN c) c, corr, True, False) # (sqldta, corr, ext \<noteq> [], False)
                            # extReqs ext corr False @ rs)))"

lemma batchReqs_cong: "batchReqs (c\<lparr>wr := w\<rparr>) F ps rows corr = batchReqs c F ps rows corr"
  by (induction rows arbitrary: corr) (simp_all add: packEXCSQLSTT_def packPKGNAMCSN_def split: sum.split prod.split)

lemma Reset_NewWriter [simp]: "Reset w = NewWriter"
  by (simp add: Reset_def NewWriter_def)

lemma sendRows_effect:
  "sendRows F ps rows corr c =
     (case batchReqs c F ps rows corr of
        Inl e \<Rightarrow> (Inl (ParamError e), c\<lparr>wr := NewWriter\<rparr>)
      | Inr rs \<Rightarrow> (Inr (corr + word_of_nat (length rows)), c\<lparr>wr := fold req_write rs (wr c)\<rparr>))"
proof (induction rows arbitrary: corr c)
  case (Cons row rows)
  show ?case
  proof (cases "encodeSQLDTA (LittleEndian (Server c)) F (paramList ps) row")
    case (Inl e)
    then show ?thesis by (simp add: act_defs)
  next
    case (Inr se)
    obtain sqldta ext where se: "se = (sqldta, ext)" by fastforce
    show ?thesis
      using Inr se Cons.IH
      by (simp add: with_conn_def andthen_def [of "sends _"] sends_effect batchReqs_cong split: sum.split del: sends.simps fold_simps)
  qed
qed (simp add: ok_def)

text \<open>Marking the last request as the end of the chain.\<close>

definition unchain :: "req list \<Rightarrow> req list" where
  "unchain rs = butlast rs @ [case last rs of (ob, corr, sameNext, isLast) \<Rightarrow> (ob, corr, False, True)]"

definition is_object :: "bytes \<Rightarrow> bool" where
  "is_object ob \<longleftrightarrow> ob = NewObject (Object_CodePoint ob) (Object_Body ob)"

lemma is_object_NewObject [simp]: "is_object (NewObject cp body)"
  by (simp add: is_object_def)

definition reqs_ok :: "req list \<Rightarrow> bool" where
  "reqs_ok rs \<longleftrightarrow> list_all (\<lambda>(ob, corr, sameNext, isLast). is_object ob) rs"

lemma reqs_ok_simps [simp]:
  "reqs_ok []" "reqs_ok ((ob, corr, s, l) # rs) \<longleftrightarrow> is_object ob \<and> reqs_ok rs"
  "reqs_ok (rs @ rs') \<longleftrightarrow> reqs_ok rs \<and> reqs_ok rs'"
  by (simp_all add: reqs_ok_def)

lemma UnchainLast_writes:
  assumes "rs \<noteq> []" "reqs_ok rs"
  shows "UnchainLast (fold req_write rs w) = fold req_write (unchain rs) w"
proof -
  obtain rs0 ob corr s l where rs: "rs = rs0 @ [(ob, corr, s, l)]"
    using assms(1) by (cases rs rule: rev_cases) auto
  have "is_object ob" using assms(2) rs by simp
  then obtain cp body where "ob = NewObject cp body" unfolding is_object_def by blast
  then show ?thesis by (simp add: rs unchain_def req_write_def UnchainLast_request)
qed

lemma encodeSQLDTA_objects:
  assumes "encodeSQLDTA le F params values = Inr (sqldta, ext)"
  shows "is_object sqldta" "list_all is_object ext"
proof -
  have ext: "encodeValues le F i evs = Inr (dta, xs) \<Longrightarrow> list_all is_object xs" for i evs dta xs
    by (induction evs arbitrary: i dta xs) (auto split: if_splits sum.splits)
  show "is_object sqldta" "list_all is_object ext"
    using assms ext by (auto simp: encodeSQLDTA_def split: if_splits sum.splits prod.splits)
qed

lemma reqs_ok_extReqs: "reqs_ok (extReqs ext corr l) \<longleftrightarrow> list_all is_object ext"
  by (induction ext corr l rule: extReqs.induct) simp_all

lemma pack_objects [simp]:
  "is_object (packEXCSQLSTT n c)" "is_object (packPRPSQLSTT n c)" "is_object (packSQLSTT sql)"
  "is_object (packOPNQRY n b c)" "is_object (packEXCSQLIMM n c)" "is_object (packDSCSQLSTT n c)"
  by (simp_all add: packEXCSQLSTT_def packPRPSQLSTT_def packSQLSTT_def packOPNQRY_def packEXCSQLIMM_def packDSCSQLSTT_def)

lemma reqs_ok_batch: "batchReqs c F ps rows corr = Inr rs \<Longrightarrow> reqs_ok rs"
  by (induction rows arbitrary: corr rs)
     (auto simp: reqs_ok_extReqs dest: encodeSQLDTA_objects split: sum.splits prod.splits)

text \<open>The whole transmission of a batch.\<close>

definition batchTransmission :: "Conn \<Rightarrow> ParamStatement \<Rightarrow> req list \<Rightarrow> req list" where
  "batchTransmission c ps rs =
     unchain ((packPRPSQLSTT (pkgSN c) c, 1, True, False) # (packSQLSTT (psSql ps), 1, False, False) # rs)"

lemma batch_writes:
  assumes "batchReqs c F ps rows 2 = Inr rs" "wr c = NewWriter"
  shows "UnchainLast (fold req_write rs (fold req_write
           [(packPRPSQLSTT (pkgSN c) c, 1, True, False), (packSQLSTT (psSql ps), 1, False, False)] (wr c)))
         = fold req_write (batchTransmission c ps rs) NewWriter"
  using UnchainLast_writes [of "(packPRPSQLSTT (pkgSN c) c, 1, True, False) # (packSQLSTT (psSql ps), 1, False, False) # rs"]
    reqs_ok_batch [OF assms(1)] assms(2) by (simp add: batchTransmission_def)

lemma unchain_not_Nil [simp]: "unchain rs \<noteq> []"
  by (simp add: unchain_def)

lemma batchLocked_effect:
  assumes w: "wr c = NewWriter" and rows: "rows \<noteq> []" and r: "batchLocked F ps rows c = (r, c')"
  shows "same_session c c' \<and> wr c' = NewWriter \<and>
    (case batchReqs c F ps rows 2 of
       Inl e \<Rightarrow> r = Inl (ParamError e) \<and> sent c' = sent c
     | Inr rs \<Rightarrow> sent c' = sent c @ [wire (batchTransmission c ps rs)])"
proof -
  let ?two = "[(packPRPSQLSTT (pkgSN c) c, 1, True, False), (packSQLSTT (psSql ps), 1, False, False)]"
  let ?c1 = "c\<lparr>wr := fold req_write ?two (wr c)\<rparr>"
  show ?thesis
  proof (cases "batchReqs c F ps rows 2")
    case (Inl e)
    then show ?thesis
      using r rows
      by (simp add: batchLocked_def with_conn_def andthen_def sends_effect sendRows_effect batchReqs_cong
          del: sends.simps fold_simps) auto
  next
    case (Inr rs)
    let ?c2 = "c\<lparr>wr := fold req_write (batchTransmission c ps rs) NewWriter\<rparr>"
    obtain f c3 where f: "flush ?c2 = (f, c3)" by fastforce
    have "buf (wr ?c2) = wire (batchTransmission c ps rs)" by (simp add: buf_req_writes NewWriter_def)
    moreover have "batchTransmission c ps rs \<noteq> []" by (simp add: batchTransmission_def)
    ultimately have e: "wr c3 = NewWriter" "sent c3 = sent c @ [wire (batchTransmission c ps rs)]" "same_session ?c2 c3"
      using flush_effect [OF _ f] by auto
    have c3: "same_session c c3" using transpD [OF same_session_rel(2) _ e(3)] by simp
    have run: "andthen flush (\<lambda>_. andthen (readChain (2 + word_of_nat (length rows) - 1)) (\<lambda>replies. with_conn (\<lambda>c.
        of_sum id (batchReplies c replies 0 None)))) ?c2 = (r, c')"
      using r rows Inr batch_writes [OF Inr w]
      by (simp add: batchLocked_def with_conn_def
          andthen_def [of "sends _"] andthen_def [of "sendRows _ _ _ _"] andthen_def [of "change _"] change_def
          sends_effect sendRows_effect batchReqs_cong del: sends.simps fold_simps)
    show ?thesis
    proof (cases f)
      case (Inl x)
      then show ?thesis using run f e c3 Inr by (simp add: andthen_def)
    next
      case f': (Inr y)
      obtain g c4 where g: "readChain (2 + word_of_nat (length rows) - 1) c3 = (g, c4)" by fastforce
      have c4: "c' = c4" using run f f' g by (cases g) (auto simp: act_defs split: sum.splits)
      have "same_session c c4" using transpD [OF same_session_rel(2) c3] keepsD [OF keeps_session_io(4) g] by blast
      then show ?thesis using readChain_effect [OF g] e Inr c4 by simp
    qed
  qed
qed

lemma ensure_idle: "openQuery c = None \<Longrightarrow> ensureNoOpenQuery c = (Inr (), c)"
  by (simp add: ensureNoOpenQuery_def act_defs)

lemma ExecBatch_effect:
  assumes inv: "conn_inv c" "openQuery c = None" "rows \<noteq> []" and r: "ExecBatch F ps rows c = (r, c')"
  shows "same_session c c' \<and> wr c' = NewWriter \<and>
    (case batchReqs c F ps rows 2 of
       Inl e \<Rightarrow> r = Inl (ParamError e) \<and> sent c' = sent c
     | Inr rs \<Rightarrow> sent c' = sent c @ [wire (batchTransmission c ps rs)])"
  using batchLocked_effect [OF conn_invD(1) [OF inv(1)] inv(3), of F ps r c'] r ensure_idle [OF inv(2)]
  by (simp add: ExecBatch_def andthen_def)

lemma with_conn_const: "with_conn (\<lambda>_. m) = m"
  by (simp add: with_conn_def fun_eq_iff)

lemma good_ExecBatch [keeps_intros]: "keeps good (ExecBatch F ps rows)"
proof -
  have "good c c'" if inv: "conn_inv c" "openQuery c = None" and run: "batchLocked F ps rows c = (r, c')" for c r c'
  proof (cases "rows = []")
    case True
    then show ?thesis using run reflpD [OF good_rel(1)] by (simp add: batchLocked_def with_conn_def ok_def)
  next
    case False
    then show ?thesis
      using batchLocked_effect [OF conn_invD(1) [OF inv(1)] False run] by (intro good_session) simp_all
  qed
  then have "keeps good (andthen ensureNoOpenQuery (\<lambda>_. with_conn (\<lambda>_. batchLocked F ps rows)))"
    by (rule good_from_idle)
  then show ?thesis by (simp only: ExecBatch_def with_conn_const)
qed

section \<open>Sessions\<close>

text \<open>The operations a client can call, each with any outcome, as steps of the session.\<close>

inductive conn_step :: "Conn \<Rightarrow> Conn \<Rightarrow> bool" where
  exec: "ExecImmediate u sql c = (r, c') \<Longrightarrow> conn_step c c'"
| query: "Conn_Query u sql c = (r, c') \<Longrightarrow> conn_step c c'"
| prepare: "PrepareParams u sql c = (r, c') \<Longrightarrow> conn_step c c'"
| batch: "ExecBatch F ps rows c = (r, c') \<Longrightarrow> conn_step c c'"
| params: "QueryParams F ps values c = (r, c') \<Longrightarrow> conn_step c c'"
| fetch: "Next i c = (r, c') \<Longrightarrow> conn_step c c'"
| qclose: "Query_Close i c = (r, c') \<Longrightarrow> conn_step c c'"
| commit: "Commit c = (r, c') \<Longrightarrow> conn_step c c'"
| rollback: "Rollback c = (r, c') \<Longrightarrow> conn_step c c'"
| close: "Conn_Close cerr c = (r, c') \<Longrightarrow> conn_step c c'"

lemma conn_step_good: "conn_step c c' \<Longrightarrow> good c c'"
  by (induction rule: conn_step.induct) (erule keepsD [rotated], intro keeps_intros)+

text \<open>A connection that \<^verbatim>\<open>Dial\<close> returned, and what a client can make of it.\<close>

inductive reachable :: "Conn \<Rightarrow> bool" where
  dial: "Dial u hostname rnd stream writes conf = Inr c \<Longrightarrow> reachable c"
| step: "reachable c \<Longrightarrow> conn_step c c' \<Longrightarrow> reachable c'"

definition same_store :: "Conn \<Rightarrow> Conn \<Rightarrow> bool" where
  "same_store c c' \<longleftrightarrow> queries c' = queries c \<and> openQuery c' = openQuery c \<and> cfg c' = cfg c"

lemma same_store_rel [keeps_intros]: "reflp same_store" "transp same_store"
  by (auto simp: reflp_def transp_def same_store_def)

lemma same_store_session: "keeps same_session m \<Longrightarrow> keeps same_store m"
  by (auto intro!: keepsI simp: same_store_def dest!: keepsD dest: same_sessionD(1,13,14))

lemma same_store_io [keeps_intros]:
  "keeps same_store (sends rs)" "keeps same_store flush" "keeps same_store (readChain k)"
  "keeps same_store (transmit rs k)"
  by (intro same_store_session keeps_intros)+

lemma same_store_updates [simp]:
  "same_store c (c\<lparr>Server := s\<rparr>)" "same_store c (c\<lparr>ddmUTF8 := b\<rparr>)"
  by (simp_all add: same_store_def)

lemma same_store_check [keeps_intros]: "keeps same_store (checkReply d)"
  unfolding checkReply_def by (intro keeps_intros)

lemma same_store_replies [keeps_intros]:
  "keeps same_store (accsecReplies ds st)" "keeps same_store (reaccsecReplies ds token)"
  "keeps same_store (secchkReplies ds)" "keeps same_store (postConnectReplies ds)"
proof -
  have "keeps same_store (accsecReply d st)" for d st
    unfolding accsecReply_def Let_def
    by (intro keeps_intros same_store_updates; auto intro!: keeps_intros split: list.split)
  then show "keeps same_store (accsecReplies ds st)"
    by (induction ds arbitrary: st) (auto intro!: keeps_intros)
  have "keeps same_store (reaccsecReply d token)" for d token
    unfolding reaccsecReply_def by (intro keeps_intros)
  then show "keeps same_store (reaccsecReplies ds token)"
    by (induction ds arbitrary: token) (auto intro!: keeps_intros)
  have "keeps same_store (secchkReply d)" for d
    unfolding secchkReply_def by (intro keeps_intros same_store_updates)
  then show "keeps same_store (secchkReplies ds)"
    by (induction ds) (auto intro!: keeps_intros)
  show "keeps same_store (postConnectReplies ds)"
    by (induction ds) (auto intro!: keeps_intros)
qed

lemma same_store_handshake: "keeps same_store (handshake rnd)"
  unfolding handshake_def negotiate_def authenticate_def transmitWrapped_def postConnect_def Let_def
  by (intro keeps_intros same_store_updates)

lemma conn_inv_Dial:
  assumes "Dial u hostname rnd stream writes conf = Inr c"
  shows "conn_inv c"
proof -
  define c0 where "c0 = newConn u (dialConfig hostname conf) stream writes"
  have c0: "wr c0 = NewWriter" "queries c0 = []" "openQuery c0 = None" by (simp_all add: c0_def newConn_def)
  have h: "handshake rnd c0 = (Inr (), c)"
    using assms by (auto simp: Dial_def c0_def split: prod.splits sum.splits)
  have store: "queries c = []" "openQuery c = None"
    using keepsD [OF same_store_handshake h] c0 by (simp_all add: same_store_def)
  obtain kp where kp: "newDHKeyPair rnd = Some kp" using h by (auto simp: handshake_def fails_def split: option.splits)
  then obtain token m c1 where "negotiate kp c0 = (Inr (token, m), c1)" "authenticate kp token m c1 = (Inr (), c)"
    using h by (auto simp: handshake_def elim!: andthen_cases)
  then have "wr c = NewWriter"
    using negotiate_effect [OF c0(1)] authenticate_effect by blast
  then show ?thesis using store by (intro conn_invI) simp_all
qed

lemma Dial_fresh:
  assumes "Dial u hostname rnd stream writes conf = Inr c"
  shows "openQuery c = None" "cfg c = dialConfig hostname conf"
proof -
  obtain h where "handshake rnd (newConn u (dialConfig hostname conf) stream writes) = (h, c)"
    using assms by (auto simp: Dial_def split: prod.splits sum.splits)
  then show "openQuery c = None" "cfg c = dialConfig hostname conf"
    using keepsD [OF same_store_handshake] by (fastforce simp: same_store_def newConn_def)+
qed

lemma reachable_inv: "reachable c \<Longrightarrow> conn_inv c"
proof (induction rule: reachable.induct)
  case (step c c')
  then show ?case using conn_step_good by (auto simp: good_def)
qed (rule conn_inv_Dial)

lemma reachable_star: "conn_step\<^sup>*\<^sup>* c c' \<Longrightarrow> conn_inv c \<Longrightarrow> conn_inv c' \<and> (bindAttempted c \<longrightarrow> bindAttempted c')"
  by (induction rule: rtranclp_induct) (use conn_step_good good_def in auto)

section \<open>Properties\<close>

text \<open>
  C2: at most one cursor.  Whatever operations are called, with whatever outcomes, and whatever
  the server sends, the writer is empty between operations and at most one query of the
  session is neither done nor closed; it is the one the connection remembers and closes before
  the next statement.
\<close>

theorem one_active_cursor:
  "conn_inv c \<and> conn_step\<^sup>*\<^sup>* c c' \<longrightarrow>
     wr c' = NewWriter
     \<and> (\<forall>i < length (queries c'). active (queries c' ! i) \<longrightarrow> openQuery c' = Some i)"
  using reachable_star [of c c'] conn_invD by blast

theorem one_active_cursor_witness:
  "wr (snd (Commit (snd (ExecImmediate id ''COMMIT'' sample_conn)))) = NewWriter"
proof -
  have inv: "conn_inv sample_conn" by (rule conn_invI) (simp_all add: sample_conn_def newConn_def)
  have "conn_step sample_conn (snd (ExecImmediate id ''COMMIT'' sample_conn))"
    by (rule conn_step.exec) (rule prod.collapse [symmetric])
  moreover have "conn_step (snd (ExecImmediate id ''COMMIT'' sample_conn))
      (snd (Commit (snd (ExecImmediate id ''COMMIT'' sample_conn))))"
    by (rule conn_step.commit) (rule prod.collapse [symmetric])
  ultimately have "conn_step\<^sup>*\<^sup>* sample_conn (snd (Commit (snd (ExecImmediate id ''COMMIT'' sample_conn))))"
    by (meson converse_rtranclp_into_rtranclp rtranclp.rtrancl_refl)
  then show ?thesis
    using one_active_cursor [of sample_conn "snd (Commit (snd (ExecImmediate id ''COMMIT'' sample_conn)))"] inv by blast
qed

text \<open>
  C22: before a statement runs, \<open>ensureNoOpenQuery\<close> leaves no active cursor.  It sends one CLSQRY,
  for exactly the cursor that is still open on the server, with that cursor's instance id and
  correlation id, and nothing at all if there is none; this holds even when closing fails.
\<close>

theorem ensureNoOpenQuery_closes:
  "conn_inv c \<and> ensureNoOpenQuery c = (r, c') \<longrightarrow>
     openQuery c' = None \<and> list_all (\<lambda>q. \<not> active q) (queries c')
     \<and> sent c' = sent c @
         (case openQuery c of
            Some i \<Rightarrow>
              (let q = queries c ! i in
               if qOpened q \<and> \<not> qDone q then [wire [(packCLSQRY (pkgSN c) (qryinsid q) c, qCorr q, False, True)]] else [])
          | None \<Rightarrow> [])"
proof (intro impI conjI)
  assume a: "conn_inv c \<and> ensureNoOpenQuery c = (r, c')"
  note e = ensureNoOpenQuery_effect [of c r c']
  show o: "openQuery c' = None" using e a by blast
  have "conn_inv c'" using keepsD [OF good_ensureNoOpenQuery] a by (auto simp: good_def)
  then show "list_all (\<lambda>q. \<not> active q) (queries c')"
    using o conn_invD(4) by (fastforce simp: list_all_length)
  show "sent c' = sent c @
         (case openQuery c of
            Some i \<Rightarrow>
              (let q = queries c ! i in
               if qOpened q \<and> \<not> qDone q then [wire [(packCLSQRY (pkgSN c) (qryinsid q) c, qCorr q, False, True)]] else [])
          | None \<Rightarrow> [])"
    using e a by blast
qed

definition open_conn :: Conn where
  "open_conn = sample_conn\<lparr>queries := [sample_query\<lparr>qOpened := True, qCorr := 2, qryinsid := 7\<rparr>], openQuery := Some 0\<rparr>"

theorem ensureNoOpenQuery_closes_witness:
  "sent (snd (ensureNoOpenQuery open_conn)) = [wire [(packCLSQRY 1 7 open_conn, 2, False, True)]]"
proof -
  have "conn_inv open_conn"
    by (rule conn_invI) (auto simp: open_conn_def sample_conn_def newConn_def sample_query_def newQuery_def)
  then show ?thesis
    using ensureNoOpenQuery_closes [of open_conn "fst (ensureNoOpenQuery open_conn)" "snd (ensureNoOpenQuery open_conn)"]
    by (simp add: open_conn_def sample_conn_def newConn_def sample_query_def newQuery_def Let_def)
qed

section \<open>What the server reads\<close>

definition req_dss :: "req \<Rightarrow> DSS" where
  "req_dss r = (case r of (ob, corr, sameNext, isLast) \<Rightarrow>
     request_dss (Object_CodePoint ob) (Object_Body ob) corr sameNext isLast)"

lemma read_n_wire: "reqs_ok rs \<Longrightarrow> read_n (length rs) (wire rs @ rest) = (Inr (map req_dss rs), rest)"
proof (induction rs)
  case (Cons r rs)
  obtain ob corr s l where r: "r = (ob, corr, s, l)" by (cases r) auto
  then obtain cp body where ob: "ob = NewObject cp body"
    using Cons.prems unfolding reqs_ok_def is_object_def by auto
  have "wire (r # rs) @ rest = request_wire (NewObject cp body) corr s l @ wire rs @ rest"
    by (simp add: wire_def r ob)
  moreover have "read_n (length rs) (wire rs @ rest) = (Inr (map req_dss rs), rest)"
    using Cons by (simp add: r)
  ultimately show ?case by (simp add: ReadDSS_request_wire req_dss_def r ob)
qed (simp add: wire_def)

lemma reqs_ok_unchain: "rs \<noteq> [] \<Longrightarrow> reqs_ok rs \<Longrightarrow> reqs_ok (unchain rs)"
  by (cases rs rule: rev_cases) (auto simp: unchain_def)

text \<open>
  An immediate statement reaches the server.  With no cursor open, the first transmission of
  \<open>ExecImmediate\<close> decodes to two DSSs and nothing else: the EXCSQLIMM command, chained, and the
  statement text in full, whatever its length, ending the chain under the same correlation id.
\<close>

theorem ExecImmediate_wire:
  "conn_inv c \<and> openQuery c = None \<and> execImmediateLocked sql c = (r, c') \<longrightarrow>
     (\<exists>w. sent c' = sent c @ [w] \<and>
        read_n 2 w = (Inr [request_dss EXCSQLIMM (packPKGNAMCSN (pkgSN c) c @ Byte RDBCMTOK 0xF1) 1 True False,
                           request_dss SQLSTT (sqlText sql) 1 False True], []))"
proof
  assume a: "conn_inv c \<and> openQuery c = None \<and> execImmediateLocked sql c = (r, c')"
  let ?rs = "[(packEXCSQLIMM (pkgSN c) c, 1, True, False), (packSQLSTT sql, 1, False, True)] :: req list"
  obtain t c1 where t: "transmit ?rs 1 c = (t, c1)" by fastforce
  have "c' = c1"
    using a t ensure_idle [of c] by (auto simp: execImmediateLocked_def act_defs collectResult_def
        split: sum.splits option.splits prod.splits)
  then have "sent c' = sent c @ [wire ?rs]"
    using transmit_effect(2) [OF _ _ t] conn_invD(1) a by blast
  moreover have "read_n (length ?rs) (wire ?rs @ []) = (Inr (map req_dss ?rs), [])"
    by (rule read_n_wire) simp
  moreover have "map req_dss ?rs = [request_dss EXCSQLIMM (packPKGNAMCSN (pkgSN c) c @ Byte RDBCMTOK 0xF1) 1 True False,
      request_dss SQLSTT (sqlText sql) 1 False True]"
    by (simp add: req_dss_def packEXCSQLIMM_def packSQLSTT_def)
  ultimately show "\<exists>w. sent c' = sent c @ [w] \<and>
        read_n 2 w = (Inr [request_dss EXCSQLIMM (packPKGNAMCSN (pkgSN c) c @ Byte RDBCMTOK 0xF1) 1 True False,
                           request_dss SQLSTT (sqlText sql) 1 False True], [])"
    by (intro exI [of _ "wire ?rs"]) (simp del: read_n.simps add: numeral_2_eq_2)
qed

theorem ExecImmediate_wire_witness:
  "\<exists>w. sent (snd (execImmediateLocked ''DROP TABLE T'' sample_conn)) = [w]"
proof -
  have "conn_inv sample_conn" by (rule conn_invI) (simp_all add: sample_conn_def newConn_def)
  moreover have "openQuery sample_conn = None" "sent sample_conn = []" by (simp_all add: sample_conn_def newConn_def)
  ultimately show ?thesis
    using ExecImmediate_wire [of sample_conn "''DROP TABLE T''" "fst (execImmediateLocked ''DROP TABLE T'' sample_conn)"
        "snd (execImmediateLocked ''DROP TABLE T'' sample_conn)"] by auto
qed

text \<open>
  C13: a batch is one transmission.  With no cursor open and every row encodable, \<open>ExecBatch\<close>
  sends a single transmission that decodes to the PREPARE, the statement, and for every row its
  command, its data and its LOB objects, in order; every DSS but the very last is chained.
\<close>

theorem ExecBatch_transmission:
  "conn_inv c \<and> openQuery c = None \<and> rows \<noteq> [] \<and> batchReqs c F ps rows 2 = Inr rs
   \<and> ExecBatch F ps rows c = (r, c') \<longrightarrow>
     (\<exists>w ds. sent c' = sent c @ [w] \<and> read_n (length rs + 2) w = (Inr ds, [])
        \<and> map (\<lambda>d. (CodePt d, Payload d, CorrelationID d)) ds
            = map (\<lambda>(ob, corr, s, l). (Object_CodePoint ob, Object_Body ob, corr))
                ((packPRPSQLSTT (pkgSN c) c, 1, True, False) # (packSQLSTT (psSql ps), 1, False, False) # rs)
        \<and> map Chained ds = replicate (length rs + 1) True @ [False])"
proof
  assume a: "conn_inv c \<and> openQuery c = None \<and> rows \<noteq> [] \<and> batchReqs c F ps rows 2 = Inr rs
     \<and> ExecBatch F ps rows c = (r, c')"
  let ?rs = "(packPRPSQLSTT (pkgSN c) c, 1, True, False) # (packSQLSTT (psSql ps), 1, False, False) # rs"
  let ?ds = "map req_dss (unchain ?rs)"
  have b: "batchReqs c F ps rows 2 = Inr rs" using a by blast
  have ok: "reqs_ok ?rs" using reqs_ok_batch [OF b] by simp
  have len: "length (unchain ?rs) = length rs + 2" by (simp add: unchain_def)
  have sent: "sent c' = sent c @ [wire (unchain ?rs)]"
    using ExecBatch_effect [of c rows F ps r c'] a by (simp add: batchTransmission_def)
  have "read_n (length rs + 2) (wire (unchain ?rs)) = (Inr ?ds, [])"
    using read_n_wire [OF reqs_ok_unchain [OF _ ok], of "[]"] len by simp
  moreover have "map (\<lambda>d. (CodePt d, Payload d, CorrelationID d)) ?ds
      = map (\<lambda>(ob, corr, s, l). (Object_CodePoint ob, Object_Body ob, corr)) ?rs"
  proof -
    have "(\<lambda>d. (CodePt d, Payload d, CorrelationID d)) \<circ> req_dss
        = (\<lambda>(ob, corr, s, l). (Object_CodePoint ob, Object_Body ob, corr))"
      by (auto simp: req_dss_def request_dss_def)
    moreover have "map (\<lambda>(ob, corr, s, l). (Object_CodePoint ob, Object_Body ob, corr)) (unchain xs)
        = map (\<lambda>(ob, corr, s, l). (Object_CodePoint ob, Object_Body ob, corr)) xs" if "xs \<noteq> []" for xs :: "req list"
      using that by (cases xs rule: rev_cases) (auto simp: unchain_def)
    ultimately show ?thesis by simp
  qed
  moreover have "map Chained ?ds = replicate (length rs + 1) True @ [False]"
  proof -
    have flag: "batchReqs c F ps rows corr = Inr qs \<Longrightarrow> list_all (\<lambda>(ob, corr, s, l). \<not> l) qs" for corr qs
    proof (induction rows arbitrary: corr qs)
      case (Cons row rows)
      have "list_all (\<lambda>(ob, corr, s, l). \<not> l) (extReqs ext corr False)" for ext corr
        by (induction ext corr "False" rule: extReqs.induct) simp_all
      then show ?case using Cons by (auto split: sum.split_asm prod.split_asm)
    qed simp
    have "list_all (\<lambda>(ob, corr, s, l). \<not> l) ?rs" using flag [OF b] by simp
    then have "map Chained (map req_dss (butlast ?rs)) = replicate (length rs + 1) True"
      by (intro replicate_eqI)
         (auto simp: req_dss_def request_dss_def list_all_iff dest!: in_set_butlastD split: if_splits)
    then show ?thesis by (simp add: unchain_def req_dss_def request_dss_def split: prod.split)
  qed
  ultimately show "\<exists>w ds. sent c' = sent c @ [w] \<and> read_n (length rs + 2) w = (Inr ds, [])
        \<and> map (\<lambda>d. (CodePt d, Payload d, CorrelationID d)) ds
            = map (\<lambda>(ob, corr, s, l). (Object_CodePoint ob, Object_Body ob, corr)) ?rs
        \<and> map Chained ds = replicate (length rs + 1) True @ [False]"
    using sent by blast
qed

definition batch_stmt :: ParamStatement where
  "batch_stmt = \<lparr>psSql = ''INSERT INTO T VALUES (?)'', psColumns = Some [], psParams = Some [sample_param 496 0 0]\<rparr>"

theorem ExecBatch_transmission_witness:
  "\<exists>w ds. sent (snd (ExecBatch sample_floats batch_stmt [[VInt32 5], [VNil]] sample_conn)) = [w]
     \<and> read_n 6 w = (Inr ds, []) \<and> map Chained ds = [True, True, True, True, True, False]
     \<and> map CorrelationID ds = [1, 1, 2, 2, 3, 3]"
proof -
  let ?rows = "[[VInt32 5], [VNil]]"
  have enc: "\<exists>ob. encodeSQLDTA False sample_floats [sample_param 496 0 0] [v] = Inr (ob, [])"
    if "v = VInt32 5 \<or> v = VNil" for v
    using that by (auto simp: encodeSQLDTA_def encodingFor_def ColumnDesc_Base_def BaseSQLType_def sample_param_def
        promote_def enc_def appendParam_def need_def toInt64_def)
  obtain rs where rs: "batchReqs sample_conn sample_floats batch_stmt ?rows 2 = Inr rs"
      "length rs = 4" "map (\<lambda>(ob, corr, s, l). corr) rs = [2, 2, 3, 3]"
    using enc [of "VInt32 5"] enc [of VNil]
    by (auto simp: batch_stmt_def paramList_def sample_conn_def newConn_def zero_ServerInfo_def)
  have "conn_inv sample_conn" by (rule conn_invI) (simp_all add: sample_conn_def newConn_def)
  moreover have "openQuery sample_conn = None" "sent sample_conn = []" by (simp_all add: sample_conn_def newConn_def)
  ultimately obtain w ds where w: "sent (snd (ExecBatch sample_floats batch_stmt ?rows sample_conn)) = [w]"
      "read_n 6 w = (Inr ds, [])" "map Chained ds = replicate 5 True @ [False]"
      "map (\<lambda>d. (CodePt d, Payload d, CorrelationID d)) ds
         = map (\<lambda>(ob, corr, s, l). (Object_CodePoint ob, Object_Body ob, corr))
            ((packPRPSQLSTT (pkgSN sample_conn) sample_conn, 1, True, False)
             # (packSQLSTT (psSql batch_stmt), 1, False, False) # rs)"
    using ExecBatch_transmission [of sample_conn ?rows sample_floats batch_stmt rs
        "fst (ExecBatch sample_floats batch_stmt ?rows sample_conn)" "snd (ExecBatch sample_floats batch_stmt ?rows sample_conn)"]
      rs(1,2) by auto
  have "map CorrelationID ds = map (snd \<circ> snd) (map (\<lambda>d. (CodePt d, Payload d, CorrelationID d)) ds)" by simp
  also have "\<dots> = [1, 1] @ map (\<lambda>(ob, corr, s, l). corr) rs" unfolding w(4) by (auto simp: case_prod_unfold)
  finally have "map CorrelationID ds = [1, 1, 2, 2, 3, 3]" using rs(3) by simp
  then show ?thesis using w by (intro exI [of _ w] exI [of _ ds]) (simp add: eval_nat_numeral(2,3))
qed

text \<open>
  A batch with a value that cannot be encoded sends nothing.  The error is returned, no byte
  of the batch goes out, not even for the rows before, and the writer is empty again.
\<close>

theorem ExecBatch_rejects:
  "conn_inv c \<and> openQuery c = None \<and> rows \<noteq> [] \<and> batchReqs c F ps rows 2 = Inl e
   \<and> ExecBatch F ps rows c = (r, c') \<longrightarrow>
     r = Inl (ParamError e) \<and> sent c' = sent c \<and> wr c' = NewWriter"
  using ExecBatch_effect [of c rows F ps r c'] by auto

theorem ExecBatch_rejects_witness:
  "sent (snd (ExecBatch sample_floats batch_stmt [[VInt32 5], [VBytes [1]]] sample_conn)) = []"
proof -
  let ?rows = "[[VInt32 5], [VBytes [1]]]"
  have "\<exists>e. batchReqs sample_conn sample_floats batch_stmt ?rows 2 = Inl e"
    by (auto simp: batch_stmt_def paramList_def encodeSQLDTA_def encodingFor_def ColumnDesc_Base_def BaseSQLType_def
        sample_param_def promote_def enc_def appendParam_def need_def toInt64_def split: sum.split prod.split)
  moreover have "conn_inv sample_conn" by (rule conn_invI) (simp_all add: sample_conn_def newConn_def)
  moreover have "openQuery sample_conn = None" "sent sample_conn = []" by (simp_all add: sample_conn_def newConn_def)
  ultimately show ?thesis
    using ExecBatch_rejects [of sample_conn ?rows sample_floats batch_stmt _
        "fst (ExecBatch sample_floats batch_stmt ?rows sample_conn)" "snd (ExecBatch sample_floats batch_stmt ?rows sample_conn)"]
    by auto
qed

section \<open>Fetching rows ends\<close>

lemma fetchBlock_sent:
  assumes "wr c = NewWriter" "fetchBlock i c = (r, c')"
  shows "wr c' = NewWriter \<and> sent c' = sent c @
    [wire [(packCNTQRY (pkgSN c) (qryinsid (queries c ! i)) c, qCorr (queries c ! i), False, True)]]"
proof -
  let ?rs = "[(packCNTQRY (pkgSN c) (qryinsid (queries c ! i)) c, qCorr (queries c ! i), False, True)]"
  obtain s c1 where t: "transmit ?rs (qCorr (queries c ! i)) c = (s, c1)" by fastforce
  note e = transmit_effect [OF _ assms(1) t]
  have "wr c' = wr c1 \<and> sent c' = sent c1"
    using assms(2) t by (auto simp: fetchBlock_def act_defs upd_query_def Let_def split: sum.splits prod.splits)
  then show ?thesis using e by simp
qed

lemma fetchLoop_sent:
  "wr c = NewWriter \<Longrightarrow> fetchLoop n i c = (r, c') \<Longrightarrow> wr c' = NewWriter \<and> length (sent c') \<le> length (sent c) + n"
proof (induction n arbitrary: c)
  case (Suc n)
  obtain s c1 where f: "fetchBlock i c = (s, c1)" by fastforce
  note e = fetchBlock_sent [OF Suc.prems(1) f]
  from Suc.prems(2) [unfolded fetchLoop.simps] show ?case
  proof (cases rule: andthen_cases)
    case (1 e)
    then show ?thesis using f fetchBlock_sent [OF Suc.prems(1) 1(1)] by simp
  next
    case (2 x c2)
    have e2: "wr c2 = NewWriter" "length (sent c2) = Suc (length (sent c))"
      using fetchBlock_sent [OF Suc.prems(1) 2(1)] by simp_all
    then show ?thesis using 2(2) Suc.IH [OF e2(1)] by (fastforce simp: with_conn_def ok_def split: if_splits)
  qed
qed (simp add: ok_def)

text \<open>
  Fetching always makes progress or ends.  One call of \<open>Next\<close> on a query of the session sends
  at most three CNTQRY requests; if it returns no rows, the query is done or closed, so a
  client's loop over \<open>Next\<close> stops.
\<close>

theorem Next_ends:
  "conn_inv c \<and> i < length (queries c) \<and> Next i c = (r, c') \<longrightarrow>
     length (sent c') \<le> length (sent c) + 3
     \<and> (isl r \<or> r \<noteq> Inr [] \<or> qDone (queries c' ! i) \<or> qClosed (queries c' ! i))"
proof
  assume a: "conn_inv c \<and> i < length (queries c) \<and> Next i c = (r, c')"
  show "length (sent c') \<le> length (sent c) + 3
     \<and> (isl r \<or> r \<noteq> Inr [] \<or> qDone (queries c' ! i) \<or> qClosed (queries c' ! i))"
  proof (cases "pending (queries c ! i) \<noteq> [] \<or> qDone (queries c ! i) \<or> qClosed (queries c ! i)")
    case True
    then show ?thesis using a by (auto simp: Next_def act_defs upd_query_def Let_def split: if_splits)
  next
    case False
    obtain s c1 where f: "fetchLoop 3 i c = (s, c1)" by fastforce
    note e = fetchLoop_sent [OF _ f]
    have g: "good c c1" using keepsD [OF good_fetchLoop f] .
    have len: "i < length (queries c1)" using g a by (auto simp: good_def)
    show ?thesis
      using a False f e conn_invD(1) len
      by (cases s) (auto simp: Next_def with_conn_def andthen_def upd_query_def change_def ok_def Let_def)
  qed
qed

theorem Next_ends_witness:
  "length (sent (snd (Next 0 open_conn))) \<le> 3"
proof -
  have "conn_inv open_conn" "0 < length (queries open_conn)" "sent open_conn = []"
    by (rule conn_invI) (auto simp: open_conn_def sample_conn_def newConn_def sample_query_def newQuery_def)
  then show ?thesis using Next_ends [of open_conn 0 "fst (Next 0 open_conn)" "snd (Next 0 open_conn)"] by auto
qed

end
