(* ===== verification/Db2_Arrow.thy ===== *)
theory Db2_Arrow
  imports Drda_ParamsOk
begin

text \<open>
  The Arrow side of the driver (\<^verbatim>\<open>driver/db2/arrow_conv.go\<close>, \<^verbatim>\<open>arrow_values.go\<close>): the
  schema of a result set, records built from decoded rows, the values read back from bound
  records, and the Db2 column types for Arrow fields.

  Arrow itself is a library: a data type is a constructor of \<open>arrow_type\<close>, an array the list
  of its slots (\<open>None\<close> for null), a builder the array built so far.  What the library computes
  (instants of its date and time types, time zones, half floats) is the record \<open>arrow_ops\<close>;
  \<open>arrow_lib\<close> states the documented behaviour the theorems use.  The shortest decimal forms of
  floats are the record \<open>float_text\<close>.

  Results: rows written into a record are read back from it; a fractional-second unit that is
  too fine for the year wraps around in 64 bits.
\<close>

section \<open>Arrow data\<close>

datatype time_unit = UnitSecond | UnitMilli | UnitMicro | UnitNano

datatype arrow_type =
    Boolean | Int8 | Int16 | Int32 | Int64 | UInt8 | UInt16 | UInt32 | UInt64
  | Float16 | Float32 | Float64 | Decimal128 int int | Decimal256 int int
  | StringType | LargeString | StringView | Binary | LargeBinary | BinaryView | FixedSizeBinary int
  | Date32 | Date64 | Time32 time_unit | Time64 time_unit | TimestampType time_unit string
  | Dictionary arrow_type | NullType | OtherType string

record Field =
  afName :: string
  afType :: arrow_type
  afNullable :: bool
  afMetadata :: "(string \<times> string) list"

datatype arrow_array =
    BooleanA "bool option list"
  | Int8A "8 word option list" | Int16A "16 word option list" | Int32A "32 word option list" | Int64A "64 word option list"
  | UInt8A "8 word option list" | UInt16A "16 word option list" | UInt32A "32 word option list" | UInt64A "64 word option list"
  | Float16A "16 word option list" | Float32A "32 word option list" | Float64A "64 word option list"
  | Decimal128A int int "int option list" | Decimal256A int int "int option list"
  | StringA "string option list" | LargeStringA "string option list" | StringViewA "string option list"
  | BinaryA "bytes option list" | LargeBinaryA "bytes option list" | BinaryViewA "bytes option list"
  | FixedSizeBinaryA int "bytes option list"
  | Date32A "int option list" | Date64A "int option list"
  | Time32A time_unit "int option list" | Time64A time_unit "int option list"
  | TimestampA time_unit string "int option list"
  | DictionaryA arrow_array "nat option list"
  | NullA nat
  | OtherA string "unit option list"

record Record =
  recSchema :: "Field list"
  recColumns :: "arrow_array list"
  recNumRows :: nat

record arrow_ops =
  date32_ToTime :: "int \<Rightarrow> int \<times> int"
  date64_ToTime :: "int \<Rightarrow> int \<times> int"
  time32_ToTime :: "time_unit \<Rightarrow> int \<Rightarrow> int \<times> int"
  time64_ToTime :: "time_unit \<Rightarrow> int \<Rightarrow> int \<times> int"
  timestamp_ToTime :: "time_unit \<Rightarrow> int \<Rightarrow> int \<times> int"
  zone_offset :: "string \<Rightarrow> int \<Rightarrow> int option"
  float16_Float32 :: "16 word \<Rightarrow> 32 word"

record float_text =
  f64_format_g :: "64 word \<Rightarrow> string"
  f32_Sprint :: "32 word \<Rightarrow> string"

datatype arrow_error =
    TypeErr Value arrow_type
  | UnsupportedBuilder arrow_type
  | DecimalOverflow Decimal
  | CannotBind arrow_type
  | ColumnError string arrow_error
  | NoDb2Type arrow_type
  | PrecisionTooLarge int
  | ArrowPanic

section \<open>The schema of a result set\<close>

abbreviation metaDb2Type :: string where "metaDb2Type \<equiv> ''db2:type''"
abbreviation metaDb2Length :: string where "metaDb2Length \<equiv> ''db2:length''"
abbreviation metaDb2Precision :: string where "metaDb2Precision \<equiv> ''db2:precision''"
abbreviation metaDb2Scale :: string where "metaDb2Scale \<equiv> ''db2:scale''"

definition sized :: "string \<Rightarrow> int \<Rightarrow> string" where
  "sized name n = name @ ''('' @ int_str n @ '')''"

definition sized2 :: "string \<Rightarrow> int \<Rightarrow> int \<Rightarrow> string" where
  "sized2 name p s = name @ ''('' @ int_str p @ '','' @ int_str s @ '')''"

text \<open>The type and the Db2 type name \<open>arrowFieldFor\<close> picks for a column.\<close>

definition arrowTypeFor :: "ColumnDesc \<Rightarrow> arrow_type \<times> string" where
  "arrowTypeFor col =
     (let b = ColumnDesc_Base col; len = cLength col in
      if b = SQLTypeSmallint then (Int16, ''SMALLINT'')
      else if b = SQLTypeInteger then (Int32, ''INTEGER'')
      else if b = SQLTypeBigint then (Int64, ''BIGINT'')
      else if b = SQLTypeFloat then if len = 4 then (Float32, ''REAL'') else (Float64, ''DOUBLE'')
      else if b \<in> {SQLTypeDecimal, SQLTypeNumeric, SQLTypeZoned} then
        let p = (if cPrecision col \<le> 0 then 31 else cPrecision col); s = cScale col
        in (Decimal128 p s, sized2 ''DECIMAL'' p s)
      else if b = SQLTypeDecFloat then
        (StringType, if len = 16 then ''DECFLOAT(34)'' else ''DECFLOAT(16)'')
      else if b = SQLTypeBoolean then (Boolean, ''BOOLEAN'')
      else if b = SQLTypeDate then (Date32, ''DATE'')
      else if b = SQLTypeTime then (Time32 UnitSecond, ''TIME'')
      else if b = SQLTypeTimestamp then
        let frac = len - 20;
            unit = (if frac \<le> 0 then UnitSecond else if frac \<le> 3 then UnitMilli
                    else if frac \<le> 6 then UnitMicro else UnitNano)
        in (TimestampType unit '''', sized ''TIMESTAMP'' (if frac < 0 then 0 else frac))
      else if b = SQLTypeChar then (StringType, sized ''CHAR'' len)
      else if b = SQLTypeVarchar then (StringType, sized ''VARCHAR'' len)
      else if b = SQLTypeLongVarchar then (StringType, ''LONG VARCHAR'')
      else if b = SQLTypeGraphic then (StringType, sized ''GRAPHIC'' len)
      else if b = SQLTypeVargraphic then (StringType, sized ''VARGRAPHIC'' len)
      else if b = SQLTypeLongVargraph then (StringType, ''LONG VARGRAPHIC'')
      else if b \<in> {SQLTypeClob, SQLTypeClobLocator} then (StringType, sized ''CLOB'' len)
      else if b \<in> {SQLTypeDBClob, SQLTypeDBClobLocator} then (StringType, sized ''DBCLOB'' len)
      else if b = SQLTypeXML then (StringType, ''XML'')
      else if b = SQLTypeBinary then (Binary, sized ''BINARY'' len)
      else if b = SQLTypeVarbinary then (Binary, sized ''VARBINARY'' len)
      else if b \<in> {SQLTypeBlob, SQLTypeBlobLocator} then (Binary, sized ''BLOB'' len)
      else if b = SQLTypeRowID then (Binary, ''ROWID'')
      else (StringType, ''SQLTYPE_'' @ nat_str (unat b)))"

definition arrowFieldFor :: "ColumnDesc \<Rightarrow> Field" where
  "arrowFieldFor col =
     (let (dt, typeName) = arrowTypeFor col in
      \<lparr>afName = cName col, afType = dt, afNullable = ColumnDesc_Nullable col,
       afMetadata = [(metaDb2Type, typeName), (metaDb2Length, int_str (cLength col)),
                     (metaDb2Precision, int_str (cPrecision col)), (metaDb2Scale, int_str (cScale col))]\<rparr>)"

definition schemaFor :: "ColumnDesc list \<Rightarrow> Field list" where
  "schemaFor cols = map arrowFieldFor cols"

section \<open>Records from rows\<close>

definition int64 :: "int \<Rightarrow> int" where
  "int64 i = signed_take_bit 63 i"

text \<open>\<^verbatim>\<open>toInt64\<close> of \<^verbatim>\<open>arrow_conv.go\<close>.\<close>

definition cellInt64 :: "Value \<Rightarrow> 64 word option" where
  "cellInt64 v =
     (case v of
        VInt16 x \<Rightarrow> Some (scast x)
      | VInt32 x \<Rightarrow> Some (scast x)
      | VInt64 x \<Rightarrow> Some x
      | VInt8 x \<Rightarrow> Some (scast x)
      | VBool b \<Rightarrow> Some (if b then 1 else 0)
      | _ \<Rightarrow> None)"

text \<open>
  \<^verbatim>\<open>rescale\<close>: the exponent is an int32 difference; \<^verbatim>\<open>Exp\<close> of a negative exponent is 1;
  \<^verbatim>\<open>Quo\<close> truncates toward zero; \<^verbatim>\<open>BitLen() > 127\<close> is an absolute value of at least 2^127.
\<close>

definition rescale128 :: "Decimal \<Rightarrow> int \<Rightarrow> arrow_error + int" where
  "rescale128 d scale =
     (let n = (if dScale d < scale then Unscaled d * 10 ^ nat (int32 (scale - dScale d))
               else if scale < dScale d then
                 sgn (Unscaled d) * (\<bar>Unscaled d\<bar> div 10 ^ nat (int32 (dScale d - scale)))
               else Unscaled d)
      in if 2 ^ 127 \<le> \<bar>n\<bar> then Inl (DecimalOverflow d) else Inr n)"

text \<open>\<^verbatim>\<open>Time.Unix\<close>, \<^verbatim>\<open>UnixMilli\<close>, \<^verbatim>\<open>UnixMicro\<close> and \<^verbatim>\<open>UnixNano\<close> of a pair of seconds and nanoseconds.\<close>

definition unix_in :: "time_unit \<Rightarrow> int \<times> int \<Rightarrow> int" where
  "unix_in unit t =
     (case unit of
        UnitSecond \<Rightarrow> int64 (fst t)
      | UnitMilli \<Rightarrow> int64 (fst t * 10 ^ 3 + snd t div 10 ^ 6)
      | UnitMicro \<Rightarrow> int64 (fst t * 10 ^ 6 + snd t div 10 ^ 3)
      | UnitNano \<Rightarrow> int64 (fst t * 10 ^ 9 + snd t))"

definition f64_inf :: "64 word \<Rightarrow> bool" where
  "f64_inf w \<longleftrightarrow> take_bit 11 (drop_bit 52 w) = 0x7FF \<and> take_bit 52 w = 0"

text \<open>The text of \<^verbatim>\<open>Format("2006-01-02 15:04:05.999999999")\<close>: trailing zeros of the fraction are dropped.\<close>

definition format_display :: "Timestamp \<Rightarrow> string" where
  "format_display ts =
     (let (sec, nanos) = ToTime ts; d = civil_date (sec div 86400); s = sec mod 86400;
          frac = trimRightSet ''0'' (fmt_0d 9 nanos)
      in Date_String d @ '' '' @ fmt_0d 2 (s div 3600) @ '':'' @ fmt_0d 2 (s div 60 mod 60) @ '':''
           @ fmt_0d 2 (s mod 60) @ (if frac = [] then '''' else CHR ''.'' # frac))"

text \<open>What a \<^verbatim>\<open>StringBuilder\<close> appends for a value that is not null.\<close>

definition cellText :: "float_text \<Rightarrow> Value \<Rightarrow> string" where
  "cellText T v =
     (case v of
        VString s \<Rightarrow> s
      | VDecimal d \<Rightarrow> Decimal_String d
      | VDecimalNil \<Rightarrow> ''<nil>''
      | VFloat64 x \<Rightarrow>
          if f64_is_NaN x then ''NaN''
          else if f64_inf x then (if bit x 63 then ''-Infinity'' else ''Infinity'')
          else f64_format_g T x
      | VBytes b \<Rightarrow> bytes_str b
      | VDate d \<Rightarrow> Date_String d
      | VTime t \<Rightarrow> Time_String t
      | VTimestamp ts \<Rightarrow> format_display ts
      | VFloat32 x \<Rightarrow> f32_Sprint T x
      | VBool b \<Rightarrow> (if b then ''true'' else ''false'')
      | VLobRef b \<Rightarrow> (if b then ''{true}'' else ''{false}'')
      | VInt x \<Rightarrow> int_str (sint x) | VInt8 x \<Rightarrow> int_str (sint x) | VInt16 x \<Rightarrow> int_str (sint x)
      | VInt32 x \<Rightarrow> int_str (sint x) | VInt64 x \<Rightarrow> int_str (sint x)
      | VUint8 x \<Rightarrow> nat_str (unat x) | VUint16 x \<Rightarrow> nat_str (unat x) | VUint32 x \<Rightarrow> nat_str (unat x)
      | VUint64 x \<Rightarrow> nat_str (unat x)
      | VNil \<Rightarrow> '''')"

section \<open>Builders\<close>

definition newBuilder :: "arrow_type \<Rightarrow> arrow_array" where
  "newBuilder dt =
     (case dt of
        Int16 \<Rightarrow> Int16A [] | Int32 \<Rightarrow> Int32A [] | Int64 \<Rightarrow> Int64A []
      | Float32 \<Rightarrow> Float32A [] | Float64 \<Rightarrow> Float64A [] | Boolean \<Rightarrow> BooleanA []
      | Decimal128 p s \<Rightarrow> Decimal128A p s [] | StringType \<Rightarrow> StringA [] | Binary \<Rightarrow> BinaryA []
      | Date32 \<Rightarrow> Date32A [] | Time32 u \<Rightarrow> Time32A u [] | TimestampType u z \<Rightarrow> TimestampA u z []
      | _ \<Rightarrow> OtherA '''' [])"

text \<open>\<^verbatim>\<open>AppendNull\<close> on the builders of \<open>newBuilder\<close>.\<close>

definition appendNull :: "arrow_array \<Rightarrow> arrow_array" where
  "appendNull b =
     (case b of
        Int16A xs \<Rightarrow> Int16A (xs @ [None]) | Int32A xs \<Rightarrow> Int32A (xs @ [None]) | Int64A xs \<Rightarrow> Int64A (xs @ [None])
      | Float32A xs \<Rightarrow> Float32A (xs @ [None]) | Float64A xs \<Rightarrow> Float64A (xs @ [None])
      | BooleanA xs \<Rightarrow> BooleanA (xs @ [None]) | Decimal128A p s xs \<Rightarrow> Decimal128A p s (xs @ [None])
      | StringA xs \<Rightarrow> StringA (xs @ [None]) | BinaryA xs \<Rightarrow> BinaryA (xs @ [None])
      | Date32A xs \<Rightarrow> Date32A (xs @ [None]) | Time32A u xs \<Rightarrow> Time32A u (xs @ [None])
      | TimestampA u z xs \<Rightarrow> TimestampA u z (xs @ [None]) | OtherA n xs \<Rightarrow> OtherA n (xs @ [None])
      | _ \<Rightarrow> b)"

definition appendValue :: "float_ops \<Rightarrow> float_text \<Rightarrow> arrow_type \<Rightarrow> Value \<Rightarrow> arrow_array \<Rightarrow> arrow_error + arrow_array" where
  "appendValue F T dt v b =
     (if v = VNil then Inr (appendNull b)
      else case b of
        Int16A xs \<Rightarrow> (case cellInt64 v of None \<Rightarrow> Inl (TypeErr v dt) | Some n \<Rightarrow> Inr (Int16A (xs @ [Some (ucast n)])))
      | Int32A xs \<Rightarrow> (case cellInt64 v of None \<Rightarrow> Inl (TypeErr v dt) | Some n \<Rightarrow> Inr (Int32A (xs @ [Some (ucast n)])))
      | Int64A xs \<Rightarrow> (case cellInt64 v of None \<Rightarrow> Inl (TypeErr v dt) | Some n \<Rightarrow> Inr (Int64A (xs @ [Some n])))
      | Float32A xs \<Rightarrow>
          (case v of
             VFloat32 x \<Rightarrow> Inr (Float32A (xs @ [Some x]))
           | VFloat64 x \<Rightarrow> Inr (Float32A (xs @ [Some (f64_to_f32 F x)]))
           | _ \<Rightarrow> Inl (TypeErr v dt))
      | Float64A xs \<Rightarrow>
          (case v of
             VFloat64 x \<Rightarrow> Inr (Float64A (xs @ [Some x]))
           | VFloat32 x \<Rightarrow> Inr (Float64A (xs @ [Some (f32_to_f64 F x)]))
           | _ \<Rightarrow> Inl (TypeErr v dt))
      | BooleanA xs \<Rightarrow> (case v of VBool x \<Rightarrow> Inr (BooleanA (xs @ [Some x])) | _ \<Rightarrow> Inl (TypeErr v dt))
      | Decimal128A p s xs \<Rightarrow>
          (case v of
             VDecimal d \<Rightarrow> (case rescale128 d s of Inl e \<Rightarrow> Inl e | Inr n \<Rightarrow> Inr (Decimal128A p s (xs @ [Some n])))
           | VDecimalNil \<Rightarrow> Inl ArrowPanic
           | _ \<Rightarrow> Inl (TypeErr v dt))
      | StringA xs \<Rightarrow> Inr (StringA (xs @ [Some (cellText T v)]))
      | BinaryA xs \<Rightarrow>
          (case v of
             VBytes x \<Rightarrow> Inr (BinaryA (xs @ [Some x]))
           | VString s \<Rightarrow> Inr (BinaryA (xs @ [Some (str_bytes s)]))
           | _ \<Rightarrow> Inl (TypeErr v dt))
      | Date32A xs \<Rightarrow> (case v of VDate d \<Rightarrow> Inr (Date32A (xs @ [Some (DaysSinceEpoch d)])) | _ \<Rightarrow> Inl (TypeErr v dt))
      | Time32A u xs \<Rightarrow>
          (case v of
             VTime t \<Rightarrow> Inr (Time32A u (xs @ [Some (int32 (Hour t * 3600 + Minute t * 60 + Second t))]))
           | _ \<Rightarrow> Inl (TypeErr v dt))
      | TimestampA u z xs \<Rightarrow>
          (case v of VTimestamp ts \<Rightarrow> Inr (TimestampA u z (xs @ [Some (unix_in u (ToTime ts))])) | _ \<Rightarrow> Inl (TypeErr v dt))
      | _ \<Rightarrow> Inl (UnsupportedBuilder dt))"

text \<open>One column of a record; a row that is too short is the panic of \<^verbatim>\<open>row[ci]\<close>.\<close>

fun buildColumn :: "float_ops \<Rightarrow> float_text \<Rightarrow> Field \<Rightarrow> nat \<Rightarrow> Value list list \<Rightarrow> arrow_array \<Rightarrow> arrow_error + arrow_array" where
  "buildColumn F T f ci [] b = Inr b"
| "buildColumn F T f ci (row # rows) b =
     (if length row \<le> ci then Inl ArrowPanic
      else case appendValue F T (afType f) (row ! ci) b of
        Inl e \<Rightarrow> Inl (if e = ArrowPanic then e else ColumnError (afName f) e)
      | Inr b1 \<Rightarrow> buildColumn F T f ci rows b1)"

fun buildColumns :: "float_ops \<Rightarrow> float_text \<Rightarrow> nat \<Rightarrow> Field list \<Rightarrow> Value list list \<Rightarrow> arrow_error + arrow_array list" where
  "buildColumns F T ci [] rows = Inr []"
| "buildColumns F T ci (f # fs) rows =
     (case buildColumn F T f ci rows (newBuilder (afType f)) of
        Inl e \<Rightarrow> Inl e
      | Inr b \<Rightarrow> (case buildColumns F T (ci + 1) fs rows of Inl e \<Rightarrow> Inl e | Inr bs \<Rightarrow> Inr (b # bs)))"

fun array_len :: "arrow_array \<Rightarrow> nat" where
  "array_len (BooleanA xs) = length xs" | "array_len (Int8A xs) = length xs"
| "array_len (Int16A xs) = length xs" | "array_len (Int32A xs) = length xs" | "array_len (Int64A xs) = length xs"
| "array_len (UInt8A xs) = length xs" | "array_len (UInt16A xs) = length xs" | "array_len (UInt32A xs) = length xs"
| "array_len (UInt64A xs) = length xs" | "array_len (Float16A xs) = length xs" | "array_len (Float32A xs) = length xs"
| "array_len (Float64A xs) = length xs" | "array_len (Decimal128A p s xs) = length xs"
| "array_len (Decimal256A p s xs) = length xs" | "array_len (StringA xs) = length xs"
| "array_len (LargeStringA xs) = length xs" | "array_len (StringViewA xs) = length xs" | "array_len (BinaryA xs) = length xs"
| "array_len (LargeBinaryA xs) = length xs" | "array_len (BinaryViewA xs) = length xs"
| "array_len (FixedSizeBinaryA w xs) = length xs" | "array_len (Date32A xs) = length xs" | "array_len (Date64A xs) = length xs"
| "array_len (Time32A u xs) = length xs" | "array_len (Time64A u xs) = length xs" | "array_len (TimestampA u z xs) = length xs"
| "array_len (DictionaryA d xs) = length xs" | "array_len (NullA n) = n" | "array_len (OtherA t xs) = length xs"

definition recordFromRows :: "float_ops \<Rightarrow> float_text \<Rightarrow> Field list \<Rightarrow> Value list list \<Rightarrow> arrow_error + Record" where
  "recordFromRows F T schema rows =
     (case buildColumns F T 0 schema rows of
        Inl e \<Rightarrow> Inl e
      | Inr cols \<Rightarrow>
          Inr \<lparr>recSchema = schema, recColumns = cols,
               recNumRows = (case cols of [] \<Rightarrow> 0 | c # cs \<Rightarrow> array_len c)\<rparr>)"

section \<open>Rows from records\<close>

text \<open>The calendar fields of an instant, \<^verbatim>\<open>In(loc)\<close> adding the offset of the zone.\<close>

definition time_date :: "int \<times> int \<Rightarrow> Date" where
  "time_date t = civil_date (fst t div 86400)"

definition time_clock :: "int \<times> int \<Rightarrow> Time" where
  "time_clock t = (let s = fst t mod 86400 in \<lparr>Hour = s div 3600, Minute = s div 60 mod 60, Second = s mod 60\<rparr>)"

definition in_zone :: "arrow_ops \<Rightarrow> string \<Rightarrow> int \<times> int \<Rightarrow> int \<times> int" where
  "in_zone A zone t =
     (if zone = '''' then t
      else case zone_offset A zone (fst t) of None \<Rightarrow> t | Some off \<Rightarrow> (fst t + off, snd t))"

definition slots :: "('a \<Rightarrow> Value) \<Rightarrow> 'a option list \<Rightarrow> Value list" where
  "slots f xs = map (\<lambda>x. case x of None \<Rightarrow> VNil | Some a \<Rightarrow> f a) xs"

fun dictSlots :: "Value list \<Rightarrow> nat option list \<Rightarrow> arrow_error + Value list" where
  "dictSlots vals [] = Inr []"
| "dictSlots vals (None # is) = (case dictSlots vals is of Inl e \<Rightarrow> Inl e | Inr vs \<Rightarrow> Inr (VNil # vs))"
| "dictSlots vals (Some i # is) =
     (if length vals \<le> i then Inl ArrowPanic
      else case dictSlots vals is of Inl e \<Rightarrow> Inl e | Inr vs \<Rightarrow> Inr (vals ! i # vs))"

fun columnValues :: "arrow_ops \<Rightarrow> arrow_array \<Rightarrow> arrow_error + Value list" where
  "columnValues A (DictionaryA dict is) =
     (case columnValues A dict of Inl e \<Rightarrow> Inl e | Inr vals \<Rightarrow> dictSlots vals is)"
| "columnValues A (BooleanA xs) = Inr (slots VBool xs)"
| "columnValues A (Int8A xs) = Inr (slots (\<lambda>x. VInt16 (scast x)) xs)"
| "columnValues A (Int16A xs) = Inr (slots VInt16 xs)"
| "columnValues A (Int32A xs) = Inr (slots VInt32 xs)"
| "columnValues A (Int64A xs) = Inr (slots VInt64 xs)"
| "columnValues A (UInt8A xs) = Inr (slots (\<lambda>x. VInt16 (ucast x)) xs)"
| "columnValues A (UInt16A xs) = Inr (slots (\<lambda>x. VInt32 (ucast x)) xs)"
| "columnValues A (UInt32A xs) = Inr (slots (\<lambda>x. VInt64 (ucast x)) xs)"
| "columnValues A (UInt64A xs) = Inr (slots (\<lambda>x. VDecimal \<lparr>Unscaled = uint x, dScale = 0\<rparr>) xs)"
| "columnValues A (Float16A xs) = Inr (slots (\<lambda>x. VFloat32 (float16_Float32 A x)) xs)"
| "columnValues A (Float32A xs) = Inr (slots VFloat32 xs)"
| "columnValues A (Float64A xs) = Inr (slots VFloat64 xs)"
| "columnValues A (Decimal128A p s xs) = Inr (slots (\<lambda>x. VDecimal \<lparr>Unscaled = x, dScale = s\<rparr>) xs)"
| "columnValues A (Decimal256A p s xs) = Inr (slots (\<lambda>x. VDecimal \<lparr>Unscaled = x, dScale = s\<rparr>) xs)"
| "columnValues A (StringA xs) = Inr (slots VString xs)"
| "columnValues A (LargeStringA xs) = Inr (slots VString xs)"
| "columnValues A (StringViewA xs) = Inr (slots VString xs)"
| "columnValues A (BinaryA xs) = Inr (slots VBytes xs)"
| "columnValues A (LargeBinaryA xs) = Inr (slots VBytes xs)"
| "columnValues A (BinaryViewA xs) = Inr (slots VBytes xs)"
| "columnValues A (FixedSizeBinaryA w xs) = Inr (slots VBytes xs)"
| "columnValues A (Date32A xs) = Inr (slots (\<lambda>x. VDate (time_date (date32_ToTime A x))) xs)"
| "columnValues A (Date64A xs) = Inr (slots (\<lambda>x. VDate (time_date (date64_ToTime A x))) xs)"
| "columnValues A (Time32A u xs) = Inr (slots (\<lambda>x. VTime (time_clock (time32_ToTime A u x))) xs)"
| "columnValues A (Time64A u xs) = Inr (slots (\<lambda>x. VTime (time_clock (time64_ToTime A u x))) xs)"
| "columnValues A (TimestampA u z xs) =
     Inr (slots (\<lambda>x. let t = in_zone A z (timestamp_ToTime A u x)
                     in VTimestamp \<lparr>tsDate = time_date t, tsTime = time_clock t, Nanos = snd t\<rparr>) xs)"
| "columnValues A (NullA n) = Inr (replicate n VNil)"
| "columnValues A (OtherA t xs) = Inl (CannotBind (OtherType t))"

fun columnsValues :: "arrow_ops \<Rightarrow> Field list \<Rightarrow> arrow_array list \<Rightarrow> arrow_error + Value list list" where
  "columnsValues A fs [] = Inr []"
| "columnsValues A fs (c # cs) =
     (case columnValues A c of
        Inl e \<Rightarrow> Inl (if e = ArrowPanic then e else case fs of f # gs \<Rightarrow> ColumnError (afName f) e | [] \<Rightarrow> ArrowPanic)
      | Inr vs \<Rightarrow> (case columnsValues A (drop 1 fs) cs of Inl e \<Rightarrow> Inl e | Inr vss \<Rightarrow> Inr (vs # vss)))"

text \<open>\<open>recordRows\<close> transposes; an array shorter than the record is the panic of \<^verbatim>\<open>cols[c][r]\<close>.\<close>

definition recordRows :: "arrow_ops \<Rightarrow> Record \<Rightarrow> arrow_error + Value list list" where
  "recordRows A rec =
     (case columnsValues A (recSchema rec) (recColumns rec) of
        Inl e \<Rightarrow> Inl e
      | Inr cols \<Rightarrow>
          if list_all (\<lambda>col. recNumRows rec \<le> length col) cols
          then Inr (map (\<lambda>r. map (\<lambda>col. col ! r) cols) [0..<recNumRows rec])
          else Inl ArrowPanic)"

section \<open>Db2 types for Arrow fields\<close>

definition timestampName :: "time_unit \<Rightarrow> string" where
  "timestampName u =
     (case u of UnitSecond \<Rightarrow> ''TIMESTAMP(0)'' | UnitMilli \<Rightarrow> ''TIMESTAMP(3)''
      | UnitMicro \<Rightarrow> ''TIMESTAMP(6)'' | UnitNano \<Rightarrow> ''TIMESTAMP(9)'')"

fun db2TypeOf :: "arrow_type \<Rightarrow> int \<Rightarrow> arrow_error + string" where
  "db2TypeOf Boolean n = Inr ''BOOLEAN''"
| "db2TypeOf Int8 n = Inr ''SMALLINT''" | "db2TypeOf Int16 n = Inr ''SMALLINT''" | "db2TypeOf UInt8 n = Inr ''SMALLINT''"
| "db2TypeOf Int32 n = Inr ''INTEGER''" | "db2TypeOf UInt16 n = Inr ''INTEGER''"
| "db2TypeOf Int64 n = Inr ''BIGINT''" | "db2TypeOf UInt32 n = Inr ''BIGINT''"
| "db2TypeOf UInt64 n = Inr ''DECIMAL(20,0)''"
| "db2TypeOf Float16 n = Inr ''REAL''" | "db2TypeOf Float32 n = Inr ''REAL''" | "db2TypeOf Float64 n = Inr ''DOUBLE''"
| "db2TypeOf (Decimal128 p s) n = (if 31 < p then Inl (PrecisionTooLarge p) else Inr (sized2 ''DECIMAL'' p s))"
| "db2TypeOf (Decimal256 p s) n = (if 31 < p then Inl (PrecisionTooLarge p) else Inr (sized2 ''DECIMAL'' p s))"
| "db2TypeOf StringType n = Inr (sized ''VARCHAR'' n)" | "db2TypeOf LargeString n = Inr (sized ''VARCHAR'' n)"
| "db2TypeOf StringView n = Inr (sized ''VARCHAR'' n)"
| "db2TypeOf Binary n = Inr (sized ''VARBINARY'' n)" | "db2TypeOf LargeBinary n = Inr (sized ''VARBINARY'' n)"
| "db2TypeOf BinaryView n = Inr (sized ''VARBINARY'' n)"
| "db2TypeOf (FixedSizeBinary w) n = Inr (sized ''BINARY'' w)"
| "db2TypeOf Date32 n = Inr ''DATE''" | "db2TypeOf Date64 n = Inr ''DATE''"
| "db2TypeOf (Time32 u) n = Inr ''TIME''" | "db2TypeOf (Time64 u) n = Inr ''TIME''"
| "db2TypeOf (TimestampType u z) n = Inr (timestampName u)"
| "db2TypeOf (Dictionary t) n = db2TypeOf t n"
| "db2TypeOf NullType n = Inl (NoDb2Type NullType)"
| "db2TypeOf (OtherType t) n = Inl (NoDb2Type (OtherType t))"

definition db2TypeForArrow :: "Field \<Rightarrow> int \<Rightarrow> arrow_error + string" where
  "db2TypeForArrow f varcharLen =
     (case map_of (afMetadata f) metaDb2Type of
        Some v \<Rightarrow> if v \<noteq> '''' \<and> \<not> HasPrefix v ''SQLTYPE_'' then Inr v else db2TypeOf (afType f) varcharLen
      | None \<Rightarrow> db2TypeOf (afType f) varcharLen)"

section \<open>The Arrow library\<close>

text \<open>
  The instants behind Arrow's date, time and timestamp types: days, units since midnight and
  units since the epoch, all in UTC.
\<close>

locale arrow_lib =
  fixes A :: arrow_ops
  assumes date32: "date32_ToTime A d = (d * 86400, 0)"
    and time32: "0 \<le> s \<and> s < 86400 \<Longrightarrow> time32_ToTime A UnitSecond s = (s, 0)"
    and timestamp_s: "timestamp_ToTime A UnitSecond t = (t, 0)"
    and timestamp_ms: "timestamp_ToTime A UnitMilli t = (t div 10 ^ 3, t mod 10 ^ 3 * 10 ^ 6)"
    and timestamp_us: "timestamp_ToTime A UnitMicro t = (t div 10 ^ 6, t mod 10 ^ 6 * 10 ^ 3)"
    and timestamp_ns: "timestamp_ToTime A UnitNano t = (t div 10 ^ 9, t mod 10 ^ 9)"

definition unit_nanos :: "time_unit \<Rightarrow> int" where
  "unit_nanos u = (case u of UnitSecond \<Rightarrow> 10 ^ 9 | UnitMilli \<Rightarrow> 10 ^ 6 | UnitMicro \<Rightarrow> 10 ^ 3 | UnitNano \<Rightarrow> 1)"

text \<open>The documented library, for evaluation.\<close>

definition arrow_doc :: arrow_ops where
  "arrow_doc =
     \<lparr>date32_ToTime = (\<lambda>d. (d * 86400, 0)), date64_ToTime = (\<lambda>d. (d div 1000, d mod 1000 * 10 ^ 6)),
      time32_ToTime = (\<lambda>u s. (s * unit_nanos u div 10 ^ 9, s * unit_nanos u mod 10 ^ 9)),
      time64_ToTime = (\<lambda>u s. (s * unit_nanos u div 10 ^ 9, s * unit_nanos u mod 10 ^ 9)),
      timestamp_ToTime = (\<lambda>u t. (t div (10 ^ 9 div unit_nanos u), t mod (10 ^ 9 div unit_nanos u) * unit_nanos u)),
      zone_offset = (\<lambda>z t. None), float16_Float32 = (\<lambda>x. 0)\<rparr>"

interpretation doc: arrow_lib arrow_doc
  by unfold_locales (simp_all add: arrow_doc_def unit_nanos_def)

section \<open>Rows through a record\<close>

text \<open>
  Whether a column of the type holds the value exactly: decimals have the scale of the column,
  times and timestamps are valid and no finer than the unit, and nanoseconds since the epoch
  fit into 64 bits.
\<close>

definition timestamp_fits :: "time_unit \<Rightarrow> Timestamp \<Rightarrow> bool" where
  "timestamp_fits u ts \<longleftrightarrow>
     timestamp_ok ts \<and> Hour (tsTime ts) < 24 \<and> Nanos ts mod unit_nanos u = 0
     \<and> (u = UnitNano \<longrightarrow> - (2 ^ 63) \<le> fst (ToTime ts) * 10 ^ 9 + snd (ToTime ts)
                        \<and> fst (ToTime ts) * 10 ^ 9 + snd (ToTime ts) < 2 ^ 63)"

fun cell_ok :: "arrow_type \<Rightarrow> Value \<Rightarrow> bool" where
  "cell_ok Int16 v = (case v of VNil \<Rightarrow> True | VInt16 x \<Rightarrow> True | _ \<Rightarrow> False)"
| "cell_ok Int32 v = (case v of VNil \<Rightarrow> True | VInt32 x \<Rightarrow> True | _ \<Rightarrow> False)"
| "cell_ok Int64 v = (case v of VNil \<Rightarrow> True | VInt64 x \<Rightarrow> True | _ \<Rightarrow> False)"
| "cell_ok Float32 v = (case v of VNil \<Rightarrow> True | VFloat32 x \<Rightarrow> True | _ \<Rightarrow> False)"
| "cell_ok Float64 v = (case v of VNil \<Rightarrow> True | VFloat64 x \<Rightarrow> True | _ \<Rightarrow> False)"
| "cell_ok Boolean v = (case v of VNil \<Rightarrow> True | VBool x \<Rightarrow> True | _ \<Rightarrow> False)"
| "cell_ok (Decimal128 p s) v =
     (case v of VNil \<Rightarrow> True | VDecimal d \<Rightarrow> dScale d = s \<and> \<bar>Unscaled d\<bar> < 2 ^ 127 | _ \<Rightarrow> False)"
| "cell_ok StringType v = (case v of VNil \<Rightarrow> True | VString x \<Rightarrow> True | _ \<Rightarrow> False)"
| "cell_ok Binary v = (case v of VNil \<Rightarrow> True | VBytes x \<Rightarrow> True | _ \<Rightarrow> False)"
| "cell_ok Date32 v = (case v of VNil \<Rightarrow> True | VDate d \<Rightarrow> date_ok d | _ \<Rightarrow> False)"
| "cell_ok (Time32 u) v =
     (u = UnitSecond \<and> (case v of VNil \<Rightarrow> True | VTime t \<Rightarrow> time_ok t \<and> Hour t < 24 | _ \<Rightarrow> False))"
| "cell_ok (TimestampType u z) v =
     (z = '''' \<and> (case v of VNil \<Rightarrow> True | VTimestamp ts \<Rightarrow> timestamp_fits u ts | _ \<Rightarrow> False))"
| "cell_ok _ v = False"

text \<open>The type of a builder.\<close>

fun kind :: "arrow_array \<Rightarrow> arrow_type" where
  "kind (Int16A xs) = Int16" | "kind (Int32A xs) = Int32" | "kind (Int64A xs) = Int64"
| "kind (Float32A xs) = Float32" | "kind (Float64A xs) = Float64" | "kind (BooleanA xs) = Boolean"
| "kind (Decimal128A p s xs) = Decimal128 p s" | "kind (StringA xs) = StringType" | "kind (BinaryA xs) = Binary"
| "kind (Date32A xs) = Date32" | "kind (Time32A u xs) = Time32 u" | "kind (TimestampA u z xs) = TimestampType u z"
| "kind _ = NullType"

lemma clock_fields:
  fixes h m s :: int
  assumes "0 \<le> h" "h < 24" "0 \<le> m" "m < 60" "0 \<le> s" "s < 60"
  defines "r \<equiv> h * 3600 + m * 60 + s"
  shows "0 \<le> r" "r < 86400" "r div 3600 = h" "r div 60 mod 60 = m" "r mod 60 = s"
proof -
  show "0 \<le> r" "r < 86400" using assms by (auto simp: r_def)
  have "r = 3600 * h + (m * 60 + s)" by (simp add: r_def)
  then show "r div 3600 = h" using assms int_div_pos_eq [of r 3600 h "m * 60 + s"] by simp
  have e: "r = 60 * (h * 60 + m) + s" by (simp add: r_def)
  then have "r div 60 = h * 60 + m" using assms int_div_pos_eq [of r 60 "h * 60 + m" s] by simp
  then show "r div 60 mod 60 = m" using assms int_mod_pos_eq [of "h * 60 + m" 60 h m] by simp
  show "r mod 60 = s" using e assms int_mod_pos_eq [of r 60 "h * 60 + m" s] by simp
qed

lemma days_bounds:
  assumes "date_ok d"
  shows "- 720000 \<le> unix_days (Year d) (Month d) (Day d)" "unix_days (Year d) (Month d) (Day d) < 3000000"
proof -
  let ?y = "Year d" and ?m = "Month d"
  have y: "0 \<le> ?y" "?y \<le> 9999" and m: "1 \<le> ?m" "?m \<le> 12" "1 \<le> Day d" "Day d \<le> month_days ?y ?m"
    using assms by (simp_all add: date_ok_def)
  have k: "0 \<le> days_before_month ?y ?m + (Day d - 1)" "days_before_month ?y ?m + (Day d - 1) < 366"
    using month_range [OF m(1,2)] m(3,4)
    by (elim insertE emptyE; cases "is_leap ?y"; simp add: days_before_month_def month_days_def)+
  have "146097 * (?y - 1) - 699 \<le> 400 * days_before_year ?y" "400 * days_before_year ?y \<le> 146097 * (?y - 1) + 396"
    by (rule days_before_year_bounds)+
  then have b: "- 367 \<le> days_before_year ?y" and b': "days_before_year ?y \<le> 3651696"
    using y by auto
  show "- 720000 \<le> unix_days ?y ?m (Day d)" "unix_days ?y ?m (Day d) < 3000000"
    using b b' k m by (simp_all add: unix_days_month)
qed

lemma signed_take_bit_id: "- (2 ^ n) \<le> i \<Longrightarrow> i < 2 ^ n \<Longrightarrow> signed_take_bit n i = (i :: int)"
  by (simp add: signed_take_bit_int_eq_self_iff)

lemma date_back:
  assumes "date_ok d"
  shows "DaysSinceEpoch d = unix_days (Year d) (Month d) (Day d)"
    and "time_date (unix_days (Year d) (Month d) (Day d) * 86400, n) = d"
  using days_bounds [OF assms] civil_date_unix_days [OF assms]
  by (simp_all add: DaysSinceEpoch_def int32_def signed_take_bit_id time_date_def)

lemma div_mod_pack:
  fixes a b k :: int
  assumes "0 \<le> b" "b < k"
  shows "(a * k + b) div k = a" "(a * k + b) mod k = b"
  using assms int_div_pos_eq [of "a * k + b" k a b] int_mod_pos_eq [of "a * k + b" k a b] by simp_all

lemma timestamp_fields:
  assumes "timestamp_ok ts" "Hour (tsTime ts) < 24"
  defines "sec \<equiv> fst (ToTime ts)"
  shows "ToTime ts = (sec, Nanos ts)" "0 \<le> Nanos ts" "Nanos ts < 10 ^ 9"
    "- (10 ^ 11) \<le> sec" "sec < 10 ^ 12"
    "\<lparr>tsDate = time_date (sec, n), tsTime = time_clock (sec, n), Nanos = Nanos ts\<rparr> = ts"
proof -
  let ?d = "tsDate ts" and ?t = "tsTime ts"
  let ?u = "unix_days (Year ?d) (Month ?d) (Day ?d)"
  let ?r = "Hour ?t * 3600 + Minute ?t * 60 + Second ?t"
  have ok: "date_ok ?d" "0 \<le> Hour ?t" "Hour ?t < 24" "0 \<le> Minute ?t" "Minute ?t < 60" "0 \<le> Second ?t" "Second ?t < 60"
    and n: "0 \<le> Nanos ts" "Nanos ts < 10 ^ 9"
    using assms by (auto simp: timestamp_ok_def time_ok_def)
  note r = clock_fields [OF ok(2-7)]
  have sec: "sec = ?u * 86400 + ?r" and t: "ToTime ts = (sec, Nanos ts)"
    using n int_div_pos_eq [of "Nanos ts" "10 ^ 9" 0 "Nanos ts"] int_mod_pos_eq [of "Nanos ts" "10 ^ 9" 0 "Nanos ts"]
    by (simp_all add: ToTime_def sec_def)
  show "ToTime ts = (sec, Nanos ts)" "0 \<le> Nanos ts" "Nanos ts < 10 ^ 9" using t n by simp_all
  show "- (10 ^ 11) \<le> sec" "sec < 10 ^ 12"
    using days_bounds [OF ok(1)] r(1,2) by (simp_all add: sec)
  have d: "sec div 86400 = ?u" "sec mod 86400 = ?r"
    using div_mod_pack [OF r(1,2), of ?u] by (simp_all only: sec)
  show "\<lparr>tsDate = time_date (sec, n), tsTime = time_clock (sec, n), Nanos = Nanos ts\<rparr> = ts"
    unfolding time_date_def time_clock_def Let_def fst_conv d r(3-5) civil_date_unix_days [OF ok(1)] by simp
qed

lemma cell_ok_shape:
  assumes "cell_ok dt v" "v \<noteq> VNil"
  shows "case dt of
      Int16 \<Rightarrow> (\<exists>x. v = VInt16 x) | Int32 \<Rightarrow> (\<exists>x. v = VInt32 x) | Int64 \<Rightarrow> (\<exists>x. v = VInt64 x)
    | Float32 \<Rightarrow> (\<exists>x. v = VFloat32 x) | Float64 \<Rightarrow> (\<exists>x. v = VFloat64 x) | Boolean \<Rightarrow> (\<exists>x. v = VBool x)
    | Decimal128 p s \<Rightarrow> (\<exists>d. v = VDecimal d \<and> dScale d = s \<and> \<bar>Unscaled d\<bar> < 2 ^ 127)
    | StringType \<Rightarrow> (\<exists>x. v = VString x) | Binary \<Rightarrow> (\<exists>x. v = VBytes x) | Date32 \<Rightarrow> (\<exists>d. v = VDate d \<and> date_ok d)
    | Time32 u \<Rightarrow> (\<exists>t. v = VTime t \<and> time_ok t \<and> Hour t < 24 \<and> u = UnitSecond)
    | TimestampType u z \<Rightarrow> (\<exists>ts. v = VTimestamp ts \<and> timestamp_fits u ts \<and> z = '''')
    | _ \<Rightarrow> False"
proof (cases dt)
qed (use assms in \<open>simp_all split: Value.splits\<close>)

lemma ucast_scast_down [simp]:
  "ucast (scast (x :: 16 word) :: 64 word) = x" "ucast (scast (y :: 32 word) :: 64 word) = y"
  by (rule bit_word_eqI; simp add: bit_simps)+

context arrow_lib
begin

lemma timestamp_back:
  assumes "timestamp_fits u ts"
  shows "timestamp_ToTime A u (unix_in u (ToTime ts)) = ToTime ts"
proof -
  have ok: "timestamp_ok ts" "Hour (tsTime ts) < 24" "Nanos ts mod unit_nanos u = 0"
    using assms by (simp_all add: timestamp_fits_def)
  define sec where "sec = fst (ToTime ts)"
  have t: "ToTime ts = (sec, Nanos ts)" and n: "0 \<le> Nanos ts" "Nanos ts < 10 ^ 9"
    and s: "- (10 ^ 11) \<le> sec" "sec < 10 ^ 12"
    using timestamp_fields [OF ok(1,2)] by (simp_all add: sec_def)
  define k where "k = Nanos ts div unit_nanos u"
  have k: "Nanos ts = k * unit_nanos u" using ok(3) mult_div_mod_eq [of "unit_nanos u" "Nanos ts"] by (simp add: k_def mult.commute)
  show ?thesis
  proof (cases u)
    case UnitSecond
    then have "k = 0" using k n by (simp add: unit_nanos_def)
    then show ?thesis
      using UnitSecond k s t by (simp add: unix_in_def int64_def signed_take_bit_id timestamp_s)
  next
    case UnitMilli
    then have "0 \<le> k" "k < 10 ^ 3" using k n by (simp_all add: unit_nanos_def)
    then show ?thesis
      using UnitMilli k s t div_mod_pack [of k "10 ^ 3" sec]
      by (simp add: unix_in_def int64_def signed_take_bit_id timestamp_ms unit_nanos_def)
  next
    case UnitMicro
    then have "0 \<le> k" "k < 10 ^ 6" using k n by (simp_all add: unit_nanos_def)
    then show ?thesis
      using UnitMicro k s t div_mod_pack [of k "10 ^ 6" sec]
      by (simp add: unix_in_def int64_def signed_take_bit_id timestamp_us unit_nanos_def)
  next
    case UnitNano
    then have "- (2 ^ 63) \<le> sec * 10 ^ 9 + Nanos ts" "sec * 10 ^ 9 + Nanos ts < 2 ^ 63"
      using assms t by (simp_all add: timestamp_fits_def)
    then show ?thesis
      using UnitNano n t div_mod_pack [OF n, of sec]
      by (simp add: unix_in_def int64_def signed_take_bit_id timestamp_ns)
  qed
qed

text \<open>One cell: appended to a builder of the column's type, it is the value read back.\<close>

lemma appendValue_back:
  assumes "cell_ok dt v" "kind b = dt" "columnValues A b = Inr vs"
  shows "\<exists>b'. appendValue F T dt v b = Inr b' \<and> kind b' = dt \<and> columnValues A b' = Inr (vs @ [v])"
proof (cases "v = VNil")
  case True
  then show ?thesis
    using assms by (cases b) (auto simp: appendValue_def appendNull_def slots_def)
next
  case False
  note shape = cell_ok_shape [OF assms(1) False]
  show ?thesis
  proof (cases b)
    case (Time32A u xs)
    then obtain t where t: "v = VTime t" "time_ok t" "Hour t < 24" "u = UnitSecond"
      using shape assms(2) by auto
    let ?r = "Hour t * 3600 + Minute t * 60 + Second t"
    have r: "0 \<le> ?r" "?r < 86400" "?r div 3600 = Hour t" "?r div 60 mod 60 = Minute t" "?r mod 60 = Second t"
      using t(2,3) clock_fields [of "Hour t" "Minute t" "Second t"] by (simp_all add: time_ok_def)
    have "int32 ?r = ?r" unfolding int32_def by (rule signed_take_bit_id) (use r in simp_all)
    then have "appendValue F T dt v b = Inr (Time32A u (xs @ [Some ?r]))"
      using t Time32A by (simp add: appendValue_def)
    moreover have "?r mod 86400 = ?r" using r(1,2) by (rule mod_pos_pos_trivial)
    then have "time_clock (time32_ToTime A u ?r) = t"
      using r t(4) by (simp only: time32 time_clock_def Let_def fst_conv) simp
    ultimately show ?thesis
      using assms t(1,4) Time32A by (auto simp: slots_def)
  next
    case (TimestampA u z xs)
    then obtain ts where ts: "v = VTimestamp ts" "timestamp_fits u ts" "z = ''''"
      using shape assms(2) by auto
    have "\<lparr>tsDate = time_date (ToTime ts), tsTime = time_clock (ToTime ts), Nanos = snd (ToTime ts)\<rparr> = ts"
      using timestamp_fields(1,6) [of ts] ts(2) by (metis snd_conv timestamp_fits_def)
    then show ?thesis
      using assms(2,3) ts(1,3) TimestampA timestamp_back [OF ts(2)]
      by (auto simp: appendValue_def slots_def in_zone_def Let_def)
  qed (use assms(2,3) shape in \<open>auto simp: appendValue_def slots_def cellInt64_def rescale128_def
         cellText_def Let_def date32 date_back\<close>)
qed

end

text \<open>The types that have a builder.\<close>

definition buildable :: "arrow_type \<Rightarrow> bool" where
  "buildable dt \<longleftrightarrow> kind (newBuilder dt) = dt"

lemma newBuilder_empty: "buildable dt \<Longrightarrow> dt \<noteq> NullType \<Longrightarrow> columnValues A (newBuilder dt) = Inr []"
  by (cases dt) (simp_all add: newBuilder_def slots_def buildable_def)

lemma fst_if: "P (fst a) \<Longrightarrow> P (fst b) \<Longrightarrow> P (fst (if c then a else b))"
  by simp

lemma arrowTypeFor_buildable: "buildable (fst (arrowTypeFor col)) \<and> fst (arrowTypeFor col) \<noteq> NullType"
  unfolding arrowTypeFor_def Let_def
  by (intro fst_if [where P = "\<lambda>t. buildable t \<and> t \<noteq> NullType"]) (simp_all add: buildable_def newBuilder_def)

lemma afType_arrowFieldFor [simp]: "afType (arrowFieldFor col) = fst (arrowTypeFor col)"
  by (simp add: arrowFieldFor_def split_def Let_def)

lemma schema_buildable: "list_all (\<lambda>f. buildable (afType f) \<and> afType f \<noteq> NullType) (schemaFor cols)"
  using arrowTypeFor_buildable by (simp add: list_all_iff schemaFor_def)

context arrow_lib
begin

lemma buildColumn_back:
  assumes "list_all (\<lambda>row. ci < length row \<and> cell_ok (afType f) (row ! ci)) rows"
    "kind b = afType f" "columnValues A b = Inr vs"
  shows "\<exists>b'. buildColumn F T f ci rows b = Inr b' \<and> columnValues A b' = Inr (vs @ map (\<lambda>row. row ! ci) rows)"
  using assms
proof (induction rows arbitrary: b vs)
  case (Cons row rows)
  then obtain b1 where "appendValue F T (afType f) (row ! ci) b = Inr b1" "kind b1 = afType f"
    "columnValues A b1 = Inr (vs @ [row ! ci])"
    using appendValue_back [of "afType f" "row ! ci" b vs F T] by auto
  then show ?case using Cons.IH [of b1 "vs @ [row ! ci]"] Cons.prems(1) by auto
qed simp

lemma cells_split:
  "list_all2 cell_ok (t # ts) (drop ci row) \<Longrightarrow>
     ci < length row \<and> cell_ok t (row ! ci) \<and> list_all2 cell_ok ts (drop (ci + 1) row)"
  by (cases "ci < length row") (auto simp flip: Cons_nth_drop_Suc)

lemma buildColumns_back:
  assumes "list_all (\<lambda>row. list_all2 cell_ok (map afType fs) (drop ci row)) rows"
    "list_all (\<lambda>f. buildable (afType f) \<and> afType f \<noteq> NullType) fs"
  shows "\<exists>bs. buildColumns F T ci fs rows = Inr bs
           \<and> columnsValues A gs bs = Inr (map (\<lambda>j. map (\<lambda>row. row ! j) rows) [ci..<ci + length fs])"
  using assms
proof (induction fs arbitrary: ci gs)
  case (Cons f fs)
  have cells: "list_all (\<lambda>row. ci < length row \<and> cell_ok (afType f) (row ! ci)) rows"
    "list_all (\<lambda>row. list_all2 cell_ok (map afType fs) (drop (ci + 1) row)) rows"
    using Cons.prems(1) cells_split by (fastforce simp: list_all_iff)+
  have "kind (newBuilder (afType f)) = afType f" "columnValues A (newBuilder (afType f)) = Inr []"
    using Cons.prems(2) newBuilder_empty by (simp_all add: buildable_def)
  then obtain b where b: "buildColumn F T f ci rows (newBuilder (afType f)) = Inr b"
    "columnValues A b = Inr (map (\<lambda>row. row ! ci) rows)"
    using buildColumn_back [OF cells(1), of "newBuilder (afType f)" "[]" F T] by auto
  obtain bs where "buildColumns F T (ci + 1) fs rows = Inr bs"
    "columnsValues A (drop 1 gs) bs = Inr (map (\<lambda>j. map (\<lambda>row. row ! j) rows) [ci + 1..<ci + 1 + length fs])"
    using Cons.IH [OF cells(2), of "drop 1 gs"] Cons.prems(2) by auto
  moreover have "[ci..<ci + length (f # fs)] = ci # [ci + 1..<ci + 1 + length fs]"
    by (simp add: upt_conv_Cons del: upt_Suc)
  ultimately show ?case using b by (simp del: upt_Suc)
qed simp

end

lemma columnValues_length: "columnValues A b = Inr vs \<Longrightarrow> length vs = array_len b"
proof (induction b arbitrary: vs)
  case (DictionaryA d ixs)
  have "dictSlots vals ixs = Inr vs \<Longrightarrow> length vs = length ixs" for vals
    by (induction vals ixs arbitrary: vs rule: dictSlots.induct) (auto split: sum.splits if_splits)
  then show ?case using DictionaryA by (auto split: sum.splits)
qed (auto simp: slots_def)

definition column_cell :: "ColumnDesc \<Rightarrow> Value \<Rightarrow> bool" where
  "column_cell col v \<longleftrightarrow> cell_ok (fst (arrowTypeFor col)) v"

lemma transpose_back:
  assumes "list_all (\<lambda>row. length row = n) rows"
  shows "map (\<lambda>r. map (\<lambda>col. col ! r) (map (\<lambda>j. map (\<lambda>row. row ! j) rows) [0..<n])) [0..<length rows] = rows"
proof (rule nth_equalityI)
  fix r assume "r < length (map (\<lambda>r. map (\<lambda>col. col ! r) (map (\<lambda>j. map (\<lambda>row. row ! j) rows) [0..<n])) [0..<length rows])"
  then have "r < length rows" by simp
  moreover from this have "length (rows ! r) = n" using assms by (simp add: list_all_length)
  ultimately show "map (\<lambda>r. map (\<lambda>col. col ! r) (map (\<lambda>j. map (\<lambda>row. row ! j) rows) [0..<n])) [0..<length rows] ! r = rows ! r"
    using map_nth [of "rows ! r"] by (simp add: comp_def)
qed simp


definition sample_column :: "16 word \<Rightarrow> int \<Rightarrow> ColumnDesc" where
  "sample_column ty len = \<lparr>cName = ''C'', cLabel = '''', cSQLType = ty, cLength = len, cPrecision = 9, cScale = 2,
     cCCSID = 0, cBaseTable = '''', cBaseSchema = '''', cBaseColumn = '''', cUpdatable = False, cGenerated = False\<rparr>"

definition sample_cols :: "ColumnDesc list" where
  "sample_cols = [sample_column SQLTypeInteger 4, sample_column SQLTypeDecimal 5, sample_column SQLTypeDate 10,
                  sample_column SQLTypeTimestamp 26, sample_column SQLTypeVarchar 20]"

definition sample_timestamp :: Timestamp where
  "sample_timestamp = \<lparr>tsDate = \<lparr>Year = 2024, Month = 2, Day = 29\<rparr>,
     tsTime = \<lparr>Hour = 23, Minute = 59, Second = 58\<rparr>, Nanos = 123456000\<rparr>"

definition sample_rows :: "Value list list" where
  "sample_rows = [[VInt32 7, VDecimal \<lparr>Unscaled = - 12345, dScale = 2\<rparr>, VDate (tsDate sample_timestamp),
                   VTimestamp sample_timestamp, VString ''abc''], [VNil, VNil, VNil, VNil, VNil]]"


text \<open>
  C36: a timestamp in a nanosecond column is only stored if it lies within 64-bit nanoseconds of
  the epoch (1677 to 2262).  Every other valid timestamp, which Db2 allows up to year 9999, is
  appended without an error as a wrapped instant: reading it back gives a different time.
\<close>

theorem nanosecond_wraps:
  "arrow_lib A \<and> timestamp_ok ts \<and> Hour (tsTime ts) < 24
   \<and> \<not> (- (2 ^ 63) \<le> fst (ToTime ts) * 10 ^ 9 + snd (ToTime ts)
        \<and> fst (ToTime ts) * 10 ^ 9 + snd (ToTime ts) < 2 ^ 63) \<longrightarrow>
     (\<exists>t. appendValue F T (TimestampType UnitNano '''') (VTimestamp ts) (TimestampA UnitNano '''' [])
            = Inr (TimestampA UnitNano '''' [Some t])
        \<and> timestamp_ToTime A UnitNano t \<noteq> ToTime ts)"
proof (intro impI)
  assume a: "arrow_lib A \<and> timestamp_ok ts \<and> Hour (tsTime ts) < 24
   \<and> \<not> (- (2 ^ 63) \<le> fst (ToTime ts) * 10 ^ 9 + snd (ToTime ts)
        \<and> fst (ToTime ts) * 10 ^ 9 + snd (ToTime ts) < 2 ^ 63)"
  define i where "i = fst (ToTime ts) * 10 ^ 9 + snd (ToTime ts)"
  have n: "0 \<le> snd (ToTime ts)" "snd (ToTime ts) < 10 ^ 9"
    using timestamp_fields(1-3) [of ts] a by (metis snd_conv)+
  have "\<not> (- (2 ^ 63) \<le> i \<and> i < 2 ^ 63)" using a by (simp add: i_def)
  then have "int64 i \<noteq> i"
    by (simp add: int64_def signed_take_bit_int_eq_self_iff)
  moreover have "int64 i = i" if "timestamp_ToTime A UnitNano (int64 i) = ToTime ts"
  proof -
    have "(int64 i div 10 ^ 9, int64 i mod 10 ^ 9) = ToTime ts"
      using that a by (simp add: arrow_lib.timestamp_ns)
    then have "int64 i div 10 ^ 9 = fst (ToTime ts)" "int64 i mod 10 ^ 9 = snd (ToTime ts)"
      by (metis fst_conv, metis snd_conv)
    then show ?thesis using div_mult_mod_eq [of "int64 i" "10 ^ 9"] by (simp add: i_def)
  qed
  ultimately have "timestamp_ToTime A UnitNano (int64 i) \<noteq> ToTime ts" by blast
  then show "\<exists>t. appendValue F T (TimestampType UnitNano '''') (VTimestamp ts) (TimestampA UnitNano '''' [])
            = Inr (TimestampA UnitNano '''' [Some t])
        \<and> timestamp_ToTime A UnitNano t \<noteq> ToTime ts"
    by (simp add: appendValue_def unix_in_def i_def)
qed

definition far_timestamp :: Timestamp where
  "far_timestamp = \<lparr>tsDate = \<lparr>Year = 9999, Month = 12, Day = 31\<rparr>, tsTime = \<lparr>Hour = 0, Minute = 0, Second = 0\<rparr>, Nanos = 0\<rparr>"

theorem nanosecond_wraps_witness:
  "\<forall>F T. \<exists>t. appendValue F T (TimestampType UnitNano '''') (VTimestamp far_timestamp) (TimestampA UnitNano '''' [])
         = Inr (TimestampA UnitNano '''' [Some t])
       \<and> timestamp_ToTime arrow_doc UnitNano t \<noteq> ToTime far_timestamp"
  using nanosecond_wraps [of arrow_doc far_timestamp] doc.arrow_lib_axioms
  by (simp add: far_timestamp_def timestamp_ok_def date_ok_def time_ok_def month_days_def ToTime_def
      unix_days_def days_before_year_def days_before_month_def is_leap_def)

end
