(* ===== verification/Db2_Sql.thy ===== *)
theory Db2_Sql
  imports Db2_Arrow
begin

text \<open>
  SQL text (\<^verbatim>\<open>driver/db2/sqlrewrite.go\<close> and the text helpers of \<^verbatim>\<open>metadata.go\<close>,
  \<^verbatim>\<open>metadata_objects.go\<close>): the FROM clause added to a bare SELECT, the casts around
  parameter markers, quoting of identifiers and literals, and catalog predicates.

  Results: \<open>castParamMarkers\<close> replaces exactly the markers outside literals, delimited
  identifiers and comments, checked against an independent tokenisation; a quoted literal or
  identifier is one lexical unit with the given content, whatever the content.
\<close>

section \<open>A FROM clause for a bare SELECT\<close>

definition re_space :: "char \<Rightarrow> bool" where
  "re_space c \<longleftrightarrow> c \<in> {CHR 0x09, CHR 0x0A, CHR 0x0C, CHR 0x0D, CHR '' ''}"

definition re_word :: "char \<Rightarrow> bool" where
  "re_word c \<longleftrightarrow> (CHR ''0'' \<le> c \<and> c \<le> CHR ''9'') \<or> (CHR ''A'' \<le> c \<and> c \<le> CHR ''Z'')
                 \<or> (CHR ''a'' \<le> c \<and> c \<le> CHR ''z'') \<or> c = CHR ''_''"

definition word_ends :: "string \<Rightarrow> bool" where
  "word_ends s \<longleftrightarrow> (case s of [] \<Rightarrow> True | c # t \<Rightarrow> \<not> re_word c)"

text \<open>Case-insensitive literals; under Unicode folding the letter s also matches U+017F.\<close>

definition fold_prefix :: "string \<Rightarrow> string \<Rightarrow> string option" where
  "fold_prefix p s = (if map ascii_lower (take (length p) s) = p then Some (drop (length p) s) else None)"

definition re_select :: "string \<Rightarrow> string option" where
  "re_select s =
     (case fold_prefix ''select'' s of
        Some t \<Rightarrow> Some t
      | None \<Rightarrow> if HasPrefix s [CHR 0xC5, CHR 0xBF] then fold_prefix ''elect'' (drop 2 s) else None)"

definition reSelectStart :: "string \<Rightarrow> bool" where
  "reSelectStart sql =
     (case re_select (dropWhile re_space sql) of None \<Rightarrow> False | Some t \<Rightarrow> word_ends t)"

text \<open>\<open>reFromWord\<close> with whether the character before the current position is a word character.\<close>

fun re_from_at :: "bool \<Rightarrow> string \<Rightarrow> bool" where
  "re_from_at w [] = False"
| "re_from_at w (c # s) =
     ((\<not> w \<and> (case fold_prefix ''from'' (c # s) of None \<Rightarrow> False | Some t \<Rightarrow> word_ends t))
      \<or> re_from_at (re_word c) s)"

definition reFromWord :: "string \<Rightarrow> bool" where
  "reFromWord sql = re_from_at False sql"

definition addDummyFrom :: "string \<Rightarrow> string" where
  "addDummyFrom sql =
     (if \<not> reSelectStart sql \<or> reFromWord sql then sql
      else trimRightSet [CHR '' '', CHR 0x09, CHR 0x0D, CHR 0x0A, CHR '';''] sql @ '' FROM SYSIBM.SYSDUMMY1'')"

section \<open>Casts around parameter markers\<close>

abbreviation maxVarcharLength :: int where "maxVarcharLength \<equiv> 32672"

abbreviation quote :: char where "quote \<equiv> CHR 0x27"
abbreviation dquote :: char where "dquote \<equiv> CHR 0x22"
abbreviation newline :: char where "newline \<equiv> CHR 0x0A"

datatype lex = Normal | InStr | InIdent | LineComment | BlockComment

definition castMarker :: "Field list \<Rightarrow> nat \<Rightarrow> string" where
  "castMarker schema idx =
     (if idx < length schema then
        (case db2TypeForArrow (schema ! idx) maxVarcharLength of
           Inr typ \<Rightarrow> ''CAST(? AS '' @ typ @ '')''
         | Inl e \<Rightarrow> ''?'')
      else ''?'')"

fun castLoop :: "Field list \<Rightarrow> lex \<Rightarrow> nat \<Rightarrow> string \<Rightarrow> string" where
  "castLoop schema st idx [] = []"
| "castLoop schema LineComment idx (c # s) =
     c # castLoop schema (if c = newline then Normal else LineComment) idx s"
| "castLoop schema BlockComment idx (c # s) =
     (if c = CHR ''*'' \<and> s \<noteq> [] \<and> hd s = CHR ''/'' then c # CHR ''/'' # castLoop schema Normal idx (tl s)
      else c # castLoop schema BlockComment idx s)"
| "castLoop schema InStr idx (c # s) = c # castLoop schema (if c = quote then Normal else InStr) idx s"
| "castLoop schema InIdent idx (c # s) = c # castLoop schema (if c = dquote then Normal else InIdent) idx s"
| "castLoop schema Normal idx (c # s) =
     (if c = quote then c # castLoop schema InStr idx s
      else if c = dquote then c # castLoop schema InIdent idx s
      else if c = CHR ''-'' \<and> s \<noteq> [] \<and> hd s = CHR ''-'' then c # castLoop schema LineComment idx s
      else if c = CHR ''/'' \<and> s \<noteq> [] \<and> hd s = CHR ''*'' then c # castLoop schema BlockComment idx s
      else if c = CHR ''?'' then castMarker schema idx @ castLoop schema Normal (idx + 1) s
      else c # castLoop schema Normal idx s)"

definition castParamMarkers :: "string \<Rightarrow> Field list \<Rightarrow> string" where
  "castParamMarkers sql schema = castLoop schema Normal 0 sql"

section \<open>Quoting and catalog predicates\<close>

definition quoteIdent :: "string \<Rightarrow> string" where
  "quoteIdent s = [dquote] @ double_char dquote s @ [dquote]"

definition sqlString :: "string \<Rightarrow> string" where
  "sqlString s = [quote] @ double_char quote s @ [quote]"

text \<open>\<open>itoa\<close> on the range of int64; negating the smallest one wraps.\<close>

fun itoaLoop :: "nat \<Rightarrow> string \<Rightarrow> string" where
  "itoaLoop n digits = (if n = 0 then digits else itoaLoop (n div 10) (digit_char (n mod 10) # digits))"

declare itoaLoop.simps [simp del]

definition itoa :: "int \<Rightarrow> string" where
  "itoa n =
     (if n = 0 then ''0''
      else let m = (if n < 0 then int64 (- n) else n);
               s = (if 0 < m then itoaLoop (nat m) [] else [])
           in if n < 0 then CHR ''-'' # s else s)"

definition appendLikeQual :: "string \<Rightarrow> string \<Rightarrow> string option \<Rightarrow> string" where
  "appendLikeQual sb col pattern =
     (case pattern of
        None \<Rightarrow> sb
      | Some p \<Rightarrow>
          sb @ '' AND '' @ col @
          (if p = '''' then '' IS NULL''
           else if CHR ''%'' \<in> set p \<or> CHR ''_'' \<in> set p then '' LIKE '' @ sqlString p
           else '' = '' @ sqlString p))"

definition db2TableType :: "string \<Rightarrow> string" where
  "db2TableType t =
     (case map_of [(''T'', ''TABLE''), (''V'', ''VIEW''), (''A'', ''ALIAS''), (''S'', ''MATERIALIZED QUERY TABLE''),
        (''N'', ''NICKNAME''), (''G'', ''GLOBAL TEMPORARY''), (''H'', ''HIERARCHY TABLE''), (''L'', ''DETACHED TABLE''),
        (''U'', ''TYPED TABLE''), (''W'', ''TYPED VIEW'')] (TrimSpace t) of
        Some n \<Rightarrow> n | None \<Rightarrow> ''TABLE'')"

definition tableTypeCode :: "(rune \<Rightarrow> rune) \<Rightarrow> string \<Rightarrow> string option" where
  "tableTypeCode u t =
     map_of [(''TABLE'', ''T''), (''BASE TABLE'', ''T''), (''VIEW'', ''V''), (''ALIAS'', ''A''), (''SYNONYM'', ''A''),
       (''MATERIALIZED QUERY TABLE'', ''S''), (''SUMMARY TABLE'', ''S''), (''NICKNAME'', ''N''),
       (''GLOBAL TEMPORARY'', ''G''), (''SYSTEM TABLE'', ''T'')] (ToUpper u (TrimSpace t))"

definition tableTypeFilter :: "(rune \<Rightarrow> rune) \<Rightarrow> string list \<Rightarrow> string" where
  "tableTypeFilter u types =
     (if types = [] then ''''
      else let codes = map (\<lambda>c. [quote] @ c @ [quote]) (List.map_filter (tableTypeCode u) types)
           in if codes = [] then '' AND 1 = 0''
              else '' AND T.TYPE IN ('' @ join_with '', '' codes @ '')'')"

definition renderTypeName :: "string \<Rightarrow> int \<Rightarrow> int \<Rightarrow> string" where
  "renderTypeName typeName len scale =
     (if typeName \<in> {''DECIMAL'', ''NUMERIC''} then typeName @ ''('' @ itoa len @ '','' @ itoa scale @ '')''
      else if typeName \<in> {''CHARACTER'', ''CHAR'', ''VARCHAR'', ''GRAPHIC'', ''VARGRAPHIC'', ''BINARY'', ''VARBINARY'',
        ''CLOB'', ''BLOB'', ''DBCLOB'', ''NCHAR'', ''NVARCHAR'', ''NCLOB''} then typeName @ ''('' @ itoa len @ '')''
      else if typeName = ''TIMESTAMP'' then ''TIMESTAMP('' @ itoa scale @ '')''
      else typeName)"

definition xdbcDataType :: "string \<Rightarrow> int" where
  "xdbcDataType typeName =
     (case map_of [(''SMALLINT'', 5), (''INTEGER'', 4), (''BIGINT'', - 5), (''DECIMAL'', 3), (''NUMERIC'', 3),
        (''DECFLOAT'', 1111), (''REAL'', 7), (''DOUBLE'', 8), (''CHARACTER'', 1), (''CHAR'', 1), (''VARCHAR'', 12),
        (''LONG VARCHAR'', - 1), (''GRAPHIC'', - 15), (''VARGRAPHIC'', - 9), (''CLOB'', 2005), (''DBCLOB'', 2011),
        (''BLOB'', 2004), (''BINARY'', - 2), (''VARBINARY'', - 3), (''DATE'', 91), (''TIME'', 92), (''TIMESTAMP'', 93),
        (''BOOLEAN'', 16), (''XML'', 2009), (''ROWID'', - 8)] typeName of
        Some n \<Rightarrow> n | None \<Rightarrow> 1111)"

section \<open>Lexical units\<close>

text \<open>
  An independent reading of SQL text: character literals, delimited identifiers, line comments
  with their line end, block comments, parameter markers and any other character.
\<close>

datatype token = Str string | Ident string | Line string | Block string | Marker | Other char

fun token_text :: "token \<Rightarrow> string" where
  "token_text (Str s) = [quote] @ s @ [quote]"
| "token_text (Ident s) = [dquote] @ s @ [dquote]"
| "token_text (Line s) = ''--'' @ s @ [newline]"
| "token_text (Block s) = ''/*'' @ s @ ''*/''"
| "token_text Marker = ''?''"
| "token_text (Other c) = [c]"

definition sql_text :: "token list \<Rightarrow> string" where
  "sql_text ts = concat (map token_text ts)"

text \<open>
  Well-formed units.  A single character must not open another unit with the text behind it; the
  body of a block comment must not contain the end of the comment, and must not start with a
  slash: the opening \<^verbatim>\<open>/*\<close> directly followed by a slash is taken for a whole comment.
\<close>

fun tokens_ok :: "token list \<Rightarrow> bool" where
  "tokens_ok [] = True"
| "tokens_ok (t # ts) =
     ((case t of
         Str s \<Rightarrow> quote \<notin> set s
       | Ident s \<Rightarrow> dquote \<notin> set s
       | Line s \<Rightarrow> newline \<notin> set s
       | Block s \<Rightarrow> \<not> Contains (CHR ''*'' # s) ''*/''
       | Marker \<Rightarrow> True
       | Other c \<Rightarrow> c \<notin> {quote, dquote, CHR ''?''}
           \<and> \<not> HasPrefix (c # sql_text ts) ''--'' \<and> \<not> HasPrefix (c # sql_text ts) ''/*'')
      \<and> tokens_ok ts)"

fun cast_tokens :: "Field list \<Rightarrow> nat \<Rightarrow> token list \<Rightarrow> string" where
  "cast_tokens schema idx [] = []"
| "cast_tokens schema idx (Marker # ts) = castMarker schema idx @ cast_tokens schema (idx + 1) ts"
| "cast_tokens schema idx (t # ts) = token_text t @ cast_tokens schema idx ts"

lemma sql_text_simps [simp]: "sql_text [] = []" "sql_text (t # ts) = token_text t @ sql_text ts"
  by (simp_all add: sql_text_def)

lemma castLoop_until:
  shows "quote \<notin> set s \<Longrightarrow> castLoop schema InStr idx (s @ quote # r) = s @ quote # castLoop schema Normal idx r"
    and "dquote \<notin> set s \<Longrightarrow> castLoop schema InIdent idx (s @ dquote # r) = s @ dquote # castLoop schema Normal idx r"
    and "newline \<notin> set s \<Longrightarrow> castLoop schema LineComment idx (s @ newline # r) = s @ newline # castLoop schema Normal idx r"
  by (induction s) auto

lemma castLoop_block:
  "\<not> Contains s ''*/'' \<Longrightarrow> castLoop schema BlockComment idx (s @ ''*/'' @ r) = s @ ''*/'' @ castLoop schema Normal idx r"
proof (induction s)
  case (Cons c s)
  then show ?case by (cases s) (auto simp: HasPrefix_def)
qed simp

lemma castLoop_tokens: "tokens_ok ts \<Longrightarrow> castLoop schema Normal idx (sql_text ts) = cast_tokens schema idx ts"
proof (induction ts arbitrary: idx)
  case (Cons t ts)
  then have IH: "castLoop schema Normal j (sql_text ts) = cast_tokens schema j ts" for j by simp
  show ?case
  proof (cases t)
    case (Block s)
    then show ?thesis
      using Cons.prems castLoop_block [of "CHR ''*'' # s" schema idx "sql_text ts"] IH by simp
  next
    case (Other c)
    then show ?thesis
      using Cons.prems IH by (cases "sql_text ts") (auto simp: HasPrefix_def)
  next
    case (Line s)
    then show ?thesis
      using Cons.prems castLoop_until(3) [of "CHR ''-'' # s" schema idx "sql_text ts"] IH by simp
  qed (use Cons.prems castLoop_until(1,2) IH in auto)
qed simp

text \<open>
  C31: \<open>castParamMarkers\<close> rewrites markers and nothing else.  On any well-formed SQL text the k-th
  marker outside literals, delimited identifiers and comments becomes a cast to the type of the
  k-th bound field (or stays, when there is none); every other character is copied.
\<close>

theorem castParamMarkers_markers:
  "tokens_ok ts \<longrightarrow> castParamMarkers (sql_text ts) schema = cast_tokens schema 0 ts"
  by (simp add: castParamMarkers_def castLoop_tokens)

definition sample_field :: Field where
  "sample_field = \<lparr>afName = ''X'', afType = Int32, afNullable = True, afMetadata = []\<rparr>"

theorem castParamMarkers_markers_witness:
  "castParamMarkers (''SELECT ?, '' @ [quote] @ ''a?'' @ [quote, dquote] @ ''b?'' @ [dquote] @ ''/* ? */ FROM T -- ?'' @ [newline])
     [sample_field]
   = ''SELECT CAST(? AS INTEGER), '' @ [quote] @ ''a?'' @ [quote, dquote] @ ''b?'' @ [dquote] @ ''/* ? */ FROM T -- ?'' @ [newline]"
proof -
  let ?other = "map Other"
  let ?ts = "?other ''SELECT '' @ [Marker] @ ?other '', '' @ [Str ''a?'', Ident ''b?'']
    @ [Block '' ? ''] @ ?other '' FROM T '' @ [Line '' ?'']"
  have "tokens_ok ?ts" by (simp add: HasPrefix_def)
  then have "castParamMarkers (sql_text ?ts) [sample_field] = cast_tokens [sample_field] 0 ?ts"
    using castParamMarkers_markers [of ?ts "[sample_field]"] by blast
  then show ?thesis
    by (simp add: castMarker_def db2TypeForArrow_def sample_field_def)
qed

section \<open>Quoting\<close>

text \<open>
  How SQL reads a delimited unit: up to the first delimiter that is not doubled; a doubled one
  stands for itself.  The result is the content and the text behind the unit.
\<close>

fun scan_body :: "char \<Rightarrow> string \<Rightarrow> (string \<times> string) option" where
  "scan_body q [] = None"
| "scan_body q (c # s) =
     (if c \<noteq> q then map_option (\<lambda>(v, r). (c # v, r)) (scan_body q s)
      else case s of
        [] \<Rightarrow> Some ([], [])
      | d # t \<Rightarrow> if d = q then map_option (\<lambda>(v, r). (q # v, r)) (scan_body q t) else Some ([], s))"

definition scan_quoted :: "char \<Rightarrow> string \<Rightarrow> (string \<times> string) option" where
  "scan_quoted q s = (case s of [] \<Rightarrow> None | c # t \<Rightarrow> if c = q then scan_body q t else None)"

lemma double_char_simps [simp]:
  "double_char q [] = []" "double_char q (c # s) = (if c = q then [q, q] else [c]) @ double_char q s"
  by (simp_all add: double_char_def)

lemma scan_body_double:
  "\<not> HasPrefix r [q] \<Longrightarrow> scan_body q (double_char q s @ q # r) = Some (s, r)"
proof (induction s)
  case Nil
  then show ?case by (cases r) (auto simp: HasPrefix_def)
qed auto

text \<open>
  C32: quoting is injection-safe.  Whatever characters a name or a value contains, the text made by
  \<open>sqlString\<close> and \<open>quoteIdent\<close> is read by SQL as one literal or one delimited identifier with
  exactly that content, and what follows it in the statement is left untouched.
\<close>

theorem quoting_safe:
  "\<not> HasPrefix r [quote] \<and> \<not> HasPrefix r [dquote] \<longrightarrow>
     scan_quoted quote (sqlString s @ r) = Some (s, r) \<and> scan_quoted dquote (quoteIdent s @ r) = Some (s, r)"
  by (simp add: scan_quoted_def sqlString_def quoteIdent_def scan_body_double)

theorem quoting_safe_witness:
  "scan_quoted quote (sqlString ([quote] @ ''; DROP TABLE T --'' @ [quote, quote]) @ '' ORDER BY 1'')
     = Some ([quote] @ ''; DROP TABLE T --'' @ [quote, quote], '' ORDER BY 1'')"
  using quoting_safe [of "'' ORDER BY 1''" "[quote] @ ''; DROP TABLE T --'' @ [quote, quote]"]
  by (simp add: HasPrefix_def)

lemma itoaLoop_digits: "0 < n \<Longrightarrow> itoaLoop n ds = nat_str n @ ds"
proof (induction n arbitrary: ds rule: less_induct)
  case (less n)
  then show ?case
    using nat_digits.simps [of n] itoaLoop.simps [of n ds] itoaLoop.simps [of 0]
    by (cases "n < 10") (simp_all add: nat_str_def)
qed

text \<open>\<open>itoa\<close> prints every int64 but the smallest, which wraps to a lone sign.\<close>

lemma itoa_int_str: "- (2 ^ 63) < n \<Longrightarrow> n < 2 ^ 63 \<Longrightarrow> itoa n = int_str n"
  using signed_take_bit_id [of 63 "- n"]
  by (auto simp: itoa_def int_str_def int64_def itoaLoop_digits Let_def nat_str_def nat_digits.simps [of 0] digit_char_0)

lemma itoa_smallest: "itoa (- (2 ^ 63)) = ''-''"
  by (simp add: itoa_def int64_def signed_take_bit_def Let_def mask_eq_exp_minus_1 not_int_def)

text \<open>The quirk of block comments: \<^verbatim>\<open>/*/\<close> closes the comment it opens, so a marker behind it is cast.\<close>

lemma castParamMarkers_slash_star_slash:
  "castParamMarkers ''/*/ ? */'' [sample_field] = ''/*/ CAST(? AS INTEGER) */''"
  by (simp add: castParamMarkers_def castMarker_def db2TypeForArrow_def sample_field_def)

end
