(* ===== verification/Db2_State.thy ===== *)
theory Db2_State
  imports Drda_Stmt Db2_Sql
begin

text \<open>
  The ADBC layer's errors and connection state (\<^verbatim>\<open>driver/db2/errors.go\<close>, \<^verbatim>\<open>driver.go\<close>,
  \<^verbatim>\<open>options.go\<close>).  ADBC's status codes are a datatype.  The text of an error is kept as its
  parts: a format string with arguments, or a prefix with the error it is made from.

  What the platform decides is collected in the record \<open>env\<close>: how Go classifies an I/O error,
  the Unicode case tables, the float operations and the Arrow library.  \<open>eNewReader\<close> is the error,
  if any, of \<^verbatim>\<open>array.NewRecordReader\<close>.

  Operations of the driver are functions on the connection that may fail; \<open>via\<close> runs an
  operation of the DRDA layer and maps its error.  The last section has the relation \<open>emits\<close>:
  what an operation may transmit.
\<close>

section \<open>Errors\<close>

datatype Status =
    StatusInvalidArgument | StatusInvalidState | StatusNotImplemented | StatusNotFound | StatusAlreadyExists
  | StatusInternal | StatusIO | StatusCancelled | StatusTimeout | StatusIntegrity | StatusUnauthenticated | StatusUnauthorized

datatype adbc_msg =
    Format string "string list"
  | OfError string conn_error
  | OfSQLCA string SQLCA
  | OfArrow string arrow_error
  | OfStream string

record adbc_Error =
  Code :: Status
  Msg :: adbc_msg
  VendorCode :: "32 word"
  SqlState :: bytes

text \<open>
  \<open>Panic\<close> is a Go panic (an index out of range); \<open>Diverges\<close> is a loop whose fuel ran out, which
  the loops below never reach.
\<close>

datatype driver_error = AdbcErr adbc_Error | DrdaErr conn_error | ArrowErr arrow_error | LibErr string | Panic | Diverges

text \<open>How the Go runtime sees an I/O error, in the order \<open>fromDRDAError\<close> asks.\<close>

datatype io_kind = IsCanceled | IsDeadline | IsNetTimeout | IsNetError | NoNetError

fun ddm_io :: "ddm_error \<Rightarrow> io_error option" where
  "ddm_io (ReadHeader e) = Some e"
| "ddm_io (ReadPayload e) = Some e"
| "ddm_io (ReadExtLength e) = Some e"
| "ddm_io (ReadFirstSegment e) = Some e"
| "ddm_io (ReadContLength e) = Some e"
| "ddm_io (ReadCont e) = Some e"
| "ddm_io _ = None"

text \<open>The end of the unwrap chain, and what \<^verbatim>\<open>errors.As\<close> finds there.\<close>

fun root_error :: "conn_error \<Rightarrow> conn_error" where
  "root_error (PackageError coll pkg e berr) = root_error e"
| "root_error (BindFailed coll pkg e) = root_error e"
| "root_error (Wrapped msg e) = root_error e"
| "root_error e = e"

definition io_of :: "conn_error \<Rightarrow> io_error option" where
  "io_of e = (case root_error e of WriteError x \<Rightarrow> Some x | DdmError d \<Rightarrow> ddm_io d | _ \<Rightarrow> None)"

definition errStatus :: "Status \<Rightarrow> adbc_msg \<Rightarrow> driver_error" where
  "errStatus code msg = AdbcErr \<lparr>Code = code, Msg = msg, VendorCode = 0, SqlState = replicate 5 0\<rparr>"

definition sqlstate5 :: "string \<Rightarrow> bytes" where
  "sqlstate5 s = take 5 (str_bytes s @ replicate 5 0)"

definition statusForSQLCA :: "SQLCA \<Rightarrow> Status" where
  "statusForSQLCA ca =
     (let code = sint (SQLCode ca); state = take 2 (SQLState ca) in
      if code \<in> {- 204, - 206, - 205} then StatusNotFound
      else if code \<in> {- 104, - 199, - 7} then StatusInvalidArgument
      else if code \<in> {- 551, - 552} then StatusUnauthorized
      else if code = - 601 then StatusAlreadyExists
      else if code = - 803 then StatusIntegrity
      else if code \<in> {- 911, - 913} then StatusTimeout
      else if code \<in> {- 30081, - 30080} then StatusIO
      else if state = ''42'' then StatusInvalidArgument
      else if state = ''23'' then StatusIntegrity
      else if state = ''08'' then StatusIO
      else if state = ''28'' then StatusUnauthenticated
      else StatusInternal)"

definition fromDRDAError :: "(io_error \<Rightarrow> io_kind) \<Rightarrow> driver_error \<Rightarrow> driver_error" where
  "fromDRDAError K err =
     (case err of
        DrdaErr e \<Rightarrow>
          (case as_SQLCA e of
             Some ca \<Rightarrow>
               AdbcErr \<lparr>Code = statusForSQLCA ca, Msg = OfError ''db2: '' e, VendorCode = SQLCode ca,
                        SqlState = sqlstate5 (SQLState ca)\<rparr>
           | None \<Rightarrow>
               (case root_error e of
                  AuthError cd msg \<Rightarrow> errStatus StatusUnauthenticated (OfError '''' (root_error e))
                | ProtocolError cp sev det \<Rightarrow> errStatus StatusInternal (OfError '''' (root_error e))
                | _ \<Rightarrow>
                    (case io_of e of
                       None \<Rightarrow> errStatus StatusIO (OfError '''' e)
                     | Some x \<Rightarrow>
                         (case K x of
                            IsCanceled \<Rightarrow> errStatus StatusCancelled (OfError '''' e)
                          | IsDeadline \<Rightarrow> errStatus StatusTimeout (OfError '''' e)
                          | IsNetTimeout \<Rightarrow> errStatus StatusTimeout (OfError '''' e)
                          | _ \<Rightarrow> errStatus StatusIO (OfError '''' e)))))
      | ArrowErr e \<Rightarrow> errStatus StatusIO (OfArrow '''' e)
      | LibErr e \<Rightarrow> errStatus StatusIO (OfStream e)
      | AdbcErr e \<Rightarrow> AdbcErr e
      | Panic \<Rightarrow> Panic
      | Diverges \<Rightarrow> Diverges)"

section \<open>Connections\<close>

record env =
  eIO :: "io_error \<Rightarrow> io_kind"
  eUpper :: "rune \<Rightarrow> rune"
  eLower :: "rune \<Rightarrow> rune"
  eFold :: "rune \<Rightarrow> rune"
  eFloat :: float_ops
  eText :: float_text
  eArrow :: arrow_ops
  eNewReader :: "Field list \<Rightarrow> Record list \<Rightarrow> string option"

text \<open>
  The settings of \<^verbatim>\<open>drda.Config\<close> that only dialing uses, the timeout and the TLS configuration,
  are kept beside it.
\<close>

record tlsConfig =
  tlsServerName :: string
  InsecureSkipVerify :: bool
  RootCAs :: "string option"

record connConfig =
  ccDrda :: Config
  ConnectTimeout :: int
  TLS :: "tlsConfig option"
  batchSize :: int
  batchBytes :: int
  trace :: bool
  traceHex :: bool
  traceFile :: string

record connectionImpl =
  dConn :: Conn
  dCfg :: connConfig
  autoCommit :: bool
  dClosed :: bool

type_synonym 'a dact = "connectionImpl \<Rightarrow> (driver_error + 'a) \<times> connectionImpl"

definition dok :: "'a \<Rightarrow> 'a dact" where
  "dok x c = (Inr x, c)"

definition dfail :: "driver_error \<Rightarrow> 'a dact" where
  "dfail e c = (Inl e, c)"

definition dthen :: "'a dact \<Rightarrow> ('a \<Rightarrow> 'b dact) \<Rightarrow> 'b dact" where
  "dthen m f c = (case m c of (Inl e, c1) \<Rightarrow> (Inl e, c1) | (Inr x, c1) \<Rightarrow> f x c1)"

definition with_dconn :: "(connectionImpl \<Rightarrow> 'a dact) \<Rightarrow> 'a dact" where
  "with_dconn f c = f c c"

definition dchange :: "(connectionImpl \<Rightarrow> connectionImpl) \<Rightarrow> unit dact" where
  "dchange f c = (Inr (), f c)"

text \<open>An operation of the DRDA layer with its result, error or not.\<close>

definition raw :: "'a act \<Rightarrow> (conn_error + 'a) dact" where
  "raw m c = (case m (dConn c) of (r, c1) \<Rightarrow> (Inr r, c\<lparr>dConn := c1\<rparr>))"

definition via :: "env \<Rightarrow> 'a act \<Rightarrow> 'a dact" where
  "via E m = dthen (raw m) (\<lambda>r. case r of Inl e \<Rightarrow> dfail (fromDRDAError (eIO E) (DrdaErr e)) | Inr x \<Rightarrow> dok x)"

text \<open>An operation whose error is ignored.\<close>

definition ignoring :: "'a act \<Rightarrow> unit dact" where
  "ignoring m = dthen (raw m) (\<lambda>_. dok ())"

lemmas dact_defs = dok_def dfail_def dthen_def with_dconn_def dchange_def

definition autoCommitIfNeeded :: "env \<Rightarrow> unit dact" where
  "autoCommitIfNeeded E = with_dconn (\<lambda>c. if \<not> autoCommit c then dok () else via E Commit)"

definition queryFinished :: "unit dact" where
  "queryFinished = with_dconn (\<lambda>c. if autoCommit c then ignoring Commit else dok ())"

section \<open>What an operation transmits\<close>

text \<open>
  \<open>emits P\<close>: starting with an empty writer, every transmission is made of requests that satisfy
  \<open>P\<close>, and the writer is empty again; the package is not bound, provided it cannot be: automatic
  binding is off or has been tried.
\<close>

definition bind_off :: "Conn \<Rightarrow> bool" where
  "bind_off c \<longleftrightarrow> NoAutoBind (cfg c) \<or> bindAttempted c"

definition emits :: "(req list \<Rightarrow> bool) \<Rightarrow> Conn \<Rightarrow> Conn \<Rightarrow> bool" where
  "emits P c c' \<longleftrightarrow>
     (wr c = NewWriter \<and> bind_off c \<longrightarrow>
        wr c' = NewWriter \<and> bind_off c'
        \<and> (\<exists>rss. sent c' = sent c @ map wire rss \<and> list_all P rss))"

lemma emits_rel [keeps_intros]: "reflp (emits P)" "transp (emits P)"
proof -
  show "reflp (emits P)" by (rule reflpI) (auto simp: emits_def intro: exI [of _ "[]"])
  show "transp (emits P)"
  proof (rule transpI)
    fix x y z assume xy: "emits P x y" and yz: "emits P y z"
    show "emits P x z"
      unfolding emits_def
    proof (intro impI)
      assume x: "wr x = NewWriter \<and> bind_off x"
      then obtain as where as: "wr y = NewWriter" "bind_off y" "sent y = sent x @ map wire as" "list_all P as"
        using xy by (auto simp: emits_def)
      then obtain bs where "wr z = NewWriter" "bind_off z" "sent z = sent y @ map wire bs" "list_all P bs"
        using yz by (auto simp: emits_def)
      then show "wr z = NewWriter \<and> bind_off z \<and> (\<exists>rss. sent z = sent x @ map wire rss \<and> list_all P rss)"
        using as by (intro conjI exI [of _ "as @ bs"]) simp_all
    qed
  qed
qed

lemma emits_transmit [keeps_intros]:
  assumes "rs \<noteq> []" "P rs"
  shows "keeps (emits P) (transmit rs k)"
proof (rule keepsI)
  fix c r c' assume t: "transmit rs k c = (r, c')"
  show "emits P c c'"
    unfolding emits_def
  proof (intro impI)
    assume w: "wr c = NewWriter \<and> bind_off c"
    then have e: "wr c' = NewWriter" "sent c' = sent c @ [wire rs]" and s: "same_session c c'"
      using transmit_effect [OF assms(1) _ t] by blast+
    have "bind_off c'" using w same_sessionD [OF s] by (simp add: bind_off_def)
    then show "wr c' = NewWriter \<and> bind_off c' \<and> (\<exists>rss. sent c' = sent c @ map wire rss \<and> list_all P rss)"
      using e assms(2) by (intro conjI exI [of _ "[rs]"]) simp_all
  qed
qed

text \<open>Reading and local changes send nothing.\<close>

lemma emits_silent:
  assumes "sent c' = sent c" "wr c' = wr c" "cfg c' = cfg c" "bindAttempted c' = bindAttempted c"
  shows "emits P c c'"
  using assms by (auto simp: emits_def bind_off_def intro: exI [of _ "[]"])

lemma emits_change [keeps_intros]:
  assumes "\<And>c. sent (f c) = sent c \<and> wr (f c) = wr c \<and> cfg (f c) = cfg c \<and> bindAttempted (f c) = bindAttempted c"
  shows "keeps (emits P) (change f)"
  by (rule keeps_change, rule emits_silent) (use assms in simp_all)

lemma keeps_option [keeps_intros]:
  "keeps R m \<Longrightarrow> (\<And>x. keeps R (f x)) \<Longrightarrow> keeps R (case x of None \<Rightarrow> m | Some x \<Rightarrow> f x)"
  by (cases x) simp_all

lemma keeps_sum [keeps_intros]:
  "(\<And>x. keeps R (f x)) \<Longrightarrow> (\<And>x. keeps R (g x)) \<Longrightarrow> keeps R (case x of Inl x \<Rightarrow> f x | Inr x \<Rightarrow> g x)"
  by (cases x) simp_all

lemma keeps_prod [keeps_intros]: "(\<And>a b. keeps R (f a b)) \<Longrightarrow> keeps R (case x of (a, b) \<Rightarrow> f a b)"
  by (cases x) simp

lemma emits_checkReply [keeps_intros]: "keeps (emits P) (checkReply d)"
  unfolding checkReply_def by (intro keeps_intros)

lemma emits_closeReplies [keeps_intros]: "keeps (emits P) (closeReplies ds)"
  by (induction ds) (auto intro!: keeps_intros split: sum.splits option.splits)

lemma emits_upd_query [keeps_intros]: "keeps (emits P) (upd_query i f)"
  unfolding upd_query_def by (intro keeps_intros) simp

lemma emits_collectResult [keeps_intros]: "keeps (emits P) (collectResult ds)"
  unfolding collectResult_def by (intro keeps_intros)

text \<open>What the operations transmit: \<open>allowed\<close> lists the commands.\<close>

definition commands :: "CodePoint set \<Rightarrow> req list \<Rightarrow> bool" where
  "commands cps rs \<longleftrightarrow> list_all (\<lambda>(ob, corr, same, isLast). Object_CodePoint ob \<in> cps) rs"

lemma commands_simps [simp]:
  "commands cps []" "commands cps ((ob, corr, same, isLast) # rs) \<longleftrightarrow> Object_CodePoint ob \<in> cps \<and> commands cps rs"
  "commands cps (rs @ rs') \<longleftrightarrow> commands cps rs \<and> commands cps rs'"
  by (simp_all add: commands_def)

definition statement_cps :: "CodePoint set" where
  "statement_cps = {EXCSQLIMM, SQLSTT, PRPSQLSTT, DSCSQLSTT, EXCSQLSTT, OPNQRY, CNTQRY, CLSQRY, SQLDTA, EXTDTA}"

lemma pack_code_points [simp]:
  "Object_CodePoint (packEXCSQLIMM n c) = EXCSQLIMM" "Object_CodePoint (packSQLSTT sql) = SQLSTT"
  "Object_CodePoint (packPRPSQLSTT n c) = PRPSQLSTT" "Object_CodePoint (packDSCSQLSTT n c) = DSCSQLSTT"
  "Object_CodePoint (packEXCSQLSTT n c) = EXCSQLSTT" "Object_CodePoint (packOPNQRY n b c) = OPNQRY"
  "Object_CodePoint (packCNTQRY n q c) = CNTQRY" "Object_CodePoint (packCLSQRY n q c) = CLSQRY"
  by (simp_all add: pack_defs)

abbreviation statement_only :: "Conn \<Rightarrow> Conn \<Rightarrow> bool" where
  "statement_only \<equiv> emits (commands statement_cps)"

lemma emits_sendCLSQRY [keeps_intros]: "keeps statement_only (sendCLSQRY i)"
  unfolding sendCLSQRY_def Let_def by (intro keeps_intros) (simp_all add: statement_cps_def)

lemma emits_closeLocked [keeps_intros]: "keeps statement_only (closeLocked i)"
  unfolding closeLocked_def markClosed_def Let_def by (intro keeps_intros) simp_all

lemma emits_ensureNoOpenQuery [keeps_intros]: "keeps statement_only ensureNoOpenQuery"
  unfolding ensureNoOpenQuery_def by (intro keeps_intros) simp_all

lemma emits_Query_Close [keeps_intros]: "keeps statement_only (Query_Close i)"
  unfolding Query_Close_def by (intro keeps_intros)

lemma emits_fetchLoop [keeps_intros]: "keeps statement_only (fetchLoop n i)"
  by (induction n) (auto simp: fetchBlock_def Let_def statement_cps_def intro!: keeps_intros)

lemma emits_Next [keeps_intros]: "keeps statement_only (Next i)"
  unfolding Next_def Let_def by (intro keeps_intros)

lemma emits_retrying [keeps_intros]:
  assumes "keeps (emits P) m"
  shows "keeps (emits P) (retrying u m)"
proof (rule keepsI)
  fix c r c' assume run: "retrying u m c = (r, c')"
  obtain x c1 where m: "m c = (x, c1)" by fastforce
  have e: "emits P c c1" using keepsD [OF assms m] .
  show "emits P c c'"
  proof (cases "wr c = NewWriter \<and> bind_off c \<and> isl x")
    case False
    then show ?thesis using run m e by (cases x) (auto simp: retrying_def emits_def)
  next
    case True
    then obtain err where x: "x = Inl err" by (cases x) auto
    have "bind_off c1" using True e by (simp add: emits_def)
    then have "\<exists>e. autoBind u err c1 = (Inl e, c1)"
      by (auto simp: autoBind_def bind_off_def act_defs Let_def split: option.split)
    then show ?thesis using run m x e by (auto simp: retrying_def)
  qed
qed

lemma emits_ExecImmediate [keeps_intros]: "keeps statement_only (ExecImmediate u sql)"
  unfolding ExecImmediate_def execImmediateLocked_def by (intro keeps_intros) (simp_all add: statement_cps_def)

lemma emits_Describe [keeps_intros]: "keeps statement_only (Describe u sql)"
  unfolding Describe_def describeLocked_def by (intro keeps_intros) (simp_all add: statement_cps_def)

lemma emits_PrepareParams [keeps_intros]: "keeps statement_only (PrepareParams u sql)"
  unfolding PrepareParams_def by (intro keeps_intros)

lemma emits_hand_out [keeps_intros]: "keeps (emits P) (hand_out q)" "keeps (emits P) (hand_out_open q)"
  unfolding hand_out_def hand_out_open_def by (intro keeps_intros; simp)+

lemma emits_exchangeInto [keeps_intros]: "rs \<noteq> [] \<Longrightarrow> P rs \<Longrightarrow> keeps (emits P) (exchangeInto q rs k)"
  unfolding exchangeInto_def by (intro keeps_intros)

lemma emits_Conn_Query [keeps_intros]: "keeps statement_only (Conn_Query u sql)"
  unfolding Conn_Query_def queryLocked_def Let_def by (intro keeps_intros) (simp_all add: statement_cps_def)

lemma encodeSQLDTA_code_points:
  assumes "encodeSQLDTA le F params values = Inr (sqldta, ext)"
  shows "Object_CodePoint sqldta = SQLDTA" "list_all (\<lambda>e. Object_CodePoint e = EXTDTA) ext"
proof -
  have ext: "encodeValues le F i evs = Inr (dta, xs) \<Longrightarrow> list_all (\<lambda>e. Object_CodePoint e = EXTDTA) xs" for i evs dta xs
    by (induction evs arbitrary: i dta xs) (auto split: if_splits sum.splits)
  show "Object_CodePoint sqldta = SQLDTA" "list_all (\<lambda>e. Object_CodePoint e = EXTDTA) ext"
    using assms ext by (auto simp: encodeSQLDTA_def split: if_splits sum.splits prod.splits)
qed

lemma commands_extReqs: "list_all (\<lambda>e. Object_CodePoint e = EXTDTA) ext \<Longrightarrow> EXTDTA \<in> cps \<Longrightarrow> commands cps (extReqs ext corr l)"
  by (induction ext corr l rule: extReqs.induct) auto

lemma keeps_encoded:
  assumes "\<And>e. keeps R (f e)" "\<And>sqldta ext. encodeSQLDTA le F params values = Inr (sqldta, ext) \<Longrightarrow> keeps R (g sqldta ext)"
  shows "keeps R (case encodeSQLDTA le F params values of Inl e \<Rightarrow> f e | Inr (sqldta, ext) \<Rightarrow> g sqldta ext)"
  using assms by (auto split: sum.splits prod.splits)

lemma emits_QueryParams [keeps_intros]: "keeps statement_only (QueryParams F ps values)"
  unfolding QueryParams_def
  by (intro keeps_encoded keeps_intros)
     (auto simp: statement_cps_def commands_extReqs encodeSQLDTA_code_points)

lemma commands_unchain: "rs \<noteq> [] \<Longrightarrow> commands cps rs \<Longrightarrow> commands cps (unchain rs)"
  by (cases rs rule: rev_cases) (auto simp: unchain_def)

lemma commands_batchReqs: "batchReqs c F ps rows corr = Inr rs \<Longrightarrow> commands statement_cps rs"
  by (induction rows arbitrary: corr rs)
     (auto simp: statement_cps_def commands_extReqs encodeSQLDTA_code_points split: sum.splits prod.splits)

lemma emits_batchLocked [keeps_intros]: "keeps statement_only (batchLocked F ps rows)"
proof (rule keepsI)
  fix c r c' assume run: "batchLocked F ps rows c = (r, c')"
  show "statement_only c c'"
  proof (cases "rows = []")
    case True
    then have "c' = c" using run by (simp add: batchLocked_def act_defs)
    then show ?thesis by (simp add: emits_silent)
  next
    case False
    show ?thesis
      unfolding emits_def
    proof (intro impI)
      assume w: "wr c = NewWriter \<and> bind_off c"
      then have s: "same_session c c'" and w': "wr c' = NewWriter"
        and e: "case batchReqs c F ps rows 2 of Inl e \<Rightarrow> r = Inl (ParamError e) \<and> sent c' = sent c
                | Inr rs \<Rightarrow> sent c' = sent c @ [wire (batchTransmission c ps rs)]"
        using batchLocked_effect [OF _ False run] by blast+
      have "\<exists>rss. sent c' = sent c @ map wire rss \<and> list_all (commands statement_cps) rss"
      proof (cases "batchReqs c F ps rows 2")
        case (Inl x)
        then show ?thesis using e by (intro exI [of _ "[]"]) simp
      next
        case (Inr rs)
        have "commands statement_cps (batchTransmission c ps rs)"
          unfolding batchTransmission_def
          by (rule commands_unchain) (use commands_batchReqs [OF Inr] in \<open>simp_all add: statement_cps_def\<close>)
        then show ?thesis using e Inr by (intro exI [of _ "[batchTransmission c ps rs]"]) simp
      qed
      moreover have "bind_off c'" using w same_sessionD [OF s] by (simp add: bind_off_def)
      ultimately show "wr c' = NewWriter \<and> bind_off c' \<and> (\<exists>rss. sent c' = sent c @ map wire rss \<and> list_all (commands statement_cps) rss)"
        using w' by blast
    qed
  qed
qed

lemma emits_ExecBatch [keeps_intros]: "keeps statement_only (ExecBatch F ps rows)"
  unfolding ExecBatch_def by (intro keeps_intros)

section \<open>Relations an operation of the driver keeps\<close>

definition dkeeps :: "(connectionImpl \<Rightarrow> connectionImpl \<Rightarrow> bool) \<Rightarrow> 'a dact \<Rightarrow> bool" where
  "dkeeps R m \<longleftrightarrow> (\<forall>c r c'. m c = (r, c') \<longrightarrow> R c c')"

lemma dkeepsI: "(\<And>c r c'. m c = (r, c') \<Longrightarrow> R c c') \<Longrightarrow> dkeeps R m"
  by (simp add: dkeeps_def)

lemma dkeepsD: "dkeeps R m \<Longrightarrow> m c = (r, c') \<Longrightarrow> R c c'"
  by (simp add: dkeeps_def)

lemma dthen_cases:
  assumes "dthen m f c = (r, c')"
  obtains (fail) e where "m c = (Inl e, c')" "r = Inl e" | (step) x c1 where "m c = (Inr x, c1)" "f x c1 = (r, c')"
  using assms by (auto simp: dthen_def split: sum.splits prod.splits)

text \<open>
  The DRDA session as the driver uses it.  \<open>R\<close> relates the state before and after; it must be
  kept by every call of the DRDA layer and by the two ways the driver commits.
\<close>

locale session_frame =
  fixes R :: "connectionImpl \<Rightarrow> connectionImpl \<Rightarrow> bool"
  assumes refl: "R c c"
    and trans: "R a b \<Longrightarrow> R b c \<Longrightarrow> R a c"
    and call: "good (dConn c) k \<Longrightarrow> statement_only (dConn c) k \<Longrightarrow> R c (c\<lparr>dConn := k\<rparr>)"
    and auto_commit: "dkeeps R (autoCommitIfNeeded E)"
    and finished: "dkeeps R queryFinished"
begin

lemma pure: "dkeeps R (dok x)" "dkeeps R (dfail e)"
  by (auto simp: dkeeps_def dok_def dfail_def refl)

lemma andthen: "dkeeps R m \<Longrightarrow> (\<And>x. dkeeps R (f x)) \<Longrightarrow> dkeeps R (dthen m f)"
  by (rule dkeepsI, erule dthen_cases) (blast intro: trans dest: dkeepsD)+

lemma with_state: "(\<And>c. dkeeps R (f c)) \<Longrightarrow> dkeeps R (with_dconn f)"
  by (auto simp: dkeeps_def with_dconn_def)

lemma cond: "dkeeps R m \<Longrightarrow> dkeeps R n \<Longrightarrow> dkeeps R (if b then m else n)"
  by simp

lemma case_opt: "dkeeps R m \<Longrightarrow> (\<And>x. dkeeps R (f x)) \<Longrightarrow> dkeeps R (case x of None \<Rightarrow> m | Some x \<Rightarrow> f x)"
  by (cases x) simp_all

lemma case_res: "(\<And>x. dkeeps R (f x)) \<Longrightarrow> (\<And>x. dkeeps R (g x)) \<Longrightarrow> dkeeps R (case x of Inl x \<Rightarrow> f x | Inr x \<Rightarrow> g x)"
  by (cases x) simp_all

lemma case_pair: "(\<And>a b. dkeeps R (f a b)) \<Longrightarrow> dkeeps R (case x of (a, b) \<Rightarrow> f a b)"
  by (cases x) simp

lemma statement: "keeps good m \<Longrightarrow> keeps statement_only m \<Longrightarrow> dkeeps R (raw m)"
  by (rule dkeepsI) (auto simp: raw_def split: prod.splits intro: call dest: keepsD)

lemmas combinators = pure andthen with_state cond case_opt case_res case_pair

lemma calls:
  "dkeeps R (raw (Conn_Query u sql))" "dkeeps R (raw (ExecImmediate u sql))" "dkeeps R (raw (Describe u sql))"
  "dkeeps R (raw (PrepareParams u sql))" "dkeeps R (raw (ExecBatch F ps rows))" "dkeeps R (raw (QueryParams F ps values))"
  "dkeeps R (raw (Next i))" "dkeeps R (raw (Query_Close i))"
  by ((rule statement; intro keeps_intros))+

lemma wrapped: "dkeeps R (raw m) \<Longrightarrow> dkeeps R (via E m)" "dkeeps R (raw m) \<Longrightarrow> dkeeps R (ignoring m)"
  unfolding via_def ignoring_def by (intro combinators; simp)+

lemmas operations = combinators calls wrapped auto_commit finished

end

text \<open>The session invariant is one such relation.\<close>

definition dgood :: "connectionImpl \<Rightarrow> connectionImpl \<Rightarrow> bool" where
  "dgood c c' \<longleftrightarrow> good (dConn c) (dConn c') \<and> autoCommit c' = autoCommit c \<and> dCfg c' = dCfg c \<and> dClosed c' = dClosed c"

text \<open>
  The discipline of units of work is another.  Without automatic binding, the commands of a
  statement are all that is transmitted, and, only under autocommit, commits.
\<close>

definition permitted :: "bool \<Rightarrow> req list \<Rightarrow> bool" where
  "permitted auto rs \<longleftrightarrow> commands statement_cps rs \<or> auto \<and> rs = [(packRDBCMM, 1, False, True)]"

definition txn :: "connectionImpl \<Rightarrow> connectionImpl \<Rightarrow> bool" where
  "txn c c' \<longleftrightarrow> emits (permitted (autoCommit c)) (dConn c) (dConn c') \<and> autoCommit c' = autoCommit c"

lemma dgood_call: "good (dConn c) k \<Longrightarrow> dgood c (c\<lparr>dConn := k\<rparr>)"
  by (simp add: dgood_def)

lemma dkeeps_raw: "keeps S m \<Longrightarrow> (\<And>c k. S (dConn c) k \<Longrightarrow> R c (c\<lparr>dConn := k\<rparr>)) \<Longrightarrow> dkeeps R (raw m)"
  by (rule dkeepsI) (auto simp: raw_def split: prod.splits dest: keepsD)

text \<open>The two commits of the driver, with what they do to the connection.\<close>

lemma raw_Inr: "raw m c = (Inr (fst (m (dConn c))), c\<lparr>dConn := snd (m (dConn c))\<rparr>)"
  by (simp add: raw_def split: prod.split)

lemma snd_via [simp]: "snd (via E m c) = c\<lparr>dConn := snd (m (dConn c))\<rparr>"
  by (auto simp: via_def dthen_def raw_Inr dok_def dfail_def split: sum.split)

lemma snd_ignoring [simp]: "snd (ignoring m c) = c\<lparr>dConn := snd (m (dConn c))\<rparr>"
  by (simp add: ignoring_def dthen_def raw_Inr dok_def)

lemma commit_steps:
  assumes "autoCommitIfNeeded E c = (r, c') \<or> queryFinished c = (r', c')"
  shows "c' = (if autoCommit c then c\<lparr>dConn := snd (Commit (dConn c))\<rparr> else c)"
proof -
  have "snd (autoCommitIfNeeded E c) = (if autoCommit c then c\<lparr>dConn := snd (Commit (dConn c))\<rparr> else c)"
    by (simp add: autoCommitIfNeeded_def with_dconn_def dok_def)
  moreover have "snd (queryFinished c) = (if autoCommit c then c\<lparr>dConn := snd (Commit (dConn c))\<rparr> else c)"
    by (simp add: queryFinished_def with_dconn_def dok_def)
  ultimately show ?thesis using assms by (metis snd_conv)
qed

lemma emits_mono: "emits P c c' \<Longrightarrow> (\<And>rs. P rs \<Longrightarrow> Q rs) \<Longrightarrow> emits Q c c'"
  by (auto simp: emits_def list_all_iff)

lemma emits_Commit: "keeps (emits (permitted True)) Commit"
proof -
  have "keeps (emits (permitted True)) ensureNoOpenQuery"
    by (rule keepsI, rule emits_mono [OF keepsD [OF emits_ensureNoOpenQuery]]) (auto simp: permitted_def)
  then show ?thesis
    unfolding Commit_def endUnitOfWork_def by (intro keeps_intros) (simp_all add: permitted_def)
qed

lemma commit_frame:
  assumes "\<And>c. R c c" "\<And>c. autoCommit c \<Longrightarrow> R c (c\<lparr>dConn := snd (Commit (dConn c))\<rparr>)"
  shows "dkeeps R (autoCommitIfNeeded E)" "dkeeps R queryFinished"
proof -
  show "dkeeps R (autoCommitIfNeeded E)"
    by (rule dkeepsI, drule commit_steps [OF disjI1]) (simp add: assms)
  show "dkeeps R queryFinished"
    by (rule dkeepsI, drule commit_steps [OF disjI2]) (simp add: assms)
qed

interpretation inv: session_frame dgood
proof
  show refl: "dgood c c" for c by (simp add: dgood_def reflpD [OF good_rel(1)])
  show "dgood a b \<Longrightarrow> dgood b c \<Longrightarrow> dgood a c" for a b c
    by (auto simp: dgood_def intro: transpD [OF good_rel(2)])
  show "good (dConn c) k \<Longrightarrow> statement_only (dConn c) k \<Longrightarrow> dgood c (c\<lparr>dConn := k\<rparr>)" for c k by (rule dgood_call)
  have step: "dgood c (c\<lparr>dConn := snd (Commit (dConn c))\<rparr>)" for c
    by (rule dgood_call, rule keepsD [OF good_units(1)]) (rule prod.collapse [symmetric])
  show "dkeeps dgood (autoCommitIfNeeded E)" "dkeeps dgood queryFinished" for E
    by (rule commit_frame; simp add: refl step)+
qed

interpretation uow: session_frame txn
proof
  show refl: "txn c c" for c by (simp add: txn_def reflpD [OF emits_rel(1)])
  show "txn a b \<Longrightarrow> txn b c \<Longrightarrow> txn a c" for a b c
    by (auto simp: txn_def intro: transpD [OF emits_rel(2)])
  show "good (dConn c) k \<Longrightarrow> statement_only (dConn c) k \<Longrightarrow> txn c (c\<lparr>dConn := k\<rparr>)" for c k
    by (auto simp: txn_def permitted_def elim!: emits_mono)
  have step: "txn c (c\<lparr>dConn := snd (Commit (dConn c))\<rparr>)" if "autoCommit c" for c
    using keepsD [OF emits_Commit prod.collapse [symmetric]] that by (simp add: txn_def)
  show "dkeeps txn (autoCommitIfNeeded E)" "dkeeps txn queryFinished" for E
    by (rule commit_frame; simp add: refl step)+
qed

end
