(* ===== verification/Db2_Reader.thy ===== *)
theory Db2_Reader
  imports Db2_State
begin

text \<open>
  The streaming record reader (\<^verbatim>\<open>driver/db2/record_reader.go\<close>): Arrow batches cut from the
  blocks of rows a cursor delivers, bounded in rows and in estimated bytes.

  Sizes are integers; a batch is far below 2^63 bytes.  The allocator and the reference count
  of Arrow records are left out.

  Results: over any sequence of \<open>Next\<close> calls the batches are the rows the cursor delivered, in
  order and without loss; no batch is empty or exceeds its bounds.
\<close>

section \<open>State\<close>

record streamingRecordReader =
  rdQuery :: nat
  rdSchema :: "Field list"
  rdBatchSize :: int
  rdBatchBytes :: int
  rdCurrent :: "Record option"
  buffered :: "Value list list"
  bufferedBytes :: int
  rdErr :: "driver_error option"
  refs :: int
  rdDone :: bool
  rdClosed :: bool

definition newStreamingRecordReader :: "connectionImpl \<Rightarrow> nat \<Rightarrow> int \<Rightarrow> streamingRecordReader" where
  "newStreamingRecordReader c q n =
     \<lparr>rdQuery = q,
      rdSchema = schemaFor (case qColumns (queries (dConn c) ! q) of Some cols \<Rightarrow> cols | None \<Rightarrow> []),
      rdBatchSize = n, rdBatchBytes = batchBytes (dCfg c), rdCurrent = None, buffered = [], bufferedBytes = 0,
      rdErr = None, refs = 1, rdDone = False, rdClosed = False\<rparr>"

section \<open>Operations\<close>

definition valueBytes :: "Value \<Rightarrow> int" where
  "valueBytes v =
     (case v of
        VNil \<Rightarrow> 1 | VBool x \<Rightarrow> 1 | VInt16 x \<Rightarrow> 2 | VInt32 x \<Rightarrow> 4 | VFloat32 x \<Rightarrow> 4 | VDate x \<Rightarrow> 4 | VTime x \<Rightarrow> 4
      | VInt64 x \<Rightarrow> 8 | VFloat64 x \<Rightarrow> 8 | VTimestamp x \<Rightarrow> 16 | VDecimal x \<Rightarrow> 16 | VDecimalNil \<Rightarrow> 16
      | VString s \<Rightarrow> int (length s) + 4 | VBytes b \<Rightarrow> int (length b) + 4 | _ \<Rightarrow> 16)"

definition rowBytes :: "Value list \<Rightarrow> int" where
  "rowBytes row = sum_list (map valueBytes row)"

definition rowsBytes :: "Value list list \<Rightarrow> int" where
  "rowsBytes rows = sum_list (map rowBytes rows)"

text \<open>
  The filling loop of \<open>takeRows\<close>.  A block of rows is never empty, so the buffer grows until
  it holds a batch.
\<close>

function fillBuffer :: "env \<Rightarrow> streamingRecordReader \<Rightarrow> connectionImpl \<Rightarrow> streamingRecordReader \<times> connectionImpl" where
  "fillBuffer E r c =
     (if int (length (buffered r)) < rdBatchSize r \<and> (rdBatchBytes r = 0 \<or> bufferedBytes r < rdBatchBytes r) then
        (case Next (rdQuery r) (dConn c) of
           (Inl e, k) \<Rightarrow> (r\<lparr>rdErr := Some (fromDRDAError (eIO E) (DrdaErr e))\<rparr>, c\<lparr>dConn := k\<rparr>)
         | (Inr rows, k) \<Rightarrow>
             if rows = [] then (r, c\<lparr>dConn := k\<rparr>)
             else fillBuffer E (r\<lparr>buffered := buffered r @ rows,
                    bufferedBytes := (if 0 < rdBatchBytes r then bufferedBytes r + rowsBytes rows else bufferedBytes r)\<rparr>)
                    (c\<lparr>dConn := k\<rparr>))
      else (r, c))"
  by pat_completeness auto
termination
  by (relation "measure (\<lambda>(E, r, c). nat (rdBatchSize r) - length (buffered r))")
     (auto simp flip: length_greater_0_conv)

declare fillBuffer.simps [simp del]

text \<open>The inner loop: rows are added while the bytes taken so far stay below the bound.\<close>

fun cutRows :: "int \<Rightarrow> int \<Rightarrow> Value list list \<Rightarrow> nat" where
  "cutRows bound taken [] = 0"
| "cutRows bound taken (row # rows) =
     (if taken < bound then 1 + cutRows bound (taken + rowBytes row) rows else 0)"

text \<open>The rows of the next batch from a buffer that is not empty.\<close>

definition cutBatch :: "streamingRecordReader \<Rightarrow> Value list list \<times> streamingRecordReader" where
  "cutBatch r =
     (let n = (if rdBatchSize r < int (length (buffered r)) then nat (rdBatchSize r) else length (buffered r));
          m = (if 0 < rdBatchBytes r
               then 1 + cutRows (rdBatchBytes r) (rowBytes (hd (buffered r))) (drop 1 (take n (buffered r))) else n);
          rows = take m (buffered r); rest = drop m (buffered r)
      in (rows, r\<lparr>buffered := rest,
                  bufferedBytes := (if rest = [] then 0
                                    else bufferedBytes r - (if 0 < rdBatchBytes r then rowsBytes rows else 0))\<rparr>))"

definition takeRows :: "env \<Rightarrow> streamingRecordReader \<Rightarrow> connectionImpl \<Rightarrow>
    Value list list option \<times> streamingRecordReader \<times> connectionImpl" where
  "takeRows E r c =
     (case fillBuffer E r c of
        (r1, c1) \<Rightarrow>
          if rdErr r1 \<noteq> None \<or> buffered r1 = [] then (None, r1, c1)
          else (case cutBatch r1 of (rows, r2) \<Rightarrow> (Some rows, r2, c1)))"

text \<open>\<open>close\<close>: the cursor is closed, then the unit of work is committed under autocommit.\<close>

definition closeReader :: "streamingRecordReader \<Rightarrow> connectionImpl \<Rightarrow> streamingRecordReader \<times> connectionImpl" where
  "closeReader r c =
     (if rdClosed r then (r, c)
      else (r\<lparr>rdClosed := True\<rparr>, snd (dthen (ignoring (Query_Close (rdQuery r))) (\<lambda>_. queryFinished) c)))"

definition Reader_Next :: "env \<Rightarrow> streamingRecordReader \<Rightarrow> connectionImpl \<Rightarrow> bool \<times> streamingRecordReader \<times> connectionImpl" where
  "Reader_Next E r c =
     (if rdErr r \<noteq> None \<or> rdDone r \<or> rdClosed r then (False, r, c)
      else case takeRows E (r\<lparr>rdCurrent := None\<rparr>) c of
        (None, r1, c1) \<Rightarrow>
          if rdErr r1 = None then (False, closeReader (r1\<lparr>rdDone := True\<rparr>) c1) else (False, r1, c1)
      | (Some rows, r1, c1) \<Rightarrow>
          (case recordFromRows (eFloat E) (eText E) (rdSchema r1) rows of
             Inl e \<Rightarrow> (False, r1\<lparr>rdErr := Some (ArrowErr e)\<rparr>, c1)
           | Inr rec \<Rightarrow> (True, r1\<lparr>rdCurrent := Some rec\<rparr>, c1)))"

definition Retain :: "streamingRecordReader \<Rightarrow> streamingRecordReader" where
  "Retain r = r\<lparr>refs := refs r + 1\<rparr>"

definition Release :: "streamingRecordReader \<Rightarrow> connectionImpl \<Rightarrow> streamingRecordReader \<times> connectionImpl" where
  "Release r c =
     (let r1 = r\<lparr>refs := refs r - 1\<rparr> in
      if refs r1 \<noteq> 0 then (r1, c) else closeReader (r1\<lparr>rdCurrent := None\<rparr>) c)"

section \<open>What the reader delivers\<close>

text \<open>Rows the cursor has handed out over successive calls of \<open>Next\<close>.\<close>

inductive fetched :: "nat \<Rightarrow> Conn \<Rightarrow> Value list list \<Rightarrow> Conn \<Rightarrow> bool" where
  none: "fetched i c [] c"
| more: "Next i c = (Inr rows, c1) \<Longrightarrow> fetched i c1 rs c2 \<Longrightarrow> fetched i c (rows @ rs) c2"

text \<open>What holds of a reader before each call: the byte estimate of the buffer is exact.\<close>

definition reader_ok :: "streamingRecordReader \<Rightarrow> bool" where
  "reader_ok r \<longleftrightarrow> 0 < rdBatchSize r \<and> 0 \<le> rdBatchBytes r
     \<and> bufferedBytes r = (if 0 < rdBatchBytes r then rowsBytes (buffered r) else 0)"

text \<open>The bounds of a batch: in rows, and in bytes before its last row.\<close>

definition batch_ok :: "streamingRecordReader \<Rightarrow> Value list list \<Rightarrow> bool" where
  "batch_ok r rows \<longleftrightarrow> rows \<noteq> [] \<and> int (length rows) \<le> rdBatchSize r
     \<and> (0 < rdBatchBytes r \<longrightarrow> length rows = 1 \<or> rowsBytes (butlast rows) < rdBatchBytes r)"

definition same_reader :: "streamingRecordReader \<Rightarrow> streamingRecordReader \<Rightarrow> bool" where
  "same_reader r r' \<longleftrightarrow> rdQuery r' = rdQuery r \<and> rdSchema r' = rdSchema r \<and> rdBatchSize r' = rdBatchSize r
     \<and> rdBatchBytes r' = rdBatchBytes r \<and> rdDone r' = rdDone r \<and> rdClosed r' = rdClosed r \<and> refs r' = refs r"

lemma rowsBytes_simps [simp]:
  "rowsBytes [] = 0" "rowsBytes (row # rows) = rowBytes row + rowsBytes rows" "rowsBytes (a @ b) = rowsBytes a + rowsBytes b"
  by (simp_all add: rowsBytes_def)

lemma fillBuffer_spec:
  assumes "fillBuffer E r c = (r', c')" "reader_ok r" "rdErr r = None"
  shows "\<exists>new k. fetched (rdQuery r) (dConn c) new k \<and> buffered r' = buffered r @ new \<and> reader_ok r' \<and> same_reader r r'
    \<and> (rdErr r' = None \<longrightarrow> dConn c' = k)
    \<and> (rdErr r' = None \<and> buffered r' = [] \<longrightarrow> Next (rdQuery r) (dConn c) = (Inr [], k))"
  using assms
proof (induction E r c rule: fillBuffer.induct)
  case (1 E r c)
  show ?case
  proof (cases "int (length (buffered r)) < rdBatchSize r \<and> (rdBatchBytes r = 0 \<or> bufferedBytes r < rdBatchBytes r)")
    case False
    then have "r' = r" "c' = c" using "1.prems"(1) by (auto simp: fillBuffer.simps [of E r c])
    moreover have "buffered r \<noteq> []" using False "1.prems"(2) by (auto simp: reader_ok_def)
    ultimately show ?thesis
      using "1.prems" by (intro exI [of _ "[]"] exI [of _ "dConn c"]) (auto simp: same_reader_def intro: fetched.none)
  next
    case True
    obtain x k where n: "Next (rdQuery r) (dConn c) = (x, k)" by fastforce
    show ?thesis
    proof (cases x)
      case (Inl e)
      then have "r' = r\<lparr>rdErr := Some (fromDRDAError (eIO E) (DrdaErr e))\<rparr>"
        using "1.prems"(1) True n by (auto simp: fillBuffer.simps [of E r c])
      then show ?thesis
        using "1.prems"(2) by (intro exI [of _ "[]"] exI [of _ "dConn c"])
          (auto simp: same_reader_def reader_ok_def intro: fetched.none)
    next
      case (Inr rows)
      show ?thesis
      proof (cases "rows = []")
        case empty: True
        then have "r' = r" "dConn c' = k" using "1.prems"(1) True n Inr by (auto simp: fillBuffer.simps [of E r c])
        moreover have "fetched (rdQuery r) (dConn c) [] k"
          using fetched.more [OF _ fetched.none] n Inr empty by fastforce
        ultimately show ?thesis
          using "1.prems"(2,3) n Inr empty by (intro exI [of _ "[]"] exI [of _ k]) (auto simp: same_reader_def)
      next
        case False
        let ?r1 = "r\<lparr>buffered := buffered r @ rows,
          bufferedBytes := (if 0 < rdBatchBytes r then bufferedBytes r + rowsBytes rows else bufferedBytes r)\<rparr>"
        have step: "fillBuffer E ?r1 (c\<lparr>dConn := k\<rparr>) = (r', c')"
          using "1.prems"(1) True n Inr False by (simp add: fillBuffer.simps [of E r c])
        have ok: "reader_ok ?r1" "rdErr ?r1 = None" using "1.prems"(2,3) by (auto simp: reader_ok_def)
        obtain new k' where "fetched (rdQuery ?r1) (dConn (c\<lparr>dConn := k\<rparr>)) new k'" "buffered r' = buffered ?r1 @ new"
          and IH': "reader_ok r'" "same_reader ?r1 r'" "rdErr r' = None \<longrightarrow> dConn c' = k'"
          using "1.IH" [OF True n [symmetric] Inr False step ok] by (elim exE conjE) (rule that)
        then have IH: "fetched (rdQuery r) k new k'" "buffered r' = buffered r @ rows @ new" by simp_all
        have "fetched (rdQuery r) (dConn c) (rows @ new) k'"
          using fetched.more [OF _ IH(1)] n Inr by simp
        then show ?thesis
          using IH IH' False by (intro exI [of _ "rows @ new"] exI [of _ k']) (auto simp: same_reader_def)
      qed
    qed
  qed
qed

lemma cutRows_le: "cutRows bound taken rows \<le> length rows"
  by (induction rows arbitrary: taken) auto

lemma rowBytes_pos: "0 \<le> rowBytes row"
  unfolding rowBytes_def by (induction row) (auto simp: valueBytes_def split: Value.splits)

lemma cutRows_bound:
  "0 < cutRows bound taken rows \<Longrightarrow> taken + rowsBytes (take (cutRows bound taken rows - 1) rows) < bound"
proof (induction rows arbitrary: taken)
  case (Cons row rows)
  then show ?case
    using Cons.IH [of "taken + rowBytes row"] by (cases "cutRows bound (taken + rowBytes row) rows") (auto split: if_splits)
qed simp

lemma cutBatch_spec:
  assumes "cutBatch r = (rows, r')" "reader_ok r" "buffered r \<noteq> []"
  shows "buffered r = rows @ buffered r' \<and> batch_ok r rows \<and> reader_ok r' \<and> same_reader r r' \<and> rdErr r' = rdErr r"
proof -
  define n where "n = (if rdBatchSize r < int (length (buffered r)) then nat (rdBatchSize r) else length (buffered r))"
  define j where "j = cutRows (rdBatchBytes r) (rowBytes (hd (buffered r))) (drop 1 (take n (buffered r)))"
  define m where "m = (if 0 < rdBatchBytes r then 1 + j else n)"
  have r: "0 < rdBatchSize r" "0 \<le> rdBatchBytes r" using assms(2) by (simp_all add: reader_ok_def)
  have n: "0 < n" "n \<le> length (buffered r)" "int n \<le> rdBatchSize r" using r assms(3) by (auto simp: n_def)
  have "j \<le> n - 1" unfolding j_def using cutRows_le [of _ _ "drop 1 (take n (buffered r))"] n by (metis length_drop length_take min.absorb2)
  then have m: "0 < m" "m \<le> n" using n by (auto simp: m_def)
  have cut: "rows = take m (buffered r)"
    "r' = r\<lparr>buffered := drop m (buffered r),
       bufferedBytes := (if drop m (buffered r) = [] then 0 else bufferedBytes r - (if 0 < rdBatchBytes r then rowsBytes rows else 0))\<rparr>"
    using assms(1) unfolding cutBatch_def Let_def n_def [symmetric] j_def [symmetric] m_def [symmetric] by auto
  have "rowsBytes (butlast rows) < rdBatchBytes r" if "0 < rdBatchBytes r" "m \<noteq> 1"
  proof -
    have "0 < j" "m = 1 + j" using that by (auto simp: m_def)
    then have "rowBytes (hd (buffered r)) + rowsBytes (take (j - 1) (drop 1 (take n (buffered r)))) < rdBatchBytes r"
      unfolding j_def using cutRows_bound by blast
    moreover have "butlast rows = hd (buffered r) # take (j - 1) (drop 1 (take n (buffered r)))"
    proof -
      obtain a xs where ax: "buffered r = a # xs" using assms(3) by (cases "buffered r") auto
      have "min (j - 1) (n - 1) = j - 1" using \<open>j \<le> n - 1\<close> by simp
      then have "take (j - 1) (drop 1 (take n (buffered r))) = take (j - 1) xs"
        using n by (cases n) (simp_all add: ax)
      moreover have "butlast rows = take j (a # xs)"
        using butlast_take [of m "buffered r"] m n \<open>m = 1 + j\<close> by (simp only: cut(1) ax) simp
      ultimately show ?thesis using \<open>0 < j\<close> by (cases j) (simp_all add: ax)
    qed
    ultimately show ?thesis by simp
  qed
  then have "batch_ok r rows" using m n cut(1) by (auto simp: batch_ok_def)
  moreover have "rowsBytes (buffered r) = rowsBytes rows + rowsBytes (drop m (buffered r))"
    unfolding cut(1) by (metis append_take_drop_id rowsBytes_simps(3))
  ultimately show ?thesis
    using assms(2) cut by (auto simp: reader_ok_def same_reader_def)
qed

text \<open>A client that calls \<open>Next\<close> up to \<open>n\<close> times and keeps the records.\<close>

fun readRecords :: "nat \<Rightarrow> env \<Rightarrow> streamingRecordReader \<Rightarrow> connectionImpl \<Rightarrow> Record list \<times> streamingRecordReader \<times> connectionImpl" where
  "readRecords 0 E r c = ([], r, c)"
| "readRecords (Suc n) E r c =
     (case Reader_Next E r c of
        (False, r1, c1) \<Rightarrow> ([], r1, c1)
      | (True, r1, c1) \<Rightarrow>
          (case rdCurrent r1 of
             None \<Rightarrow> ([], r1, c1)
           | Some rec \<Rightarrow> (case readRecords n E r1 c1 of (recs, r2, c2) \<Rightarrow> (rec # recs, r2, c2))))"

text \<open>All rows of the cursor have been handed out: the next call reported the end.\<close>

definition exhausted :: "nat \<Rightarrow> Conn \<Rightarrow> Value list list \<Rightarrow> bool" where
  "exhausted i c rows \<longleftrightarrow> (\<exists>k k'. fetched i c rows k \<and> Next i k = (Inr [], k'))"

lemma fetched_trans: "fetched i c a k \<Longrightarrow> fetched i k b k' \<Longrightarrow> fetched i c (a @ b) k'"
  by (induction rule: fetched.induct) (auto intro: fetched.more)

lemma exhausted_trans: "fetched i c a k \<Longrightarrow> exhausted i k b \<Longrightarrow> exhausted i c (a @ b)"
  using fetched_trans by (fastforce simp: exhausted_def)

definition live :: "streamingRecordReader \<Rightarrow> bool" where
  "live r \<longleftrightarrow> reader_ok r \<and> rdErr r = None \<and> \<not> rdDone r \<and> \<not> rdClosed r"

lemma takeRows_spec:
  assumes "takeRows E r c = (x, r', c')" "live r"
  shows "(\<exists>rows new. x = Some rows \<and> fetched (rdQuery r) (dConn c) new (dConn c') \<and> buffered r @ new = rows @ buffered r'
            \<and> batch_ok r rows \<and> live r' \<and> same_reader r r')
       \<or> (x = None \<and> (rdErr r' = None \<longrightarrow> buffered r = [] \<and> exhausted (rdQuery r) (dConn c) []))"
proof -
  obtain r1 c1 where f: "fillBuffer E r c = (r1, c1)" by fastforce
  have r: "reader_ok r" "rdErr r = None" using assms(2) by (simp_all add: live_def)
  from fillBuffer_spec [OF f r] obtain new k where
    n: "fetched (rdQuery r) (dConn c) new k" "buffered r1 = buffered r @ new" "reader_ok r1" "same_reader r r1"
    "rdErr r1 = None \<longrightarrow> dConn c1 = k"
    "rdErr r1 = None \<and> buffered r1 = [] \<longrightarrow> Next (rdQuery r) (dConn c) = (Inr [], k)" by (elim exE conjE) (rule that)
  show ?thesis
  proof (cases "rdErr r1 \<noteq> None \<or> buffered r1 = []")
    case True
    then have "x = None" "r' = r1" using assms(1) f by (auto simp: takeRows_def)
    then show ?thesis using True n by (auto simp: exhausted_def intro: fetched.none)
  next
    case False
    obtain rows r2 where b: "cutBatch r1 = (rows, r2)" by fastforce
    then have x: "x = Some rows" "r' = r2" "c' = c1" using assms(1) f False by (auto simp: takeRows_def)
    have "buffered r1 = rows @ buffered r2" "batch_ok r1 rows" "reader_ok r2" "same_reader r1 r2" "rdErr r2 = rdErr r1"
      using cutBatch_spec [OF b n(3)] False by simp_all
    then show ?thesis
      using n False x assms(2) by (auto simp: same_reader_def batch_ok_def live_def)
  qed
qed

lemma readRecords_spec:
  assumes "readRecords n E r c = (recs, r', c')" "live r"
  shows "\<exists>batches new k rest. fetched (rdQuery r) (dConn c) new k \<and> buffered r @ new = concat batches @ rest
    \<and> list_all2 (\<lambda>rows rec. recordFromRows (eFloat E) (eText E) (rdSchema r) rows = Inr rec) batches recs
    \<and> list_all (batch_ok r) batches
    \<and> (rdErr r' = None \<and> rdDone r' \<longrightarrow> rest = [] \<and> exhausted (rdQuery r) (dConn c) new)"
  using assms
proof (induction n arbitrary: r c recs)
  case 0
  then show ?case
    by (intro exI [of _ "[]"] exI [of _ "dConn c"] exI [of _ "buffered r"]) (auto simp: live_def intro: fetched.none)
next
  case (Suc n)
  let ?r0 = "r\<lparr>rdCurrent := None\<rparr>"
  obtain x r1 c1 where t: "takeRows E ?r0 c = (x, r1, c1)" by (cases "takeRows E ?r0 c") auto
  have live: "live ?r0" using Suc.prems(2) by (simp add: live_def reader_ok_def)
  have stop: "\<exists>batches new k rest. fetched (rdQuery r) (dConn c) new k \<and> buffered r @ new = concat batches @ rest
      \<and> list_all2 (\<lambda>rows rec. recordFromRows (eFloat E) (eText E) (rdSchema r) rows = Inr rec) batches []
      \<and> list_all (batch_ok r) batches
      \<and> (rdErr r' = None \<and> rdDone r' \<longrightarrow> rest = [] \<and> exhausted (rdQuery r) (dConn c) new)"
    if "rdErr r' = None \<and> rdDone r' \<longrightarrow> buffered r = [] \<and> exhausted (rdQuery r) (dConn c) []"
    using that by (intro exI [of _ "[]"] exI [of _ "dConn c"] exI [of _ "buffered r"]) (auto intro: fetched.none)
  from takeRows_spec [OF t live] show ?case
  proof (elim disjE exE conjE)
    assume x: "x = None" and e: "rdErr r1 = None \<longrightarrow> buffered ?r0 = [] \<and> exhausted (rdQuery ?r0) (dConn c) []"
    have recs: "recs = []" and err: "rdErr r' = rdErr r1"
      using Suc.prems t x by (auto simp: Reader_Next_def live_def closeReader_def split: if_splits)
    show ?thesis unfolding recs by (rule stop) (use e err in simp)
  next
    fix rows new
    assume x: "x = Some rows" and f: "fetched (rdQuery ?r0) (dConn c) new (dConn c1)" "buffered ?r0 @ new = rows @ buffered r1"
      "batch_ok ?r0 rows" and r1: "live r1" "same_reader ?r0 r1"
    show ?thesis
    proof (cases "recordFromRows (eFloat E) (eText E) (rdSchema r1) rows")
      case (Inl e)
      then have recs: "recs = []" and err: "rdErr r' \<noteq> None"
        using Suc.prems t x by (auto simp: Reader_Next_def live_def)
      show ?thesis unfolding recs by (rule stop) (use err in blast)
    next
      case (Inr rec)
      let ?r2 = "r1\<lparr>rdCurrent := Some rec\<rparr>"
      obtain recs1 where rs: "readRecords n E ?r2 c1 = (recs1, r', c')" "recs = rec # recs1"
        using Suc.prems t x Inr by (auto simp: Reader_Next_def live_def split: prod.splits)
      have "live ?r2" using r1 by (simp add: live_def reader_ok_def)
      from Suc.IH [OF rs(1) this] obtain batches new1 k rest where
        IH: "fetched (rdQuery ?r2) (dConn c1) new1 k" "buffered ?r2 @ new1 = concat batches @ rest"
        "list_all2 (\<lambda>rows rec. recordFromRows (eFloat E) (eText E) (rdSchema ?r2) rows = Inr rec) batches recs1"
        "list_all (batch_ok ?r2) batches"
        "rdErr r' = None \<and> rdDone r' \<longrightarrow> rest = [] \<and> exhausted (rdQuery ?r2) (dConn c1) new1"
        by (elim exE conjE) (rule that)
      have same: "rdQuery r1 = rdQuery r" "rdSchema r1 = rdSchema r" "batch_ok ?r2 = batch_ok r" "batch_ok ?r0 = batch_ok r"
        using r1(2) by (auto simp: same_reader_def batch_ok_def fun_eq_iff)
      show ?thesis
      proof (intro exI conjI)
        show "fetched (rdQuery r) (dConn c) (new @ new1) k"
          using fetched_trans f(1) IH(1) same by simp
        show "buffered r @ (new @ new1) = concat (rows # batches) @ rest"
          using f(2) IH(2) append_assoc [of "buffered r" new new1] by simp
        show "list_all2 (\<lambda>rows rec. recordFromRows (eFloat E) (eText E) (rdSchema r) rows = Inr rec) (rows # batches) recs"
          using IH(3) Inr rs(2) same by simp
        show "list_all (batch_ok r) (rows # batches)" using IH(4) f(3) same by simp
        show "rdErr r' = None \<and> rdDone r' \<longrightarrow> rest = [] \<and> exhausted (rdQuery r) (dConn c) (new @ new1)"
          using IH(5) f(1) exhausted_trans same by simp
      qed
    qed
  qed
qed

text \<open>
  C20: the record reader streams the cursor.  Over any number of calls of \<open>Next\<close>, and whatever the
  server does, the records are made from consecutive batches of the rows the cursor delivered,
  from the first row on and in order; every batch holds between one row and the row limit, and
  stays below the byte limit before its last row.  When the reader ends without an error, the
  batches are all the rows and the cursor has reported its end.
\<close>

theorem reader_streams:
  "0 < rowLimit \<and> 0 \<le> batchBytes (dCfg c) \<and> r = newStreamingRecordReader c q rowLimit
   \<and> readRecords n E r c = (recs, r', c') \<longrightarrow>
     (\<exists>batches new k rest. fetched q (dConn c) new k \<and> new = concat batches @ rest
        \<and> list_all2 (\<lambda>rows rec. recordFromRows (eFloat E) (eText E) (rdSchema r) rows = Inr rec) batches recs
        \<and> list_all (batch_ok r) batches
        \<and> (rdErr r' = None \<and> rdDone r' \<longrightarrow> rest = [] \<and> exhausted q (dConn c) new))"
proof (intro impI)
  assume a: "0 < rowLimit \<and> 0 \<le> batchBytes (dCfg c) \<and> r = newStreamingRecordReader c q rowLimit
   \<and> readRecords n E r c = (recs, r', c')"
  then have r: "live r" "buffered r = []" "rdQuery r = q" and run: "readRecords n E r c = (recs, r', c')"
    by (auto simp: live_def newStreamingRecordReader_def reader_ok_def)
  show "\<exists>batches new k rest. fetched q (dConn c) new k \<and> new = concat batches @ rest
        \<and> list_all2 (\<lambda>rows rec. recordFromRows (eFloat E) (eText E) (rdSchema r) rows = Inr rec) batches recs
        \<and> list_all (batch_ok r) batches
        \<and> (rdErr r' = None \<and> rdDone r' \<longrightarrow> rest = [] \<and> exhausted q (dConn c) new)"
    using readRecords_spec [OF run r(1)] by (simp only: r(2,3) append_Nil)
qed

definition sample_source :: connectionImpl where
  "sample_source =
     \<lparr>dConn = sample_conn\<lparr>queries := [sample_query\<lparr>qColumns := Some sample_cols, pending := sample_rows, qDone := True\<rparr>]\<rparr>,
      dCfg = \<lparr>ccDrda = cfg sample_conn, ConnectTimeout = 0, TLS = None, batchSize = 1, batchBytes = 0, trace = False,
              traceHex = False, traceFile = ''''\<rparr>,
      autoCommit = False, dClosed = False\<rparr>"

theorem reader_streams_witness:
  "\<forall>E. case readRecords 3 E (newStreamingRecordReader sample_source 0 1) sample_source of (recs, r', c') \<Rightarrow>
     (\<exists>batches new k rest. fetched 0 (dConn sample_source) new k \<and> new = concat batches @ rest
        \<and> list_all2 (\<lambda>rows rec. recordFromRows (eFloat E) (eText E) (schemaFor sample_cols) rows = Inr rec) batches recs)"
proof
  fix E
  obtain recs r' c' where run: "readRecords 3 E (newStreamingRecordReader sample_source 0 1) sample_source = (recs, r', c')"
    by (cases "readRecords 3 E (newStreamingRecordReader sample_source 0 1) sample_source") auto
  have schema: "rdSchema (newStreamingRecordReader sample_source 0 1) = schemaFor sample_cols"
    by (simp add: newStreamingRecordReader_def sample_source_def)
  show "case readRecords 3 E (newStreamingRecordReader sample_source 0 1) sample_source of (recs, r', c') \<Rightarrow>
     (\<exists>batches new k rest. fetched 0 (dConn sample_source) new k \<and> new = concat batches @ rest
        \<and> list_all2 (\<lambda>rows rec. recordFromRows (eFloat E) (eText E) (schemaFor sample_cols) rows = Inr rec) batches recs)"
    using reader_streams [of 1 sample_source "newStreamingRecordReader sample_source 0 1" 0 3 E recs r' c'] run schema
    by (auto simp: sample_source_def)
qed

end
