(* ===== verification/Db2_Meta.thy ===== *)
theory Db2_Meta
  imports Db2_Reader
begin

text \<open>
  Metadata from the Db2 catalog (\<^verbatim>\<open>driver/db2/metadata.go\<close>, \<^verbatim>\<open>metadata_objects.go\<close>,
  \<^verbatim>\<open>get_objects_types.go\<close>): catalog queries are run to their end and grouped into the nested
  structure of GetObjects.

  The records of GetInfo and GetTableTypes are their rows.  Building the nested Arrow record of
  GetObjects, through JSON, is the Arrow library's: the argument \<open>objects\<close>.  Go maps are
  functions; a row that is too short is an index panic.

  Results: the catalog loop always ends, whatever the server sends.
\<close>

section \<open>Catalog queries\<close>

definition IsResultSet :: "Query \<Rightarrow> bool" where
  "IsResultSet q \<longleftrightarrow> qResult q = None"

text \<open>
  The loop of \<open>queryAll\<close>.  A call of \<open>Next\<close> that returns rows either empties the pending rows or
  consumes bytes of the server, so \<open>length (rd c) + 2\<close> rounds are enough.
\<close>

fun fetchAll :: "nat \<Rightarrow> env \<Rightarrow> nat \<Rightarrow> Value list list \<Rightarrow> Value list list dact" where
  "fetchAll 0 E i rows = dfail Diverges"
| "fetchAll (Suc n) E i rows =
     dthen (raw (Next i)) (\<lambda>r.
       case r of
         Inl e \<Rightarrow> dthen (ignoring (Query_Close i)) (\<lambda>_. dfail (fromDRDAError (eIO E) (DrdaErr e)))
       | Inr batch \<Rightarrow> if batch = [] then dok rows else fetchAll n E i (rows @ batch))"

definition queryAll :: "env \<Rightarrow> string \<Rightarrow> (ColumnDesc list \<times> Value list list) dact" where
  "queryAll E sql =
     dthen (via E (Conn_Query (eUpper E) sql)) (\<lambda>i. with_dconn (\<lambda>c.
     if \<not> IsResultSet (queries (dConn c) ! i) then dok ([], [])
     else
       dthen (fetchAll (length (rd (dConn c)) + 2) E i []) (\<lambda>rows.
       dthen (via E (Query_Close i)) (\<lambda>_.
       dthen (autoCommitIfNeeded E) (\<lambda>_. with_dconn (\<lambda>c.
       dok (case qColumns (queries (dConn c) ! i) of Some cols \<Rightarrow> cols | None \<Rightarrow> [], rows)))))))"

definition fmtValue :: "Value \<Rightarrow> string" where
  "fmtValue v =
     (case v of
        VDecimal d \<Rightarrow> Decimal_String d
      | VDecimalNil \<Rightarrow> ''<nil>''
      | _ \<Rightarrow> itoa (case cellInt64 v of Some n \<Rightarrow> sint n | None \<Rightarrow> 0))"

definition asString :: "Value \<Rightarrow> string" where
  "asString v =
     (case v of
        VNil \<Rightarrow> ''''
      | VString s \<Rightarrow> s
      | VBytes b \<Rightarrow> bytes_str b
      | _ \<Rightarrow> TrimSpace (trimSet [dquote] (TrimSpace (fmtValue v))))"

definition trimmed :: "Value \<Rightarrow> string" where
  "trimmed v = TrimSpace (asString v)"

text \<open>Indexing a row: a panic when it is too short.\<close>

definition need :: "nat \<Rightarrow> Value list \<Rightarrow> unit dact" where
  "need n row = (if n \<le> length row then dok () else dfail Panic)"

definition currentSchema :: "env \<Rightarrow> string dact" where
  "currentSchema E =
     dthen (queryAll E ''SELECT CURRENT SCHEMA FROM SYSIBM.SYSDUMMY1'') (\<lambda>(cols, rows).
     case rows of
       [] \<Rightarrow> dok ''''
     | row # rs \<Rightarrow> dthen (need 1 row) (\<lambda>_. dok (trimmed (row ! 0))))"

section \<open>GetInfo, GetTableTypes and GetTableSchema\<close>

datatype info_value = InfoString string | InfoNull | InfoBool bool | InfoInt64 int

abbreviation VendorName :: string where "VendorName \<equiv> ''IBM Db2''"
abbreviation DriverName :: string where "DriverName \<equiv> ''ADBC Db2 Driver - Go''"

definition supportedInfoCodes :: "nat list" where
  "supportedInfoCodes = [0, 1, 3, 4, 100, 101, 102, 103]"

text \<open>\<open>built\<close> is the module version in the build information, if there is any.\<close>

definition driverVersion :: "string option \<Rightarrow> string \<Rightarrow> string" where
  "driverVersion built version =
     (case built of Some v \<Rightarrow> if v \<noteq> '''' \<and> v \<noteq> ''(devel)'' then v else version | None \<Rightarrow> version)"

definition infoValue :: "string \<Rightarrow> connectionImpl \<Rightarrow> nat \<Rightarrow> info_value" where
  "infoValue version c code =
     (if code = 0 then InfoString VendorName
      else if code = 1 then InfoString (ProductID (Server (dConn c)))
      else if code = 3 then InfoBool True
      else if code = 4 then InfoBool False
      else if code = 100 then InfoString DriverName
      else if code = 101 then InfoString version
      else if code = 102 then InfoString ''arrow-go/v18''
      else if code = 103 then InfoInt64 1001000
      else InfoNull)"

definition getInfoImpl :: "string \<Rightarrow> nat list \<Rightarrow> (nat \<times> info_value) list dact" where
  "getInfoImpl version infoCodes = with_dconn (\<lambda>c.
     let codes = (if infoCodes = [] then supportedInfoCodes else infoCodes)
     in dok (map (\<lambda>code. (code, infoValue version c code)) codes))"

definition getTableTypesImpl :: "string list dact" where
  "getTableTypesImpl =
     dok [''TABLE'', ''VIEW'', ''ALIAS'', ''SYSTEM TABLE'', ''NICKNAME'', ''MATERIALIZED QUERY TABLE'', ''GLOBAL TEMPORARY'']"

definition getTableSchemaImpl :: "env \<Rightarrow> string option \<Rightarrow> string \<Rightarrow> Field list dact" where
  "getTableSchemaImpl E dbSchema tableName =
     dthen (if dbSchema \<noteq> None \<and> dbSchema \<noteq> Some '''' then dok (the dbSchema) else currentSchema E) (\<lambda>schema.
     dthen (via E (Describe (eUpper E) (''SELECT * FROM '' @ quoteIdent schema @ ''.'' @ quoteIdent tableName))) (\<lambda>(cols, params).
     dthen (autoCommitIfNeeded E) (\<lambda>_.
     dok (schemaFor (case cols of Some cs \<Rightarrow> cs | None \<Rightarrow> [])))))"

section \<open>GetObjects\<close>

record constraintColumnUsage =
  FkCatalog :: "string option"
  FkDbSchema :: "string option"
  FkTable :: string
  FkColumnName :: string

record constraintInfo =
  ConstraintName :: "string option"
  ConstraintType :: string
  ConstraintColumnNames :: "string list"
  ConstraintColumnUsage :: "constraintColumnUsage list"

record columnInfo =
  ColumnName :: string
  OrdinalPosition :: "32 word option"
  Remarks :: "string option"
  XdbcDataType :: "int option"
  XdbcTypeName :: "string option"
  XdbcColumnSize :: "32 word option"
  XdbcDecimalDigits :: "16 word option"
  XdbcNumPrecRadix :: "16 word option"
  XdbcNullable :: "16 word option"
  XdbcColumnDef :: "string option"
  XdbcSqlDataType :: "int option"
  XdbcDatetimeSub :: "16 word option"
  XdbcCharOctetLength :: "32 word option"
  XdbcIsNullable :: "string option"
  XdbcScopeCatalog :: "string option"
  XdbcScopeSchema :: "string option"
  XdbcScopeTable :: "string option"
  XdbcIsAutoincrement :: "bool option"
  XdbcIsGeneratedcolumn :: "bool option"

record tableInfo =
  TableName :: string
  TableType :: string
  TableColumns :: "columnInfo list"
  TableConstraints :: "constraintInfo list"

record dbSchemaInfo =
  DbSchemaName :: "string option"
  DbSchemaTables :: "tableInfo list"

record getObjectsInfo =
  CatalogName :: "string option"
  CatalogDbSchemas :: "dbSchemaInfo list"

text \<open>Appending to the list a Go map holds for a key.\<close>

definition append_at :: "'k \<Rightarrow> 'v \<Rightarrow> ('k \<Rightarrow> 'v list option) \<Rightarrow> 'k \<Rightarrow> 'v list option" where
  "append_at k v m = m(k \<mapsto> (case m k of Some vs \<Rightarrow> vs | None \<Rightarrow> []) @ [v])"

fun schemaNames :: "Value list list \<Rightarrow> string list dact" where
  "schemaNames [] = dok []"
| "schemaNames (r # rs) = dthen (need 1 r) (\<lambda>_. dthen (schemaNames rs) (\<lambda>out. dok (trimmed (r ! 0) # out)))"

definition listSchemas :: "env \<Rightarrow> string option \<Rightarrow> string list dact" where
  "listSchemas E flt =
     dthen (queryAll E (appendLikeQual ''SELECT SCHEMANAME FROM SYSCAT.SCHEMATA WHERE 1 = 1'' ''SCHEMANAME'' flt
              @ '' ORDER BY SCHEMANAME'')) (\<lambda>(cols, rows).
     schemaNames rows)"

definition columnOf :: "Value list \<Rightarrow> columnInfo" where
  "columnOf r =
     (let typeName = trimmed (r ! 3);
          len = (case cellInt64 (r ! 4) of Some n \<Rightarrow> n | None \<Rightarrow> 0);
          scale = (case cellInt64 (r ! 5) of Some n \<Rightarrow> n | None \<Rightarrow> 0);
          nullable = (trimmed (r ! 6) = ''Y'');
          dt = xdbcDataType typeName
      in \<lparr>ColumnName = trimmed (r ! 1),
          OrdinalPosition = (case cellInt64 (r ! 2) of Some n \<Rightarrow> Some (ucast n + 1) | None \<Rightarrow> None),
          Remarks = (if r ! 8 \<noteq> VNil \<and> asString (r ! 8) \<noteq> '''' then Some (asString (r ! 8)) else None),
          XdbcDataType = Some dt,
          XdbcTypeName = Some (renderTypeName typeName (sint len) (sint scale)),
          XdbcColumnSize = Some (ucast len),
          XdbcDecimalDigits = (if scale \<noteq> 0 \<or> typeName = ''DECIMAL'' \<or> typeName = ''DECFLOAT'' then Some (ucast scale) else None),
          XdbcNumPrecRadix = Some 10,
          XdbcNullable = Some (if nullable then 1 else 0),
          XdbcColumnDef = (if r ! 7 \<noteq> VNil then Some (asString (r ! 7)) else None),
          XdbcSqlDataType = Some dt,
          XdbcDatetimeSub = None, XdbcCharOctetLength = None,
          XdbcIsNullable = Some (if nullable then ''YES'' else ''NO''),
          XdbcScopeCatalog = None, XdbcScopeSchema = None, XdbcScopeTable = None,
          XdbcIsAutoincrement = Some (trimmed (r ! 9) = ''Y''),
          XdbcIsGeneratedcolumn = Some (trimmed (r ! 10) \<noteq> '''')\<rparr>)"

fun columnRows :: "Value list list \<Rightarrow> (string \<Rightarrow> columnInfo list option) \<Rightarrow> (string \<Rightarrow> columnInfo list option) dact" where
  "columnRows [] out = dok out"
| "columnRows (r # rs) out = dthen (need 11 r) (\<lambda>_. columnRows rs (append_at (trimmed (r ! 0)) (columnOf r) out))"

definition listColumns :: "env \<Rightarrow> string \<Rightarrow> string option \<Rightarrow> string option \<Rightarrow> (string \<Rightarrow> columnInfo list option) dact" where
  "listColumns E schema tableFilter columnFilter =
     dthen (queryAll E
       (appendLikeQual
         (appendLikeQual
           (''SELECT C.TABNAME, C.COLNAME, C.COLNO, C.TYPENAME, C.LENGTH, C.SCALE, C.NULLS, C.DEFAULT, C.REMARKS, C.IDENTITY, C.GENERATED, C.CODEPAGE''
              @ [newline] @ ''FROM SYSCAT.COLUMNS C WHERE C.TABSCHEMA = '' @ sqlString schema)
           ''C.TABNAME'' tableFilter)
         ''C.COLNAME'' columnFilter
        @ '' ORDER BY C.TABNAME, C.COLNO'')) (\<lambda>(cols, rows).
     columnRows rows Map.empty)"

type_synonym con_key = "string \<times> string"

definition constraintType :: "string \<Rightarrow> string" where
  "constraintType t =
     (if t = ''P'' then ''PRIMARY KEY'' else if t = ''F'' then ''FOREIGN KEY'' else if t = ''K'' then ''CHECK'' else ''UNIQUE'')"

text \<open>\<open>order\<close> and \<open>byKey\<close> of \<open>listConstraints\<close>.\<close>

fun keyRows :: "Value list list \<Rightarrow> con_key list \<Rightarrow> (con_key \<Rightarrow> constraintInfo option)
    \<Rightarrow> (con_key list \<times> (con_key \<Rightarrow> constraintInfo option)) dact" where
  "keyRows [] order byKey = dok (order, byKey)"
| "keyRows (r # rs) order byKey =
     dthen (need 4 r) (\<lambda>_.
     let k = (trimmed (r ! 0), trimmed (r ! 1)) in
     case byKey k of
       None \<Rightarrow>
         keyRows rs (order @ [k]) (byKey(k \<mapsto>
           \<lparr>ConstraintName = Some (snd k), ConstraintType = constraintType (trimmed (r ! 2)),
            ConstraintColumnNames = [trimmed (r ! 3)], ConstraintColumnUsage = []\<rparr>))
     | Some ci \<Rightarrow>
         keyRows rs order (byKey(k \<mapsto> ci\<lparr>ConstraintColumnNames := ConstraintColumnNames ci @ [trimmed (r ! 3)]\<rparr>)))"

fun referenceRows :: "string \<Rightarrow> Value list list \<Rightarrow> (con_key \<Rightarrow> constraintInfo option) \<Rightarrow> (con_key \<Rightarrow> constraintInfo option) dact" where
  "referenceRows dbName [] byKey = dok byKey"
| "referenceRows dbName (r # rs) byKey =
     dthen (need 2 r) (\<lambda>_.
     let k = (trimmed (r ! 0), trimmed (r ! 1)) in
     case byKey k of
       None \<Rightarrow> referenceRows dbName rs byKey
     | Some ci \<Rightarrow>
         dthen (need 5 r) (\<lambda>_.
         referenceRows dbName rs (byKey(k \<mapsto> ci\<lparr>ConstraintColumnUsage := ConstraintColumnUsage ci @
           [\<lparr>FkCatalog = Some dbName, FkDbSchema = Some (trimmed (r ! 2)), FkTable = trimmed (r ! 3),
             FkColumnName = trimmed (r ! 4)\<rparr>]\<rparr>))))"

text \<open>Every key of \<open>order\<close> has an entry; a missing one would be the panic of a nil pointer.\<close>

fun byTable :: "con_key list \<Rightarrow> (con_key \<Rightarrow> constraintInfo option) \<Rightarrow> (string \<Rightarrow> constraintInfo list option)
    \<Rightarrow> (string \<Rightarrow> constraintInfo list option) dact" where
  "byTable [] byKey out = dok out"
| "byTable (k # ks) byKey out =
     (case byKey k of None \<Rightarrow> dfail Panic | Some ci \<Rightarrow> byTable ks byKey (append_at (fst k) ci out))"

definition listConstraints :: "env \<Rightarrow> string \<Rightarrow> string option \<Rightarrow> (string \<Rightarrow> constraintInfo list option) dact" where
  "listConstraints E schema tableFilter =
     dthen (queryAll E
       (appendLikeQual
         (''SELECT K.TABNAME, K.CONSTNAME, T.TYPE, K.COLNAME, K.COLSEQ'' @ [newline]
            @ ''FROM SYSCAT.KEYCOLUSE K JOIN SYSCAT.TABCONST T ON T.TABSCHEMA = K.TABSCHEMA AND T.TABNAME = K.TABNAME AND T.CONSTNAME = K.CONSTNAME''
            @ [newline] @ ''WHERE K.TABSCHEMA = '' @ sqlString schema)
         ''K.TABNAME'' tableFilter
        @ '' ORDER BY K.TABNAME, K.CONSTNAME, K.COLSEQ'')) (\<lambda>(cols, keyUses).
     dthen (keyRows keyUses [] Map.empty) (\<lambda>(order, byKey).
     dthen (queryAll E
       (appendLikeQual
         (''SELECT R.TABNAME, R.CONSTNAME, R.REFTABSCHEMA, R.REFTABNAME, K.COLNAME, K.COLSEQ'' @ [newline]
            @ ''FROM SYSCAT.REFERENCES R JOIN SYSCAT.KEYCOLUSE K ON K.TABSCHEMA = R.REFTABSCHEMA AND K.TABNAME = R.REFTABNAME AND K.CONSTNAME = R.REFKEYNAME''
            @ [newline] @ ''WHERE R.TABSCHEMA = '' @ sqlString schema)
         ''R.TABNAME'' tableFilter
        @ '' ORDER BY R.TABNAME, R.CONSTNAME, K.COLSEQ'')) (\<lambda>(cols, references). with_dconn (\<lambda>c.
     dthen (referenceRows (rdbnam (dConn c)) references byKey) (\<lambda>byKey.
     byTable order byKey Map.empty)))))"

text \<open>The tables, with what was found for them when columns are included.\<close>

fun tableRows :: "bool \<Rightarrow> (string \<Rightarrow> columnInfo list option) \<Rightarrow> (string \<Rightarrow> constraintInfo list option)
    \<Rightarrow> Value list list \<Rightarrow> tableInfo list dact" where
  "tableRows includeColumns columns constraints [] = dok []"
| "tableRows includeColumns columns constraints (r # rs) =
     dthen (need 2 r) (\<lambda>_.
     dthen (tableRows includeColumns columns constraints rs) (\<lambda>out.
     let name = trimmed (r ! 0) in
     dok (\<lparr>TableName = name, TableType = db2TableType (asString (r ! 1)),
           TableColumns = (case columns name of Some cs \<Rightarrow> if includeColumns then cs else [] | None \<Rightarrow> []),
           TableConstraints = (case constraints name of Some cs \<Rightarrow> if includeColumns then cs else [] | None \<Rightarrow> [])\<rparr> # out)))"

definition listTables :: "env \<Rightarrow> string \<Rightarrow> string option \<Rightarrow> string option \<Rightarrow> string list \<Rightarrow> bool \<Rightarrow> tableInfo list dact" where
  "listTables E schema tableFilter columnFilter tableTypes includeColumns =
     dthen (queryAll E
       (appendLikeQual (''SELECT T.TABNAME, T.TYPE, T.REMARKS FROM SYSCAT.TABLES T WHERE T.TABSCHEMA = '' @ sqlString schema)
          ''T.TABNAME'' tableFilter
        @ tableTypeFilter (eUpper E) tableTypes @ '' ORDER BY T.TABNAME'')) (\<lambda>(cols, rows).
     if includeColumns \<and> rows \<noteq> [] then
       dthen (listColumns E schema tableFilter columnFilter) (\<lambda>columns.
       dthen (listConstraints E schema tableFilter) (\<lambda>constraints.
       tableRows includeColumns columns constraints rows))
     else tableRows includeColumns Map.empty Map.empty rows)"

abbreviation (input) ObjectDepthAll :: int where "ObjectDepthAll \<equiv> 0"
abbreviation (input) ObjectDepthCatalogs :: int where "ObjectDepthCatalogs \<equiv> 1"
abbreviation (input) ObjectDepthDBSchemas :: int where "ObjectDepthDBSchemas \<equiv> 2"
abbreviation (input) ObjectDepthTables :: int where "ObjectDepthTables \<equiv> 3"
abbreviation (input) ObjectDepthColumns :: int where "ObjectDepthColumns \<equiv> ObjectDepthAll"

fun schemaEntries :: "env \<Rightarrow> int \<Rightarrow> string option \<Rightarrow> string option \<Rightarrow> string list \<Rightarrow> string list \<Rightarrow> dbSchemaInfo list dact" where
  "schemaEntries E depth tableName columnName tableTypes [] = dok []"
| "schemaEntries E depth tableName columnName tableTypes (sch # schs) =
     dthen (if depth \<noteq> ObjectDepthDBSchemas
            then listTables E sch tableName columnName tableTypes (depth = ObjectDepthAll \<or> depth = ObjectDepthColumns)
            else dok []) (\<lambda>tables.
     dthen (schemaEntries E depth tableName columnName tableTypes schs) (\<lambda>es.
     dok (\<lparr>DbSchemaName = Some sch, DbSchemaTables = tables\<rparr> # es)))"

definition EqualFold :: "(rune \<Rightarrow> rune) \<Rightarrow> string \<Rightarrow> string \<Rightarrow> bool" where
  "EqualFold fld s t \<longleftrightarrow> map fld (str_runes s) = map fld (str_runes t)"

definition buildGetObjectsRecordReader :: "(getObjectsInfo list \<Rightarrow> string + Record) \<Rightarrow> getObjectsInfo list \<Rightarrow> Record dact" where
  "buildGetObjectsRecordReader objects infos =
     (case objects infos of Inl msg \<Rightarrow> dfail (LibErr msg) | Inr rec \<Rightarrow> dok rec)"

definition getObjectsImpl ::
  "env \<Rightarrow> (getObjectsInfo list \<Rightarrow> string + Record) \<Rightarrow> int \<Rightarrow> string option \<Rightarrow> string option \<Rightarrow> string option \<Rightarrow> string option
     \<Rightarrow> string list \<Rightarrow> Record dact" where
  "getObjectsImpl E objects depth catalog dbSchema tableName columnName tableTypes = with_dconn (\<lambda>c.
     let dbName = rdbnam (dConn c) in
     if catalog \<noteq> None \<and> catalog \<noteq> Some '''' \<and> \<not> EqualFold (eFold E) (the catalog) dbName
     then buildGetObjectsRecordReader objects []
     else
       dthen (if depth \<noteq> ObjectDepthCatalogs
              then dthen (listSchemas E dbSchema) (schemaEntries E depth tableName columnName tableTypes)
              else dok []) (\<lambda>schemas.
       buildGetObjectsRecordReader objects [\<lparr>CatalogName = Some dbName, CatalogDbSchemas = schemas\<rparr>]))"

section \<open>The catalog loop ends\<close>

text \<open>Every successful read consumes bytes of the server's stream.\<close>

lemma readReplies_shrinks: "readReplies srv k saw s = (Inr ds, s') \<Longrightarrow> length s' < length s"
proof (induction srv k saw s arbitrary: ds rule: readReplies.induct)
  case (1 srv k saw s)
  obtain x s1 where x: "ReadDSS s = (x, s1)" by fastforce
  show ?case
  proof (cases x)
    case (Inl e)
    then show ?thesis using "1.prems" x by (simp add: readReplies.simps [of srv k saw s])
  next
    case (Inr d)
    have less: "length s1 < length s" using ReadDSS_consumes x Inr by fastforce
    show ?thesis
    proof (cases "\<not> Chained d \<and> (k \<le> CorrelationID d \<or> (saw \<or> isErrorReply srv d))")
      case True
      then show ?thesis using "1.prems" x Inr less by (simp add: readReplies.simps [of srv k saw s] Let_def)
    next
      case False
      then obtain ds' where "readReplies srv k (saw \<or> isErrorReply srv d) s1 = (Inr ds', s')"
        using "1.prems" x Inr by (auto simp: readReplies.simps [of srv k saw s] Let_def split: prod.splits sum.splits)
      then show ?thesis using "1.IH" [OF x [symmetric] Inr refl False] less by fastforce
    qed
  qed
qed

lemma transmit_shrinks: "transmit rs k c = (Inr ds, c') \<Longrightarrow> length (rd c') < length (rd c)"
proof -
  assume t: "transmit rs k c = (Inr ds, c')"
  have "rd (c\<lparr>wr := w\<rparr>) = rd c" for w by simp
  moreover have "flush c1 = (r, c2) \<Longrightarrow> rd c2 = rd c1" for c1 c2 r
    by (auto simp: flush_def Let_def split: prod.splits option.splits if_splits)
  moreover have "readChain k c2 = (Inr ds, c3) \<Longrightarrow> length (rd c3) < length (rd c2)" for c2 c3
    by (auto simp: readChain_def split: prod.splits sum.splits dest: readReplies_shrinks)
  ultimately show ?thesis
    using t by (auto simp: transmit_def andthen_def sends_effect split: prod.splits sum.splits) fastforce
qed

lemma fetchBlock_shrinks:
  assumes "fetchBlock i c = (Inr x, c')"
  shows "length (rd c') < length (rd c) \<and> length (queries c') = length (queries c)"
proof -
  let ?rs = "[(packCNTQRY (pkgSN c) (qryinsid (queries c ! i)) c, qCorr (queries c ! i), False, True)]"
  obtain ds c1 where t: "transmit ?rs (qCorr (queries c ! i)) c = (Inr ds, c1)" and
    rest: "(case consume c1 ds (queries c1 ! i) of (r, q1) \<Rightarrow> andthen (upd_query i (\<lambda>_. q1)) (\<lambda>_. of_sum id r)) c1 = (Inr x, c')"
    using assms by (auto simp: fetchBlock_def with_conn_def Let_def elim!: andthen_cases)
  have "queries c1 = queries c" using keepsD [OF keeps_session_transmit t] same_sessionD(14) by blast
  moreover have "rd c' = rd c1 \<and> length (queries c') = length (queries c1)"
    using rest by (auto simp: upd_query_def act_defs of_sum_def split: prod.splits sum.splits)
  ultimately show ?thesis using transmit_shrinks [OF t] by simp
qed

lemma fetchLoop_shrinks:
  "fetchLoop (Suc n) i c = (Inr x, c') \<Longrightarrow> length (rd c') < length (rd c) \<and> length (queries c') = length (queries c)"
proof (induction n arbitrary: c)
  case 0
  then show ?case
    by (auto simp: with_conn_def ok_def elim!: andthen_cases dest!: fetchBlock_shrinks split: if_splits)
next
  case (Suc n)
  obtain y c1 where b: "fetchBlock i c = (Inr y, c1)" and
    r: "(if pending (queries c1 ! i) \<noteq> [] \<or> qDone (queries c1 ! i) then ok () else fetchLoop (Suc n) i) c1 = (Inr x, c')"
    using Suc.prems by (auto simp: with_conn_def simp del: fetchLoop.simps(2) simp: fetchLoop.simps(2) [of "Suc n"] elim!: andthen_cases)
  show ?case using fetchBlock_shrinks [OF b] r Suc.IH [of c1] by (auto simp: ok_def split: if_splits)
qed

lemma Next_shrinks:
  assumes "Next i c = (Inr rows, c')" "rows \<noteq> []" "i < length (queries c)"
  shows "length (queries c') = length (queries c) \<and> pending (queries c' ! i) = []
    \<and> length (rd c') + (if pending (queries c ! i) = [] then 1 else 0) \<le> length (rd c)"
proof (cases "pending (queries c ! i) = []")
  case False
  then show ?thesis using assms by (auto simp: Next_def upd_query_def act_defs Let_def)
next
  case True
  then have nd: "\<not> (qDone (queries c ! i) \<or> qClosed (queries c ! i))"
    using assms(1,2) by (auto simp: Next_def act_defs Let_def split: if_splits)
  obtain x c1 where f: "fetchLoop 3 i c = (Inr x, c1)" and
    c': "c' = c1\<lparr>queries := (queries c1)[i := (queries c1 ! i)\<lparr>pending := [], qDone := (qDone (queries c1 ! i) \<or> rows = [])\<rparr>]\<rparr>"
    using assms(1) True nd
    by (auto simp: Next_def with_conn_def Let_def upd_query_def change_def ok_def elim!: andthen_cases simp del: fetchLoop.simps)
  have "length (rd c1) < length (rd c) \<and> length (queries c1) = length (queries c)"
    using fetchLoop_shrinks [of 2 i c x c1] f by (simp only: numeral_3_eq_3 numeral_2_eq_2)
  then show ?thesis using c' True assms(3) by auto
qed

text \<open>An operation that is not stuck in a loop, whatever the server does.\<close>

definition ends :: "'a dact \<Rightarrow> bool" where
  "ends m \<longleftrightarrow> (\<forall>c. fst (m c) \<noteq> Inl Diverges)"

lemma ends_intros:
  "ends (dok x)" "e \<noteq> Diverges \<Longrightarrow> ends (dfail e)"
  "ends m \<Longrightarrow> (\<And>x. ends (f x)) \<Longrightarrow> ends (dthen m f)"
  "(\<And>c. ends (g c)) \<Longrightarrow> ends (with_dconn g)"
  "ends m1 \<Longrightarrow> ends m2 \<Longrightarrow> ends (if b then m1 else m2)"
  "ends (raw k)"
  by (auto simp: ends_def dok_def dfail_def with_dconn_def raw_def dthen_def split: prod.splits sum.splits)
     (metis fst_conv)+

lemma fromDRDAError_ends [simp]: "fromDRDAError K (DrdaErr e) \<noteq> Diverges" "fromDRDAError K (DrdaErr e) \<noteq> Panic"
  by (auto simp: fromDRDAError_def errStatus_def split: option.splits conn_error.splits io_kind.splits)

lemma ends_via: "ends (via E k)" "ends (ignoring k)"
  unfolding via_def ignoring_def by (intro ends_intros; auto split: sum.split intro!: ends_intros)+

lemma ends_autoCommit: "ends (autoCommitIfNeeded E)"
  unfolding autoCommitIfNeeded_def by (intro ends_intros ends_via)

lemma fetchAll_ends:
  assumes "i < length (queries (dConn c))"
    "length (rd (dConn c)) + (if pending (queries (dConn c) ! i) = [] then 0 else 1) < n"
  shows "fst (fetchAll n E i rows c) \<noteq> Inl Diverges"
  using assms
proof (induction n arbitrary: rows c)
  case (Suc n)
  obtain x k where x: "Next i (dConn c) = (x, k)" by fastforce
  show ?case
  proof (cases x)
    case (Inl e)
    then show ?thesis
      using x ends_via(2) [unfolded ends_def, rule_format, of "Query_Close i" "c\<lparr>dConn := k\<rparr>"]
      by (auto simp: dthen_def raw_def dfail_def split: prod.splits sum.splits)
  next
    case (Inr batch)
    show ?thesis
    proof (cases "batch = []")
      case True
      then show ?thesis using x Inr by (simp add: dthen_def raw_def dok_def)
    next
      case False
      have "length (queries k) = length (queries (dConn c))" "pending (queries k ! i) = []"
        "length (rd k) + (if pending (queries (dConn c) ! i) = [] then 1 else 0) \<le> length (rd (dConn c))"
        using Next_shrinks [OF x [unfolded Inr] False Suc.prems(1)] by simp_all
      then have "fst (fetchAll n E i (rows @ batch) (c\<lparr>dConn := k\<rparr>)) \<noteq> Inl Diverges"
        using Suc.prems by (intro Suc.IH) (auto split: if_splits)
      then show ?thesis using x Inr False by (simp add: dthen_def raw_def)
    qed
  qed
qed simp

lemma hand_out_index:
  "hand_out q c = (Inr i, c') \<Longrightarrow> i < length (queries c')" "hand_out_open q c = (Inr i, c') \<Longrightarrow> i < length (queries c')"
  by (auto simp: hand_out_def hand_out_open_def act_defs)

definition gives_query :: "nat act \<Rightarrow> bool" where
  "gives_query m \<longleftrightarrow> (\<forall>c i c'. m c = (Inr i, c') \<longrightarrow> i < length (queries c'))"

lemma gives_query_intros:
  "gives_query (fails e)" "gives_query (hand_out q)" "gives_query (hand_out_open q)"
  "(\<And>x. gives_query (f x)) \<Longrightarrow> gives_query (andthen m f)"
  "(\<And>c. gives_query (g c)) \<Longrightarrow> gives_query (with_conn g)"
  "gives_query m1 \<Longrightarrow> gives_query m2 \<Longrightarrow> gives_query (if b then m1 else m2)"
  "gives_query m1 \<Longrightarrow> gives_query (retrying u m1)"
  by (auto simp: gives_query_def fails_def with_conn_def dest: hand_out_index elim!: andthen_cases)
     (auto simp: retrying_def split: prod.splits sum.splits)

lemma Conn_Query_index: "gives_query (Conn_Query u sql)"
  unfolding Conn_Query_def queryLocked_def Let_def by (intro gives_query_intros)

lemma ends_dthen_at:
  assumes "fst (m c) \<noteq> Inl Diverges" "\<And>x c1. m c = (Inr x, c1) \<Longrightarrow> fst (f x c1) \<noteq> Inl Diverges"
  shows "fst (dthen m f c) \<noteq> Inl Diverges"
proof (cases "m c")
  case (Pair r c1)
  then show ?thesis using assms by (cases r) (auto simp: dthen_def)
qed

lemma queryAll_ends: "ends (queryAll E sql)"
proof -
  have "fst (queryAll E sql c) \<noteq> Inl Diverges" for c
    unfolding queryAll_def
  proof (rule ends_dthen_at)
    show "fst (via E (Conn_Query (eUpper E) sql) c) \<noteq> Inl Diverges" using ends_via(1) unfolding ends_def by blast
  next
    fix i c1 assume "via E (Conn_Query (eUpper E) sql) c = (Inr i, c1)"
    then have "i < length (queries (dConn c1))"
      using Conn_Query_index [unfolded gives_query_def]
      by (auto simp: via_def dthen_def raw_def dok_def dfail_def split: prod.splits sum.splits)
    then have loop: "fst (fetchAll (length (rd (dConn c1)) + 2) E i [] c1) \<noteq> Inl Diverges"
      by (rule fetchAll_ends) simp
    have rest: "ends (dthen (via E (Query_Close i)) (\<lambda>_. dthen (autoCommitIfNeeded E) (\<lambda>_. with_dconn (\<lambda>c.
        dok (case qColumns (queries (dConn c) ! i) of Some cols \<Rightarrow> cols | None \<Rightarrow> [], rows)))))" for rows
      by (intro ends_intros ends_via ends_autoCommit)
    show "fst (with_dconn (\<lambda>c. if \<not> IsResultSet (queries (dConn c) ! i) then dok ([], [])
        else dthen (fetchAll (length (rd (dConn c)) + 2) E i []) (\<lambda>rows.
          dthen (via E (Query_Close i)) (\<lambda>_. dthen (autoCommitIfNeeded E) (\<lambda>_. with_dconn (\<lambda>c.
          dok (case qColumns (queries (dConn c) ! i) of Some cols \<Rightarrow> cols | None \<Rightarrow> [], rows)))))) c1) \<noteq> Inl Diverges"
    proof (cases "IsResultSet (queries (dConn c1) ! i)")
      case True
      have "fst (dthen (fetchAll (length (rd (dConn c1)) + 2) E i []) (\<lambda>rows.
          dthen (via E (Query_Close i)) (\<lambda>_. dthen (autoCommitIfNeeded E) (\<lambda>_. with_dconn (\<lambda>c.
          dok (case qColumns (queries (dConn c) ! i) of Some cols \<Rightarrow> cols | None \<Rightarrow> [], rows))))) c1) \<noteq> Inl Diverges"
        by (rule ends_dthen_at, rule loop, rule rest [unfolded ends_def, rule_format])
      then show ?thesis using True by (simp only: with_dconn_def [of _ c1] simp_thms if_False)
    qed (simp add: with_dconn_def dok_def)
  qed
  then show ?thesis by (simp add: ends_def)
qed

lemma ends_case:
  "ends m \<Longrightarrow> (\<And>x. ends (f x)) \<Longrightarrow> ends (case x of None \<Rightarrow> m | Some x \<Rightarrow> f x)"
  "(\<And>e. ends (g e)) \<Longrightarrow> (\<And>v. ends (h v)) \<Longrightarrow> ends (case y of Inl e \<Rightarrow> g e | Inr v \<Rightarrow> h v)"
  "ends m \<Longrightarrow> (\<And>a as. ends (k a as)) \<Longrightarrow> ends (case zs of [] \<Rightarrow> m | a # as \<Rightarrow> k a as)"
  "(\<And>a b. ends (l a b)) \<Longrightarrow> ends (case p of (a, b) \<Rightarrow> l a b)"
  by (auto split: option.splits sum.splits list.splits prod.splits)

lemma ends_need: "ends (need n r)"
  unfolding need_def by (intro ends_intros) simp

lemmas ends_steps = ends_intros(1,3-6) ends_case ends_via ends_autoCommit queryAll_ends ends_need

lemma ends_currentSchema: "ends (currentSchema E)"
  unfolding currentSchema_def by (intro ends_steps)

lemma ends_rows:
  "ends (schemaNames rs)" "ends (columnRows rs columns)" "ends (keyRows rs order byKey)" "ends (referenceRows db rs byKey)"
  "ends (byTable order byKey out)" "ends (tableRows inc columns constraints rs)"
proof -
  show "ends (schemaNames rs)" by (induction rs) (auto intro!: ends_steps)
  show "ends (columnRows rs columns)" by (induction rs arbitrary: columns) (auto intro!: ends_steps)
  show "ends (keyRows rs order byKey)"
    by (induction rs arbitrary: order byKey) (auto simp: Let_def intro!: ends_steps)
  show "ends (referenceRows db rs byKey)"
    by (induction rs arbitrary: byKey) (auto simp: Let_def intro!: ends_steps)
  show "ends (byTable order byKey out)"
    by (induction order arbitrary: out) (auto intro!: ends_steps ends_intros(2))
  show "ends (tableRows inc columns constraints rs)"
    by (induction rs) (auto simp: Let_def intro!: ends_steps)
qed

lemma ends_lists: "ends (listSchemas E flt)" "ends (listColumns E schema tf cf)" "ends (listConstraints E schema tf)"
  unfolding listSchemas_def listColumns_def listConstraints_def by (intro ends_steps ends_rows)+

lemma ends_listTables: "ends (listTables E schema tf cf types inc)"
  unfolding listTables_def by (intro ends_steps ends_rows ends_lists)

lemma ends_schemaEntries: "ends (schemaEntries E depth tn cn types schs)"
  by (induction schs) (auto intro!: ends_steps ends_listTables)

lemma ends_getObjects: "ends (getObjectsImpl E objects depth catalog dbSchema tn cn types)"
  unfolding getObjectsImpl_def buildGetObjectsRecordReader_def Let_def
  by (intro ends_steps ends_lists ends_schemaEntries ends_intros(2)) simp_all

section \<open>What the metadata operations keep\<close>

context session_frame
begin

lemma case_rows: "dkeeps R m \<Longrightarrow> (\<And>a as. dkeeps R (k a as)) \<Longrightarrow> dkeeps R (case zs of [] \<Rightarrow> m | a # as \<Rightarrow> k a as)"
  by (cases zs) simp_all

lemma need_kept: "dkeeps R (need n r)"
  unfolding need_def by (intro combinators)

lemma fetchAll_kept: "dkeeps R (fetchAll n E i rows)"
  by (induction n arbitrary: rows) (auto intro!: operations)

lemma queryAll_kept: "dkeeps R (queryAll E sql)"
  unfolding queryAll_def by (intro operations fetchAll_kept)

lemmas catalog = operations case_rows need_kept queryAll_kept

lemma currentSchema_kept: "dkeeps R (currentSchema E)"
  unfolding currentSchema_def by (intro catalog)

lemma rows_kept:
  "dkeeps R (schemaNames rs)" "dkeeps R (columnRows rs columns)" "dkeeps R (keyRows rs order byKey)"
  "dkeeps R (referenceRows db rs byKey)" "dkeeps R (byTable order byKey out)" "dkeeps R (tableRows inc columns constraints rs)"
proof -
  show "dkeeps R (schemaNames rs)" by (induction rs) (auto intro!: catalog)
  show "dkeeps R (columnRows rs columns)" by (induction rs arbitrary: columns) (auto intro!: catalog)
  show "dkeeps R (keyRows rs order byKey)"
    by (induction rs arbitrary: order byKey) (auto simp: Let_def intro!: catalog)
  show "dkeeps R (referenceRows db rs byKey)"
    by (induction rs arbitrary: byKey) (auto simp: Let_def intro!: catalog)
  show "dkeeps R (byTable order byKey out)"
    by (induction order arbitrary: out) (auto intro!: catalog)
  show "dkeeps R (tableRows inc columns constraints rs)"
    by (induction rs) (auto simp: Let_def intro!: catalog)
qed

lemma lists_kept:
  "dkeeps R (listSchemas E flt)" "dkeeps R (listColumns E schema tf cf)" "dkeeps R (listConstraints E schema tf)"
  unfolding listSchemas_def listColumns_def listConstraints_def by (intro catalog rows_kept)+

lemma listTables_kept: "dkeeps R (listTables E schema tf cf types inc)"
  unfolding listTables_def by (intro catalog rows_kept lists_kept)

lemma schemaEntries_kept: "dkeeps R (schemaEntries E depth tn cn types schs)"
  by (induction schs) (auto intro!: catalog listTables_kept)

lemma metadata_kept:
  "dkeeps R (getObjectsImpl E objects depth cat dbSchema tn cn types)" "dkeeps R (getTableSchemaImpl E dbSchema name)"
  "dkeeps R (getInfoImpl version codes)" "dkeeps R getTableTypesImpl"
  unfolding getObjectsImpl_def buildGetObjectsRecordReader_def getTableSchemaImpl_def getInfoImpl_def getTableTypesImpl_def Let_def
  by (intro catalog lists_kept schemaEntries_kept currentSchema_kept)+

end

section \<open>Grouping\<close>

definition con_key :: "Value list \<Rightarrow> con_key" where
  "con_key r = (trimmed (r ! 0), trimmed (r ! 1))"

text \<open>The keys of the rows, each at its first row.\<close>

definition first_keys :: "Value list list \<Rightarrow> con_key list" where
  "first_keys rs = rev (remdups (rev (map con_key rs)))"

definition con_of :: "Value list list \<Rightarrow> con_key \<Rightarrow> constraintInfo" where
  "con_of rs k =
     (let mine = filter (\<lambda>r. con_key r = k) rs in
      \<lparr>ConstraintName = Some (snd k), ConstraintType = constraintType (trimmed (hd mine ! 2)),
       ConstraintColumnNames = map (\<lambda>r. trimmed (r ! 3)) mine, ConstraintColumnUsage = []\<rparr>)"

definition usage_of :: "string \<Rightarrow> Value list list \<Rightarrow> con_key \<Rightarrow> constraintColumnUsage list" where
  "usage_of dbName targets k =
     map (\<lambda>r. \<lparr>FkCatalog = Some dbName, FkDbSchema = Some (trimmed (r ! 2)), FkTable = trimmed (r ! 3),
               FkColumnName = trimmed (r ! 4)\<rparr>) (filter (\<lambda>r. con_key r = k) targets)"

definition listed :: "'a list \<Rightarrow> 'a list option" where
  "listed xs = (if xs = [] then None else Some xs)"

lemma need_ok: "n \<le> length r \<Longrightarrow> dthen (need n r) f c = f () c"
  by (simp add: need_def dthen_def dok_def)

lemma columnRows_result:
  "list_all (\<lambda>r. 11 \<le> length r) rs \<Longrightarrow>
   columnRows rs (\<lambda>t. listed (columns t)) c =
     (Inr (\<lambda>t. listed (columns t @ map columnOf (filter (\<lambda>r. trimmed (r ! 0) = t) rs))), c)"
proof (induction rs arbitrary: columns)
  case (Cons r rs)
  have "append_at (trimmed (r ! 0)) (columnOf r) (\<lambda>t. listed (columns t)) =
      (\<lambda>t. listed (if t = trimmed (r ! 0) then columns t @ [columnOf r] else columns t))"
    by (auto simp: append_at_def listed_def fun_eq_iff)
  then have "columnRows (r # rs) (\<lambda>t. listed (columns t)) c =
      columnRows rs (\<lambda>t. listed (if t = trimmed (r ! 0) then columns t @ [columnOf r] else columns t)) c"
    using Cons.prems by (simp add: need_ok)
  also have "\<dots> = (Inr (\<lambda>t. listed (columns t @ map columnOf (filter (\<lambda>r. trimmed (r ! 0) = t) (r # rs)))), c)"
    using Cons.prems by (subst Cons.IH) (auto simp: fun_eq_iff intro!: arg_cong [of _ _ listed])
  finally show ?case .
qed (simp add: dok_def)

lemma first_keys_snoc:
  "first_keys (ps @ [r]) = first_keys ps @ (if con_key r \<in> con_key ` set ps then [] else [con_key r])"
  by (auto simp: first_keys_def)

lemma keyRows_result:
  "list_all (\<lambda>r. 4 \<le> length r) rs \<Longrightarrow>
   keyRows rs (first_keys ps) (\<lambda>k. if k \<in> con_key ` set ps then Some (con_of ps k) else None) c =
     (Inr (first_keys (ps @ rs), \<lambda>k. if k \<in> con_key ` set (ps @ rs) then Some (con_of (ps @ rs) k) else None), c)"
proof (induction rs arbitrary: ps)
  case (Cons r rs)
  let ?k = "con_key r" and ?m = "\<lambda>k. if k \<in> con_key ` set ps then Some (con_of ps k) else None"
  let ?m' = "\<lambda>k. if k \<in> con_key ` set (ps @ [r]) then Some (con_of (ps @ [r]) k) else None"
  have rest: "keyRows rs (first_keys (ps @ [r])) ?m' c =
     (Inr (first_keys (ps @ r # rs), \<lambda>k. if k \<in> con_key ` set (ps @ r # rs) then Some (con_of (ps @ r # rs) k) else None), c)"
    using Cons.IH [of "ps @ [r]"] Cons.prems by (simp only: append_assoc append_Cons append_Nil list.pred_inject)
  have key: "(trimmed (r ! 0), trimmed (r ! Suc 0)) = ?k" by (simp add: con_key_def)
  show ?case
  proof (cases "?k \<in> con_key ` set ps")
    case True
    then have ne: "filter (\<lambda>r'. con_key r' = ?k) ps \<noteq> []" by (auto simp: filter_empty_conv)
    have "?m(?k \<mapsto> (con_of ps ?k)\<lparr>ConstraintColumnNames := ConstraintColumnNames (con_of ps ?k) @ [trimmed (r ! 3)]\<rparr>) = ?m'"
    proof (rule ext)
      show "(?m(?k \<mapsto> (con_of ps ?k)\<lparr>ConstraintColumnNames := ConstraintColumnNames (con_of ps ?k) @ [trimmed (r ! 3)]\<rparr>)) k = ?m' k"
        for k using ne by (cases "k = ?k") (simp_all add: con_of_def Let_def)
    qed
    then show ?thesis
      using rest True Cons.prems by (simp add: need_ok key Let_def first_keys_snoc)
  next
    case False
    then have "filter (\<lambda>r'. con_key r' = ?k) ps = []" unfolding filter_empty_conv image_iff by metis
    then have "?m(?k \<mapsto> \<lparr>ConstraintName = Some (snd ?k), ConstraintType = constraintType (trimmed (r ! 2)),
        ConstraintColumnNames = [trimmed (r ! 3)], ConstraintColumnUsage = []\<rparr>) = ?m'"
      by (auto intro!: ext simp: con_of_def Let_def) (metis snd_conv)+
    then show ?thesis
      using rest False Cons.prems by (simp add: need_ok key Let_def first_keys_snoc)
  qed
qed (simp only: keyRows.simps append_Nil2 dok_def)

lemma referenceRows_result:
  "list_all (\<lambda>r. 5 \<le> length r) rs \<Longrightarrow>
   referenceRows dbName rs byKey c =
     (Inr (\<lambda>k. map_option (\<lambda>ci. ci\<lparr>ConstraintColumnUsage := ConstraintColumnUsage ci @ usage_of dbName rs k\<rparr>) (byKey k)), c)"
proof (induction rs arbitrary: byKey)
  case (Cons r rs)
  have key: "(trimmed (r ! 0), trimmed (r ! Suc 0)) = con_key r" by (simp add: con_key_def)
  show ?case
    using Cons by (cases "byKey (con_key r)") (auto simp: need_ok key Let_def fun_eq_iff usage_of_def map_option_case split: option.split)
qed (simp add: dok_def usage_of_def option.map_ident)

lemma byTable_result:
  "set order \<subseteq> dom byKey \<Longrightarrow>
   byTable order byKey (\<lambda>t. listed (out t)) c =
     (Inr (\<lambda>t. listed (out t @ map (\<lambda>k. the (byKey k)) (filter (\<lambda>k. fst k = t) order))), c)"
proof (induction order arbitrary: out)
  case (Cons k ks)
  then obtain ci where ci: "byKey k = Some ci" by auto
  have "append_at (fst k) ci (\<lambda>t. listed (out t)) = (\<lambda>t. listed (if t = fst k then out t @ [ci] else out t))"
    by (auto simp: append_at_def listed_def fun_eq_iff)
  then have "byTable (k # ks) byKey (\<lambda>t. listed (out t)) c =
      byTable ks byKey (\<lambda>t. listed (if t = fst k then out t @ [ci] else out t)) c"
    using ci by simp
  also have "\<dots> = (Inr (\<lambda>t. listed (out t @ map (\<lambda>k. the (byKey k)) (filter (\<lambda>k. fst k = t) (k # ks)))), c)"
    using Cons.prems ci by (subst Cons.IH) (auto simp: fun_eq_iff intro!: arg_cong [of _ _ listed])
  finally show ?case .
qed (simp add: dok_def)

lemma set_first_keys: "set (first_keys rs) = con_key ` set rs"
  by (simp add: first_keys_def)

text \<open>
  C26: the catalog rows are grouped without loss.  Columns are listed under their table in row
  order.  Constraints are listed under their table in the order of their first row; each has the
  type of that row, all its columns in row order and all its references in row order; references
  of an unknown constraint are dropped.
\<close>

theorem catalog_grouping:
  "list_all (\<lambda>r. 11 \<le> length r) colRows \<and> list_all (\<lambda>r. 4 \<le> length r) keys \<and> list_all (\<lambda>r. 5 \<le> length r) targets \<longrightarrow>
     columnRows colRows Map.empty c = (Inr (\<lambda>t. listed (map columnOf (filter (\<lambda>r. trimmed (r ! 0) = t) colRows))), c)
   \<and> dthen (keyRows keys [] Map.empty) (\<lambda>(order, byKey).
       dthen (referenceRows dbName targets byKey) (\<lambda>byKey. byTable order byKey Map.empty)) c
     = (Inr (\<lambda>t. listed (map (\<lambda>k. (con_of keys k)\<lparr>ConstraintColumnUsage := usage_of dbName targets k\<rparr>)
                             (filter (\<lambda>k. fst k = t) (first_keys keys)))), c)"
proof (intro impI)
  assume a: "list_all (\<lambda>r. 11 \<le> length r) colRows \<and> list_all (\<lambda>r. 4 \<le> length r) keys \<and> list_all (\<lambda>r. 5 \<le> length r) targets"
  have empty: "Map.empty = (\<lambda>t. listed [])" by (simp add: listed_def)
  let ?m = "\<lambda>k. if k \<in> con_key ` set keys then Some (con_of keys k) else None"
  let ?m' = "\<lambda>k. map_option (\<lambda>ci. ci\<lparr>ConstraintColumnUsage := ConstraintColumnUsage ci @ usage_of dbName targets k\<rparr>) (?m k)"
  have keys: "keyRows keys [] Map.empty c = (Inr (first_keys keys, ?m), c)"
    using keyRows_result [of keys "[]" c, unfolded append_Nil] a by (simp add: first_keys_def)
  have targets: "referenceRows dbName targets ?m c = (Inr ?m', c)" using a by (simp add: referenceRows_result)
  have "byTable (first_keys keys) ?m' Map.empty c =
      (Inr (\<lambda>t. listed (map (\<lambda>k. the (?m' k)) (filter (\<lambda>k. fst k = t) (first_keys keys)))), c)"
    using byTable_result [of "first_keys keys" ?m' "\<lambda>t. []" c] by (auto simp: set_first_keys empty dom_def)
  moreover have "map (\<lambda>k. the (?m' k)) (filter (\<lambda>k. fst k = t) (first_keys keys)) =
      map (\<lambda>k. (con_of keys k)\<lparr>ConstraintColumnUsage := usage_of dbName targets k\<rparr>) (filter (\<lambda>k. fst k = t) (first_keys keys))" for t
    by (rule map_cong) (auto simp: set_first_keys con_of_def Let_def)
  ultimately have "dthen (keyRows keys [] Map.empty) (\<lambda>(order, byKey).
       dthen (referenceRows dbName targets byKey) (\<lambda>byKey. byTable order byKey Map.empty)) c
     = (Inr (\<lambda>t. listed (map (\<lambda>k. (con_of keys k)\<lparr>ConstraintColumnUsage := usage_of dbName targets k\<rparr>)
                             (filter (\<lambda>k. fst k = t) (first_keys keys)))), c)"
    using keys targets by (simp add: dthen_def)
  moreover have "columnRows colRows Map.empty c = (Inr (\<lambda>t. listed (map columnOf (filter (\<lambda>r. trimmed (r ! 0) = t) colRows))), c)"
    using columnRows_result [of colRows "\<lambda>t. []" c] a by (simp add: empty)
  ultimately show "columnRows colRows Map.empty c = (Inr (\<lambda>t. listed (map columnOf (filter (\<lambda>r. trimmed (r ! 0) = t) colRows))), c)
   \<and> dthen (keyRows keys [] Map.empty) (\<lambda>(order, byKey).
       dthen (referenceRows dbName targets byKey) (\<lambda>byKey. byTable order byKey Map.empty)) c
     = (Inr (\<lambda>t. listed (map (\<lambda>k. (con_of keys k)\<lparr>ConstraintColumnUsage := usage_of dbName targets k\<rparr>)
                             (filter (\<lambda>k. fst k = t) (first_keys keys)))), c)" by blast
qed

definition sample_cells :: "nat \<Rightarrow> Value list" where
  "sample_cells n = replicate n (VString ''A'')"

theorem catalog_grouping_witness:
  "\<forall>c. list_all (\<lambda>r. 4 \<le> length r) [sample_cells 4, sample_cells 5]
     \<and> columnRows [sample_cells 11] Map.empty c =
         (Inr (\<lambda>t. listed (map columnOf (filter (\<lambda>r. trimmed (r ! 0) = t) [sample_cells 11]))), c)"
  using catalog_grouping [of "[sample_cells 11]" "[sample_cells 4, sample_cells 5]" "[sample_cells 5]"]
  by (simp add: sample_cells_def)

section \<open>Complete results\<close>

lemma fetchAll_fetched:
  "fetchAll n E i rows c = (Inr all, c') \<Longrightarrow> \<exists>new. all = rows @ new \<and> exhausted i (dConn c) new"
proof (induction n arbitrary: rows c)
  case (Suc n)
  obtain x k where x: "Next i (dConn c) = (x, k)" by fastforce
  show ?case
  proof (cases x)
    case (Inl e)
    then show ?thesis
      using Suc.prems x by (auto simp: dthen_def raw_def dfail_def split: prod.splits sum.splits)
  next
    case (Inr batch)
    show ?thesis
    proof (cases "batch = []")
      case True
      then have "all = rows" using Suc.prems x Inr by (simp add: dthen_def raw_def dok_def)
      then show ?thesis using x Inr True by (auto simp: exhausted_def intro: fetched.none)
    next
      case False
      then have "fetchAll n E i (rows @ batch) (c\<lparr>dConn := k\<rparr>) = (Inr all, c')"
        using Suc.prems x Inr by (simp add: dthen_def raw_def)
      from Suc.IH [OF this] obtain new where new: "all = rows @ batch @ new" "exhausted i k new" by auto
      have "fetched i (dConn c) batch k" using fetched.more [OF _ fetched.none] x Inr by fastforce
      then have "exhausted i (dConn c) (batch @ new)" using new(2) exhausted_trans by blast
      then show ?thesis using new(1) by blast
    qed
  qed
qed (simp add: dfail_def)

text \<open>
  A catalog query returns, whatever the server sends, and if it succeeds it has all the rows:
  either the statement had no result set, or the rows are everything its cursor delivered before
  it reported its end.
\<close>

theorem queryAll_complete:
  "case fst (queryAll E sql c) of
     Inl e \<Rightarrow> e \<noteq> Diverges
   | Inr (cols, rows) \<Rightarrow>
       (\<exists>i c1. Conn_Query (eUpper E) sql (dConn c) = (Inr i, c1)
          \<and> (if IsResultSet (queries c1 ! i) then exhausted i c1 rows else rows = []))"
proof (cases "queryAll E sql c")
  case (Pair r c')
  have rows: "\<exists>i c1. Conn_Query (eUpper E) sql (dConn c) = (Inr i, c1)
             \<and> (if IsResultSet (queries c1 ! i) then exhausted i c1 rows else rows = [])" if success: "r = Inr (cols, rows)" for cols rows
  proof -
    obtain i c1 where q: "via E (Conn_Query (eUpper E) sql) c = (Inr i, c1)"
      using Pair success by (cases "via E (Conn_Query (eUpper E) sql) c") (auto simp: queryAll_def dthen_def split: sum.splits)
    then have cq: "Conn_Query (eUpper E) sql (dConn c) = (Inr i, dConn c1)"
      by (auto simp: via_def dthen_def raw_def dok_def dfail_def split: prod.splits sum.splits)
    show ?thesis
    proof (cases "IsResultSet (queries (dConn c1) ! i)")
      case True
      then have "\<exists>c2. fetchAll (length (rd (dConn c1)) + 2) E i [] c1 = (Inr rows, c2)"
        using Pair success q
        by (auto simp: queryAll_def with_dconn_def dthen_def [of "via E (Conn_Query (eUpper E) sql)"] dok_def
            elim!: dthen_cases simp del: fetchAll.simps)
      then show ?thesis using cq True fetchAll_fetched by fastforce
    next
      case False
      then have "rows = []" using Pair success q by (auto simp: queryAll_def dthen_def with_dconn_def dok_def)
      then show ?thesis using cq False by auto
    qed
  qed
  have returns: "r \<noteq> Inl Diverges" using queryAll_ends Pair by (metis ends_def fst_conv)
  show ?thesis
  proof (cases r)
    case (Inr v)
    obtain cols rows where "v = (cols, rows)" by fastforce
    then show ?thesis unfolding Pair fst_conv Inr sum.case using rows Inr by (simp only: prod.case)
  qed (use returns Pair in simp)
qed

end
