(* ===== verification/Db2_Ingest.thy ===== *)
theory Db2_Ingest
  imports Db2_Meta
begin

text \<open>
  Bulk ingest and bound parameters (\<^verbatim>\<open>driver/db2/bulk_ingest.go\<close>).  A bound stream is its schema,
  the records it will yield and the error it ends with, if any.  Reference counts of Arrow data
  are left out; a null slot of a string array has no bytes.

  Results: every bound row is sent exactly once and in order, in batches within the row bound
  and, unless a single row, within the byte bound; the DDL and the INSERT name each column once,
  quoted; draining a reader ends.
\<close>

section \<open>Statements\<close>

record recordStream =
  bsSchema :: "Field list"
  bsRecords :: "Record list"
  bsErr :: "string option"

record statementImpl =
  stSql :: string
  targetTable :: string
  targetSchema :: string
  ingestMode :: string
  ingestTemporary :: bool
  ingestVarcharLength :: int
  ingestBatchRows :: int
  stClosed :: bool
  bound :: "Record option"
  boundStream :: "recordStream option"

definition clearBound :: "statementImpl \<Rightarrow> statementImpl" where
  "clearBound s = s\<lparr>bound := None, boundStream := None\<rparr>"

abbreviation IngestModeCreate :: string where "IngestModeCreate \<equiv> ''adbc.ingest.mode.create''"
abbreviation IngestModeAppend :: string where "IngestModeAppend \<equiv> ''adbc.ingest.mode.append''"
abbreviation IngestModeReplace :: string where "IngestModeReplace \<equiv> ''adbc.ingest.mode.replace''"
abbreviation IngestModeCreateAppend :: string where "IngestModeCreateAppend \<equiv> ''adbc.ingest.mode.create_append''"

section \<open>The statements of an ingest\<close>

abbreviation minAutoVarcharLength :: int where "minAutoVarcharLength \<equiv> 64"
abbreviation defaultIngestBatchRows :: int where "defaultIngestBatchRows \<equiv> 1000"
abbreviation ingestBatchBytes :: int where "ingestBatchBytes \<equiv> 8388608"

definition longest :: "('a \<Rightarrow> nat) \<Rightarrow> 'a option list \<Rightarrow> int" where
  "longest len xs = int (fold (\<lambda>x m. max m (case x of None \<Rightarrow> 0 | Some a \<Rightarrow> len a)) xs 0)"

fun maxValueLength :: "arrow_array \<Rightarrow> int" where
  "maxValueLength (StringA xs) = longest length xs"
| "maxValueLength (LargeStringA xs) = longest length xs"
| "maxValueLength (StringViewA xs) = longest length xs"
| "maxValueLength (BinaryA xs) = longest length xs"
| "maxValueLength (LargeBinaryA xs) = longest length xs"
| "maxValueLength (BinaryViewA xs) = longest length xs"
| "maxValueLength (DictionaryA dict is) = maxValueLength dict"
| "maxValueLength _ = 0"

definition varcharLength :: "Record option \<Rightarrow> int \<Rightarrow> nat \<Rightarrow> int" where
  "varcharLength sample fixed i =
     (if 0 < fixed then fixed
      else
        let n = (case sample of
                   Some rec \<Rightarrow> if i < length (recColumns rec) then maxValueLength (recColumns rec ! i) else 0
                 | None \<Rightarrow> 0) * 2;
            n = (if n < minAutoVarcharLength then minAutoVarcharLength else n)
        in if n > maxVarcharLength then maxVarcharLength else n)"

definition varcharLengths :: "Field list \<Rightarrow> Record option \<Rightarrow> int \<Rightarrow> int list" where
  "varcharLengths schema sample fixed = map (varcharLength sample fixed) [0..<length schema]"

definition columnDDL :: "Field \<Rightarrow> int \<Rightarrow> arrow_error + string" where
  "columnDDL f n =
     (case db2TypeForArrow f n of
        Inl e \<Rightarrow> Inl (ColumnError (afName f) e)
      | Inr typ \<Rightarrow> Inr (quoteIdent (afName f) @ '' '' @ typ @ (if \<not> afNullable f then '' NOT NULL'' else '''')))"

fun columnDDLs :: "(Field \<times> int) list \<Rightarrow> arrow_error + string list" where
  "columnDDLs [] = Inr []"
| "columnDDLs ((f, n) # fs) =
     (case columnDDL f n of
        Inl e \<Rightarrow> Inl e
      | Inr d \<Rightarrow> (case columnDDLs fs of Inl e \<Rightarrow> Inl e | Inr ds \<Rightarrow> Inr (d # ds)))"

definition buildCreateTableSQL :: "string \<Rightarrow> Field list \<Rightarrow> bool \<Rightarrow> int list \<Rightarrow> arrow_error + string" where
  "buildCreateTableSQL target schema temporary lengths =
     (if length lengths < length schema then Inl ArrowPanic
      else case columnDDLs (zip schema lengths) of
        Inl e \<Rightarrow> Inl e
      | Inr ds \<Rightarrow>
          Inr ((if temporary then ''DECLARE GLOBAL TEMPORARY TABLE '' else ''CREATE TABLE '') @ target @ '' (''
               @ join_with '', '' ds @ '')'' @ (if temporary then '' ON COMMIT PRESERVE ROWS NOT LOGGED'' else '''')))"

definition buildInsertSQL :: "string \<Rightarrow> Field list \<Rightarrow> string" where
  "buildInsertSQL target schema =
     ''INSERT INTO '' @ target @ '' ('' @ join_with '', '' (map (\<lambda>f. quoteIdent (afName f)) schema)
       @ '') VALUES ('' @ join_with '', '' (map (\<lambda>f. ''?'') schema) @ '')''"

definition ingestTarget :: "statementImpl \<Rightarrow> string" where
  "ingestTarget s =
     (if ingestTemporary s then ''SESSION.'' @ quoteIdent (targetTable s)
      else if targetSchema s \<noteq> '''' then quoteIdent (targetSchema s) @ ''.'' @ quoteIdent (targetTable s)
      else quoteIdent (targetTable s))"

text \<open>The SQLCODE an error carries, if it is one of the server's.\<close>

definition sqlcode :: "conn_error \<Rightarrow> int option" where
  "sqlcode e = map_option (\<lambda>ca. sint (SQLCode ca)) (as_SQLCA e)"

definition targetExists :: "env \<Rightarrow> statementImpl \<Rightarrow> bool dact" where
  "targetExists E s =
     (if ingestTemporary s then
        dthen (raw (Describe (eUpper E) (''SELECT * FROM '' @ ingestTarget s @ '' FETCH FIRST 1 ROW ONLY''))) (\<lambda>r.
        case r of
          Inr d \<Rightarrow> dok True
        | Inl e \<Rightarrow> if sqlcode e = Some (- 204) then dok False else dfail (fromDRDAError (eIO E) (DrdaErr e)))
      else
        dthen (if targetSchema s = '''' then currentSchema E else dok (targetSchema s)) (\<lambda>schema.
        dthen (queryAll E (''SELECT 1 FROM SYSCAT.TABLES WHERE TABSCHEMA = '' @ sqlString schema @ '' AND TABNAME = ''
                 @ sqlString (targetTable s))) (\<lambda>(cols, rows).
        dok (rows \<noteq> []))))"

definition prepareIngestTarget :: "env \<Rightarrow> statementImpl \<Rightarrow> Field list \<Rightarrow> Record option \<Rightarrow> unit dact" where
  "prepareIngestTarget E s schema sample =
     (let mode = (if ingestMode s = '''' then IngestModeCreate else ingestMode s) in
      if mode = IngestModeAppend then dok ()
      else
        case buildCreateTableSQL (ingestTarget s) schema (ingestTemporary s)
               (varcharLengths schema sample (ingestVarcharLength s)) of
          Inl e \<Rightarrow> dfail (errStatus StatusInvalidArgument (OfArrow ''ingest: '' e))
        | Inr ddl \<Rightarrow>
            dthen (targetExists E s) (\<lambda>exists.
            if mode = IngestModeCreate \<and> exists then
              dfail (errStatus StatusInternal
                (Format ''ingest: table %s already exists (use mode append, create_append or replace)'' [ingestTarget s]))
            else if mode = IngestModeCreateAppend \<and> exists then dok ()
            else
              dthen (if mode = IngestModeReplace \<and> exists
                     then dthen (via E (ExecImmediate (eUpper E) (''DROP TABLE '' @ ingestTarget s))) (\<lambda>_. dok ())
                     else dok ()) (\<lambda>_.
              dthen (raw (ExecImmediate (eUpper E) ddl)) (\<lambda>r.
              case r of
                Inr res \<Rightarrow> dok ()
              | Inl e \<Rightarrow>
                  (case as_SQLCA e of
                     Some ca \<Rightarrow>
                       if sint (SQLCode ca) = - 601 then dfail (errStatus StatusInternal (OfSQLCA ''ingest: '' ca))
                       else dfail (fromDRDAError (eIO E) (DrdaErr e))
                   | None \<Rightarrow> dfail (fromDRDAError (eIO E) (DrdaErr e)))))))"

section \<open>Sending rows\<close>

definition valueApprox :: "Value \<Rightarrow> int" where
  "valueApprox v = (case v of VString s \<Rightarrow> int (length s) + 3 | VBytes b \<Rightarrow> int (length b) + 3 | _ \<Rightarrow> 12)"

definition approxRowBytes :: "Value list list \<Rightarrow> int" where
  "approxRowBytes rows = sum_list (map (\<lambda>r. sum_list (map valueApprox r)) rows)"

text \<open>Halving a batch of \<open>n\<close> rows while it looks large.\<close>

fun shrinkBatch :: "Value list list \<Rightarrow> nat \<Rightarrow> nat" where
  "shrinkBatch rows n = (if 1 < n \<and> ingestBatchBytes < approxRowBytes (take n rows) then shrinkBatch rows (n div 2) else n)"

declare shrinkBatch.simps [simp del]

text \<open>The count comes with an error beside it, which the callers look at first.\<close>

definition execBatch :: "env \<Rightarrow> ParamStatement \<Rightarrow> Value list list \<Rightarrow> int dact" where
  "execBatch E ps rows =
     dthen (via E (ExecBatch (eFloat E) ps rows)) (\<lambda>(n, err).
     case err of Some e \<Rightarrow> dfail (fromDRDAError (eIO E) (DrdaErr e)) | None \<Rightarrow> dok n)"

text \<open>
  The loop of \<^verbatim>\<open>pump\<close> on the rows from \<open>off\<close> on.  A bound so large that the sum wraps is the panic
  of a negative slice bound; a batch of no rows, which a bound of zero would give, does not
  advance.
\<close>

function pumpRows :: "env \<Rightarrow> ParamStatement \<Rightarrow> int \<Rightarrow> int \<Rightarrow> Value list list \<Rightarrow> int \<Rightarrow> int dact" where
  "pumpRows E ps batchRows off rows acc =
     (if rows = [] then dok acc
      else if 2 ^ 63 \<le> off + batchRows then dfail Panic
      else
        let n = shrinkBatch rows (min (nat batchRows) (length rows)) in
        if n = 0 then dfail Diverges
        else dthen (execBatch E ps (take n rows)) (\<lambda>k. pumpRows E ps batchRows (off + int n) (drop n rows) (int64 (acc + k))))"
  by pat_completeness auto
termination
  by (relation "measure (\<lambda>(E, ps, batchRows, off, rows, acc). length rows)") auto

declare pumpRows.simps [simp del]

definition rowsOf :: "env \<Rightarrow> string \<Rightarrow> Record \<Rightarrow> Value list list dact" where
  "rowsOf E msg rec =
     (case recordRows (eArrow E) rec of
        Inl e \<Rightarrow> if e = ArrowPanic then dfail Panic else dfail (errStatus StatusInvalidArgument (OfArrow msg e))
      | Inr rows \<Rightarrow> dok rows)"

fun pumpRecords :: "env \<Rightarrow> ParamStatement \<Rightarrow> int \<Rightarrow> Record list \<Rightarrow> int \<Rightarrow> int dact" where
  "pumpRecords E ps batchRows [] acc = dok acc"
| "pumpRecords E ps batchRows (rec # recs) acc =
     dthen (rowsOf E ''ingest: '' rec) (\<lambda>rows.
     dthen (pumpRows E ps batchRows 0 rows acc) (\<lambda>acc. pumpRecords E ps batchRows recs acc))"

definition boundSchema :: "statementImpl \<Rightarrow> Field list option" where
  "boundSchema s =
     (case bound s of
        Some rec \<Rightarrow> Some (recSchema rec)
      | None \<Rightarrow> (case boundStream s of Some st \<Rightarrow> Some (bsSchema st) | None \<Rightarrow> None))"

text \<open>The first record, and the records the stream still has behind it.\<close>

definition firstRecord :: "statementImpl \<Rightarrow> (Record option \<times> Record list) dact" where
  "firstRecord s =
     (let later = (case boundStream s of Some st \<Rightarrow> bsRecords st | None \<Rightarrow> []) in
      case bound s of
        Some rec \<Rightarrow> dok (Some rec, later)
      | None \<Rightarrow>
          (case later of
             rec # recs \<Rightarrow> dok (Some rec, recs)
           | [] \<Rightarrow>
               (case boundStream s of
                  Some st \<Rightarrow>
                    (case bsErr st of
                       Some msg \<Rightarrow> dfail (errStatus StatusIO (OfStream (''ingest stream: '' @ msg)))
                     | None \<Rightarrow> dok (None, []))
                | None \<Rightarrow> dfail Panic)))"

definition prepareInsert :: "env \<Rightarrow> string \<Rightarrow> ParamStatement dact" where
  "prepareInsert E sql =
     dthen (raw (PrepareParams (eUpper E) sql)) (\<lambda>r.
     case r of
       Inr ps \<Rightarrow> dok ps
     | Inl e \<Rightarrow>
         (case as_SQLCA e of
            Some ca \<Rightarrow>
              if sint (SQLCode ca) = - 204
              then dfail (AdbcErr \<lparr>Code = StatusNotFound, Msg = OfSQLCA ''ingest: '' ca, VendorCode = SQLCode ca,
                                   SqlState = sqlstate5 ''42S02''\<rparr>)
              else dfail (fromDRDAError (eIO E) (DrdaErr e))
          | None \<Rightarrow> dfail (fromDRDAError (eIO E) (DrdaErr e))))"

definition ingestRecords :: "statementImpl \<Rightarrow> Record option \<Rightarrow> Record list \<Rightarrow> Record list" where
  "ingestRecords s first later =
     (case bound s of Some rec \<Rightarrow> [rec] | None \<Rightarrow> [])
     @ (case boundStream s of Some st \<Rightarrow> (case first of Some rec \<Rightarrow> [rec] | None \<Rightarrow> []) @ later | None \<Rightarrow> [])"

text \<open>\<open>executeIngest\<close>; the statement it leaves is \<open>clearBound s\<close> once data was bound.\<close>

definition executeIngest :: "env \<Rightarrow> statementImpl \<Rightarrow> int dact" where
  "executeIngest E s =
     (if targetTable s = '''' then dfail (errStatus StatusInvalidState (Format ''ingest: no target table set'' []))
      else
        case boundSchema s of
          None \<Rightarrow> dfail (errStatus StatusInvalidState (Format ''ingest: no record/stream bound'' []))
        | Some schema \<Rightarrow>
            dthen (firstRecord s) (\<lambda>(first, later).
            dthen (prepareIngestTarget E s schema first) (\<lambda>_.
            dthen (prepareInsert E (buildInsertSQL (ingestTarget s) schema)) (\<lambda>ps.
            if length (paramList ps) \<noteq> length schema then
              dfail (errStatus StatusInternal
                (Format ''ingest: prepared INSERT describes %d parameters for %d columns''
                   [nat_str (length (paramList ps)), nat_str (length schema)]))
            else
              let batchRows = (if ingestBatchRows s \<le> 0 then defaultIngestBatchRows else ingestBatchRows s) in
              dthen (pumpRecords E ps batchRows (ingestRecords s first later) 0) (\<lambda>acc.
              case (case boundStream s of Some st \<Rightarrow> bsErr st | None \<Rightarrow> None) of
                Some msg \<Rightarrow> dfail (errStatus StatusIO (OfStream (''ingest stream: '' @ msg)))
              | None \<Rightarrow> dthen (autoCommitIfNeeded E) (\<lambda>_. dok acc))))))"

section \<open>Bound parameters\<close>

fun recordsRows :: "env \<Rightarrow> Record list \<Rightarrow> Value list list dact" where
  "recordsRows E [] = dok []"
| "recordsRows E (rec # recs) =
     dthen (rowsOf E ''bind: '' rec) (\<lambda>rows. dthen (recordsRows E recs) (\<lambda>out. dok (rows @ out)))"

definition boundRows :: "env \<Rightarrow> statementImpl \<Rightarrow> Value list list dact" where
  "boundRows E s =
     dthen (recordsRows E ((case bound s of Some rec \<Rightarrow> [rec] | None \<Rightarrow> [])
                           @ (case boundStream s of Some st \<Rightarrow> bsRecords st | None \<Rightarrow> []))) (\<lambda>out.
     case (case boundStream s of Some st \<Rightarrow> bsErr st | None \<Rightarrow> None) of
       Some msg \<Rightarrow> dfail (errStatus StatusIO (OfStream (''bind stream: '' @ msg)))
     | None \<Rightarrow> dok out)"

definition prepareBound :: "env \<Rightarrow> statementImpl \<Rightarrow> Field list option \<Rightarrow> ParamStatement dact" where
  "prepareBound E s schema =
     dthen (raw (PrepareParams (eUpper E) (stSql s))) (\<lambda>r.
     case r of
       Inr ps \<Rightarrow> dok ps
     | Inl e \<Rightarrow>
         (case schema of
            Some sch \<Rightarrow>
              if sqlcode e = Some (- 418) then via E (PrepareParams (eUpper E) (castParamMarkers (stSql s) sch))
              else dfail (fromDRDAError (eIO E) (DrdaErr e))
          | None \<Rightarrow> dfail (fromDRDAError (eIO E) (DrdaErr e))))"

text \<open>The rows in batches of \<open>defaultIngestBatchRows\<close>.\<close>

function updateRows :: "env \<Rightarrow> ParamStatement \<Rightarrow> Value list list \<Rightarrow> int \<Rightarrow> int dact" where
  "updateRows E ps rows acc =
     (if rows = [] then dok acc
      else dthen (execBatch E ps (take (nat defaultIngestBatchRows) rows)) (\<lambda>k.
        updateRows E ps (drop (nat defaultIngestBatchRows) rows) (int64 (acc + k))))"
  by pat_completeness auto
termination
  by (relation "measure (\<lambda>(E, ps, rows, acc). length rows)") auto

declare updateRows.simps [simp del]

definition executeBoundUpdate :: "env \<Rightarrow> statementImpl \<Rightarrow> int dact" where
  "executeBoundUpdate E s =
     dthen (boundRows E s) (\<lambda>rows.
     dthen (prepareBound E s (boundSchema s)) (\<lambda>ps.
     dthen (updateRows E ps rows 0) (\<lambda>acc.
     dthen (autoCommitIfNeeded E) (\<lambda>_. dok acc))))"

text \<open>What an execution returns: a reader over the cursor, or records in memory.\<close>

datatype RecordReader = Streaming streamingRecordReader | InMemory "Field list" "Record list"

definition newRecordReader :: "env \<Rightarrow> (string \<Rightarrow> driver_error) \<Rightarrow> Field list \<Rightarrow> Record list \<Rightarrow> RecordReader dact" where
  "newRecordReader E wrap schema recs =
     (case eNewReader E schema recs of Some msg \<Rightarrow> dfail (wrap msg) | None \<Rightarrow> dok (InMemory schema recs))"

text \<open>Reading until \<open>Next\<close> returns false.\<close>

partial_function (option) drain ::
  "env \<Rightarrow> streamingRecordReader \<Rightarrow> connectionImpl \<Rightarrow> (Record list \<times> streamingRecordReader \<times> connectionImpl) option" where
  "drain E r c =
     (case Reader_Next E r c of
        (ok1, r1, c1) \<Rightarrow>
          if ok1 then
            Option.bind (drain E r1 c1) (\<lambda>(recs, r2, c2).
              Some ((case rdCurrent r1 of Some rec \<Rightarrow> [rec] | None \<Rightarrow> []) @ recs, r2, c2))
          else Some ([], r1, c1))"

definition drainQuery :: "env \<Rightarrow> nat \<Rightarrow> (Field list \<times> Record list) dact" where
  "drainQuery E q c =
     (let r = newStreamingRecordReader c q (batchSize (dCfg c)) in
      case drain E r c of
        None \<Rightarrow> (Inl Diverges, c)
      | Some (recs, r1, c1) \<Rightarrow>
          (case Release r1 c1 of
             (r2, c2) \<Rightarrow> (case rdErr r1 of Some e \<Rightarrow> (Inl e, c2) | None \<Rightarrow> (Inr (rdSchema r, recs), c2))))"

fun queryRows :: "env \<Rightarrow> ParamStatement \<Rightarrow> Value list list \<Rightarrow> (Field list option \<times> Record list) dact" where
  "queryRows E ps [] = dok (None, [])"
| "queryRows E ps (row # rows) =
     dthen (via E (QueryParams (eFloat E) ps row)) (\<lambda>q.
     dthen (drainQuery E q) (\<lambda>(schema, recs).
     dthen (queryRows E ps rows) (\<lambda>(schema1, recs1). dok (Some schema, recs @ recs1))))"

definition executeBoundQuery :: "env \<Rightarrow> statementImpl \<Rightarrow> (RecordReader \<times> int) dact" where
  "executeBoundQuery E s =
     dthen (boundRows E s) (\<lambda>rows.
     if rows = [] then dfail (errStatus StatusInvalidArgument (Format ''bind: no parameter rows bound'' []))
     else
       dthen (prepareBound E s (boundSchema s)) (\<lambda>ps.
       if length rows = 1 then
         dthen (via E (QueryParams (eFloat E) ps (hd rows))) (\<lambda>q. with_dconn (\<lambda>c.
         dok (Streaming (newStreamingRecordReader c q (batchSize (dCfg c))), - 1)))
       else
         dthen (queryRows E ps rows) (\<lambda>(schema, recs).
         dthen (newRecordReader E (\<lambda>msg. errStatus StatusInternal (OfStream (''bind: '' @ msg)))
                  (case schema of Some sch \<Rightarrow> sch | None \<Rightarrow> []) recs) (\<lambda>rr.
         dok (rr, - 1)))))"

section \<open>Draining a reader ends\<close>

text \<open>What a cursor can still deliver: unread bytes, and pending rows.\<close>

definition stock :: "nat \<Rightarrow> Conn \<Rightarrow> nat" where
  "stock i c = 2 * length (rd c) + (if pending (queries c ! i) = [] then 0 else 1)"

lemma Next_stock:
  assumes "Next i c = (Inr rows, c')" "i < length (queries c)"
  shows "length (queries c') = length (queries c) \<and> (if rows = [] then stock i c' \<le> stock i c else stock i c' < stock i c)"
proof (cases "rows = []")
  case False
  then show ?thesis using Next_shrinks [OF assms(1) False assms(2)] by (auto simp: stock_def split: if_splits)
next
  case True
  have p: "pending (queries c ! i) = []"
    using assms(1) True by (auto simp: Next_def act_defs Let_def upd_query_def split: if_splits)
  show ?thesis
  proof (cases "qDone (queries c ! i) \<or> qClosed (queries c ! i)")
    case over: True
    then have "c' = c" using assms(1) p by (auto simp: Next_def act_defs Let_def)
    then show ?thesis using True by simp
  next
    case False
    obtain x c1 where f: "fetchLoop 3 i c = (Inr x, c1)" and
      c': "c' = c1\<lparr>queries := (queries c1)[i := (queries c1 ! i)\<lparr>pending := [], qDone := (qDone (queries c1 ! i) \<or> rows = [])\<rparr>]\<rparr>"
      using assms(1) p False
      by (auto simp: Next_def with_conn_def Let_def upd_query_def change_def ok_def elim!: andthen_cases simp del: fetchLoop.simps)
    have "length (rd c1) < length (rd c) \<and> length (queries c1) = length (queries c)"
      using fetchLoop_shrinks [of 2 i c x c1] f by (simp only: numeral_3_eq_3 numeral_2_eq_2)
    then show ?thesis using c' True assms(2) by (auto simp: stock_def p)
  qed
qed

lemma fillBuffer_stock:
  assumes "fillBuffer E r c = (r', c')" "rdErr r = None" "rdQuery r < length (queries (dConn c))" "rdErr r' = None"
  shows "length (queries (dConn c')) = length (queries (dConn c)) \<and> rdQuery r' = rdQuery r
    \<and> (stock (rdQuery r) (dConn c') < stock (rdQuery r) (dConn c)
       \<or> stock (rdQuery r) (dConn c') \<le> stock (rdQuery r) (dConn c) \<and> buffered r' = buffered r)"
  using assms
proof (induction E r c rule: fillBuffer.induct)
  case (1 E r c)
  show ?case
  proof (cases "int (length (buffered r)) < rdBatchSize r \<and> (rdBatchBytes r = 0 \<or> bufferedBytes r < rdBatchBytes r)")
    case False
    then show ?thesis using "1.prems" by (auto simp: fillBuffer.simps [of E r c])
  next
    case True
    obtain x k where n: "Next (rdQuery r) (dConn c) = (x, k)" by fastforce
    show ?thesis
    proof (cases x)
      case (Inl e)
      then show ?thesis using "1.prems" True n by (auto simp: fillBuffer.simps [of E r c])
    next
      case (Inr rows)
      note s = Next_stock [OF n [unfolded Inr] "1.prems"(3)]
      show ?thesis
      proof (cases "rows = []")
        case empty: True
        then have "r' = r" "c' = c\<lparr>dConn := k\<rparr>" using "1.prems"(1) True n Inr by (auto simp: fillBuffer.simps [of E r c])
        then show ?thesis using s empty by simp
      next
        case False
        let ?r1 = "r\<lparr>buffered := buffered r @ rows,
          bufferedBytes := (if 0 < rdBatchBytes r then bufferedBytes r + rowsBytes rows else bufferedBytes r)\<rparr>"
        have step: "fillBuffer E ?r1 (c\<lparr>dConn := k\<rparr>) = (r', c')"
          using "1.prems"(1) True n Inr False by (simp add: fillBuffer.simps [of E r c])
        have "rdErr ?r1 = None" "rdQuery ?r1 < length (queries (dConn (c\<lparr>dConn := k\<rparr>)))" using "1.prems" s by simp_all
        from "1.IH" [OF True n [symmetric] Inr False step this "1.prems"(4)]
        show ?thesis using s False by auto
      qed
    qed
  qed
qed

lemma Reader_Next_stock:
  assumes "Reader_Next E r c = (True, r', c')" "live r" "rdQuery r < length (queries (dConn c))"
  shows "live r' \<and> rdQuery r' = rdQuery r \<and> rdQuery r' < length (queries (dConn c'))
    \<and> (stock (rdQuery r) (dConn c') < stock (rdQuery r) (dConn c)
       \<or> stock (rdQuery r) (dConn c') \<le> stock (rdQuery r) (dConn c) \<and> length (buffered r') < length (buffered r))"
proof -
  let ?r0 = "r\<lparr>rdCurrent := None\<rparr>"
  have ok: "reader_ok ?r0" "rdErr ?r0 = None" using assms(2) by (auto simp: live_def reader_ok_def)
  obtain r1 c1 where f: "fillBuffer E ?r0 c = (r1, c1)" by fastforce
  have run: "rdErr r1 = None \<and> buffered r1 \<noteq> [] \<and> c' = c1 \<and> (\<exists>rows r2 rec. cutBatch r1 = (rows, r2) \<and> r' = r2\<lparr>rdCurrent := Some rec\<rparr>)"
    using assms(1,2) f by (auto simp: Reader_Next_def takeRows_def live_def split: if_splits prod.splits option.splits sum.splits)
  then obtain rows r2 rec where cut: "cutBatch r1 = (rows, r2)" "r' = r2\<lparr>rdCurrent := Some rec\<rparr>" by blast
  have r1: "reader_ok r1" "same_reader ?r0 r1" using fillBuffer_spec [OF f ok] by blast+
  have b: "buffered r1 = rows @ buffered r2" "rows \<noteq> []" "reader_ok r2" "same_reader r1 r2" "rdErr r2 = rdErr r1"
    using cutBatch_spec [OF cut(1) r1(1)] run by (auto simp: batch_ok_def)
  have "rdQuery ?r0 < length (queries (dConn c))" "rdErr r1 = None" using assms(3) run by simp_all
  note s = fillBuffer_stock [OF f ok(2) this]
  have "live r'" using b r1 run cut(2) assms(2) by (auto simp: live_def reader_ok_def same_reader_def)
  moreover have "length (buffered r') < length (buffered r1)" using b cut(2) by simp
  moreover have "rdQuery r' = rdQuery r" "c' = c1" using b(4) r1(2) cut(2) run by (simp_all add: same_reader_def)
  ultimately show ?thesis using s assms(3) by auto
qed

lemma drain_ends:
  "live r \<Longrightarrow> rdQuery r < length (queries (dConn c)) \<Longrightarrow> \<exists>x. drain E r c = Some x"
proof (induction "(stock (rdQuery r) (dConn c), length (buffered r))" arbitrary: r c
    rule: wf_induct_rule [OF wf_lex_prod [OF wf_less wf_less]])
  case 1
  obtain more1 r1 c1 where n: "Reader_Next E r c = (more1, r1, c1)" by (cases "Reader_Next E r c") auto
  show ?case
  proof (cases more1)
    case False
    then show ?thesis using n by (simp add: drain.simps [of E r c])
  next
    case True
    have "live r1 \<and> rdQuery r1 = rdQuery r \<and> rdQuery r1 < length (queries (dConn c1))
      \<and> (stock (rdQuery r) (dConn c1) < stock (rdQuery r) (dConn c)
         \<or> stock (rdQuery r) (dConn c1) \<le> stock (rdQuery r) (dConn c) \<and> length (buffered r1) < length (buffered r))"
      using Reader_Next_stock [of E r c r1 c1] n True "1.prems" by simp
    then have "\<exists>x. drain E r1 c1 = Some x" by (intro "1.hyps") auto
    then show ?thesis using n True by (auto simp: drain.simps [of E r c])
  qed
qed

lemma batch_valid: "0 < batchSize cf \<Longrightarrow> 0 \<le> batchBytes cf \<Longrightarrow> dCfg c = cf \<Longrightarrow> live (newStreamingRecordReader c q (batchSize (dCfg c)))"
  by (simp add: newStreamingRecordReader_def live_def reader_ok_def)

section \<open>What ingest and bound execution keep\<close>

context session_frame
begin

lemma fetch_kept: "Next i (dConn c) = (x, k) \<Longrightarrow> R c (c\<lparr>dConn := k\<rparr>)"
  by (rule call) (rule keepsD; (intro keeps_intros | assumption))+

lemma fillBuffer_kept: "fillBuffer E r c = (r', c') \<Longrightarrow> R c c'"
proof (induction E r c rule: fillBuffer.induct)
  case (1 E r c)
  show ?case
  proof (cases "int (length (buffered r)) < rdBatchSize r \<and> (rdBatchBytes r = 0 \<or> bufferedBytes r < rdBatchBytes r)")
    case False
    then have "c' = c" using "1.prems" by (auto simp: fillBuffer.simps [of E r c])
    then show ?thesis by (simp add: refl)
  next
    case True
    obtain x k where n: "Next (rdQuery r) (dConn c) = (x, k)" by fastforce
    show ?thesis
    proof (cases "isl x \<or> projr x = []")
      case stop: True
      then have "c' = c\<lparr>dConn := k\<rparr>" using "1.prems" True n by (cases x) (auto simp: fillBuffer.simps [of E r c])
      then show ?thesis using fetch_kept [OF n] by simp
    next
      case False
      then obtain rows where x: "x = Inr rows" "rows \<noteq> []" by (cases x) auto
      have "R (c\<lparr>dConn := k\<rparr>) c'"
        using "1.IH" [OF True n [symmetric] x] "1.prems" True n x by (simp add: fillBuffer.simps [of E r c])
      then show ?thesis using trans fetch_kept [OF n] by blast
    qed
  qed
qed

lemma closeReader_kept: "closeReader r c = (r', c') \<Longrightarrow> R c c'"
proof -
  have "dkeeps R (dthen (ignoring (Query_Close (rdQuery r))) (\<lambda>_. queryFinished))" by (intro operations)
  then have "R c (snd (dthen (ignoring (Query_Close (rdQuery r))) (\<lambda>_. queryFinished) c))"
    by (rule dkeepsD) (rule prod.collapse [symmetric])
  then show "closeReader r c = (r', c') \<Longrightarrow> R c c'" by (auto simp: closeReader_def refl split: if_splits)
qed

lemma Reader_Next_kept: "Reader_Next E r c = (b, r', c') \<Longrightarrow> R c c'"
  using fillBuffer_kept closeReader_kept trans
  by (auto simp: Reader_Next_def takeRows_def refl split: if_splits prod.splits option.splits sum.splits) metis+

lemma Release_kept: "Release r c = (r', c') \<Longrightarrow> R c c'"
  by (auto simp: Release_def Let_def refl split: if_splits intro: closeReader_kept)

lemma drain_kept: "drain E r c = Some y \<Longrightarrow> R c (snd (snd y))"
proof (erule drain.raw_induct [rotated])
  fix dr E r c y
  assume IH: "\<And>E r c y. dr E r c = Some y \<Longrightarrow> R c (snd (snd y))"
    and body: "(case Reader_Next E r c of (ok1, r1, c1) \<Rightarrow>
       if ok1 then Option.bind (dr E r1 c1) (\<lambda>(recs, r2, c2).
         Some ((case rdCurrent r1 of Some rec \<Rightarrow> [rec] | None \<Rightarrow> []) @ recs, r2, c2)) else Some ([], r1, c1)) = Some y"
  obtain b r1 c1 where n: "Reader_Next E r c = (b, r1, c1)" by (cases "Reader_Next E r c") auto
  show "R c (snd (snd y))"
  proof (cases b)
    case True
    then obtain recs r2 c2 where d: "dr E r1 c1 = Some (recs, r2, c2)" "snd (snd y) = c2"
      using body n by (auto split: Option.bind_splits)
    then have "R c1 c2" using IH [OF d(1)] by simp
    then show ?thesis using trans Reader_Next_kept [OF n] d(2) by blast
  next
    case False
    then show ?thesis using body n Reader_Next_kept [OF n] by auto
  qed
qed

lemma drainQuery_kept: "dkeeps R (drainQuery E q)"
  by (rule dkeepsI)
     (auto simp: drainQuery_def Let_def refl split: option.splits prod.splits intro: trans dest!: drain_kept Release_kept)

lemma execBatch_kept: "dkeeps R (execBatch E ps rows)"
  unfolding execBatch_def by (intro operations)

lemma pumpRows_kept: "dkeeps R (pumpRows E ps b off rows acc)"
proof (induction E ps b off rows acc rule: pumpRows.induct)
  case (1 E ps b off rows acc)
  then show ?case by (subst pumpRows.simps) (auto simp: Let_def intro!: operations execBatch_kept)
qed

lemma rowsOf_kept: "dkeeps R (rowsOf E msg rec)"
  unfolding rowsOf_def by (intro combinators)

lemma pumpRecords_kept: "dkeeps R (pumpRecords E ps b recs acc)"
  by (induction recs arbitrary: acc) (auto intro!: operations rowsOf_kept pumpRows_kept)

lemma targetExists_kept: "dkeeps R (targetExists E s)"
  unfolding targetExists_def by (intro catalog currentSchema_kept)

lemma prepare_kept:
  "dkeeps R (prepareIngestTarget E s schema sample)" "dkeeps R (firstRecord s)" "dkeeps R (prepareInsert E sql)"
  "dkeeps R (prepareBound E s sch)"
  unfolding prepareIngestTarget_def firstRecord_def prepareInsert_def prepareBound_def Let_def
  by (intro catalog targetExists_kept)+

lemma executeIngest_kept: "dkeeps R (executeIngest E s)"
  unfolding executeIngest_def Let_def by (intro catalog prepare_kept pumpRecords_kept)

lemma updateRows_kept: "dkeeps R (updateRows E ps rows acc)"
proof (induction E ps rows acc rule: updateRows.induct)
  case (1 E ps rows acc)
  then show ?case by (subst updateRows.simps) (auto intro!: operations execBatch_kept)
qed

lemma boundRows_kept: "dkeeps R (boundRows E s)"
proof -
  have "dkeeps R (recordsRows E recs)" for recs by (induction recs) (auto intro!: operations rowsOf_kept)
  then show ?thesis unfolding boundRows_def by (intro combinators)
qed

lemma queryRows_kept: "dkeeps R (queryRows E ps rows)"
  by (induction rows) (auto intro!: operations drainQuery_kept)

lemma bound_kept: "dkeeps R (executeBoundUpdate E s)" "dkeeps R (executeBoundQuery E s)"
  unfolding executeBoundUpdate_def executeBoundQuery_def newRecordReader_def
  by (intro catalog boundRows_kept prepare_kept updateRows_kept queryRows_kept)+

end

section \<open>Every row is sent once, in order\<close>

text \<open>Batches executed one after another, with the row counts the server reported.\<close>

inductive batches_run ::
  "env \<Rightarrow> ParamStatement \<Rightarrow> connectionImpl \<Rightarrow> Value list list list \<Rightarrow> int list \<Rightarrow> connectionImpl \<Rightarrow> bool" where
  none: "batches_run E ps c [] [] c"
| step: "execBatch E ps b c = (Inr k, c1) \<Longrightarrow> batches_run E ps c1 bs ks c2 \<Longrightarrow> batches_run E ps c (b # bs) (k # ks) c2"

inductive_cases batches_run_ConsE: "batches_run E ps c (b # bs) ks c2"

definition ingest_batch :: "int \<Rightarrow> Value list list \<Rightarrow> bool" where
  "ingest_batch limit b \<longleftrightarrow> b \<noteq> [] \<and> int (length b) \<le> limit \<and> (length b = 1 \<or> approxRowBytes b \<le> ingestBatchBytes)"

lemma shrinkBatch_facts:
  "0 < n \<Longrightarrow> 0 < shrinkBatch rows n \<and> shrinkBatch rows n \<le> n
     \<and> (shrinkBatch rows n = 1 \<or> approxRowBytes (take (shrinkBatch rows n) rows) \<le> ingestBatchBytes)"
proof (induction rows n rule: shrinkBatch.induct)
  case (1 rows n)
  show ?case
  proof (cases "1 < n \<and> ingestBatchBytes < approxRowBytes (take n rows)")
    case True
    then have "shrinkBatch rows n = shrinkBatch rows (n div 2)" "0 < n div 2" by (auto simp: shrinkBatch.simps [of rows n])
    then show ?thesis using "1.IH" [OF True] by (auto intro: le_trans [OF _ div_le_dividend])
  next
    case False
    then show ?thesis using "1.prems" by (auto simp: shrinkBatch.simps [of rows n])
  qed
qed

lemma batches_run_append:
  "batches_run E ps c as ks c1 \<Longrightarrow> batches_run E ps c1 bs ls c2 \<Longrightarrow> batches_run E ps c (as @ bs) (ks @ ls) c2"
  by (induction rule: batches_run.induct) (auto intro: batches_run.step)

text \<open>Sums of counts wrap like int64.\<close>

definition wrapped_sum :: "int \<Rightarrow> int list \<Rightarrow> int" where
  "wrapped_sum acc ks = fold (\<lambda>k a. int64 (a + k)) ks acc"

lemma pumpRows_batches:
  assumes "pumpRows E ps limit off rows acc c = (Inr n, c')" "0 < limit"
  shows "\<exists>bs ks. batches_run E ps c bs ks c' \<and> concat bs = rows \<and> list_all (ingest_batch limit) bs \<and> n = wrapped_sum acc ks"
  using assms
proof (induction E ps limit off rows acc arbitrary: c rule: pumpRows.induct)
  case (1 E ps limit off rows acc)
  show ?case
  proof (cases "rows = []")
    case True
    then have "n = acc" "c' = c" using "1.prems" by (simp_all add: pumpRows.simps [of E ps limit off "[]" acc] dok_def)
    then show ?thesis using True by (intro exI [of _ "[]"]) (auto simp: wrapped_sum_def intro: batches_run.none)
  next
    case False
    let ?m = "min (nat limit) (length rows)" and ?n = "shrinkBatch rows (min (nat limit) (length rows))"
    have nowrap: "\<not> 2 ^ 63 \<le> off + limit"
      using "1.prems" False by (auto simp: pumpRows.simps [of E ps limit off rows acc] dfail_def)
    have m: "0 < ?m" using False "1.prems"(2) by auto
    note sh = shrinkBatch_facts [OF m, of rows]
    obtain k c1 where b: "execBatch E ps (take ?n rows) c = (Inr k, c1)"
      and r: "pumpRows E ps limit (off + int ?n) (drop ?n rows) (int64 (acc + k)) c1 = (Inr n, c')"
      using "1.prems" False nowrap sh
      by (auto simp: pumpRows.simps [of E ps limit off rows acc] Let_def elim!: dthen_cases)
    from "1.IH" [OF False nowrap HOL.refl _ r "1.prems"(2)] sh obtain bs ks where
      IH: "batches_run E ps c1 bs ks c'" "concat bs = drop ?n rows" "list_all (ingest_batch limit) bs"
        "n = wrapped_sum (int64 (acc + k)) ks" by auto
    have "ingest_batch limit (take ?n rows)"
      using sh False "1.prems"(2) m by (auto simp: ingest_batch_def min_def split: if_splits)
    then show ?thesis
      using IH b by (intro exI [of _ "take ?n rows # bs"] exI [of _ "k # ks"])
        (auto simp: wrapped_sum_def intro: batches_run.step)
  qed
qed

lemma rowsOf_Inr: "rowsOf E msg rec c = (Inr rows, c') \<Longrightarrow> recordRows (eArrow E) rec = Inr rows \<and> c' = c"
  by (auto simp: rowsOf_def dok_def dfail_def split: sum.splits if_splits)

lemma pumpRecords_batches:
  assumes "pumpRecords E ps limit recs acc c = (Inr n, c')" "0 < limit"
  shows "\<exists>bs ks rowss. batches_run E ps c bs ks c' \<and> list_all2 (\<lambda>rec rows. recordRows (eArrow E) rec = Inr rows) recs rowss
    \<and> concat bs = concat rowss \<and> list_all (ingest_batch limit) bs \<and> n = wrapped_sum acc ks"
  using assms
proof (induction recs arbitrary: acc c)
  case Nil
  then show ?case
    by (intro exI [of _ "[]"]) (auto simp: dok_def wrapped_sum_def intro: batches_run.none)
next
  case (Cons rec recs)
  obtain rows n1 c1 where r: "recordRows (eArrow E) rec = Inr rows" and p: "pumpRows E ps limit 0 rows acc c = (Inr n1, c1)"
    and q: "pumpRecords E ps limit recs n1 c1 = (Inr n, c')"
    using Cons.prems(1) by (auto elim!: dthen_cases dest!: rowsOf_Inr)
  obtain bs ks where b: "batches_run E ps c bs ks c1" "concat bs = rows" "list_all (ingest_batch limit) bs" "n1 = wrapped_sum acc ks"
    using pumpRows_batches [OF p Cons.prems(2)] by blast
  obtain bs' ks' rowss where b': "batches_run E ps c1 bs' ks' c'"
    "list_all2 (\<lambda>rec rows. recordRows (eArrow E) rec = Inr rows) recs rowss" "concat bs' = concat rowss"
    "list_all (ingest_batch limit) bs'" "n = wrapped_sum n1 ks'"
    using Cons.IH [OF q Cons.prems(2)] by blast
  show ?case
    using b b' r batches_run_append [OF b(1) b'(1)]
    by (intro exI [of _ "bs @ bs'"] exI [of _ "ks @ ks'"] exI [of _ "rows # rowss"]) (simp add: wrapped_sum_def)
qed

text \<open>The records that are bound.\<close>

definition boundRecords :: "statementImpl \<Rightarrow> Record list" where
  "boundRecords s =
     (case bound s of Some rec \<Rightarrow> [rec] | None \<Rightarrow> (case boundStream s of Some st \<Rightarrow> bsRecords st | None \<Rightarrow> []))"

definition row_limit :: "statementImpl \<Rightarrow> int" where
  "row_limit s = (if ingestBatchRows s \<le> 0 then defaultIngestBatchRows else ingestBatchRows s)"

lemma firstRecord_records:
  assumes "firstRecord s c = (Inr (first, later), c')" "bound s = None \<or> boundStream s = None"
  shows "ingestRecords s first later = boundRecords s \<and> c' = c"
  using assms
  by (auto simp: firstRecord_def ingestRecords_def boundRecords_def dok_def dfail_def Let_def split: option.splits list.splits)

lemma prepareInsert_sql: "prepareInsert E sql c = (Inr ps, c') \<Longrightarrow> psSql ps = sql"
  by (auto simp: prepareInsert_def PrepareParams_def raw_def dok_def dfail_def andthen_def ok_def
      elim!: dthen_cases split: sum.splits prod.splits option.splits if_splits)

lemma ends_execBatch: "ends (execBatch E ps rows)"
  unfolding execBatch_def by (intro ends_steps ends_intros(2)) simp

lemma pumpRows_ends: "0 < limit \<Longrightarrow> ends (pumpRows E ps limit off rows acc)"
proof (induction E ps limit off rows acc rule: pumpRows.induct)
  case (1 E ps limit off rows acc)
  have "rows \<noteq> [] \<Longrightarrow> 0 < shrinkBatch rows (min (nat limit) (length rows))"
    using shrinkBatch_facts [of "min (nat limit) (length rows)" rows] "1.prems" by auto
  then show ?case
    using 1 by (subst pumpRows.simps) (auto simp: Let_def intro!: ends_steps ends_execBatch ends_intros(2))
qed

lemma errStatus_ends [simp]: "errStatus code msg \<noteq> Diverges"
  by (simp add: errStatus_def)

lemma ends_rowsOf: "ends (rowsOf E msg rec)"
  unfolding rowsOf_def by (intro ends_steps ends_intros(2)) simp_all

lemma pumpRecords_ends: "0 < limit \<Longrightarrow> ends (pumpRecords E ps limit recs acc)"
  by (induction recs arbitrary: acc) (auto intro!: ends_steps ends_rowsOf pumpRows_ends)

lemma ends_targetExists: "ends (targetExists E s)"
  unfolding targetExists_def by (intro ends_steps ends_currentSchema ends_intros(2)) simp

lemma ends_prepare:
  "ends (prepareIngestTarget E s schema sample)" "ends (firstRecord s)" "ends (prepareInsert E sql)" "ends (prepareBound E s sch)"
proof -
  show "ends (prepareIngestTarget E s schema sample)"
    unfolding prepareIngestTarget_def Let_def by (intro ends_steps ends_targetExists ends_intros(2)) simp_all
  show "ends (firstRecord s)" unfolding firstRecord_def Let_def by (intro ends_steps ends_intros(2)) simp_all
  show "ends (prepareInsert E sql)" unfolding prepareInsert_def by (intro ends_steps ends_intros(2)) simp_all
  show "ends (prepareBound E s sch)" unfolding prepareBound_def by (intro ends_steps ends_intros(2)) simp_all
qed

lemma ends_executeIngest: "ends (executeIngest E s)"
  unfolding executeIngest_def Let_def
  by (intro ends_steps ends_prepare pumpRecords_ends ends_intros(2)) simp_all


definition sample_empty :: Record where
  "sample_empty = \<lparr>recSchema = [], recColumns = [], recNumRows = 0\<rparr>"

definition sample_statement :: statementImpl where
  "sample_statement =
     \<lparr>stSql = '''', targetTable = ''T'', targetSchema = '''', ingestMode = IngestModeAppend, ingestTemporary = False,
      ingestVarcharLength = 0, ingestBatchRows = 0, stClosed = False, bound = Some sample_empty, boundStream = None\<rparr>"


section \<open>The INSERT has one marker per column\<close>

definition plain_token :: "token \<Rightarrow> bool" where
  "plain_token t =
     (case t of
        Other c \<Rightarrow> c \<notin> {quote, dquote, CHR ''?'', CHR ''-'', CHR ''/''}
      | Ident s \<Rightarrow> dquote \<notin> set s
      | Marker \<Rightarrow> True
      | _ \<Rightarrow> False)"

lemma tokens_ok_plain: "list_all plain_token ts \<Longrightarrow> tokens_ok ts"
  by (induction ts) (auto simp: plain_token_def HasPrefix_def split: token.splits)

definition ident_tokens :: "string \<Rightarrow> token list" where
  "ident_tokens s = map Ident (split_on dquote s)"

lemma sql_text_append [simp]: "sql_text (as @ bs) = sql_text as @ sql_text bs"
  by (simp add: sql_text_def)

lemma sql_text_Other [simp]: "sql_text (map Other s) = s"
  by (induction s) simp_all

lemma sql_text_ident: "sql_text (ident_tokens s) = quoteIdent s"
proof -
  have "sql_text (map Ident (split_on dquote s)) = [dquote] @ double_char dquote s @ [dquote]"
  proof (induction s)
    case (Cons c s)
    show ?case
    proof (cases "split_on dquote s")
      case Nil
      then show ?thesis by simp
    next
      case (Cons p ps)
      then show ?thesis using Cons.IH by simp
    qed
  qed simp
  then show ?thesis by (simp add: ident_tokens_def quoteIdent_def)
qed

definition joined :: "token list list \<Rightarrow> token list" where
  "joined tss = join_with (map Other '', '') tss"

lemma sql_text_joined: "sql_text (joined tss) = join_with '', '' (map sql_text tss)"
  unfolding joined_def
proof (induction tss rule: induct_list012)
  case (3 p q ps)
  have "sql_text (map Other '', '') = '', ''" by simp
  then show ?case using 3 by simp
qed simp_all

lemma list_all_joined: "list_all (list_all P) tss \<Longrightarrow> list_all P (map Other '', '') \<Longrightarrow> list_all P (joined tss)"
  unfolding joined_def by (induction tss rule: induct_list012) auto

definition markers :: "token list \<Rightarrow> nat" where
  "markers ts = length (filter (\<lambda>t. t = Marker) ts)"

lemma markers_simps [simp]:
  "markers [] = 0" "markers (t # ts) = (if t = Marker then 1 else 0) + markers ts" "markers (as @ bs) = markers as + markers bs"
  "markers (map Other s) = 0" "markers (map Ident ss) = 0"
  by (auto simp: markers_def filter_empty_conv)

lemma markers_join: "markers sep = 0 \<Longrightarrow> markers (join_with sep tss) = sum_list (map markers tss)"
  by (induction tss rule: induct_list012) simp_all

lemma markers_joined: "markers (joined tss) = sum_list (map markers tss)"
  unfolding joined_def by (rule markers_join) simp

definition target_tokens :: "statementImpl \<Rightarrow> token list" where
  "target_tokens s =
     (if ingestTemporary s then map Other ''SESSION.'' @ ident_tokens (targetTable s)
      else if targetSchema s \<noteq> '''' then ident_tokens (targetSchema s) @ [Other (CHR ''.'')] @ ident_tokens (targetTable s)
      else ident_tokens (targetTable s))"

definition insert_tokens :: "statementImpl \<Rightarrow> Field list \<Rightarrow> token list" where
  "insert_tokens s schema =
     map Other ''INSERT INTO '' @ target_tokens s @ map Other '' (''
       @ joined (map (\<lambda>f. ident_tokens (afName f)) schema) @ map Other '') VALUES (''
       @ joined (map (\<lambda>f. [Marker]) schema) @ map Other '')''"

lemma split_on_parts: "p \<in> set (split_on x s) \<Longrightarrow> x \<notin> set p"
  by (induction s arbitrary: p) (auto split: if_splits list.splits)

lemma plain_ident: "list_all plain_token (ident_tokens s)"
  by (auto simp: ident_tokens_def plain_token_def list_all_iff dest: split_on_parts)

lemma plain_insert: "list_all plain_token (insert_tokens s schema)"
proof -
  have "list_all plain_token (map Other '', '')" "list_all plain_token [Marker]" by (simp_all add: plain_token_def)
  then have "list_all plain_token (joined (map (\<lambda>f. ident_tokens (afName f)) schema))"
    "list_all plain_token (joined (map (\<lambda>f. [Marker]) schema))"
    using plain_ident by (auto intro!: list_all_joined simp: list.pred_map o_def list.pred_True)
  moreover have "list_all plain_token (target_tokens s)"
    using plain_ident by (auto simp: target_tokens_def plain_token_def)
  ultimately show ?thesis by (simp add: insert_tokens_def plain_token_def)
qed

text \<open>
  The INSERT of an ingest binds one parameter per column.  Whatever the table, schema and
  column names contain, the statement is well-formed SQL text whose parameter markers, outside
  quoted names, are exactly one per field of the schema.
\<close>

theorem insert_markers:
  "\<exists>ts. tokens_ok ts \<and> sql_text ts = buildInsertSQL (ingestTarget s) schema \<and> markers ts = length schema"
proof (intro exI conjI)
  show "tokens_ok (insert_tokens s schema)" by (rule tokens_ok_plain [OF plain_insert])
  have target: "sql_text (target_tokens s) = ingestTarget s"
    by (simp add: target_tokens_def ingestTarget_def sql_text_ident del: list.map)
  show "sql_text (insert_tokens s schema) = buildInsertSQL (ingestTarget s) schema"
    by (simp only: insert_tokens_def buildInsertSQL_def sql_text_append sql_text_Other sql_text_joined target map_map o_def sql_text_ident)
       simp
  have "markers (ident_tokens x) = 0" for x by (simp add: ident_tokens_def)
  then show "markers (insert_tokens s schema) = length schema"
    by (simp add: insert_tokens_def markers_joined o_def target_tokens_def sum_list_triv del: list.map(2))
qed

section \<open>The declared lengths fit the sample\<close>

definition byte_len :: "Value \<Rightarrow> int" where
  "byte_len v = (case v of VString s \<Rightarrow> int (length s) | VBytes b \<Rightarrow> int (length b) | _ \<Rightarrow> 0)"

lemma byte_len_simps [simp]:
  "byte_len (VString s) = int (length s)" "byte_len (VBytes b) = int (length b)" "byte_len VNil = 0" "byte_len (VBool x) = 0"
  "byte_len (VInt16 a) = 0" "byte_len (VInt32 e) = 0" "byte_len (VInt64 f) = 0" "byte_len (VDecimal g) = 0" "byte_len (VFloat32 h) = 0"
  "byte_len (VFloat64 i) = 0" "byte_len (VDate j) = 0" "byte_len (VTime k) = 0" "byte_len (VTimestamp l) = 0"
  by (simp_all add: byte_len_def)

fun fixed_width :: "arrow_array \<Rightarrow> bool" where
  "fixed_width (FixedSizeBinaryA w xs) = True"
| "fixed_width (DictionaryA dict is) = fixed_width dict"
| "fixed_width _ = False"

lemma longest_ge: "Some a \<in> set xs \<Longrightarrow> int (len a) \<le> longest len xs"
proof -
  have mono: "m \<le> fold (\<lambda>x m. max m (case x of None \<Rightarrow> 0 | Some a \<Rightarrow> len a)) xs m" for m :: nat and xs
    by (induction xs arbitrary: m) (auto intro: order_trans [OF max.cobounded1])
  have "Some a \<in> set xs \<Longrightarrow> len a \<le> fold (\<lambda>x m. max m (case x of None \<Rightarrow> 0 | Some a \<Rightarrow> len a)) xs m" for m
    by (induction xs arbitrary: m) (auto intro: order_trans [OF _ mono])
  then show "Some a \<in> set xs \<Longrightarrow> int (len a) \<le> longest len xs" by (simp add: longest_def)
qed

lemma longest_nonneg: "0 \<le> longest len xs"
  by (simp add: longest_def)

lemma byte_len_slots:
  "(\<And>a. byte_len (f a) = int (len a)) \<Longrightarrow> list_all (\<lambda>v. byte_len v \<le> longest len xs) (slots f xs)"
  "(\<And>a. byte_len (g a) = 0) \<Longrightarrow> list_all (\<lambda>v. byte_len v \<le> 0) (slots g ys)"
  by (auto simp: slots_def list_all_iff longest_ge longest_nonneg split: option.splits)

lemma list_all_replicate: "P x \<Longrightarrow> list_all P (replicate n x)"
  by (simp add: list_all_iff)

lemma dictSlots_values: "dictSlots vals is = Inr vs \<Longrightarrow> set vs \<subseteq> insert VNil (set vals)"
  by (induction vals "is" arbitrary: vs rule: dictSlots.induct) (fastforce split: if_splits sum.splits)+

lemma byte_len_column:
  "columnValues A col = Inr vs \<Longrightarrow> \<not> fixed_width col \<Longrightarrow> 0 \<le> maxValueLength col \<and> list_all (\<lambda>v. byte_len v \<le> maxValueLength col) vs"
proof (induction A col arbitrary: vs rule: columnValues.induct)
  case (1 A dict "is")
  then obtain vals where v: "columnValues A dict = Inr vals" "dictSlots vals is = Inr vs" by (auto split: sum.splits)
  have nil: "byte_len VNil = 0" by (simp add: byte_len_def)
  show ?case using 1 v dictSlots_values [OF v(2)] by (auto simp: list_all_iff nil)
qed (auto simp: longest_nonneg Let_def list_all_replicate intro!: byte_len_slots)

text \<open>
  The length declared for a column of a new table is between 64 and 32672, and every text or
  binary value of the sampled column that fits a VARCHAR at all fits the declared length.
\<close>

theorem varchar_fits:
  "i < length (recColumns rec) \<and> fixed \<le> 0 \<and> columnValues A (recColumns rec ! i) = Inr vs \<and> \<not> fixed_width (recColumns rec ! i) \<longrightarrow>
     64 \<le> varcharLength (Some rec) fixed i \<and> varcharLength (Some rec) fixed i \<le> maxVarcharLength
     \<and> list_all (\<lambda>v. byte_len v \<le> varcharLength (Some rec) fixed i \<or> maxVarcharLength < byte_len v) vs"
proof (intro impI conjI)
  assume a: "i < length (recColumns rec) \<and> fixed \<le> 0 \<and> columnValues A (recColumns rec ! i) = Inr vs \<and> \<not> fixed_width (recColumns rec ! i)"
  then have "list_all (\<lambda>v. byte_len v \<le> maxValueLength (recColumns rec ! i)) vs" "0 \<le> maxValueLength (recColumns rec ! i)"
    using byte_len_column by blast+
  then show "list_all (\<lambda>v. byte_len v \<le> varcharLength (Some rec) fixed i \<or> maxVarcharLength < byte_len v) vs"
    using a by (auto simp: varcharLength_def Let_def list_all_iff)
qed (auto simp: varcharLength_def Let_def)

definition sample_text :: Record where
  "sample_text = \<lparr>recSchema = [sample_field], recColumns = [StringA [Some (replicate 40 CHR ''x''), None]], recNumRows = 2\<rparr>"

theorem varchar_fits_witness:
  "\<forall>A. 64 \<le> varcharLength (Some sample_text) 0 0
     \<and> list_all (\<lambda>v. byte_len v \<le> varcharLength (Some sample_text) 0 0 \<or> maxVarcharLength < byte_len v)
         (slots VString [Some (replicate 40 CHR ''x''), None])"
proof
  fix A
  show "64 \<le> varcharLength (Some sample_text) 0 0
     \<and> list_all (\<lambda>v. byte_len v \<le> varcharLength (Some sample_text) 0 0 \<or> maxVarcharLength < byte_len v)
         (slots VString [Some (replicate 40 CHR ''x''), None])"
    using varchar_fits [of 0 sample_text 0 A "slots VString [Some (replicate 40 CHR ''x''), None]"]
    by (simp add: sample_text_def)
qed

end
