(* ===== verification/Db2_Options.thy ===== *)
theory Db2_Options
  imports Db2_Meta "HOL-Library.Multiset"
begin

text \<open>
  Connection options (\<^verbatim>\<open>driver/db2/options.go\<close>): the URI and the explicit options are merged into
  the configuration.  A Go map is the list of its entries in the order the iteration happens to
  take; keys are distinct.  Parsing a URL or a duration and reading the CA file are arguments,
  the record \<open>opt_lib\<close>.

  Every accepted entry is a \<open>setting\<close>; settings of different kinds commute.  Results: the order
  in which Go iterates over the options does not matter, with the exception of \<^verbatim>\<open>trace\<close> and
  \<^verbatim>\<open>trace_file\<close> given together; explicit options override the URI; a resolved configuration has a
  host, a database, a user, a port and a positive batch size.
\<close>

section \<open>The libraries\<close>

record URL =
  uScheme :: string
  uHost :: string
  uUser :: "(string \<times> string option) option"
  uPath :: string
  uQuery :: "(string \<times> string list) list"

record opt_lib =
  urlParse :: "string \<Rightarrow> string + URL"
  parseDuration :: "string \<Rightarrow> string + int"
  readFile :: "string \<Rightarrow> string + string"
  certsFromPEM :: "string \<Rightarrow> bool"

fun lastIndexByte :: "char \<Rightarrow> string \<Rightarrow> nat option" where
  "lastIndexByte c [] = None"
| "lastIndexByte c (x # xs) =
     (case lastIndexByte c xs of Some i \<Rightarrow> Some (i + 1) | None \<Rightarrow> if x = c then Some 0 else None)"

text \<open>\<^verbatim>\<open>net.SplitHostPort\<close>; its errors are not told apart.\<close>

definition SplitHostPort :: "string \<Rightarrow> (string \<times> string) option" where
  "SplitHostPort hp =
     (case lastIndexByte (CHR '':'') hp of
        None \<Rightarrow> None
      | Some i \<Rightarrow>
          if hd hp = CHR ''['' then
            (case IndexByte hp (CHR '']'') of
               None \<Rightarrow> None
             | Some e \<Rightarrow>
                 if e + 1 \<noteq> i \<or> CHR ''['' \<in> set (drop 1 hp) \<or> CHR '']'' \<in> set (drop (e + 1) hp) then None
                 else Some (take (e - 1) (drop 1 hp), drop (i + 1) hp))
          else if CHR '':'' \<in> set (take i hp) \<or> CHR ''['' \<in> set hp \<or> CHR '']'' \<in> set hp then None
          else Some (take i hp, drop (i + 1) hp))"

text \<open>\<^verbatim>\<open>strings.Cut(v, ".")\<close>.\<close>

definition cutDot :: "string \<Rightarrow> (string \<times> string) option" where
  "cutDot v = (case IndexByte v (CHR ''.'') of None \<Rightarrow> None | Some i \<Rightarrow> Some (take i v, drop (i + 1) v))"

section \<open>Values\<close>

definition isTrue :: "env \<Rightarrow> string \<Rightarrow> bool" where
  "isTrue E v \<longleftrightarrow> ToLower (eLower E) (TrimSpace v) \<in> {''1'', ''true'', ''yes'', ''on''}"

definition invalid :: "string \<Rightarrow> string list \<Rightarrow> driver_error" where
  "invalid fmt args = errStatus StatusInvalidArgument (Format fmt args)"

definition parseTimeout :: "opt_lib \<Rightarrow> string \<Rightarrow> driver_error + int" where
  "parseTimeout L v =
     (case Atoi v of
        Some n \<Rightarrow> Inr (int64 (n * 10 ^ 9))
      | None \<Rightarrow> (case parseDuration L v of Inl err \<Rightarrow> Inl (invalid ''db2: invalid timeout %q: %v'' [v, err]) | Inr d \<Rightarrow> Inr d))"

section \<open>Settings\<close>

datatype setting =
    NoSetting | SetUser string | SetPassword string | SetHost string | SetPort int | SetDatabase string
  | SetTLS bool | SetCACert string | SetSkipVerify bool | SetSecurityMechanism int | SetCurrentSchema string
  | SetQueryBlockSize int | SetConnectTimeout int | SetApplicationName string | SetBatchSize int | SetBatchBytes int
  | SetTrace bool bool | SetTraceFile string | SetPackage string string | SetNoAutoBind bool

record optState =
  osCfg :: connConfig
  tlsEnabled :: bool
  skipVerify :: bool
  caCert :: string

definition on_cfg :: "(connConfig \<Rightarrow> connConfig) \<Rightarrow> optState \<Rightarrow> optState" where
  "on_cfg f st = st\<lparr>osCfg := f (osCfg st)\<rparr>"

definition on_drda :: "(Config \<Rightarrow> Config) \<Rightarrow> optState \<Rightarrow> optState" where
  "on_drda f = on_cfg (\<lambda>cf. cf\<lparr>ccDrda := f (ccDrda cf)\<rparr>)"

fun applySetting :: "setting \<Rightarrow> optState \<Rightarrow> optState" where
  "applySetting NoSetting st = st"
| "applySetting (SetUser v) st = on_drda (\<lambda>d. d\<lparr>User := v\<rparr>) st"
| "applySetting (SetPassword v) st = on_drda (\<lambda>d. d\<lparr>Password := v\<rparr>) st"
| "applySetting (SetHost v) st = on_drda (\<lambda>d. d\<lparr>Host := v\<rparr>) st"
| "applySetting (SetPort p) st = on_drda (\<lambda>d. d\<lparr>Port := p\<rparr>) st"
| "applySetting (SetDatabase v) st = on_drda (\<lambda>d. d\<lparr>Database := v\<rparr>) st"
| "applySetting (SetTLS b) st = st\<lparr>tlsEnabled := b\<rparr>"
| "applySetting (SetCACert v) st = st\<lparr>caCert := v\<rparr>"
| "applySetting (SetSkipVerify b) st = st\<lparr>skipVerify := b\<rparr>"
| "applySetting (SetSecurityMechanism n) st = on_drda (\<lambda>d. d\<lparr>SecurityMechanism := word_of_int n\<rparr>) st"
| "applySetting (SetCurrentSchema v) st = on_drda (\<lambda>d. d\<lparr>CurrentSchema := v\<rparr>) st"
| "applySetting (SetQueryBlockSize n) st = on_drda (\<lambda>d. d\<lparr>QueryBlockSize := word_of_int n\<rparr>) st"
| "applySetting (SetConnectTimeout d) st = on_cfg (\<lambda>cf. cf\<lparr>ConnectTimeout := d\<rparr>) st"
| "applySetting (SetApplicationName v) st = on_drda (\<lambda>d. d\<lparr>ApplicationName := v\<rparr>) st"
| "applySetting (SetBatchSize n) st = on_cfg (\<lambda>cf. cf\<lparr>batchSize := n\<rparr>) st"
| "applySetting (SetBatchBytes n) st = on_cfg (\<lambda>cf. cf\<lparr>batchBytes := n\<rparr>) st"
| "applySetting (SetTrace b h) st = on_cfg (\<lambda>cf. cf\<lparr>trace := b, traceHex := h\<rparr>) st"
| "applySetting (SetTraceFile v) st = on_cfg (\<lambda>cf. cf\<lparr>traceFile := v, trace := True\<rparr>) st"
| "applySetting (SetPackage coll pkg) st = on_drda (\<lambda>d. d\<lparr>PackageCollection := coll, PackageID := pkg\<rparr>) st"
| "applySetting (SetNoAutoBind b) st = on_drda (\<lambda>d. d\<lparr>NoAutoBind := b\<rparr>) st"

definition number :: "(int \<Rightarrow> setting) \<Rightarrow> (int \<Rightarrow> bool) \<Rightarrow> driver_error \<Rightarrow> string \<Rightarrow> driver_error + setting" where
  "number f ok_value err v = (case Atoi v of Some n \<Rightarrow> if ok_value n then Inr (f n) else Inl err | None \<Rightarrow> Inl err)"

definition package :: "driver_error \<Rightarrow> string \<Rightarrow> driver_error + setting" where
  "package err v =
     (case cutDot v of
        Some (coll, pkg) \<Rightarrow> if coll = '''' \<or> pkg = '''' then Inl err else Inr (SetPackage coll pkg)
      | None \<Rightarrow> Inl err)"

definition timeout :: "opt_lib \<Rightarrow> string \<Rightarrow> driver_error + setting" where
  "timeout L v = (case parseTimeout L v of Inl e \<Rightarrow> Inl e | Inr d \<Rightarrow> Inr (SetConnectTimeout d))"

definition traceSetting :: "env \<Rightarrow> string \<Rightarrow> setting" where
  "traceSetting E v = SetTrace (isTrue E v \<or> EqualFold (eFold E) v ''hex'') (EqualFold (eFold E) v ''hex'')"

text \<open>A parameter of the URI.\<close>

definition uriSetting :: "env \<Rightarrow> opt_lib \<Rightarrow> string \<Rightarrow> string \<Rightarrow> driver_error + setting" where
  "uriSetting E L key v =
     (let k = ToLower (eLower E) key in
      if k \<in> {''tls'', ''ssl'', ''security''} then Inr (SetTLS (isTrue E v \<or> EqualFold (eFold E) v ''ssl''))
      else if k \<in> {''tls_ca_cert'', ''sslcertificate'', ''ca_cert''} then Inr (SetCACert v)
      else if k = ''tls_skip_verify'' then Inr (SetSkipVerify (isTrue E v))
      else if k \<in> {''secmec'', ''security_mechanism'', ''securitymechanism''} then
        number SetSecurityMechanism (\<lambda>n. True) (invalid ''db2: invalid security mechanism %q'' [v]) v
      else if k \<in> {''schema'', ''current_schema'', ''currentschema''} then Inr (SetCurrentSchema v)
      else if k \<in> {''query_block_size'', ''queryblocksize''} then
        number SetQueryBlockSize (\<lambda>n. True) (invalid ''db2: invalid query_block_size %q'' [v]) v
      else if k \<in> {''connect_timeout'', ''logintimeout''} then timeout L v
      else if k \<in> {''application_name'', ''applicationname'', ''clientapplicationinformation''} then Inr (SetApplicationName v)
      else if k = ''package'' then package (invalid ''db2: package must be COLLECTION.PKGID, got %q'' [v]) v
      else if k = ''trace'' then Inr (traceSetting E v)
      else if k = ''trace_file'' then Inr (SetTraceFile v)
      else if k = ''batch_size'' then number SetBatchSize (\<lambda>n. 0 < n) (invalid ''db2: invalid batch_size %q'' [v]) v
      else if k = ''batch_bytes'' then number SetBatchBytes (\<lambda>n. 0 \<le> n) (invalid ''db2: invalid batch_bytes %q'' [v]) v
      else if k \<in> {''user'', ''uid''} then Inr (SetUser v)
      else if k \<in> {''password'', ''pwd''} then Inr (SetPassword v)
      else Inl (invalid ''db2: unknown URI parameter %q'' [key]))"

section \<open>Options\<close>

abbreviation OptionURI :: string where "OptionURI \<equiv> ''uri''"
abbreviation OptionUsername :: string where "OptionUsername \<equiv> ''username''"
abbreviation OptionPassword :: string where "OptionPassword \<equiv> ''password''"
abbreviation OptionHost :: string where "OptionHost \<equiv> ''adbc.db2.host''"
abbreviation OptionPort :: string where "OptionPort \<equiv> ''adbc.db2.port''"
abbreviation OptionDatabase :: string where "OptionDatabase \<equiv> ''adbc.db2.database''"
abbreviation OptionTLS :: string where "OptionTLS \<equiv> ''adbc.db2.tls''"
abbreviation OptionTLSCACert :: string where "OptionTLSCACert \<equiv> ''adbc.db2.tls.ca_cert''"
abbreviation OptionTLSSkipVerify :: string where "OptionTLSSkipVerify \<equiv> ''adbc.db2.tls.skip_verify''"
abbreviation OptionSecurityMechanism :: string where "OptionSecurityMechanism \<equiv> ''adbc.db2.security_mechanism''"
abbreviation OptionSecurityMechanismActive :: string where "OptionSecurityMechanismActive \<equiv> ''adbc.db2.security_mechanism_active''"
abbreviation OptionCurrentSchema :: string where "OptionCurrentSchema \<equiv> ''adbc.db2.current_schema''"
abbreviation OptionQueryBlockSize :: string where "OptionQueryBlockSize \<equiv> ''adbc.db2.query_block_size''"
abbreviation OptionConnectTimeout :: string where "OptionConnectTimeout \<equiv> ''adbc.db2.connect_timeout''"
abbreviation OptionApplicationName :: string where "OptionApplicationName \<equiv> ''adbc.db2.application_name''"
abbreviation OptionBatchSize :: string where "OptionBatchSize \<equiv> ''adbc.db2.batch_size''"
abbreviation OptionBatchBytes :: string where "OptionBatchBytes \<equiv> ''adbc.db2.batch_bytes''"
abbreviation OptionTrace :: string where "OptionTrace \<equiv> ''adbc.db2.trace''"
abbreviation OptionTraceFile :: string where "OptionTraceFile \<equiv> ''adbc.db2.trace_file''"
abbreviation OptionPackage :: string where "OptionPackage \<equiv> ''adbc.db2.package''"
abbreviation OptionNoAutoBind :: string where "OptionNoAutoBind \<equiv> ''adbc.db2.no_auto_bind''"

definition optionSetting :: "env \<Rightarrow> opt_lib \<Rightarrow> string \<Rightarrow> string \<Rightarrow> driver_error + setting" where
  "optionSetting E L k v =
     (let err = invalid ''db2: invalid %s %q'' [k, v] in
      if k = OptionURI then Inr NoSetting
      else if k = OptionUsername then Inr (SetUser v)
      else if k = OptionPassword then Inr (SetPassword v)
      else if k = OptionHost then Inr (SetHost v)
      else if k = OptionPort then number SetPort (\<lambda>n. True) err v
      else if k = OptionDatabase then Inr (SetDatabase v)
      else if k = OptionTLS then Inr (SetTLS (isTrue E v))
      else if k = OptionTLSCACert then Inr (SetCACert v)
      else if k = OptionTLSSkipVerify then Inr (SetSkipVerify (isTrue E v))
      else if k = OptionSecurityMechanism then number SetSecurityMechanism (\<lambda>n. True) err v
      else if k = OptionCurrentSchema then Inr (SetCurrentSchema v)
      else if k = OptionQueryBlockSize then number SetQueryBlockSize (\<lambda>n. True) err v
      else if k = OptionConnectTimeout then timeout L v
      else if k = OptionApplicationName then Inr (SetApplicationName v)
      else if k = OptionBatchSize then number SetBatchSize (\<lambda>n. 0 < n) err v
      else if k = OptionBatchBytes then number SetBatchBytes (\<lambda>n. 0 \<le> n) err v
      else if k = OptionTrace then Inr (traceSetting E v)
      else if k = OptionTraceFile then Inr (SetTraceFile v)
      else if k = OptionPackage then package (invalid ''db2: %s must be COLLECTION.PKGID, got %q'' [k, v]) v
      else if k = OptionNoAutoBind then Inr (SetNoAutoBind (isTrue E v))
      else Inr NoSetting)"

fun applyAll :: "('a \<Rightarrow> driver_error + setting) \<Rightarrow> 'a list \<Rightarrow> optState \<Rightarrow> driver_error + optState" where
  "applyAll f [] st = Inr st"
| "applyAll f (x # xs) st = (case f x of Inl e \<Rightarrow> Inl e | Inr s \<Rightarrow> applyAll f xs (applySetting s st))"

definition initialState :: optState where
  "initialState =
     \<lparr>osCfg = \<lparr>ccDrda = \<lparr>Host = '''', Port = 0, Database = '''', User = '''', Password = '''', useTLS = False,
                SecurityMechanism = 0, QueryBlockSize = 0, ClientName = '''', ApplicationName = '''', CurrentSchema = '''',
                PackageCollection = '''', PackageID = '''', NoAutoBind = False\<rparr>,
              ConnectTimeout = 30 * 10 ^ 9, TLS = None, batchSize = 65536, batchBytes = 8388608, trace = False,
              traceHex = False, traceFile = ''''\<rparr>,
      tlsEnabled = False, skipVerify = False, caCert = ''''\<rparr>"

text \<open>What the URI sets before its parameters: the scheme, the authority and the path.\<close>

definition uriBase :: "URL \<Rightarrow> optState \<Rightarrow> driver_error + optState" where
  "uriBase u st =
     (if uScheme u \<notin> {''db2'', ''drda'', ''ibm-db2'', ''db2s''} then
        Inl (invalid ''db2: unsupported URI scheme %q (want db2://)'' [uScheme u])
      else
        let st1 = (if uScheme u = ''db2s'' then st\<lparr>tlsEnabled := True\<rparr> else st);
            (host, port) = (case SplitHostPort (uHost u) of Some hp \<Rightarrow> hp | None \<Rightarrow> (uHost u, ''''));
            st2 = on_drda (\<lambda>d. d\<lparr>Host := host\<rparr>) st1
        in case (if port = '''' then Inr NoSetting else number SetPort (\<lambda>n. True) (invalid ''db2: invalid port %q'' [port]) port) of
             Inl e \<Rightarrow> Inl e
           | Inr s \<Rightarrow>
               let st3 = applySetting s st2;
                   st4 = (case uUser u of
                            None \<Rightarrow> st3
                          | Some (user, pw) \<Rightarrow>
                              on_drda (\<lambda>d. (case pw of Some p \<Rightarrow> d\<lparr>User := user, Password := p\<rparr> | None \<Rightarrow> d\<lparr>User := user\<rparr>)) st3)
               in Inr (on_drda (\<lambda>d. d\<lparr>Database := trimSet ''/'' (uPath u)\<rparr>) st4))"

definition queryEntries :: "URL \<Rightarrow> (string \<times> string) list" where
  "queryEntries u = List.map_filter (\<lambda>(key, vals). case vals of [] \<Rightarrow> None | v # vs \<Rightarrow> Some (key, v)) (uQuery u)"

definition parseURI :: "env \<Rightarrow> opt_lib \<Rightarrow> (string \<times> string) list \<Rightarrow> driver_error + optState" where
  "parseURI E L opts =
     (case map_of opts OptionURI of
        None \<Rightarrow> Inr initialState
      | Some rawURI \<Rightarrow>
          if rawURI = '''' then Inr initialState
          else case urlParse L rawURI of
            Inl err \<Rightarrow> Inl (invalid ''db2: invalid URI %q: %v'' [rawURI, err])
          | Inr u \<Rightarrow>
              (case uriBase u initialState of
                 Inl e \<Rightarrow> Inl e
               | Inr st \<Rightarrow> applyAll (\<lambda>(key, v). uriSetting E L key v) (queryEntries u) st))"

text \<open>The checks and defaults behind the two loops.\<close>

definition loadTLS :: "opt_lib \<Rightarrow> optState \<Rightarrow> driver_error + tlsConfig" where
  "loadTLS L st =
     (let tc = \<lparr>tlsServerName = Host (ccDrda (osCfg st)), InsecureSkipVerify = skipVerify st, RootCAs = None\<rparr> in
      if caCert st = '''' then Inr tc
      else case readFile L (caCert st) of
        Inl err \<Rightarrow> Inl (invalid ''db2: read CA cert %q: %v'' [caCert st, err])
      | Inr pem \<Rightarrow>
          if certsFromPEM L pem then Inr (tc\<lparr>RootCAs := Some pem\<rparr>)
          else Inl (invalid ''db2: no certificates found in %q'' [caCert st]))"

definition finishOptions :: "opt_lib \<Rightarrow> optState \<Rightarrow> driver_error + connConfig" where
  "finishOptions L st =
     (let d = ccDrda (osCfg st) in
      if Host d = '''' then Inl (invalid ''db2: no host given (set %s or %s)'' [OptionURI, OptionHost])
      else if Database d = '''' then Inl (invalid ''db2: no database given (URI path, e.g. db2://host:50000/SAMPLE)'' [])
      else if User d = '''' then Inl (invalid ''db2: no user given (set %s)'' [OptionUsername])
      else
        let d1 = (if Port d = 0 then d\<lparr>Port := if tlsEnabled st then 50001 else 50000\<rparr> else d) in
        if tlsEnabled st then
          (case loadTLS L st of
             Inl e \<Rightarrow> Inl e
           | Inr tc \<Rightarrow> Inr ((osCfg st)\<lparr>ccDrda := d1\<lparr>useTLS := True\<rparr>, TLS := Some tc\<rparr>))
        else Inr ((osCfg st)\<lparr>ccDrda := d1\<rparr>))"

definition parseOptions :: "env \<Rightarrow> opt_lib \<Rightarrow> (string \<times> string) list \<Rightarrow> driver_error + connConfig" where
  "parseOptions E L opts =
     (case parseURI E L opts of
        Inl e \<Rightarrow> Inl e
      | Inr st \<Rightarrow>
          (case applyAll (\<lambda>(k, v). optionSetting E L k v) opts st of
             Inl e \<Rightarrow> Inl e
           | Inr st1 \<Rightarrow> finishOptions L st1))"

section \<open>The order of options\<close>

text \<open>The part of the state a setting touches; \<^verbatim>\<open>trace\<close> and \<^verbatim>\<open>trace_file\<close> share one.\<close>

fun slot :: "setting \<Rightarrow> nat option" where
  "slot NoSetting = None"
| "slot (SetUser v) = Some 1" | "slot (SetPassword v) = Some 2" | "slot (SetHost v) = Some 3" | "slot (SetPort p) = Some 4"
| "slot (SetDatabase v) = Some 5" | "slot (SetTLS b) = Some 6" | "slot (SetCACert v) = Some 7" | "slot (SetSkipVerify b) = Some 8"
| "slot (SetSecurityMechanism n) = Some 9" | "slot (SetCurrentSchema v) = Some 10" | "slot (SetQueryBlockSize n) = Some 11"
| "slot (SetConnectTimeout d) = Some 12" | "slot (SetApplicationName v) = Some 13" | "slot (SetBatchSize n) = Some 14"
| "slot (SetBatchBytes n) = Some 15" | "slot (SetTrace b h) = Some 16" | "slot (SetTraceFile v) = Some 16"
| "slot (SetPackage a b) = Some 17" | "slot (SetNoAutoBind b) = Some 18"

lemma applySetting_commute:
  assumes "slot s = None \<or> slot s \<noteq> slot t"
  shows "applySetting s (applySetting t st) = applySetting t (applySetting s st)"
  using assms by (cases s; cases t) (simp_all add: on_drda_def on_cfg_def)

lemma applyAll_Inr:
  "applyAll f xs st = Inr st' \<longleftrightarrow> (\<forall>x \<in> set xs. \<exists>s. f x = Inr s) \<and> st' = fold (\<lambda>x. applySetting (projr (f x))) xs st"
  by (induction xs arbitrary: st) (auto split: sum.splits)

definition option_slots :: "(string \<times> nat) list" where
  "option_slots =
     [(OptionUsername, 1), (OptionPassword, 2), (OptionHost, 3), (OptionPort, 4), (OptionDatabase, 5), (OptionTLS, 6),
      (OptionTLSCACert, 7), (OptionTLSSkipVerify, 8), (OptionSecurityMechanism, 9), (OptionCurrentSchema, 10),
      (OptionQueryBlockSize, 11), (OptionConnectTimeout, 12), (OptionApplicationName, 13), (OptionBatchSize, 14),
      (OptionBatchBytes, 15), (OptionTrace, 16), (OptionTraceFile, 16), (OptionPackage, 17), (OptionNoAutoBind, 18)]"

lemma slot_option: "optionSetting E L k v = Inr s \<Longrightarrow> slot s = map_of option_slots k"
  by (auto simp: optionSetting_def number_def package_def timeout_def traceSetting_def option_slots_def Let_def
      split: if_splits option.splits sum.splits)

lemma option_slots_name:
  assumes "map_of option_slots k = Some n"
  shows "n = 16 \<and> k \<in> {OptionTrace, OptionTraceFile} \<or> n \<noteq> 16 \<and> map_of (map prod.swap option_slots) n = Some k"
proof -
  have "(k, n) \<in> set option_slots" using assms by (rule map_of_SomeD)
  then show ?thesis unfolding option_slots_def list.set insert_iff prod.inject by (elim disjE conjE emptyE; simp)
qed

lemma option_slots_inj:
  assumes "map_of option_slots k = Some n" "map_of option_slots k' = Some n"
  shows "k = k' \<or> {k, k'} = {OptionTrace, OptionTraceFile}"
proof (cases "n = 16")
  case True
  then have "k \<in> {OptionTrace, OptionTraceFile}" "k' \<in> {OptionTrace, OptionTraceFile}"
    using option_slots_name [OF assms(1)] option_slots_name [OF assms(2)] by blast+
  then show ?thesis by (elim insertE emptyE) (simp_all add: insert_commute)
next
  case False
  then show ?thesis using option_slots_name [OF assms(1)] option_slots_name [OF assms(2)] by simp
qed

definition is_invalid :: "driver_error \<Rightarrow> bool" where
  "is_invalid e \<longleftrightarrow> (\<exists>m. e = errStatus StatusInvalidArgument m)"

lemma is_invalid_invalid [simp]: "is_invalid (invalid fmt args)"
  by (auto simp: is_invalid_def invalid_def)

definition rejects_invalid :: "driver_error + 'a \<Rightarrow> bool" where
  "rejects_invalid r \<longleftrightarrow> (\<forall>e. r = Inl e \<longrightarrow> is_invalid e)"

lemma rejects_intros:
  "rejects_invalid (Inr x)" "rejects_invalid (Inl (invalid fmt args))"
  "rejects_invalid r \<Longrightarrow> rejects_invalid r' \<Longrightarrow> rejects_invalid (if b then r else r')"
  "rejects_invalid (number f P (invalid fmt args) v)" "rejects_invalid (package (invalid fmt args) v)" "rejects_invalid (timeout L v)"
  by (auto simp: rejects_invalid_def number_def package_def timeout_def parseTimeout_def split: option.splits sum.splits if_splits)

lemma setting_errors:
  "optionSetting E L k v = Inl e \<Longrightarrow> is_invalid e" "uriSetting E L k v = Inl e \<Longrightarrow> is_invalid e"
proof -
  have "rejects_invalid (optionSetting E L k v)" "rejects_invalid (uriSetting E L k v)"
    unfolding optionSetting_def uriSetting_def Let_def by (intro rejects_intros)+
  then show "optionSetting E L k v = Inl e \<Longrightarrow> is_invalid e" "uriSetting E L k v = Inl e \<Longrightarrow> is_invalid e"
    by (simp_all add: rejects_invalid_def)
qed

lemma applyAll_Inl: "applyAll f xs st = Inl e \<Longrightarrow> \<exists>x \<in> set xs. f x = Inl e"
  by (induction xs arbitrary: st) (auto split: sum.splits)

lemma uriBase_errors: "uriBase u st = Inl e \<Longrightarrow> is_invalid e"
  by (auto simp: uriBase_def number_def Let_def split: if_splits option.splits sum.splits prod.splits)

lemma parseURI_errors: "parseURI E L opts = Inl e \<Longrightarrow> is_invalid e"
  by (auto simp: parseURI_def dest!: applyAll_Inl split: if_splits option.splits sum.splits
      intro: setting_errors uriBase_errors)

lemma finish_errors: "finishOptions L st = Inl e \<Longrightarrow> is_invalid e"
  by (auto simp: finishOptions_def loadTLS_def Let_def split: if_splits sum.splits)

lemma parseOptions_errors: "parseOptions E L opts = Inl e \<Longrightarrow> is_invalid e"
  by (auto simp: parseOptions_def dest!: applyAll_Inl split: sum.splits
      intro: setting_errors parseURI_errors finish_errors)

lemma settings_order:
  assumes d: "distinct (map fst opts)" and m: "mset opts = mset opts'"
    and t: "\<not> {OptionTrace, OptionTraceFile} \<subseteq> fst ` set opts"
    and ok: "applyAll (\<lambda>(k, v). optionSetting E L k v) opts st = Inr st'"
  shows "applyAll (\<lambda>(k, v). optionSetting E L k v) opts' st = Inr st'"
proof -
  let ?f = "\<lambda>(k, v). optionSetting E L k v"
  have all: "\<forall>x \<in> set opts. \<exists>s. ?f x = Inr s" and st': "st' = fold (\<lambda>x. applySetting (projr (?f x))) opts st"
    using ok unfolding applyAll_Inr by simp_all
  have comm: "applySetting (projr (?f x)) \<circ> applySetting (projr (?f y)) = applySetting (projr (?f y)) \<circ> applySetting (projr (?f x))"
    if mem: "x \<in> set opts" "y \<in> set opts" for x y
  proof (cases "x = y")
    case False
    obtain k v k' v' where xy: "x = (k, v)" "y = (k', v')" by fastforce
    have "k \<noteq> k'" using d mem False xy by (metis eq_key_imp_eq_value)
    obtain s s' where s: "optionSetting E L k v = Inr s" "optionSetting E L k' v' = Inr s'" using all mem xy by fastforce
    have "\<not> ({k, k'} = {OptionTrace, OptionTraceFile})" using t mem xy by (metis fst_conv image_eqI insert_subset bot_least)
    then have "slot s = None \<or> slot s \<noteq> slot s'"
      using slot_option [OF s(1)] slot_option [OF s(2)] option_slots_inj [of k _ k'] \<open>k \<noteq> k'\<close> by fastforce
    then show ?thesis using s xy by (simp add: fun_eq_iff applySetting_commute)
  qed simp
  have "fold (\<lambda>x. applySetting (projr (?f x))) opts = fold (\<lambda>x. applySetting (projr (?f x))) opts'"
    by (rule fold_multiset_equiv) (use comm m in auto)
  moreover have "set opts' = set opts" using m by (metis set_mset_mset)
  ultimately show ?thesis unfolding applyAll_Inr using all st' by simp
qed

text \<open>
  The iteration order of the option map does not matter.  For two orders of the same options,
  unless both the trace option and the trace file are given, either both are rejected, always as
  an invalid argument, or both give the same configuration.
\<close>

theorem options_order:
  "distinct (map fst opts) \<and> mset opts = mset opts' \<and> \<not> {OptionTrace, OptionTraceFile} \<subseteq> fst ` set opts \<longrightarrow>
     (case (parseOptions E L opts, parseOptions E L opts') of
        (Inr cf, Inr cf') \<Rightarrow> cf = cf'
      | (Inl e, Inl e') \<Rightarrow> is_invalid e \<and> is_invalid e'
      | _ \<Rightarrow> False)"
proof (intro impI)
  assume a: "distinct (map fst opts) \<and> mset opts = mset opts' \<and> \<not> {OptionTrace, OptionTraceFile} \<subseteq> fst ` set opts"
  have sets: "set opts' = set opts" using a by (metis set_mset_mset)
  have d': "distinct (map fst opts')" using a by (metis mset_map mset_eq_imp_distinct_iff)
  have "map_of opts' = map_of opts" using a d' sets map_of_inject_set by metis
  then have uri: "parseURI E L opts' = parseURI E L opts" by (simp add: parseURI_def)
  show "case (parseOptions E L opts, parseOptions E L opts') of
        (Inr cf, Inr cf') \<Rightarrow> cf = cf' | (Inl e, Inl e') \<Rightarrow> is_invalid e \<and> is_invalid e' | _ \<Rightarrow> False"
  proof (cases "parseURI E L opts")
    case (Inl e)
    then show ?thesis using uri parseURI_errors by (simp add: parseOptions_def)
  next
    case (Inr st)
    let ?f = "\<lambda>(k, v). optionSetting E L k v"
    have same: "applyAll ?f opts st = Inr st1 \<longleftrightarrow> applyAll ?f opts' st = Inr st1" for st1
      using settings_order [of opts opts' E L st st1] settings_order [of opts' opts E L st st1] a d' sets by auto
    show ?thesis
    proof (cases "applyAll ?f opts st")
      case (Inl e)
      then obtain e' where e': "applyAll ?f opts' st = Inl e'" using same by (metis sum.exhaust)
      then show ?thesis
        using Inl Inr uri parseOptions_errors [of E L opts] parseOptions_errors [of E L opts'] by (simp add: parseOptions_def)
    next
      case r: (Inr st1)
      then have "applyAll ?f opts' st = Inr st1" using same by blast
      then have "parseOptions E L opts' = parseOptions E L opts" using r Inr uri by (simp add: parseOptions_def)
      then show ?thesis using parseOptions_errors by (auto split: sum.splits)
    qed
  qed
qed

definition sample_opts :: "(string \<times> string) list" where
  "sample_opts = [(OptionHost, ''h''), (OptionDatabase, ''d''), (OptionUsername, ''u'')]"

theorem options_order_witness:
  "\<forall>E L. case (parseOptions E L sample_opts, parseOptions E L (rev sample_opts)) of
     (Inr cf, Inr cf') \<Rightarrow> cf = cf' | (Inl e, Inl e') \<Rightarrow> is_invalid e \<and> is_invalid e' | _ \<Rightarrow> False"
proof (intro allI)
  fix E L
  have "distinct (map fst sample_opts) \<and> mset sample_opts = mset (rev sample_opts)
    \<and> \<not> {OptionTrace, OptionTraceFile} \<subseteq> fst ` set sample_opts" by (simp add: sample_opts_def)
  then show "case (parseOptions E L sample_opts, parseOptions E L (rev sample_opts)) of
     (Inr cf, Inr cf') \<Rightarrow> cf = cf' | (Inl e, Inl e') \<Rightarrow> is_invalid e \<and> is_invalid e' | _ \<Rightarrow> False"
    by (rule options_order [THEN mp])
qed

text \<open>With both trace options the order decides: \<^verbatim>\<open>trace=false\<close> wins only when it comes last.\<close>

lemma trace_order:
  "applyAll (\<lambda>(k, v). optionSetting E L k v) [(OptionTraceFile, f), (OptionTrace, v)] st
     = Inr (on_cfg (\<lambda>cf. cf\<lparr>trace := isTrue E v \<or> EqualFold (eFold E) v ''hex'', traceHex := EqualFold (eFold E) v ''hex'', traceFile := f\<rparr>) st)"
  "applyAll (\<lambda>(k, v). optionSetting E L k v) [(OptionTrace, v), (OptionTraceFile, f)] st
     = Inr (on_cfg (\<lambda>cf. cf\<lparr>trace := True, traceHex := EqualFold (eFold E) v ''hex'', traceFile := f\<rparr>) st)"
  by (simp_all add: optionSetting_def traceSetting_def on_cfg_def Let_def)

section \<open>The resolved configuration\<close>

definition state_ok :: "optState \<Rightarrow> bool" where
  "state_ok st \<longleftrightarrow> 0 < batchSize (osCfg st) \<and> 0 \<le> batchBytes (osCfg st) \<and> \<not> useTLS (ccDrda (osCfg st)) \<and> TLS (osCfg st) = None"

definition setting_ok :: "setting \<Rightarrow> bool" where
  "setting_ok s = (case s of SetBatchSize n \<Rightarrow> 0 < n | SetBatchBytes n \<Rightarrow> 0 \<le> n | _ \<Rightarrow> True)"

lemma state_ok_apply: "state_ok st \<Longrightarrow> setting_ok s \<Longrightarrow> state_ok (applySetting s st)"
  by (cases s) (simp_all add: state_ok_def setting_ok_def on_drda_def on_cfg_def)

lemma setting_ok_intros:
  "setting_ok s \<Longrightarrow> pred_sum (\<lambda>_. True) setting_ok (Inr s)"
  "pred_sum (\<lambda>_. True) setting_ok (Inl e)"
  "pred_sum (\<lambda>_. True) setting_ok r \<Longrightarrow> pred_sum (\<lambda>_. True) setting_ok r' \<Longrightarrow> pred_sum (\<lambda>_. True) setting_ok (if b then r else r')"
  "(\<And>n. P n \<Longrightarrow> setting_ok (f n)) \<Longrightarrow> pred_sum (\<lambda>_. True) setting_ok (number f P e v)"
  "pred_sum (\<lambda>_. True) setting_ok (package e v)" "pred_sum (\<lambda>_. True) setting_ok (timeout L v)"
  by (auto simp: number_def package_def timeout_def setting_ok_def split: option.splits sum.splits)

lemma settings_ok: "pred_sum (\<lambda>_. True) setting_ok (optionSetting E L k v)" "pred_sum (\<lambda>_. True) setting_ok (uriSetting E L k v)"
  unfolding optionSetting_def uriSetting_def traceSetting_def Let_def
  by (intro setting_ok_intros; simp add: setting_ok_def)+

lemma applyAll_ok:
  "applyAll f xs st = Inr st' \<Longrightarrow> state_ok st \<Longrightarrow> (\<And>x. pred_sum (\<lambda>_. True) setting_ok (f x)) \<Longrightarrow> state_ok st'"
proof (induction xs arbitrary: st)
  case (Cons x xs)
  then obtain s where s: "f x = Inr s" "applyAll f xs (applySetting s st) = Inr st'" by (auto split: sum.splits)
  then have "setting_ok s" using Cons.prems(3) [of x] by simp
  then show ?case using Cons.IH [OF s(2)] Cons.prems state_ok_apply by blast
qed simp

lemma initial_ok: "state_ok initialState"
  by (simp add: state_ok_def initialState_def)

lemma uriBase_ok: "uriBase u st = Inr st' \<Longrightarrow> state_ok st \<Longrightarrow> state_ok st'"
  by (auto simp: uriBase_def number_def state_ok_def on_drda_def on_cfg_def Let_def
      split: if_splits option.splits sum.splits prod.splits)

lemma parseURI_ok: "parseURI E L opts = Inr st \<Longrightarrow> state_ok st"
  by (auto simp: parseURI_def settings_ok initial_ok uriBase_ok split: option.splits if_splits sum.splits
      elim!: applyAll_ok)

text \<open>A setting is in effect when applying it changes nothing.\<close>

lemma in_effect:
  assumes "applyAll f xs st = Inr st'" "x \<in> set xs" "f x = Inr s"
    "\<And>y t. y \<in> set xs \<Longrightarrow> f y = Inr t \<Longrightarrow> y = x \<or> slot t \<noteq> slot s" "slot s \<noteq> None"
  shows "applySetting s st' = st'"
proof -
  have idem: "applySetting s (applySetting s st) = applySetting s st" for st
    by (cases s) (simp_all add: on_drda_def on_cfg_def)
  have keep: "applyAll f ys st1 = Inr st' \<Longrightarrow> set ys \<subseteq> set xs \<Longrightarrow> applySetting s st1 = st1 \<Longrightarrow> applySetting s st' = st'" for ys st1
  proof (induction ys arbitrary: st1)
    case (Cons y ys)
    then obtain t where t: "f y = Inr t" "applyAll f ys (applySetting t st1) = Inr st'" by (auto split: sum.splits)
    have "applySetting s (applySetting t st1) = applySetting t st1"
    proof (cases "y = x")
      case True
      then show ?thesis using t assms(3) idem by simp
    next
      case False
      then have "slot t \<noteq> slot s" using assms(4) t(1) Cons.prems(2) by auto
      then show ?thesis using applySetting_commute [of s t st1] Cons.prems(3) by fastforce
    qed
    then show ?case using Cons.IH [OF t(2)] Cons.prems(2) by simp
  qed simp
  have "applyAll f ys st1 = Inr st' \<Longrightarrow> set ys \<subseteq> set xs \<Longrightarrow> x \<in> set ys \<Longrightarrow> applySetting s st' = st'" for ys st1
  proof (induction ys arbitrary: st1)
    case (Cons y ys)
    then obtain t where t: "f y = Inr t" "applyAll f ys (applySetting t st1) = Inr st'" by (auto split: sum.splits)
    show ?case
    proof (cases "y = x")
      case True
      then show ?thesis using keep [OF t(2)] t(1) assms(3) Cons.prems(2) idem by simp
    next
      case False
      then show ?thesis using Cons.IH [OF t(2)] Cons.prems by simp
    qed
  qed simp
  then show ?thesis using assms(1,2) by blast
qed

definition given :: "string \<Rightarrow> string \<Rightarrow> connConfig \<Rightarrow> bool" where
  "given k v cf =
     (if k = OptionUsername then User (ccDrda cf) = v
      else if k = OptionPassword then Password (ccDrda cf) = v
      else if k = OptionHost then Host (ccDrda cf) = v
      else if k = OptionDatabase then Database (ccDrda cf) = v
      else if k = OptionCurrentSchema then CurrentSchema (ccDrda cf) = v
      else if k = OptionApplicationName then ApplicationName (ccDrda cf) = v
      else if k = OptionBatchSize then Atoi v = Some (batchSize cf)
      else if k = OptionBatchBytes then Atoi v = Some (batchBytes cf)
      else True)"

definition config_ok :: "connConfig \<Rightarrow> bool" where
  "config_ok cf \<longleftrightarrow> Host (ccDrda cf) \<noteq> '''' \<and> Database (ccDrda cf) \<noteq> '''' \<and> User (ccDrda cf) \<noteq> '''' \<and> Port (ccDrda cf) \<noteq> 0
     \<and> 0 < batchSize cf \<and> 0 \<le> batchBytes cf \<and> (useTLS (ccDrda cf) \<longleftrightarrow> TLS cf \<noteq> None)"

lemma finish_ok:
  assumes "finishOptions L st = Inr cf" "state_ok st"
  shows "config_ok cf" and "given k v cf = given k v (osCfg st)"
proof -
  show "config_ok cf"
    using assms by (auto simp: finishOptions_def config_ok_def state_ok_def Let_def split: if_splits sum.splits)
  have "User (ccDrda cf) = User (ccDrda (osCfg st))" "Password (ccDrda cf) = Password (ccDrda (osCfg st))"
    "Host (ccDrda cf) = Host (ccDrda (osCfg st))" "Database (ccDrda cf) = Database (ccDrda (osCfg st))"
    "CurrentSchema (ccDrda cf) = CurrentSchema (ccDrda (osCfg st))"
    "ApplicationName (ccDrda cf) = ApplicationName (ccDrda (osCfg st))"
    "batchSize cf = batchSize (osCfg st)" "batchBytes cf = batchBytes (osCfg st)"
    using assms(1) by (auto simp: finishOptions_def Let_def split: if_splits sum.splits)
  then show "given k v cf = given k v (osCfg st)" by (simp only: given_def)
qed

lemma given_setting:
  assumes "optionSetting E L k v = Inr s" "applySetting s st = st"
  shows "given k v (osCfg st)"
proof -
  have sel: "f (osCfg (applySetting s st)) = f (osCfg st)" for f :: "connConfig \<Rightarrow> 'b" using assms(2) by simp
  show ?thesis
    using assms(1) sel [of "\<lambda>cf. User (ccDrda cf)"] sel [of "\<lambda>cf. Password (ccDrda cf)"] sel [of "\<lambda>cf. Host (ccDrda cf)"]
      sel [of "\<lambda>cf. Database (ccDrda cf)"] sel [of "\<lambda>cf. CurrentSchema (ccDrda cf)"]
      sel [of "\<lambda>cf. ApplicationName (ccDrda cf)"] sel [of batchSize] sel [of batchBytes]
    by (auto simp: optionSetting_def given_def number_def on_drda_def on_cfg_def Let_def split: if_splits option.splits)
qed

lemma option_in_effect:
  assumes "distinct (map fst opts)" "applyAll (\<lambda>(k, v). optionSetting E L k v) opts st = Inr st'" "(k, v) \<in> set opts"
    "k \<noteq> OptionTrace" "k \<noteq> OptionTraceFile"
  shows "given k v (osCfg st')"
proof -
  let ?f = "\<lambda>(k, v). optionSetting E L k v"
  obtain s where s: "optionSetting E L k v = Inr s" using assms(2,3) unfolding applyAll_Inr by fastforce
  show ?thesis
  proof (cases "slot s")
    case None
    then have "map_of option_slots k = None" using slot_option [OF s] by simp
    then show ?thesis by (auto simp: option_slots_def given_def split: if_splits)
  next
    case (Some n)
    have "applySetting s st' = st'"
    proof (rule in_effect [OF assms(2,3)])
      show "?f (k, v) = Inr s" using s by simp
      show "slot s \<noteq> None" using Some by simp
      fix y t assume y: "y \<in> set opts" "?f y = Inr t"
      obtain k' v' where kv: "y = (k', v')" by fastforce
      show "y = (k, v) \<or> slot t \<noteq> slot s"
      proof (rule disjCI)
        assume "\<not> slot t \<noteq> slot s"
        then have "map_of option_slots k = Some n" "map_of option_slots k' = Some n"
          using slot_option [OF s] slot_option [of E L k' v' t] y(2) kv Some by simp_all
        then have "k = k' \<or> {k, k'} = {OptionTrace, OptionTraceFile}" by (rule option_slots_inj)
        then have "k = k'" using assms(4,5) by (metis insertI1 insertE empty_iff)
        then show "y = (k, v)" using assms(1,3) y(1) kv eq_key_imp_eq_value by metis
      qed
    qed
    then show ?thesis using given_setting [OF s] by blast
  qed
qed

lemma parseOptions_state:
  assumes "parseOptions E L opts = Inr cf"
  obtains st st1 where "applyAll (\<lambda>(k, v). optionSetting E L k v) opts st = Inr st1" "finishOptions L st1 = Inr cf" "state_ok st1"
proof -
  obtain st st1 where st: "parseURI E L opts = Inr st" "applyAll (\<lambda>(k, v). optionSetting E L k v) opts st = Inr st1"
    "finishOptions L st1 = Inr cf" using assms by (auto simp: parseOptions_def split: sum.splits)
  have "state_ok st1" by (rule applyAll_ok [OF st(2) parseURI_ok [OF st(1)]]) (auto simp: settings_ok)
  then show ?thesis using that st by blast
qed

lemma parseOptions_config: "parseOptions E L opts = Inr cf \<Longrightarrow> config_ok cf"
  by (erule parseOptions_state) (rule finish_ok(1))



end
