(* ===== verification/Db2_Driver.thy ===== *)
theory Db2_Driver
  imports Db2_Ingest Db2_Options "HOL-Library.AList"
begin

text \<open>
  Databases, connections and statements of the ADBC driver (\<^verbatim>\<open>driver/db2/driver.go\<close>,
  \<^verbatim>\<open>options_getset.go\<close>).  The option map of a database is an association list.  Dialing takes the
  arguments of the DRDA layer: the host name, the random exponent, the server's bytes and the
  results of the writes; \<open>openTrace\<close> is the error, if any, of opening the trace file.  Tracing
  itself, contexts, locks and allocators are left out.

  An operation on a statement also returns the statement, whose bound data it may release.
\<close>

section \<open>Databases\<close>

record databaseImpl =
  dbOpts :: "(string \<times> string) list"

definition NewDatabase :: "(string \<times> string) list \<Rightarrow> databaseImpl" where
  "NewDatabase opts = \<lparr>dbOpts = opts\<rparr>"

definition Database_SetOption :: "string \<Rightarrow> string \<Rightarrow> databaseImpl \<Rightarrow> databaseImpl" where
  "Database_SetOption key v d = d\<lparr>dbOpts := AList.update key v (dbOpts d)\<rparr>"

definition Database_SetOptions :: "(string \<times> string) list \<Rightarrow> databaseImpl \<Rightarrow> databaseImpl" where
  "Database_SetOptions opts d = fold (\<lambda>(k, v). Database_SetOption k v) opts d"

definition Database_GetOption :: "string \<Rightarrow> databaseImpl \<Rightarrow> driver_error + string" where
  "Database_GetOption key d =
     (if key = OptionPassword then Inl (errStatus StatusNotFound (Format ''option %q is write-only'' [key]))
      else case map_of (dbOpts d) key of
        Some v \<Rightarrow> Inr v
      | None \<Rightarrow> Inl (errStatus StatusNotFound (Format ''unknown database option %q'' [key])))"

definition Database_GetOptionBytes :: "string \<Rightarrow> driver_error + bytes" where
  "Database_GetOptionBytes key = Inl (errStatus StatusNotFound (Format ''unknown database option %q'' [key]))"

definition Database_GetOptionInt :: "string \<Rightarrow> databaseImpl \<Rightarrow> driver_error + int" where
  "Database_GetOptionInt key d =
     (case Database_GetOption key d of
        Inl e \<Rightarrow> Inl e
      | Inr v \<Rightarrow>
          (case Atoi v of
             Some n \<Rightarrow> Inr n
           | None \<Rightarrow> Inl (errStatus StatusInvalidArgument (Format ''option %q is not an integer'' [key]))))"

definition Database_GetOptionDouble :: "(string \<Rightarrow> 64 word option) \<Rightarrow> string \<Rightarrow> databaseImpl \<Rightarrow> driver_error + 64 word" where
  "Database_GetOptionDouble parseFloat key d =
     (case Database_GetOption key d of
        Inl e \<Rightarrow> Inl e
      | Inr v \<Rightarrow>
          (case parseFloat v of
             Some x \<Rightarrow> Inr x
           | None \<Rightarrow> Inl (errStatus StatusInvalidArgument (Format ''option %q is not a number'' [key]))))"

definition Database_SetOptionBytes :: "string \<Rightarrow> bytes \<Rightarrow> driver_error option" where
  "Database_SetOptionBytes key v =
     Some (errStatus StatusNotImplemented (Format ''byte-valued database options are not supported (%q)'' [key]))"

definition Database_SetOptionInt :: "string \<Rightarrow> int \<Rightarrow> databaseImpl \<Rightarrow> databaseImpl" where
  "Database_SetOptionInt key v = Database_SetOption key (int_str v)"

definition Database_SetOptionDouble :: "float_text \<Rightarrow> string \<Rightarrow> 64 word \<Rightarrow> databaseImpl \<Rightarrow> databaseImpl" where
  "Database_SetOptionDouble T key v = Database_SetOption key (f64_format_g T v)"

text \<open>\<open>Open\<close> reads the options in the order of the list.\<close>

definition Open ::
  "env \<Rightarrow> opt_lib \<Rightarrow> (string \<Rightarrow> string option) \<Rightarrow> string \<Rightarrow> nat option \<Rightarrow> bytes \<Rightarrow> io_error option list \<Rightarrow> databaseImpl
     \<Rightarrow> driver_error + connectionImpl" where
  "Open E L openTrace hostname rnd stream writes d =
     (case parseOptions E L (dbOpts d) of
        Inl e \<Rightarrow> Inl e
      | Inr cf \<Rightarrow>
          (case Dial (eUpper E) hostname rnd stream writes (ccDrda cf) of
             Inl e \<Rightarrow> Inl (fromDRDAError (eIO E) (DrdaErr e))
           | Inr conn \<Rightarrow>
               (case (if trace cf \<and> traceFile cf \<noteq> '''' then openTrace (traceFile cf) else None) of
                  Some msg \<Rightarrow> Inl (errStatus StatusInvalidArgument (Format ''db2: open trace file: %v'' [msg]))
                | None \<Rightarrow> Inr \<lparr>dConn = conn, dCfg = cf, autoCommit = True, dClosed = False\<rparr>)))"

section \<open>Connections\<close>

abbreviation OptionKeyAutoCommit :: string where "OptionKeyAutoCommit \<equiv> ''adbc.connection.autocommit''"
abbreviation OptionKeyCurrentCatalog :: string where "OptionKeyCurrentCatalog \<equiv> ''adbc.connection.catalog''"
abbreviation OptionKeyCurrentDbSchema :: string where "OptionKeyCurrentDbSchema \<equiv> ''adbc.connection.db_schema''"
abbreviation OptionKeyIsolationLevel :: string where "OptionKeyIsolationLevel \<equiv> ''adbc.connection.transaction.isolation_level''"
abbreviation OptionKeyReadOnly :: string where "OptionKeyReadOnly \<equiv> ''adbc.connection.readonly''"
abbreviation OptionValueEnabled :: string where "OptionValueEnabled \<equiv> ''true''"
abbreviation OptionValueDisabled :: string where "OptionValueDisabled \<equiv> ''false''"

text \<open>\<open>cerr\<close> is the result of closing the socket, which \<open>Close\<close> returns as it is.\<close>

definition Connection_Close :: "io_error option \<Rightarrow> unit dact" where
  "Connection_Close cerr = with_dconn (\<lambda>c.
     if dClosed c then dfail (errStatus StatusInvalidState (Format ''connection already closed'' []))
     else
       dthen (dchange (\<lambda>c. c\<lparr>dClosed := True\<rparr>)) (\<lambda>_.
       dthen (if \<not> autoCommit c then ignoring Rollback else dok ()) (\<lambda>_.
       dthen (raw (Conn_Close cerr)) (\<lambda>r. case r of Inl e \<Rightarrow> dfail (DrdaErr e) | Inr x \<Rightarrow> dok x))))"

definition newStatement :: statementImpl where
  "newStatement =
     \<lparr>stSql = '''', targetTable = '''', targetSchema = '''', ingestMode = '''', ingestTemporary = False,
      ingestVarcharLength = 0, ingestBatchRows = 0, stClosed = False, bound = None, boundStream = None\<rparr>"

definition NewStatement :: "statementImpl dact" where
  "NewStatement = with_dconn (\<lambda>c.
     if dClosed c then dfail (errStatus StatusInvalidState (Format ''connection is closed'' [])) else dok newStatement)"

definition Connection_Commit :: "env \<Rightarrow> unit dact" where
  "Connection_Commit E = with_dconn (\<lambda>c.
     if autoCommit c then dfail (errStatus StatusInvalidState (Format ''Commit called while autocommit is enabled'' []))
     else via E Commit)"

definition Connection_Rollback :: "env \<Rightarrow> unit dact" where
  "Connection_Rollback E = with_dconn (\<lambda>c.
     if autoCommit c then dfail (errStatus StatusInvalidState (Format ''Rollback called while autocommit is enabled'' []))
     else via E Rollback)"

definition setAutoCommit :: "env \<Rightarrow> string \<Rightarrow> unit dact" where
  "setAutoCommit E v = with_dconn (\<lambda>c.
     if v = OptionValueEnabled then
       dthen (if \<not> autoCommit c then via E Commit else dok ()) (\<lambda>_. dchange (\<lambda>c. c\<lparr>autoCommit := True\<rparr>))
     else if v = OptionValueDisabled then dchange (\<lambda>c. c\<lparr>autoCommit := False\<rparr>)
     else dfail (errStatus StatusInvalidArgument (Format ''unknown value %q for %s'' [v, OptionKeyAutoCommit])))"

definition execSetting :: "env \<Rightarrow> string \<Rightarrow> unit dact" where
  "execSetting E sql = dthen (via E (ExecImmediate (eUpper E) sql)) (\<lambda>_. autoCommitIfNeeded E)"

definition isolationName :: "string \<Rightarrow> string option" where
  "isolationName v =
     map_of [(''adbc.connection.transaction.isolation.default'', ''CS''),
       (''adbc.connection.transaction.isolation.read_committed'', ''CS''),
       (''adbc.connection.transaction.isolation.read_uncommitted'', ''UR''),
       (''adbc.connection.transaction.isolation.repeatable_read'', ''RS''),
       (''adbc.connection.transaction.isolation.serializable'', ''RR''),
       (''adbc.connection.transaction.isolation.linearizable'', ''RR''),
       (''adbc.connection.transaction.isolation.snapshot'', ''RR'')] v"

definition Connection_SetOption :: "env \<Rightarrow> string \<Rightarrow> string \<Rightarrow> unit dact" where
  "Connection_SetOption E key v =
     (if key = OptionKeyAutoCommit then setAutoCommit E v
      else if key = OptionKeyCurrentDbSchema then execSetting E (''SET CURRENT SCHEMA '' @ quoteIdent v)
      else if key = OptionKeyIsolationLevel then
        (case isolationName v of
           Some level \<Rightarrow> execSetting E (''SET CURRENT ISOLATION = '' @ level)
         | None \<Rightarrow> dfail (errStatus StatusNotImplemented (Format ''isolation level %q is not supported by Db2'' [v])))
      else if key = OptionKeyReadOnly then
        (if v \<in> {OptionValueEnabled, OptionValueDisabled} then dok ()
         else dfail (errStatus StatusInvalidArgument (Format ''invalid value %q for %s'' [v, key])))
      else dfail (errStatus StatusNotImplemented (Format ''unknown connection option %q'' [key])))"

definition Connection_GetOption :: "env \<Rightarrow> string \<Rightarrow> string dact" where
  "Connection_GetOption E key = with_dconn (\<lambda>c.
     if key = OptionKeyAutoCommit then dok (if autoCommit c then OptionValueEnabled else OptionValueDisabled)
     else if key = OptionKeyCurrentCatalog then dok (rdbnam (dConn c))
     else if key = OptionKeyCurrentDbSchema then currentSchema E
     else if key = OptionBatchSize then dok (int_str (batchSize (dCfg c)))
     else if key = OptionBatchBytes then dok (int_str (batchBytes (dCfg c)))
     else if key = OptionSecurityMechanismActive then dok (nat_str (unat (SecMec (Server (dConn c)))))
     else dfail (errStatus StatusNotFound (Format ''unknown connection option %q'' [key])))"

definition ReadPartition :: "bytes \<Rightarrow> RecordReader dact" where
  "ReadPartition p = dfail (errStatus StatusNotImplemented (Format ''ReadPartition'' []))"

definition Connection_GetOptionBytes :: "string \<Rightarrow> bytes dact" where
  "Connection_GetOptionBytes key = dfail (errStatus StatusNotFound (Format ''unknown connection option %q'' [key]))"

definition Connection_GetOptionInt :: "string \<Rightarrow> int dact" where
  "Connection_GetOptionInt key = dfail (errStatus StatusNotFound (Format ''unknown connection option %q'' [key]))"

definition Connection_GetOptionDouble :: "string \<Rightarrow> (64 word) dact" where
  "Connection_GetOptionDouble key = dfail (errStatus StatusNotFound (Format ''unknown connection option %q'' [key]))"

definition Connection_SetOptionBytes :: "string \<Rightarrow> bytes \<Rightarrow> unit dact" where
  "Connection_SetOptionBytes key v =
     dfail (errStatus StatusNotImplemented (Format ''byte-valued connection options are not supported (%q)'' [key]))"

definition Connection_SetOptionInt :: "string \<Rightarrow> int \<Rightarrow> unit dact" where
  "Connection_SetOptionInt key v =
     dfail (errStatus StatusNotImplemented (Format ''integer-valued connection options are not supported (%q)'' [key]))"

definition Connection_SetOptionDouble :: "string \<Rightarrow> 64 word \<Rightarrow> unit dact" where
  "Connection_SetOptionDouble key v =
     dfail (errStatus StatusNotImplemented (Format ''double-valued connection options are not supported (%q)'' [key]))"

section \<open>Statements\<close>

abbreviation OptionKeyIngestTargetTable :: string where "OptionKeyIngestTargetTable \<equiv> ''adbc.ingest.target_table''"
abbreviation OptionValueIngestTargetDBSchema :: string where "OptionValueIngestTargetDBSchema \<equiv> ''adbc.ingest.target_db_schema''"
abbreviation OptionKeyIngestMode :: string where "OptionKeyIngestMode \<equiv> ''adbc.ingest.mode''"
abbreviation OptionValueIngestTemporary :: string where "OptionValueIngestTemporary \<equiv> ''adbc.ingest.temporary''"
abbreviation OptionIngestVarcharLength :: string where "OptionIngestVarcharLength \<equiv> ''adbc.db2.ingest.varchar_length''"
abbreviation OptionIngestBatchRows :: string where "OptionIngestBatchRows \<equiv> ''adbc.db2.ingest.batch_rows''"

definition Statement_Close :: "statementImpl \<Rightarrow> driver_error + statementImpl" where
  "Statement_Close s =
     (if stClosed s then Inl (errStatus StatusInvalidState (Format ''statement already closed'' []))
      else Inr (clearBound (s\<lparr>stClosed := True\<rparr>)))"

definition SetSqlQuery :: "string \<Rightarrow> statementImpl \<Rightarrow> statementImpl" where
  "SetSqlQuery sql s = s\<lparr>stSql := addDummyFrom sql\<rparr>"

definition invalidValue :: "string \<Rightarrow> string \<Rightarrow> driver_error" where
  "invalidValue v key = errStatus StatusInvalidArgument (Format ''invalid value %q for %s'' [v, key])"

definition positive :: "string \<Rightarrow> int option" where
  "positive v = (case Atoi v of Some n \<Rightarrow> if n \<le> 0 then None else Some n | None \<Rightarrow> None)"

definition Statement_SetOption :: "string \<Rightarrow> string \<Rightarrow> statementImpl \<Rightarrow> driver_error + statementImpl" where
  "Statement_SetOption key v s =
     (if key = OptionKeyIngestTargetTable then Inr (s\<lparr>targetTable := v\<rparr>)
      else if key = OptionValueIngestTargetDBSchema then Inr (s\<lparr>targetSchema := v\<rparr>)
      else if key = OptionKeyIngestMode then
        (if v \<in> {IngestModeCreate, IngestModeAppend, IngestModeReplace, IngestModeCreateAppend}
         then Inr (s\<lparr>ingestMode := v\<rparr>)
         else Inl (errStatus StatusInvalidArgument (Format ''unknown ingest mode %q'' [v])))
      else if key = OptionValueIngestTemporary then
        (if v = OptionValueEnabled then Inr (s\<lparr>ingestTemporary := True\<rparr>)
         else if v = OptionValueDisabled then Inr (s\<lparr>ingestTemporary := False\<rparr>)
         else Inl (invalidValue v key))
      else if key = OptionIngestVarcharLength then
        (case positive v of None \<Rightarrow> Inl (invalidValue v key) | Some n \<Rightarrow> Inr (s\<lparr>ingestVarcharLength := n\<rparr>))
      else if key = OptionIngestBatchRows then
        (case positive v of None \<Rightarrow> Inl (invalidValue v key) | Some n \<Rightarrow> Inr (s\<lparr>ingestBatchRows := n\<rparr>))
      else Inl (errStatus StatusNotImplemented (Format ''unknown statement option %q'' [key])))"

definition Statement_GetOption :: "string \<Rightarrow> statementImpl \<Rightarrow> driver_error + string" where
  "Statement_GetOption key s =
     (if key = OptionKeyIngestTargetTable then Inr (targetTable s)
      else if key = OptionValueIngestTargetDBSchema then Inr (targetSchema s)
      else if key = OptionKeyIngestMode then Inr (if ingestMode s = '''' then IngestModeCreate else ingestMode s)
      else if key = OptionValueIngestTemporary then
        Inr (if ingestTemporary s then OptionValueEnabled else OptionValueDisabled)
      else if key = OptionIngestVarcharLength then Inr (int_str (ingestVarcharLength s))
      else if key = OptionIngestBatchRows then Inr (int_str (ingestBatchRows s))
      else Inl (errStatus StatusNotFound (Format ''unknown statement option %q'' [key])))"

definition Statement_GetOptionBytes :: "string \<Rightarrow> driver_error + bytes" where
  "Statement_GetOptionBytes key = Inl (errStatus StatusNotFound (Format ''unknown statement option %q'' [key]))"

definition Statement_GetOptionInt :: "string \<Rightarrow> statementImpl \<Rightarrow> driver_error + int" where
  "Statement_GetOptionInt key s =
     (if key = OptionIngestVarcharLength then Inr (ingestVarcharLength s)
      else if key = OptionIngestBatchRows then Inr (ingestBatchRows s)
      else Inl (errStatus StatusNotFound (Format ''unknown statement option %q'' [key])))"

definition Statement_GetOptionDouble :: "string \<Rightarrow> driver_error + 64 word" where
  "Statement_GetOptionDouble key = Inl (errStatus StatusNotFound (Format ''unknown statement option %q'' [key]))"

definition Statement_SetOptionBytes :: "string \<Rightarrow> bytes \<Rightarrow> driver_error option" where
  "Statement_SetOptionBytes key v =
     Some (errStatus StatusNotImplemented (Format ''byte-valued statement options are not supported (%q)'' [key]))"

definition Statement_SetOptionInt :: "string \<Rightarrow> int \<Rightarrow> statementImpl \<Rightarrow> driver_error + statementImpl" where
  "Statement_SetOptionInt key v s =
     (if key \<in> {OptionIngestVarcharLength, OptionIngestBatchRows} then Statement_SetOption key (int_str v) s
      else Inl (errStatus StatusNotImplemented (Format ''integer-valued statement option %q is not supported'' [key])))"

definition Statement_SetOptionDouble :: "string \<Rightarrow> 64 word \<Rightarrow> driver_error option" where
  "Statement_SetOptionDouble key v =
     Some (errStatus StatusNotImplemented (Format ''double-valued statement options are not supported (%q)'' [key]))"

definition SetSubstraitPlan :: "bytes \<Rightarrow> driver_error option" where
  "SetSubstraitPlan plan = Some (errStatus StatusNotImplemented (Format ''Substrait'' []))"

definition Prepare :: "statementImpl \<Rightarrow> driver_error + statementImpl" where
  "Prepare s = Inr s"

definition Bind :: "Record \<Rightarrow> statementImpl \<Rightarrow> statementImpl" where
  "Bind rec s = (clearBound s)\<lparr>bound := Some rec\<rparr>"

definition BindStream :: "recordStream \<Rightarrow> statementImpl \<Rightarrow> statementImpl" where
  "BindStream rr s = (clearBound s)\<lparr>boundStream := Some rr\<rparr>"

definition ExecutePartitions :: "driver_error option" where
  "ExecutePartitions = Some (errStatus StatusNotImplemented (Format ''ExecutePartitions'' []))"

section \<open>Execution\<close>

text \<open>An execution returns its result, the statement and the connection.\<close>

type_synonym 'a sact = "connectionImpl \<Rightarrow> (driver_error + 'a) \<times> statementImpl \<times> connectionImpl"

definition leaving :: "statementImpl \<Rightarrow> 'a dact \<Rightarrow> 'a sact" where
  "leaving s m c = (case m c of (r, c') \<Rightarrow> (r, s, c'))"

definition hasBound :: "statementImpl \<Rightarrow> bool" where
  "hasBound s \<longleftrightarrow> bound s \<noteq> None \<or> boundStream s \<noteq> None"

definition runQuery :: "env \<Rightarrow> string \<Rightarrow> (RecordReader \<times> int) dact" where
  "runQuery E sql =
     dthen (via E (Conn_Query (eUpper E) sql)) (\<lambda>i. with_dconn (\<lambda>c.
     let q = queries (dConn c) ! i in
     case qResult q of
       Some res \<Rightarrow>
         dthen (autoCommitIfNeeded E) (\<lambda>_. dthen (newRecordReader E LibErr [] []) (\<lambda>rr. dok (rr, RowsAffected res)))
     | None \<Rightarrow>
         let ncols = (case qColumns q of Some cols \<Rightarrow> length cols | None \<Rightarrow> 0) in
         if ncols \<noteq> length (qFields q) then
           dthen (ignoring (Query_Close i)) (\<lambda>_.
           dfail (errStatus StatusInternal
             (Format ''db2: result descriptor mismatch: SQLDARD describes %d columns but QRYDSC has %d fields (please report with adbc.db2.trace=hex)''
                [nat_str ncols, nat_str (length (qFields q))])))
         else dok (Streaming (newStreamingRecordReader c i (batchSize (dCfg c))), - 1)))"

definition ExecuteQuery :: "env \<Rightarrow> statementImpl \<Rightarrow> (RecordReader \<times> int) sact" where
  "ExecuteQuery E s =
     (if targetTable s \<noteq> '''' \<and> hasBound s then
        leaving (clearBound s)
          (dthen (executeIngest E s) (\<lambda>n. dthen (newRecordReader E LibErr [] []) (\<lambda>rr. dok (rr, n))))
      else if stSql s = '''' then
        leaving s (dfail (errStatus StatusInvalidState (Format ''ExecuteQuery: no SQL set'' [])))
      else if hasBound s then leaving (clearBound s) (executeBoundQuery E s)
      else leaving s (runQuery E (stSql s)))"

definition ExecuteUpdate :: "env \<Rightarrow> statementImpl \<Rightarrow> int sact" where
  "ExecuteUpdate E s =
     (if targetTable s \<noteq> '''' \<and> hasBound s then leaving (clearBound s) (executeIngest E s)
      else if stSql s = '''' then
        leaving s (dfail (errStatus StatusInvalidState (Format ''ExecuteUpdate: no SQL set'' [])))
      else if hasBound s then leaving (clearBound s) (executeBoundUpdate E s)
      else
        leaving s (dthen (via E (ExecImmediate (eUpper E) (stSql s))) (\<lambda>res.
          dthen (autoCommitIfNeeded E) (\<lambda>_. dok (RowsAffected res)))))"

definition columns_of :: "ColumnDesc list option \<Rightarrow> ColumnDesc list" where
  "columns_of cols = (case cols of Some cs \<Rightarrow> cs | None \<Rightarrow> [])"

definition ExecuteSchema :: "env \<Rightarrow> statementImpl \<Rightarrow> Field list dact" where
  "ExecuteSchema E s =
     (if stSql s = '''' then dfail (errStatus StatusInvalidState (Format ''ExecuteSchema: no SQL set'' []))
      else dthen (via E (Describe (eUpper E) (stSql s))) (\<lambda>(cols, params). dok (schemaFor (columns_of cols))))"

definition GetParameterSchema :: "env \<Rightarrow> statementImpl \<Rightarrow> Field list option dact" where
  "GetParameterSchema E s =
     (if stSql s = '''' then dfail (errStatus StatusInvalidState (Format ''GetParameterSchema: no SQL set'' []))
      else
        dthen (raw (Describe (eUpper E) (stSql s))) (\<lambda>r.
        case r of
          Inl e \<Rightarrow> if sqlcode e = Some (- 418) then dok None else dfail (fromDRDAError (eIO E) (DrdaErr e))
        | Inr (cols, params) \<Rightarrow>
            dok (Some (map (\<lambda>(i, p). (arrowFieldFor p)\<lparr>afName := nat_str i, afNullable := True\<rparr>)
                        (enumerate 0 (columns_of params))))))"

section \<open>Options read back\<close>

fun setAll :: "(string \<Rightarrow> string \<Rightarrow> 's \<Rightarrow> driver_error + 's) \<Rightarrow> (string \<times> string) list \<Rightarrow> 's \<Rightarrow> driver_error + 's" where
  "setAll store [] s = Inr s"
| "setAll store ((k, v) # kvs) s = (case store k v s of Inl e \<Rightarrow> Inl e | Inr s1 \<Rightarrow> setAll store kvs s1)"

text \<open>
  What databases and statements promise of their options: a value that was set is read back, up
  to the spelling \<open>stands\<close> allows, if the option is readable, and setting one leaves the others.
\<close>

locale option_store =
  fixes store :: "string \<Rightarrow> string \<Rightarrow> 's \<Rightarrow> driver_error + 's"
    and fetch :: "string \<Rightarrow> 's \<Rightarrow> driver_error + string"
    and stands :: "string \<Rightarrow> string \<Rightarrow> bool"
    and readable :: "string \<Rightarrow> bool"
  assumes stored: "store k v s = Inr s' \<Longrightarrow> readable k \<Longrightarrow> \<exists>w. fetch k s' = Inr w \<and> stands v w"
    and others: "store k v s = Inr s' \<Longrightarrow> k' \<noteq> k \<Longrightarrow> fetch k' s' = fetch k' s"
begin

lemma untouched: "setAll store kvs s = Inr s' \<Longrightarrow> k \<notin> fst ` set kvs \<Longrightarrow> fetch k s' = fetch k s"
  by (induction kvs arbitrary: s) (auto simp: others split: sum.splits)

lemma read_back:
  "setAll store kvs s = Inr s' \<Longrightarrow> map_of (rev kvs) k = Some v \<Longrightarrow> readable k \<Longrightarrow> \<exists>w. fetch k s' = Inr w \<and> stands v w"
proof (induction kvs arbitrary: s)
  case (Cons kv kvs)
  obtain k1 v1 where kv: "kv = (k1, v1)" by (cases kv)
  obtain s1 where s1: "store k1 v1 s = Inr s1" "setAll store kvs s1 = Inr s'" using Cons.prems(1) kv by (auto split: sum.splits)
  show ?case
  proof (cases "map_of (rev kvs) k")
    case None
    then have "k1 = k \<and> v1 = v" using Cons.prems(2) kv by (simp add: map_add_def split: if_splits)
    moreover have "k \<notin> fst ` set kvs" using None by (simp add: map_of_eq_None_iff)
    ultimately show ?thesis using stored [OF s1(1)] Cons.prems(3) untouched [OF s1(2)] by simp
  next
    case (Some v')
    then have "v' = v" using Cons.prems(2) kv by (simp add: map_add_def)
    then show ?thesis using Cons.IH [OF s1(2)] Some Cons.prems(3) by simp
  qed
qed simp

end

definition same_number :: "string \<Rightarrow> string \<Rightarrow> bool" where
  "same_number v w \<longleftrightarrow> w = v \<or> Atoi v \<noteq> None \<and> Atoi w = Atoi v"

lemma if_elims: "(if b then x else y) = z \<Longrightarrow> (b \<Longrightarrow> x = z \<Longrightarrow> P) \<Longrightarrow> (\<not> b \<Longrightarrow> y = z \<Longrightarrow> P) \<Longrightarrow> P"
  by (cases b) simp_all

lemma option_elims:
  "(case x of None \<Rightarrow> a | Some y \<Rightarrow> f y) = z \<Longrightarrow> (x = None \<Longrightarrow> a = z \<Longrightarrow> P) \<Longrightarrow> (\<And>y. x = Some y \<Longrightarrow> f y = z \<Longrightarrow> P) \<Longrightarrow> P"
  by (cases x) simp_all

lemma same_number_refl [simp]: "same_number v v"
  by (simp add: same_number_def)

lemma same_number_positive: "positive v = Some n \<Longrightarrow> same_number v (int_str n)"
  by (auto simp: positive_def same_number_def Atoi_def text_simps split: option.splits if_splits)

interpretation db: option_store "\<lambda>k v d. Inr (Database_SetOption k v d)" Database_GetOption "(=)" "\<lambda>k. k \<noteq> OptionPassword"
  by unfold_locales (auto simp: Database_SetOption_def Database_GetOption_def update_conv split: option.splits)

interpretation st: option_store Statement_SetOption Statement_GetOption same_number "\<lambda>k. True"
proof
  fix k v s s'
  assume set: "Statement_SetOption k v s = Inr s'"
  then show "\<exists>w. Statement_GetOption k s' = Inr w \<and> same_number v w"
    by (auto simp: Statement_SetOption_def Statement_GetOption_def same_number_positive
        split: if_splits option.splits)
  show "k' \<noteq> k \<Longrightarrow> Statement_GetOption k' s' = Statement_GetOption k' s" for k'
    using set unfolding Statement_SetOption_def
    by (elim if_elims option_elims; clarsimp simp: Statement_GetOption_def)
qed

text \<open>
  C37: options read back.  After any sequence of settings that a statement accepted, each option
  that was set reads back as the last value set, up to the spelling of a number, and the others
  read as before; the same holds for a database, whose password alone cannot be read.
\<close>

theorem options_read_back:
  "(setAll Statement_SetOption kvs s = Inr s' \<longrightarrow>
      (case map_of (rev kvs) k of
         Some v \<Rightarrow> (\<exists>w. Statement_GetOption k s' = Inr w \<and> same_number v w)
       | None \<Rightarrow> Statement_GetOption k s' = Statement_GetOption k s))
   \<and> (setAll (\<lambda>k v d. Inr (Database_SetOption k v d)) kvs d = Inr d' \<and> k \<noteq> OptionPassword \<longrightarrow>
        (case map_of (rev kvs) k of
           Some v \<Rightarrow> Database_GetOption k d' = Inr v
         | None \<Rightarrow> Database_GetOption k d' = Database_GetOption k d))"
proof (cases "map_of (rev kvs) k")
  case None
  then have "k \<notin> fst ` set kvs" by (simp add: map_of_eq_None_iff)
  then show ?thesis using None st.untouched [of kvs s s' k] db.untouched [of kvs d d' k] by simp
next
  case (Some v)
  then show ?thesis using st.read_back [of kvs s s' k v] db.read_back [of kvs d d' k v] by simp
qed

theorem options_read_back_witness:
  "\<exists>s'. setAll Statement_SetOption [(OptionIngestBatchRows, ''007''), (OptionKeyIngestTargetTable, ''T'')] newStatement = Inr s'
     \<and> (\<exists>w. Statement_GetOption OptionIngestBatchRows s' = Inr w \<and> same_number ''007'' w)"
proof -
  let ?kvs = "[(OptionIngestBatchRows, ''007''), (OptionKeyIngestTargetTable, ''T'')]"
  have "Atoi ''007'' = Some 7" by code_simp
  then have "\<exists>s'. setAll Statement_SetOption ?kvs newStatement = Inr s'"
    by (simp add: Statement_SetOption_def positive_def)
  then obtain s' where s: "setAll Statement_SetOption ?kvs newStatement = Inr s'" by blast
  have "map_of (rev ?kvs) OptionIngestBatchRows = Some ''007''" by simp
  then show ?thesis
    using options_read_back [of ?kvs newStatement s' OptionIngestBatchRows] s by auto
qed

end
