(* ===== verification/Db2_Session.thy ===== *)
theory Db2_Session
  imports Db2_Driver
begin

text \<open>
  A client at work on a connection.  \<open>driver_step\<close> has one rule per operation of a connection, of
  its statements and of their readers; \<open>uow_spec\<close> is the transaction model the comment on
  \<^verbatim>\<open>connectionImpl\<close> promises, over the state \<open>(autocommit, closed)\<close> and events: transmissions of
  statement commands, commits and rollbacks.

  Results: every operation keeps the session invariant and the settings, implements the
  transaction model, and does not get stuck.
\<close>

section \<open>Operations of a client\<close>

datatype driver_op = Work | Change | EndCommit | EndRollback | SetAuto string | Shut

text \<open>The flag is whether the operation succeeded.\<close>

inductive driver_step :: "env \<Rightarrow> driver_op \<Rightarrow> bool \<Rightarrow> connectionImpl \<Rightarrow> connectionImpl \<Rightarrow> bool" for E where
  query: "ExecuteQuery E s c = (r, s', c') \<Longrightarrow> driver_step E Work (\<not> isl r) c c'"
| update: "ExecuteUpdate E s c = (r, s', c') \<Longrightarrow> driver_step E Change (\<not> isl r) c c'"
| describe: "ExecuteSchema E s c = (r, c') \<Longrightarrow> driver_step E Work (\<not> isl r) c c'"
| parameters: "GetParameterSchema E s c = (r, c') \<Longrightarrow> driver_step E Work (\<not> isl r) c c'"
| fetch: "Reader_Next E rr c = (b, rr', c') \<Longrightarrow> driver_step E Work b c c'"
| release: "Release rr c = (rr', c') \<Longrightarrow> driver_step E Work True c c'"
| info: "getInfoImpl version codes c = (r, c') \<Longrightarrow> driver_step E Work (\<not> isl r) c c'"
| objects: "getObjectsImpl E objs depth cat sch tn cn types c = (r, c') \<Longrightarrow> driver_step E Work (\<not> isl r) c c'"
| table: "getTableSchemaImpl E sch name c = (r, c') \<Longrightarrow> driver_step E Work (\<not> isl r) c c'"
| get: "Connection_GetOption E key c = (r, c') \<Longrightarrow> driver_step E Work (\<not> isl r) c c'"
| set: "Connection_SetOption E key v c = (r, c') \<Longrightarrow>
     driver_step E (if key = OptionKeyAutoCommit then SetAuto v
                    else if key = OptionKeyReadOnly then Work else Change) (\<not> isl r) c c'"
| commit: "Connection_Commit E c = (r, c') \<Longrightarrow> driver_step E EndCommit (\<not> isl r) c c'"
| rollback: "Connection_Rollback E c = (r, c') \<Longrightarrow> driver_step E EndRollback (\<not> isl r) c c'"
| shut: "Connection_Close cerr c = (r, c') \<Longrightarrow> driver_step E Shut (\<not> isl r) c c'"

section \<open>What the operations keep\<close>

lemma leaving_eq: "leaving s m c = (r, s', c') \<longleftrightarrow> s' = s \<and> m c = (r, c')"
  by (auto simp: leaving_def split: prod.splits)

context session_frame
begin

lemma execution_kept:
  "ExecuteQuery E s c = (r, s', c') \<Longrightarrow> R c c'" "ExecuteUpdate E s c = (x, s', c') \<Longrightarrow> R c c'"
proof -
  have q: "dkeeps R (runQuery E sql)" for sql
    unfolding runQuery_def newRecordReader_def Let_def by (intro operations)
  have r: "dkeeps R (newRecordReader E w sch recs)" for w sch recs
    unfolding newRecordReader_def by (intro combinators)
  show "ExecuteQuery E s c = (r, s', c') \<Longrightarrow> R c c'"
    by (auto simp: ExecuteQuery_def leaving_eq split: if_splits
        elim!: dkeepsD [rotated] intro!: operations executeIngest_kept bound_kept q r)
  show "ExecuteUpdate E s c = (x, s', c') \<Longrightarrow> R c c'"
    by (auto simp: ExecuteUpdate_def leaving_eq split: if_splits
        elim!: dkeepsD [rotated] intro!: operations executeIngest_kept bound_kept)
qed

lemma describe_kept: "dkeeps R (ExecuteSchema E s)" "dkeeps R (GetParameterSchema E s)" "dkeeps R (Connection_GetOption E key)"
  unfolding ExecuteSchema_def GetParameterSchema_def Connection_GetOption_def by (intro operations currentSchema_kept)+

lemma execSetting_kept: "dkeeps R (execSetting E sql)"
  unfolding execSetting_def by (intro operations)

lemma setting_kept: "key \<noteq> OptionKeyAutoCommit \<Longrightarrow> dkeeps R (Connection_SetOption E key v)"
  unfolding Connection_SetOption_def by (simp del: insert_iff) (intro conjI impI operations execSetting_kept)

text \<open>The operations that are not about transactions.\<close>

lemma work_kept: "driver_step E op b c c' \<Longrightarrow> op \<in> {Work, Change} \<Longrightarrow> R c c'"
proof (induction rule: driver_step.induct)
  case (set key v c r c')
  then have "key \<noteq> OptionKeyAutoCommit" by auto
  then show ?case using set.hyps by (rule dkeepsD [OF setting_kept])
qed (auto elim: execution_kept Reader_Next_kept Release_kept dest: dkeepsD [OF describe_kept(1)]
     dkeepsD [OF describe_kept(2)] dkeepsD [OF describe_kept(3)] dkeepsD [OF metadata_kept(1)] dkeepsD [OF metadata_kept(2)]
     dkeepsD [OF metadata_kept(3)])

end

section \<open>The transaction model\<close>

datatype uow_event = StatementEv | CommitEv | RollbackEv | OtherEv

definition event :: "req list \<Rightarrow> uow_event" where
  "event rs =
     (let cps = map (\<lambda>(ob, corr, same, isLast). Object_CodePoint ob) rs in
      if cps = [RDBCMM] then CommitEv
      else if cps = [RDBRLLBCK] then RollbackEv
      else if set cps \<subseteq> statement_cps then StatementEv
      else OtherEv)"

definition statements :: "uow_event list \<Rightarrow> bool" where
  "statements evs \<longleftrightarrow> set evs \<subseteq> {StatementEv}"

text \<open>
  With autocommit on, statements and commits; a change that succeeded is committed.  With
  autocommit off, only \<open>Commit\<close> and turning autocommit on commit, and only \<open>Rollback\<close> and \<open>Close\<close>
  roll back; these may first close a cursor.
\<close>

inductive uow_spec :: "driver_op \<Rightarrow> bool \<times> bool \<Rightarrow> bool \<Rightarrow> uow_event list \<Rightarrow> bool \<times> bool \<Rightarrow> bool" where
  manual_work: "op \<in> {Work, Change} \<Longrightarrow> statements evs \<Longrightarrow> uow_spec op (False, cl) b evs (False, cl)"
| auto_work: "set evs \<subseteq> {StatementEv, CommitEv} \<Longrightarrow> uow_spec Work (True, cl) b evs (True, cl)"
| auto_change: "set evs \<subseteq> {StatementEv, CommitEv} \<Longrightarrow> b \<longrightarrow> evs \<noteq> [] \<and> last evs = CommitEv \<Longrightarrow>
     uow_spec Change (True, cl) b evs (True, cl)"
| refused: "op \<in> {EndCommit, EndRollback} \<Longrightarrow> uow_spec op (True, cl) False [] (True, cl)"
| commits: "statements evs \<Longrightarrow> uow_spec EndCommit (False, cl) b (evs @ [CommitEv]) (False, cl)"
| rolls_back: "statements evs \<Longrightarrow> uow_spec EndRollback (False, cl) b (evs @ [RollbackEv]) (False, cl)"
| stopped: "op \<in> {EndCommit, EndRollback, SetAuto v} \<Longrightarrow> statements evs \<Longrightarrow> uow_spec op (False, cl) False evs (False, cl)"
| turn_off: "uow_spec (SetAuto OptionValueDisabled) (a, cl) True [] (False, cl)"
| stay_on: "uow_spec (SetAuto OptionValueEnabled) (True, cl) True [] (True, cl)"
| turn_on: "statements evs \<Longrightarrow> uow_spec (SetAuto OptionValueEnabled) (False, cl) b (evs @ [CommitEv]) (b, cl)"
| unknown: "v \<notin> {OptionValueEnabled, OptionValueDisabled} \<Longrightarrow> uow_spec (SetAuto v) st False [] st"
| shut_auto: "uow_spec Shut (True, False) b [] (True, True)"
| shut_manual: "statements evs \<Longrightarrow> ends_roll \<in> {[], [RollbackEv]} \<Longrightarrow> uow_spec Shut (False, False) b (evs @ ends_roll) (False, True)"
| shut_again: "uow_spec Shut (a, True) False [] (a, True)"

section \<open>Ending a unit of work\<close>

definition quiet :: "Conn \<Rightarrow> bool" where
  "quiet c \<longleftrightarrow> wr c = NewWriter \<and> bind_off c"

lemma emitsD:
  assumes "emits P c c'" "quiet c"
  obtains rss where "quiet c'" "sent c' = sent c @ map wire rss" "list_all P rss"
  using assms by (auto simp: emits_def quiet_def)

lemma event_statement: "commands statement_cps rs \<Longrightarrow> event rs = StatementEv"
proof -
  assume a: "commands statement_cps rs"
  then have s: "set (map (\<lambda>(ob, corr, same, isLast). Object_CodePoint ob) rs) \<subseteq> statement_cps"
    by (auto simp: commands_def list_all_iff)
  moreover have "RDBCMM \<notin> statement_cps" "RDBRLLBCK \<notin> statement_cps" by (simp_all add: statement_cps_def)
  ultimately have "map (\<lambda>(ob, corr, same, isLast). Object_CodePoint ob) rs \<noteq> [RDBCMM]"
    "map (\<lambda>(ob, corr, same, isLast). Object_CodePoint ob) rs \<noteq> [RDBRLLBCK]" by force+
  then show ?thesis using s by (simp only: event_def Let_def if_False if_True)
qed

lemma event_end: "event [(packRDBCMM, n, s, l)] = CommitEv" "event [(packRDBRLLBCK, n, s, l)] = RollbackEv"
  by (simp_all add: event_def pack_defs)

lemma events_statements: "list_all (commands statement_cps) rss \<Longrightarrow> statements (map event rss)"
  by (auto simp: statements_def list_all_iff event_statement)

lemma silent_collectResult:
  assumes "collectResult ds c = (r, c')" "quiet c"
  shows "sent c' = sent c" "quiet c'"
proof -
  obtain rss where "quiet c'" "sent c' = sent c @ map wire rss" "list_all (\<lambda>rs. False) rss"
    using emitsD [OF keepsD [OF emits_collectResult assms(1)] assms(2)] by blast
  then show "sent c' = sent c" "quiet c'" by (cases rss; simp)+
qed

lemma endUnitOfWork_effect:
  assumes "endUnitOfWork cmd c = (r, c')" "quiet c"
  shows "\<exists>rss. quiet c' \<and> list_all (commands statement_cps) rss
    \<and> (isl r \<and> sent c' = sent c @ map wire rss \<or> sent c' = sent c @ map wire (rss @ [[(cmd, 1, False, True)]]))"
proof -
  obtain x c1 where e: "ensureNoOpenQuery c = (x, c1)" by fastforce
  obtain rss where a: "quiet c1" "sent c1 = sent c @ map wire rss" "list_all (commands statement_cps) rss"
    using emitsD [OF keepsD [OF emits_ensureNoOpenQuery e] assms(2)] by blast
  show ?thesis
  proof (cases x)
    case (Inl err)
    then show ?thesis using assms(1) e a by (auto simp: endUnitOfWork_def andthen_def)
  next
    case (Inr u)
    obtain y c2 where t: "transmit [(cmd, 1, False, True)] 1 c1 = (y, c2)" by fastforce
    have w: "wr c1 = NewWriter" "bind_off c1" using a(1) by (simp_all add: quiet_def)
    note tr = transmit_effect [OF _ w(1) t]
    have q: "quiet c2" using tr(1) w(2) same_sessionD [OF tr(3)] by (simp add: quiet_def bind_off_def)
    have "c' = c2 \<or> (\<exists>ds z. collectResult ds c2 = (z, c'))"
      using assms(1) e t Inr by (auto simp: endUnitOfWork_def ok_def elim!: andthen_cases)
    then have "sent c' = sent c2 \<and> quiet c'" using silent_collectResult q by auto
    then show ?thesis using a tr(2) by (intro exI [of _ rss]) auto
  qed
qed

section \<open>Changes are committed\<close>

text \<open>An operation that, when it succeeds, ends by committing if autocommit is on.\<close>

definition finishing :: "env \<Rightarrow> 'a dact \<Rightarrow> bool" where
  "finishing E m \<longleftrightarrow> (\<forall>c n c'. m c = (Inr n, c') \<longrightarrow> (\<exists>c2. txn c c2 \<and> autoCommitIfNeeded E c2 = (Inr (), c')))"

lemma finishing_intros:
  "finishing E (dfail e)" "finishing E (dthen (autoCommitIfNeeded E) (\<lambda>_. dok x))" "finishing E (autoCommitIfNeeded E)"
  "dkeeps txn m \<Longrightarrow> (\<And>x. finishing E (f x)) \<Longrightarrow> finishing E (dthen m f)"
  "finishing E m1 \<Longrightarrow> finishing E m2 \<Longrightarrow> finishing E (if b then m1 else m2)"
  "finishing E m1 \<Longrightarrow> (\<And>x. finishing E (g x)) \<Longrightarrow> finishing E (case y of None \<Rightarrow> m1 | Some x \<Rightarrow> g x)"
  "(\<And>a b. finishing E (h a b)) \<Longrightarrow> finishing E (case p of (a, b) \<Rightarrow> h a b)"
proof -
  show "finishing E (dfail e)" by (simp add: finishing_def dfail_def)
  show "finishing E (dthen (autoCommitIfNeeded E) (\<lambda>_. dok x))" "finishing E (autoCommitIfNeeded E)"
    using uow.refl by (fastforce simp: finishing_def dok_def elim!: dthen_cases)+
  show "finishing E (dthen m f)" if m: "dkeeps txn m" and f: "\<And>x. finishing E (f x)"
    unfolding finishing_def
  proof (intro allI impI)
    fix c n c' assume "dthen m f c = (Inr n, c')"
    then obtain x c1 where "m c = (Inr x, c1)" and r: "f x c1 = (Inr n, c')" by (auto elim!: dthen_cases)
    then have "txn c c1" using m by (auto dest: dkeepsD)
    then show "\<exists>c2. txn c c2 \<and> autoCommitIfNeeded E c2 = (Inr (), c')"
      using f r uow.trans unfolding finishing_def by blast
  qed
qed (auto split: option.splits prod.splits)

lemma finishing_update: "finishing E (executeIngest E s)" "finishing E (executeBoundUpdate E s)" "finishing E (execSetting E sql)"
  unfolding executeIngest_def executeBoundUpdate_def execSetting_def Let_def
  by (intro finishing_intros uow.operations uow.prepare_kept uow.pumpRecords_kept uow.boundRows_kept uow.updateRows_kept)+

lemma finishingD: "finishing E m \<Longrightarrow> m c = (r, c') \<Longrightarrow> \<not> isl r \<Longrightarrow> \<exists>c2. txn c c2 \<and> autoCommitIfNeeded E c2 = (Inr (), c')"
  by (cases r) (auto simp: finishing_def)

lemma finishing_set:
  "key \<noteq> OptionKeyAutoCommit \<Longrightarrow> key \<noteq> OptionKeyReadOnly \<Longrightarrow> finishing E (Connection_SetOption E key v)"
  unfolding Connection_SetOption_def by (simp del: insert_iff) (intro conjI impI finishing_intros finishing_update)

lemma ExecuteUpdate_finishes:
  assumes "ExecuteUpdate E s c = (r, s', c')" "\<not> isl r"
  shows "\<exists>c2. txn c c2 \<and> autoCommitIfNeeded E c2 = (Inr (), c')"
proof -
  have "finishing E (dthen (via E (ExecImmediate (eUpper E) (stSql s))) (\<lambda>res. dthen (autoCommitIfNeeded E) (\<lambda>_. dok (RowsAffected res))))"
    by (intro finishing_intros uow.operations)
  then show ?thesis
    using assms finishingD finishing_update finishing_intros(1) by (auto simp: ExecuteUpdate_def leaving_eq split: if_splits) blast+
qed

lemma change_committed:
  assumes "driver_step E Change True c c'"
  shows "\<exists>c2. txn c c2 \<and> autoCommitIfNeeded E c2 = (Inr (), c')"
  using assms
proof (cases rule: driver_step.cases)
  case (update s r s')
  then show ?thesis using ExecuteUpdate_finishes by auto
next
  case (set key v r)
  then have "finishing E (Connection_SetOption E key v)" by (intro finishing_set) (auto split: if_splits)
  then show ?thesis using set finishingD by auto
qed

section \<open>The driver implements the transaction model\<close>

definition uow_state :: "connectionImpl \<Rightarrow> bool \<times> bool" where
  "uow_state c = (autoCommit c, dClosed c)"

definition implements :: "driver_op \<Rightarrow> bool \<Rightarrow> connectionImpl \<Rightarrow> connectionImpl \<Rightarrow> bool" where
  "implements op b c c' \<longleftrightarrow>
     quiet (dConn c') \<and> (\<exists>rss. sent (dConn c') = sent (dConn c) @ map wire rss
       \<and> uow_spec op (uow_state c) b (map event rss) (uow_state c'))"

lemma implementsI:
  "quiet (dConn c') \<Longrightarrow> sent (dConn c') = sent (dConn c) @ map wire rss
     \<Longrightarrow> uow_spec op (uow_state c) b (map event rss) (uow_state c') \<Longrightarrow> implements op b c c'"
  by (auto simp: implements_def)

lemma txn_events:
  assumes "txn c c'" "quiet (dConn c)"
  obtains rss where "quiet (dConn c')" "sent (dConn c') = sent (dConn c) @ map wire rss" "autoCommit c' = autoCommit c"
    "set (map event rss) \<subseteq> (if autoCommit c then {StatementEv, CommitEv} else {StatementEv})"
proof -
  have e: "emits (permitted (autoCommit c)) (dConn c) (dConn c')" and a: "autoCommit c' = autoCommit c"
    using assms(1) by (simp_all add: txn_def)
  from emitsD [OF e assms(2)] obtain rss where r: "quiet (dConn c')" "sent (dConn c') = sent (dConn c) @ map wire rss"
    "list_all (permitted (autoCommit c)) rss" by blast
  have "set (map event rss) \<subseteq> (if autoCommit c then {StatementEv, CommitEv} else {StatementEv})"
    using r(3) by (auto simp: list_all_iff permitted_def event_statement event_end)
  then show ?thesis using that r a by blast
qed

text \<open>Ending a unit of work, as the driver sees it.\<close>

lemma unit_end:
  assumes "endUnitOfWork cmd (dConn c) = (r, k)" "quiet (dConn c)" "event [(cmd, 1, False, True)] = ev"
  obtains rss where "quiet k" "sent k = sent (dConn c) @ map wire rss"
    "isl r \<and> statements (map event rss) \<or> (\<exists>evs. statements evs \<and> map event rss = evs @ [ev])"
proof -
  obtain qs where q: "quiet k" "list_all (commands statement_cps) qs"
    "isl r \<and> sent k = sent (dConn c) @ map wire qs \<or> sent k = sent (dConn c) @ map wire (qs @ [[(cmd, 1, False, True)]])"
    using endUnitOfWork_effect [OF assms(1,2)] by blast
  note s = events_statements [OF q(2)]
  show ?thesis
    using q(3)
  proof (elim disjE)
    assume "isl r \<and> sent k = sent (dConn c) @ map wire qs"
    then show ?thesis using that [of qs] q(1) s by simp
  next
    assume "sent k = sent (dConn c) @ map wire (qs @ [[(cmd, 1, False, True)]])"
    then show ?thesis using that [of "qs @ [[(cmd, 1, False, True)]]"] q(1) s assms(3) by auto
  qed
qed

lemma work_implements:
  assumes "driver_step E op b c c'" "quiet (dConn c)" "op \<in> {Work, Change}" "op = Change \<longrightarrow> \<not> b \<or> \<not> autoCommit c"
  shows "implements op b c c'"
proof -
  have "dClosed c' = dClosed c" using inv.work_kept [OF assms(1,3)] by (simp add: dgood_def)
  moreover obtain rss where r: "quiet (dConn c')" "sent (dConn c') = sent (dConn c) @ map wire rss" "autoCommit c' = autoCommit c"
    and evs: "set (map event rss) \<subseteq> (if autoCommit c then {StatementEv, CommitEv} else {StatementEv})"
    using txn_events [OF uow.work_kept [OF assms(1,3)] assms(2)] by blast
  moreover have "uow_spec op (autoCommit c, cl) b (map event rss) (autoCommit c, cl)" for cl
  proof (cases "autoCommit c")
    case True
    then have e: "set (map event rss) \<subseteq> {StatementEv, CommitEv}" using evs by (simp only: if_True)
    show ?thesis
      using assms(3,4) True uow_spec.auto_work [OF e, of cl b] uow_spec.auto_change [OF e, of b cl] by auto
  next
    case False
    then have "statements (map event rss)" using evs by (simp only: if_False statements_def)
    then show ?thesis using uow_spec.manual_work [OF assms(3)] False by simp
  qed
  ultimately show ?thesis by (intro implementsI [of _ _ rss]) (simp_all add: uow_state_def)
qed

lemma change_implements:
  assumes "driver_step E Change True c c'" "quiet (dConn c)" "autoCommit c"
  shows "implements Change True c c'"
proof -
  have cl: "dClosed c' = dClosed c" and au: "autoCommit c'"
    using inv.work_kept [OF assms(1)] assms(3) by (simp_all add: dgood_def)
  obtain c2 where c2: "txn c c2" "autoCommitIfNeeded E c2 = (Inr (), c')" using change_committed [OF assms(1)] by blast
  obtain rss where t: "quiet (dConn c2)" "sent (dConn c2) = sent (dConn c) @ map wire rss" "autoCommit c2 = autoCommit c"
    "set (map event rss) \<subseteq> (if autoCommit c then {StatementEv, CommitEv} else {StatementEv})"
    using txn_events [OF c2(1) assms(2)] by blast
  note r = t(1,2) t(3,4) [unfolded eqTrueI [OF assms(3)] if_True]
  obtain x k where m: "Commit (dConn c2) = (x, k)" by fastforce
  have x: "x = Inr () \<and> dConn c' = k"
    using c2(2) r(3) m
    by (cases x) (auto simp: autoCommitIfNeeded_def with_dconn_def via_def raw_def dthen_def dok_def dfail_def)
  obtain qs where q: "quiet k" "sent k = sent (dConn c2) @ map wire qs"
    "isl x \<and> statements (map event qs) \<or> (\<exists>evs. statements evs \<and> map event qs = evs @ [CommitEv])"
    using unit_end [OF m [unfolded Commit_def] r(1) event_end(1)] by blast
  then obtain evs where evs: "statements evs" "map event qs = evs @ [CommitEv]" using x by auto
  have "uow_spec Change (True, dClosed c) True (map event (rss @ qs)) (True, dClosed c)"
    using r(4) evs by (intro uow_spec.auto_change) (auto simp: statements_def)
  then show ?thesis
    using q(1,2) r(2) x cl au assms(3) by (intro implementsI [of _ _ "rss @ qs"]) (simp_all add: uow_state_def)
qed

lemma via_cases:
  assumes "via E m c = (r, c')"
  obtains x k where "m (dConn c) = (x, k)" "c' = c\<lparr>dConn := k\<rparr>" "isl r = isl x"
proof -
  obtain x k where m: "m (dConn c) = (x, k)" by fastforce
  then have "c' = c\<lparr>dConn := k\<rparr>" "isl r = isl x"
    using assms by (cases x; auto simp: via_def dthen_def raw_def dok_def dfail_def)+
  then show ?thesis using that m by blast
qed

lemma refused_implements: "quiet (dConn c) \<Longrightarrow> uow_spec op (uow_state c) b [] (uow_state c) \<Longrightarrow> implements op b c c"
  by (rule implementsI [of _ _ "[]"]) simp_all

text \<open>Committing or rolling back by hand, followed by a local change.\<close>

lemma unit_implements:
  assumes "endUnitOfWork cmd (dConn c) = (r, k)" "quiet (dConn c)" "event [(cmd, 1, False, True)] = ev" "dConn c' = k"
    "\<And>evs. statements evs \<Longrightarrow> uow_spec op (uow_state c) b (evs @ [ev]) (uow_state c')"
    "\<And>evs. isl r \<Longrightarrow> statements evs \<Longrightarrow> uow_spec op (uow_state c) b evs (uow_state c')"
  shows "implements op b c c'"
proof -
  obtain rss where r: "quiet k" "sent k = sent (dConn c) @ map wire rss"
    "isl r \<and> statements (map event rss) \<or> (\<exists>evs. statements evs \<and> map event rss = evs @ [ev])"
    using unit_end [OF assms(1-3)] by blast
  then have "uow_spec op (uow_state c) b (map event rss) (uow_state c')" using assms(5,6) by auto
  then show ?thesis using r assms(4) by (intro implementsI [of _ _ rss]) simp_all
qed

lemma end_implements:
  assumes "quiet (dConn c)" "event [(cmd, 1, False, True)] = ev" "op \<in> {EndCommit, EndRollback}"
    and run: "(if autoCommit c then dfail e else via E (endUnitOfWork cmd)) c = (r, c')"
    and spec: "\<And>evs b. statements evs \<Longrightarrow> uow_spec op (False, dClosed c) b (evs @ [ev]) (False, dClosed c)"
  shows "implements op (\<not> isl r) c c'"
proof (cases "autoCommit c")
  case True
  then have "c' = c" "isl r" using run by (auto simp: dfail_def)
  then show ?thesis using assms(1,3) True by (auto simp: uow_state_def intro!: refused_implements uow_spec.refused)
next
  case False
  then have v: "via E (endUnitOfWork cmd) c = (r, c')" using run by simp
  obtain x k where m: "endUnitOfWork cmd (dConn c) = (x, k)" "c' = c\<lparr>dConn := k\<rparr>" "isl r = isl x" using via_cases [OF v] .
  show ?thesis
    by (rule unit_implements [OF m(1) assms(1,2)])
       (use m False assms(3) spec in \<open>auto simp: uow_state_def intro: uow_spec.stopped\<close>)
qed

lemma ends_implement:
  assumes "quiet (dConn c)"
  shows "Connection_Commit E c = (r, c') \<Longrightarrow> implements EndCommit (\<not> isl r) c c'"
    and "Connection_Rollback E c = (r, c') \<Longrightarrow> implements EndRollback (\<not> isl r) c c'"
  unfolding Connection_Commit_def Connection_Rollback_def with_dconn_def Commit_def Rollback_def
  by (rule end_implements [OF assms event_end(1) _ _ uow_spec.commits]; simp)
     (rule end_implements [OF assms event_end(2) _ _ uow_spec.rolls_back]; simp)

lemma setAutoCommit_implements:
  assumes "quiet (dConn c)" "setAutoCommit E v c = (r, c')"
  shows "implements (SetAuto v) (\<not> isl r) c c'"
proof (cases "v = OptionValueEnabled \<and> \<not> autoCommit c")
  case True
  obtain y c1 where y: "via E Commit c = (y, c1)" by fastforce
  obtain x k where m: "Commit (dConn c) = (x, k)" "c1 = c\<lparr>dConn := k\<rparr>" "isl y = isl x" using via_cases [OF y] .
  have res: "isl r = isl x" "dConn c' = k" "uow_state c' = (\<not> isl x, dClosed c)"
    using assms(2) True y m
    by (cases y; auto simp: setAutoCommit_def with_dconn_def dthen_def dchange_def uow_state_def)+
  show ?thesis
    by (rule unit_implements [OF m(1) [unfolded Commit_def] assms(1) event_end(1)])
       (use res True in \<open>auto simp: uow_state_def intro: uow_spec.turn_on uow_spec.stopped\<close>)
next
  case False
  have "dConn c' = dConn c \<and> uow_spec (SetAuto v) (uow_state c) (\<not> isl r) [] (uow_state c')"
    using assms(2) False
    by (auto simp: setAutoCommit_def with_dconn_def dthen_def dchange_def dok_def dfail_def uow_state_def
        intro: uow_spec.intros split: if_splits)
  then show ?thesis using assms(1) by (intro implementsI [of _ _ "[]"]) simp_all
qed

lemma Connection_Close_implements:
  assumes "quiet (dConn c)" "Connection_Close cerr c = (r, c')"
  shows "implements Shut (\<not> isl r) c c'"
proof -
  have silent: "keeps (emits (\<lambda>rs. False)) (Conn_Close cerr)" unfolding Conn_Close_def by (intro keeps_intros) simp
  have close: "quiet k' \<and> sent k' = sent k" if q: "quiet k" and k': "Conn_Close cerr k = (x, k')" for k x k'
    by (rule emitsD [OF keepsD [OF silent k'] q]) (auto simp: list_all_iff)
  show ?thesis
  proof (cases "dClosed c")
    case True
    then have "c' = c" "isl r" using assms(2) by (auto simp: Connection_Close_def with_dconn_def dfail_def)
    then show ?thesis using assms True by (auto simp: uow_state_def intro!: refused_implements uow_spec.shut_again)
  next
    case False
    obtain k where k: "autoCommit c \<and> k = dConn c \<or> \<not> autoCommit c \<and> k = snd (Rollback (dConn c))" by blast
    obtain y k' where y: "Conn_Close cerr k = (y, k')" by fastforce
    have c': "dConn c' = k'" "uow_state c' = (autoCommit c, True)"
      using assms(2) False k y
      by (cases y; auto simp: Connection_Close_def ignoring_def raw_def dthen_def dchange_def with_dconn_def dok_def dfail_def
          uow_state_def split: prod.splits)+
    show ?thesis
    proof (cases "autoCommit c")
      case True
      then show ?thesis
        using close [OF _ y] k c' assms(1) False
        by (intro implementsI [of _ _ "[]"]) (auto simp: uow_state_def intro: uow_spec.shut_auto)
    next
      case manual: False
      obtain x where m: "Rollback (dConn c) = (x, k)" using k manual by (metis prod.collapse)
      obtain rss where r: "quiet k" "sent k = sent (dConn c) @ map wire rss"
        "isl x \<and> statements (map event rss) \<or> (\<exists>evs. statements evs \<and> map event rss = evs @ [RollbackEv])"
        using unit_end [OF m [unfolded Rollback_def] assms(1) event_end(2)] by blast
      have "uow_spec Shut (False, False) b (map event rss) (False, True)" for b
        using r(3) uow_spec.shut_manual [of "map event rss" "[]" b] by (auto intro: uow_spec.shut_manual)
      then show ?thesis
        using r(1,2) close [OF r(1) y] c' manual False by (intro implementsI [of _ _ rss]) (simp_all add: uow_state_def)
    qed
  qed
qed

lemma driver_step_implements:
  assumes "driver_step E op b c c'" "quiet (dConn c)"
  shows "implements op b c c'"
proof (cases "op \<in> {Work, Change}")
  case True
  then show ?thesis
    using work_implements [OF assms] change_implements [of E c c'] assms by (cases "op = Change \<and> b \<and> autoCommit c") auto
next
  case False
  show ?thesis using assms False
  proof (cases rule: driver_step.cases)
    case (set key v r)
    then have "key = OptionKeyAutoCommit" "op = SetAuto v" using False by (auto split: if_splits)
    then show ?thesis using set setAutoCommit_implements [OF assms(2)] by (simp add: Connection_SetOption_def)
  qed (auto intro: ends_implement Connection_Close_implements)
qed

section \<open>Executions end\<close>

definition batch_ok_settings :: "connectionImpl \<Rightarrow> bool" where
  "batch_ok_settings c \<longleftrightarrow> 0 < batchSize (dCfg c) \<and> 0 \<le> batchBytes (dCfg c)"

lemma settings_kept: "dkeeps dgood m \<Longrightarrow> m c = (r, c') \<Longrightarrow> batch_ok_settings c \<Longrightarrow> batch_ok_settings c'"
  using dkeepsD [of dgood m c r c'] by (simp add: dgood_def batch_ok_settings_def)

lemma ends_at: "ends m \<Longrightarrow> fst (m c) \<noteq> Inl Diverges"
  by (simp add: ends_def)

lemma gives_query_case:
  "(\<And>e. gives_query (f e)) \<Longrightarrow> (\<And>x. gives_query (g x)) \<Longrightarrow> gives_query (case y of Inl e \<Rightarrow> f e | Inr x \<Rightarrow> g x)"
  "(\<And>a b. gives_query (h a b)) \<Longrightarrow> gives_query (case p of (a, b) \<Rightarrow> h a b)"
  by (auto split: sum.splits prod.splits)

lemma QueryParams_index: "gives_query (QueryParams F ps row)"
  unfolding QueryParams_def Let_def by (intro gives_query_intros gives_query_case)

lemma via_index:
  assumes "via E m c = (Inr i, c')" "gives_query m"
  shows "i < length (queries (dConn c'))"
  using assms by (auto simp: via_def dthen_def raw_def dok_def dfail_def gives_query_def split: prod.splits sum.splits)

lemma reader_drains:
  assumes "i < length (queries (dConn c))" "batch_ok_settings c"
  shows "\<exists>x. drain E (newStreamingRecordReader c i (batchSize (dCfg c))) c = Some x"
  using assms batch_valid by (intro drain_ends) (auto simp: batch_ok_settings_def newStreamingRecordReader_def)

lemma fillBuffer_err: "fillBuffer E r c = (r', c') \<Longrightarrow> rdErr r \<noteq> Some Diverges \<Longrightarrow> rdErr r' \<noteq> Some Diverges"
proof (induction E r c rule: fillBuffer.induct)
  case (1 E r c)
  then show ?case
    by (auto simp: fillBuffer.simps [of E r c] Let_def split: if_splits prod.splits sum.splits)
qed

lemma Reader_Next_err:
  "Reader_Next E r c = (b, r', c') \<Longrightarrow> rdErr r \<noteq> Some Diverges \<Longrightarrow> rdErr r' \<noteq> Some Diverges"
proof -
  have cl: "rdErr (fst (closeReader r c)) = rdErr r" for r c by (simp add: closeReader_def)
  have cu: "cutBatch r = (rows, r1) \<Longrightarrow> rdErr r1 = rdErr r" for r rows r1 by (auto simp: cutBatch_def Let_def split: if_splits)
  have ar: "ArrowErr e \<noteq> Diverges" for e by simp
  assume run: "Reader_Next E r c = (b, r', c')" and r: "rdErr r \<noteq> Some Diverges"
  obtain r1 c1 where f: "fillBuffer E (r\<lparr>rdCurrent := None\<rparr>) c = (r1, c1)" by fastforce
  have r1: "rdErr r1 \<noteq> Some Diverges" using fillBuffer_err [OF f] r by simp
  obtain rows r2 where k: "cutBatch r1 = (rows, r2)" by fastforce
  have r2: "rdErr r2 \<noteq> Some Diverges" using cu [OF k] r1 by simp
  have r3: "rdErr (fst (closeReader (r1\<lparr>rdDone := True\<rparr>) c1)) \<noteq> Some Diverges" using cl r1 by simp
  show ?thesis
    using run r r1 r2 r3 by (auto simp: Reader_Next_def takeRows_def f k split: if_splits sum.splits)
qed

lemma drain_err: "drain E r c = Some y \<Longrightarrow> rdErr r \<noteq> Some Diverges \<longrightarrow> rdErr (fst (snd y)) \<noteq> Some Diverges"
proof (erule drain.raw_induct [rotated])
  fix dr E r c y
  assume IH: "\<And>E r c y. dr E r c = Some y \<Longrightarrow> rdErr r \<noteq> Some Diverges \<longrightarrow> rdErr (fst (snd y)) \<noteq> Some Diverges"
    and body: "(case Reader_Next E r c of (ok1, r1, c1) \<Rightarrow>
       if ok1 then Option.bind (dr E r1 c1) (\<lambda>(recs, r2, c2).
         Some ((case rdCurrent r1 of Some rec \<Rightarrow> [rec] | None \<Rightarrow> []) @ recs, r2, c2)) else Some ([], r1, c1)) = Some y"
  obtain b r1 c1 where n: "Reader_Next E r c = (b, r1, c1)" by (cases "Reader_Next E r c") auto
  show "rdErr r \<noteq> Some Diverges \<longrightarrow> rdErr (fst (snd y)) \<noteq> Some Diverges"
    using body n Reader_Next_err [OF n] IH [of E r1 c1]
    by (cases b) (auto split: Option.bind_splits)
qed

lemma drainQuery_ends:
  assumes "i < length (queries (dConn c))" "batch_ok_settings c"
  shows "fst (drainQuery E i c) \<noteq> Inl Diverges"
proof -
  let ?r = "newStreamingRecordReader c i (batchSize (dCfg c))"
  obtain recs r1 c1 where d: "drain E ?r c = Some (recs, r1, c1)" using reader_drains [OF assms] by (metis prod.collapse)
  have "rdErr r1 \<noteq> Some Diverges" using drain_err [OF d] by (simp add: newStreamingRecordReader_def)
  then show ?thesis using d by (auto simp: drainQuery_def Let_def split: prod.splits option.splits)
qed

lemma queryRows_ends: "batch_ok_settings c \<Longrightarrow> fst (queryRows E ps rows c) \<noteq> Inl Diverges"
proof (induction rows arbitrary: c)
  case (Cons row rows)
  show ?case
    unfolding queryRows.simps
  proof (rule ends_dthen_at [OF ends_at [OF ends_via(1)]])
    fix i c1 assume q: "via E (QueryParams (eFloat E) ps row) c = (Inr i, c1)"
    have "dkeeps dgood (via E (QueryParams (eFloat E) ps row))" by (intro inv.operations)
    then have ok: "batch_ok_settings c1" using q Cons.prems by (rule settings_kept)
    show "fst (dthen (drainQuery E i) (\<lambda>(schema, recs). dthen (queryRows E ps rows) (\<lambda>(schema1, recs1).
        dok (Some schema, recs @ recs1))) c1) \<noteq> Inl Diverges"
    proof (rule ends_dthen_at)
      show "fst (drainQuery E i c1) \<noteq> Inl Diverges" by (rule drainQuery_ends [OF via_index [OF q QueryParams_index] ok])
    next
      fix x c2 assume d: "drainQuery E i c1 = (Inr x, c2)"
      have "batch_ok_settings c2" by (rule settings_kept [OF inv.drainQuery_kept d ok])
      then have IH: "fst (queryRows E ps rows c2) \<noteq> Inl Diverges" by (rule Cons.IH)
      have "fst (dthen (queryRows E ps rows) (\<lambda>(schema1, recs1). dok (Some a, b @ recs1)) c2) \<noteq> Inl Diverges" for a b
        by (rule ends_dthen_at, rule IH) (simp add: dok_def split: prod.splits)
      then show "fst ((case x of (schema, recs) \<Rightarrow> dthen (queryRows E ps rows) (\<lambda>(schema1, recs1).
          dok (Some schema, recs @ recs1))) c2) \<noteq> Inl Diverges"
        by (cases x) simp
    qed
  qed
qed (simp add: dok_def)

lemma ends_bound: "ends (boundRows E s)" "ends (updateRows E ps rows acc)"
proof -
  have "ends (recordsRows E recs)" for recs by (induction recs) (auto intro!: ends_steps ends_rowsOf)
  then show "ends (boundRows E s)" unfolding boundRows_def by (intro ends_steps ends_intros(2)) simp_all
  show "ends (updateRows E ps rows acc)"
  proof (induction E ps rows acc rule: updateRows.induct)
    case (1 E ps rows acc)
    then show ?case by (subst updateRows.simps) (auto intro!: ends_steps ends_execBatch)
  qed
qed

lemma ends_newRecordReader: "(\<And>msg. wrap msg \<noteq> Diverges) \<Longrightarrow> ends (newRecordReader E wrap sch recs)"
  unfolding newRecordReader_def by (intro ends_steps ends_intros(2))

lemma executeBoundQuery_ends:
  assumes "batch_ok_settings c"
  shows "fst (executeBoundQuery E s c) \<noteq> Inl Diverges"
  unfolding executeBoundQuery_def
proof (rule ends_dthen_at)
  show "fst (boundRows E s c) \<noteq> Inl Diverges" by (rule ends_at [OF ends_bound(1)])
next
  fix rows c1 assume b: "boundRows E s c = (Inr rows, c1)"
  have c1: "batch_ok_settings c1" by (rule settings_kept [OF inv.boundRows_kept b assms])
  let ?one = "\<lambda>ps. dthen (via E (QueryParams (eFloat E) ps (hd rows))) (\<lambda>q. with_dconn (\<lambda>c.
         dok (Streaming (newStreamingRecordReader c q (batchSize (dCfg c))), - 1)))"
  let ?all = "\<lambda>ps. dthen (queryRows E ps rows) (\<lambda>(schema, recs).
         dthen (newRecordReader E (\<lambda>msg. errStatus StatusInternal (OfStream (''bind: '' @ msg)))
                  (case schema of Some sch \<Rightarrow> sch | None \<Rightarrow> []) recs) (\<lambda>rr. dok (rr, - 1)))"
  have one: "ends (?one ps)" for ps by (intro ends_steps)
  have all: "fst (?all ps c2) \<noteq> Inl Diverges" if "batch_ok_settings c2" for ps c2
  proof (rule ends_dthen_at)
    show "fst (queryRows E ps rows c2) \<noteq> Inl Diverges" by (rule queryRows_ends [OF that])
  qed (rule ends_at, intro ends_steps ends_newRecordReader, simp)
  have "fst (dthen (prepareBound E s (boundSchema s)) (\<lambda>ps. if length rows = 1 then ?one ps else ?all ps) c1) \<noteq> Inl Diverges"
  proof (rule ends_dthen_at)
    show "fst (prepareBound E s (boundSchema s) c1) \<noteq> Inl Diverges" by (rule ends_at [OF ends_prepare(4)])
  next
    fix ps c2 assume p: "prepareBound E s (boundSchema s) c1 = (Inr ps, c2)"
    have c2: "batch_ok_settings c2" by (rule settings_kept [OF inv.prepare_kept(4) p c1])
    show "fst ((if length rows = 1 then ?one ps else ?all ps) c2) \<noteq> Inl Diverges"
      using ends_at [OF one, of ps c2] all [OF c2, of ps] by (cases "length rows = 1") (simp_all only: if_True if_False simp_thms)
  qed
  then show "fst ((if rows = [] then dfail (errStatus StatusInvalidArgument (Format ''bind: no parameter rows bound'' []))
     else dthen (prepareBound E s (boundSchema s)) (\<lambda>ps. if length rows = 1 then ?one ps else ?all ps)) c1) \<noteq> Inl Diverges"
    by (cases "rows = []") (simp_all only: if_True if_False dfail_def fst_conv sum.inject errStatus_ends simp_thms)
qed

lemma ends_runQuery: "ends (runQuery E sql)"
  unfolding runQuery_def Let_def by (intro ends_steps ends_newRecordReader ends_intros(2)) simp_all

lemma fst_leaving [simp]: "fst (leaving s m c) = fst (m c)"
  by (simp add: leaving_def split: prod.splits)

lemma executions_return:
  assumes "batch_ok_settings c"
  shows "fst (ExecuteQuery E s c) \<noteq> Inl Diverges" "fst (ExecuteUpdate E s c) \<noteq> Inl Diverges"
proof -
  have "ends (dthen (executeIngest E s) (\<lambda>n. dthen (newRecordReader E LibErr [] []) (\<lambda>rr. dok (rr, n))))"
    by (intro ends_steps ends_executeIngest ends_newRecordReader) simp
  then show "fst (ExecuteQuery E s c) \<noteq> Inl Diverges"
    using executeBoundQuery_ends [OF assms] ends_runQuery [of E "stSql s"]
    by (auto simp: ExecuteQuery_def dfail_def dest: ends_at)
  have "ends (executeBoundUpdate E s)"
    unfolding executeBoundUpdate_def by (intro ends_steps ends_bound ends_prepare)
  moreover have "ends (dthen (via E (ExecImmediate (eUpper E) (stSql s))) (\<lambda>res. dthen (autoCommitIfNeeded E) (\<lambda>_. dok (RowsAffected res))))"
    by (intro ends_steps)
  ultimately show "fst (ExecuteUpdate E s c) \<noteq> Inl Diverges"
    using ends_executeIngest [of E s] by (auto simp: ExecuteUpdate_def dfail_def dest: ends_at)
qed

lemma runQuery_reader:
  assumes "runQuery E sql c = (Inr (Streaming r, n), c')"
  shows "\<exists>i < length (queries (dConn c')). r = newStreamingRecordReader c' i (batchSize (dCfg c'))"
proof -
  obtain i c1 where q: "via E (Conn_Query (eUpper E) sql) c = (Inr i, c1)"
    using assms unfolding runQuery_def by (auto elim!: dthen_cases)
  have "i < length (queries (dConn c1))" by (rule via_index [OF q Conn_Query_index])
  moreover have "c' = c1 \<and> r = newStreamingRecordReader c1 i (batchSize (dCfg c1))"
    using assms q
    by (auto simp: runQuery_def with_dconn_def Let_def newRecordReader_def dok_def dfail_def elim!: dthen_cases
        split: option.splits if_splits)
  ultimately show ?thesis by blast
qed

lemma executeBoundQuery_reader:
  assumes "executeBoundQuery E s c = (Inr (Streaming r, n), c')"
  shows "\<exists>i < length (queries (dConn c')). r = newStreamingRecordReader c' i (batchSize (dCfg c'))"
proof -
  obtain ps row c1 i where q: "via E (QueryParams (eFloat E) ps row) c1 = (Inr i, c')"
    and r: "r = newStreamingRecordReader c' i (batchSize (dCfg c'))"
    using assms
    by (auto simp: executeBoundQuery_def with_dconn_def newRecordReader_def dok_def dfail_def elim!: dthen_cases
        split: option.splits if_splits prod.splits)
  show ?thesis using via_index [OF q QueryParams_index] r by blast
qed

text \<open>The reader an execution returns can be read to its end.\<close>

lemma result_drains:
  assumes "batch_ok_settings c" "ExecuteQuery E s c = (Inr (Streaming r, n), s', c')"
  shows "\<exists>x. drain E r c' = Some x"
proof -
  have "dgood c c'" by (rule inv.execution_kept(1) [OF assms(2)])
  then have ok: "batch_ok_settings c'" using assms(1) by (simp add: dgood_def batch_ok_settings_def)
  have "\<exists>i < length (queries (dConn c')). r = newStreamingRecordReader c' i (batchSize (dCfg c'))"
    using assms(2) runQuery_reader executeBoundQuery_reader
    by (auto simp: ExecuteQuery_def leaving_eq newRecordReader_def dok_def dfail_def elim!: dthen_cases
        split: if_splits option.splits)
  then show ?thesis using reader_drains [OF _ ok] by blast
qed

section \<open>Runs\<close>

inductive driver_run :: "env \<Rightarrow> connectionImpl \<Rightarrow> (driver_op \<times> bool) list \<Rightarrow> connectionImpl \<Rightarrow> bool" for E where
  none: "driver_run E c [] c"
| step: "driver_step E op b c c1 \<Longrightarrow> driver_run E c1 ops c2 \<Longrightarrow> driver_run E c ((op, b) # ops) c2"

inductive uow_run :: "bool \<times> bool \<Rightarrow> (driver_op \<times> bool) list \<Rightarrow> uow_event list \<Rightarrow> bool \<times> bool \<Rightarrow> bool" where
  none: "uow_run st [] [] st"
| step: "uow_spec op st b evs st1 \<Longrightarrow> uow_run st1 ops evs' st2 \<Longrightarrow> uow_run st ((op, b) # ops) (evs @ evs') st2"

lemma driver_run_implements:
  "driver_run E c ops c' \<Longrightarrow> quiet (dConn c) \<Longrightarrow>
     \<exists>rss. sent (dConn c') = sent (dConn c) @ map wire rss \<and> uow_run (uow_state c) ops (map event rss) (uow_state c')"
proof (induction rule: driver_run.induct)
  case (none c)
  show ?case by (intro exI [of _ "[]"]) (simp add: uow_run.none)
next
  case (step op b c c1 ops c2)
  obtain qs where q: "quiet (dConn c1)" "sent (dConn c1) = sent (dConn c) @ map wire qs"
    "uow_spec op (uow_state c) b (map event qs) (uow_state c1)"
    using driver_step_implements [OF step.hyps(1) step.prems] by (auto simp: implements_def)
  obtain rss where "sent (dConn c2) = sent (dConn c1) @ map wire rss" "uow_run (uow_state c1) ops (map event rss) (uow_state c2)"
    using step.IH q(1) by blast
  then show ?case using q(2) uow_run.step [OF q(3)] by (intro exI [of _ "qs @ rss"]) simp
qed

text \<open>The session invariant, with the settings \<open>parseOptions\<close> checked.\<close>

definition session_ok :: "connectionImpl \<Rightarrow> bool" where
  "session_ok c \<longleftrightarrow> conn_inv (dConn c) \<and> config_ok (dCfg c)"

text \<open>The relation that ending a unit of work keeps, too.\<close>

definition same_settings :: "connectionImpl \<Rightarrow> connectionImpl \<Rightarrow> bool" where
  "same_settings c c' \<longleftrightarrow> good (dConn c) (dConn c') \<and> dCfg c' = dCfg c"

lemma dgood_settings: "dgood c c' \<Longrightarrow> same_settings c c'"
  by (simp add: dgood_def same_settings_def)

interpretation cnf: session_frame same_settings
proof
  show "same_settings c c" for c using dgood_settings inv.refl by blast
  show "same_settings a b \<Longrightarrow> same_settings b c \<Longrightarrow> same_settings a c" for a b c
    by (auto simp: same_settings_def intro: transpD [OF good_rel(2)])
  show "good (dConn c) k \<Longrightarrow> statement_only (dConn c) k \<Longrightarrow> same_settings c (c\<lparr>dConn := k\<rparr>)" for c k
    by (simp add: same_settings_def)
  show "dkeeps same_settings (autoCommitIfNeeded E)" "dkeeps same_settings queryFinished" for E
    using inv.auto_commit inv.finished dgood_settings unfolding dkeeps_def by blast+
qed

lemma settings_steps:
  "dkeeps same_settings (raw Commit)" "dkeeps same_settings (raw Rollback)" "dkeeps same_settings (raw (Conn_Close cerr))"
  "(\<And>c. dConn (f c) = dConn c \<and> dCfg (f c) = dCfg c) \<Longrightarrow> dkeeps same_settings (dchange f)"
proof -
  show "dkeeps same_settings (raw Commit)" "dkeeps same_settings (raw Rollback)" "dkeeps same_settings (raw (Conn_Close cerr))"
    by (rule dkeeps_raw [OF good_units(1)] dkeeps_raw [OF good_units(2)] dkeeps_raw [OF good_Conn_Close];
        simp add: same_settings_def)+
  show "dkeeps same_settings (dchange f)" if "\<And>c. dConn (f c) = dConn c \<and> dCfg (f c) = dCfg c"
    using that reflpD [OF good_rel(1)] by (auto intro!: dkeepsI simp: dchange_def same_settings_def)
qed

lemma ending_kept:
  "dkeeps same_settings (Connection_Commit E)" "dkeeps same_settings (Connection_Rollback E)"
  "dkeeps same_settings (setAutoCommit E v)" "dkeeps same_settings (Connection_Close cerr)"
  unfolding Connection_Commit_def Connection_Rollback_def setAutoCommit_def Connection_Close_def
  by (intro cnf.combinators cnf.wrapped settings_steps; simp)+

lemma driver_step_settings:
  assumes "driver_step E op b c c'"
  shows "same_settings c c'"
proof (cases "op \<in> {Work, Change}")
  case True
  then show ?thesis using cnf.work_kept [OF assms] by blast
next
  case False
  show ?thesis using assms
  proof (cases rule: driver_step.cases)
    case (set key v x)
    then have "setAutoCommit E v c = (x, c')" using False by (auto simp: Connection_SetOption_def split: if_splits)
    then show ?thesis by (rule dkeepsD [OF ending_kept(3)])
  qed (use False in \<open>auto dest: dkeepsD [OF ending_kept(1)] dkeepsD [OF ending_kept(2)] dkeepsD [OF ending_kept(4)]\<close>)
qed

lemma driver_run_ok: "driver_run E c ops c' \<Longrightarrow> session_ok c \<Longrightarrow> session_ok c'"
proof (induction rule: driver_run.induct)
  case (step op b c c1 ops c2)
  then have "session_ok c1" using driver_step_settings by (fastforce simp: same_settings_def session_ok_def good_def)
  then show ?case by (rule step.IH)
qed

section \<open>Opened connections\<close>

lemma Open_session:
  assumes "Open E L openTrace hostname rnd stream writes d = Inr c"
  shows "session_ok c" "uow_state c = (True, False)" "openQuery (dConn c) = None"
    "NoAutoBind (cfg (dConn c)) = NoAutoBind (ccDrda (dCfg c))"
proof -
  obtain cf k where cf: "parseOptions E L (dbOpts d) = Inr cf" and k: "Dial (eUpper E) hostname rnd stream writes (ccDrda cf) = Inr k"
    and c: "c = \<lparr>dConn = k, dCfg = cf, autoCommit = True, dClosed = False\<rparr>"
    using assms by (auto simp: Open_def split: sum.splits option.splits)
  show "session_ok c" using conn_inv_Dial [OF k] parseOptions_config [OF cf] c by (simp add: session_ok_def)
  show "uow_state c = (True, False)" using c by (simp add: uow_state_def)
  show "openQuery (dConn c) = None" using Dial_fresh(1) [OF k] c by simp
  have "NoAutoBind (dialConfig hostname conf) = NoAutoBind conf" for conf by (simp add: dialConfig_def Let_def)
  then show "NoAutoBind (cfg (dConn c)) = NoAutoBind (ccDrda (dCfg c))" using Dial_fresh(2) [OF k] c by simp
qed

lemma session_quiet: "session_ok c \<Longrightarrow> bind_off (dConn c) \<Longrightarrow> quiet (dConn c)"
  by (simp add: session_ok_def quiet_def conn_inv_def)

definition sample_session :: connectionImpl where
  "sample_session =
     \<lparr>dConn = sample_conn\<lparr>bindAttempted := True\<rparr>,
      dCfg = \<lparr>ccDrda = cfg sample_conn, ConnectTimeout = 0, TLS = None, batchSize = 1000, batchBytes = 0, trace = False,
              traceHex = False, traceFile = ''''\<rparr>,
      autoCommit = True, dClosed = False\<rparr>"

lemma sample_session_facts: "session_ok sample_session" "bind_off (dConn sample_session)" "uow_state sample_session = (True, False)"
  by (simp_all add: sample_session_def session_ok_def conn_inv_def config_ok_def bind_off_def uow_state_def sample_conn_def newConn_def)

text \<open>Autocommit is turned off, then \<open>Commit\<close> is called.\<close>

definition sample_manual :: connectionImpl where
  "sample_manual = sample_session\<lparr>autoCommit := False\<rparr>"

lemma sample_manual_facts: "session_ok sample_manual" "bind_off (dConn sample_manual)" "\<not> autoCommit sample_manual"
  using sample_session_facts by (simp_all add: sample_manual_def session_ok_def)

end
