(* ===== verification/C_State.thy ===== *)
theory C_State
  imports Db2_Session
begin

text \<open>
  The state of the C ABI of the driver (\<^verbatim>\<open>pkg/db2/driver.go\<close>): the poison flag, the table of
  \<^verbatim>\<open>cgo.Handle\<close>s, the \<open>private_data\<close> of the caller's structs by address (address \<open>0\<close> and handle \<open>0\<close>
  are NULL) and the Go connections, which a connection's statements and streams share by index.
  \<open>errp\<close> is what the \<open>err\<close> argument of the current call points to.  Addresses, the sizes of buffers
  and \<^verbatim>\<open>AdbcError\<close> structs are the caller's.

  A call returns a value, panics or hangs; \<open>recovering\<close> is the deferred \<^verbatim>\<open>recover\<close> of an exported
  function.  The driver's errors carry no details, so the arrays of \<^verbatim>\<open>Db2Error\<close> are empty.
\<close>

section \<open>Formatting\<close>

text \<open>
  \<^verbatim>\<open>fmt.Sprintf\<close>: \<open>args\<close> are the arguments as their verbs render them.  The state of reading a
  directive is what it wrote, whether the argument number is good, \<open>afterIndex\<close>, and the rest of
  the format; it is followed for a directive that finds no argument left, where every argument
  index is out of range.
\<close>

type_synonym directive = "string \<times> bool \<times> bool \<times> string"

definition parsenum :: "string \<Rightarrow> bool \<times> string" where
  "parsenum s =
     (let ds = takeWhile is_digit s in
      if ds \<noteq> [] \<and> 1000000 < digits_nat (map digit_val (butlast ds)) then (False, []) else (ds \<noteq> [], dropWhile is_digit s))"

fun argNumber :: "directive \<Rightarrow> directive" where
  "argNumber (out, gd, after, s) =
     (if s = [] \<or> hd s \<noteq> CHR ''['' then (out, gd, False, s)
      else if length s < 3 then (out, False, False, tl s)
      else case IndexByte (tl s) (CHR '']'') of
        None \<Rightarrow> (out, False, False, tl s)
      | Some i \<Rightarrow> (out, False, parsenum (take i (tl s)) = (True, []), drop (i + 2) s))"

fun parseWidth :: "string \<Rightarrow> directive \<Rightarrow> directive" where
  "parseWidth bad (out, gd, after, s) =
     (if s \<noteq> [] \<and> hd s = CHR ''*'' then (out @ ''%!('' @ bad @ '')'', gd, False, tl s)
      else (out, gd \<and> \<not> (after \<and> fst (parsenum s) \<and> bad = ''BADWIDTH''), after, snd (parsenum s)))"

fun parsePrec :: "directive \<Rightarrow> directive" where
  "parsePrec (out, gd, after, s) =
     (if s \<noteq> [] \<and> hd s = CHR ''.'' then parseWidth ''BADPREC'' (argNumber (out, gd \<and> \<not> after, after, tl s))
      else (out, gd, after, s))"

fun finalIndex :: "directive \<Rightarrow> directive" where
  "finalIndex (out, gd, after, s) = (if after then (out, gd, after, s) else argNumber (out, gd, after, s))"

fun writeVerb :: "directive \<Rightarrow> string \<times> string" where
  "writeVerb (out, gd, after, s) =
     (if s = [] then (out @ ''%!(NOVERB)'', [])
      else if hd s = CHR ''%'' then (out @ ''%'', tl s)
      else (case utf8_DecodeRune (str_bytes s) of (verb, n) \<Rightarrow>
        (out @ ''%!'' @ bytes_str (utf8_EncodeRune verb) @ (if gd then ''(MISSING)'' else ''(BADINDEX)''), drop n s)))"

definition noArgument :: "string \<Rightarrow> string \<times> string" where
  "noArgument s =
     writeVerb (finalIndex (parsePrec (parseWidth ''BADWIDTH'' (argNumber ([], True, False, dropWhile (\<lambda>c. c \<in> set ''#0+- '') s)))))"

lemma parsenum_length: "length (snd (parsenum s)) \<le> length s"
  using length_dropWhile_le [of is_digit s] by (auto simp: parsenum_def Let_def)

abbreviation unread :: "directive \<Rightarrow> nat" where "unread d \<equiv> length (snd (snd (snd d)))"

lemma directive_shrinks [simp]:
  "unread (argNumber d) \<le> unread d" "unread (parseWidth bad d) \<le> unread d" "unread (finalIndex d) \<le> unread d"
  "length (snd (writeVerb d)) \<le> unread d"
proof -
  show a: "unread (argNumber d) \<le> unread d" for d by (cases d) (auto split: option.splits)
  show "unread (parseWidth bad d) \<le> unread d" by (cases d) (auto simp: parsenum_length)
  show "unread (finalIndex d) \<le> unread d" using a [of d] by (cases d) (auto simp del: argNumber.simps)
  show "length (snd (writeVerb d)) \<le> unread d" by (cases d) (auto split: prod.splits)
qed

lemma parsePrec_shrinks [simp]: "unread (parsePrec d) \<le> unread d"
proof (cases d)
  case (fields out gd after s)
  show ?thesis
    using order_trans [OF directive_shrinks(2) directive_shrinks(1), of "''BADPREC''" "(out, gd \<and> \<not> after, after, tl s)"]
    by (auto simp: fields simp del: argNumber.simps parseWidth.simps)
qed

lemma noArgument_shrinks: "length (snd (noArgument s)) \<le> length s"
proof -
  let ?t = "dropWhile (\<lambda>c. c \<in> set ''#0+- '') s"
  have "length (snd (noArgument s)) \<le> unread ([], True, False, ?t)"
    unfolding noArgument_def
    by (rule order_trans [OF directive_shrinks(4)], rule order_trans [OF directive_shrinks(3)],
        rule order_trans [OF parsePrec_shrinks], rule order_trans [OF directive_shrinks(2)], rule directive_shrinks(1))
  also have "\<dots> \<le> length s" using length_dropWhile_le by simp
  finally show ?thesis .
qed

lemma noArgument_rest: "(out, t) = noArgument s \<Longrightarrow> length t < Suc (length s)"
  using noArgument_shrinks [of s] by (cases "noArgument s") auto

lemma dropWhile_rest: "length (dropWhile P s) - Suc 0 < Suc (length s)"
  using length_dropWhile_le [of P s] by simp

text \<open>An argument left over is not looked at: no caller passes more than its format names.\<close>

function Sprintf :: "string \<Rightarrow> string list \<Rightarrow> string" where
  "Sprintf [] args = []"
| "Sprintf (c # s) args =
     (if c \<noteq> CHR ''%'' then c # Sprintf s args
      else case args of
        a # as \<Rightarrow> a @ Sprintf (drop 1 (dropWhile (\<lambda>c. c = CHR ''#'') s)) as
      | [] \<Rightarrow> (case noArgument s of (out, t) \<Rightarrow> out @ Sprintf t []))"
  by pat_completeness auto
termination
  by (relation "measure (\<lambda>(s, args). length s)") (auto dest: noArgument_rest simp: dropWhile_rest)

lemma Sprintf_plain: "CHR ''%'' \<notin> set s \<Longrightarrow> Sprintf s args = s"
  by (induction s) auto

section \<open>State\<close>

text \<open>\<open>ADBC_OK\<close> and \<open>ADBC_UNKNOWN\<close> are the codes no driver error carries.\<close>

datatype AdbcStatusCode = ADBC_OK | ADBC_UNKNOWN | ADBC_STATUS Status

datatype release_fn = NoRelease | Db2_release_error | Db2ReleaseErrWithDetails

record Db2Error =
  deMessage :: string
  deCount :: nat

record AdbcError =
  errMessage :: "string option"
  errVendor :: "32 word"
  errSqlState :: bytes
  errRelease :: release_fn
  errPrivate :: "Db2Error option"

abbreviation ADBC_ERROR_VENDOR_CODE_PRIVATE_DATA :: "32 word" where
  "ADBC_ERROR_VENDOR_CODE_PRIVATE_DATA \<equiv> 0x80000000"

text \<open>The context of a call is a number; \<open>cancelled\<close> lists the cancelled ones.\<close>

record cDatabase =
  cdOpts :: "(string \<times> string) list"
  cdDb :: "databaseImpl option"

record cConn =
  ccCtx :: "nat option"
  ccCnxn :: "nat option"
  ccArgs :: "(string \<times> string) list"

record cStmt =
  csCtx :: "nat option"
  csConn :: nat
  csStmt :: "statementImpl option"

record cArrayStream =
  asConn :: nat
  asRdr :: RecordReader
  asErr :: "AdbcError option"
  asStatus :: AdbcStatusCode

datatype cObject = CDatabase cDatabase | CConn cConn | CStmt cStmt | CStream cArrayStream

text \<open>Of an \<^verbatim>\<open>ArrowArrayStream\<close>: whether its release callback is \<^verbatim>\<open>Db2ArrayStreamRelease\<close>, and its private data.\<close>

record ArrowArrayStream =
  streamOurs :: bool
  streamPriv :: nat

record cgo =
  globalPoison :: bool
  nextHandle :: nat
  handles :: "nat \<Rightarrow> cObject option"
  conns :: "connectionImpl list"
  priv :: "nat \<Rightarrow> nat"
  streams :: "nat \<Rightarrow> ArrowArrayStream"
  errp :: "AdbcError option"
  nextCtx :: nat
  cancelled :: "nat list"

text \<open>
  What is not in the repository: the texts of errors and of a recovered panic, the environment,
  the Arrow records the library builds, whether its exports return, the iteration order of a map.
\<close>

record abi =
  xEnv :: env
  xLib :: opt_lib
  xTrace :: "string \<Rightarrow> string option"
  xHostname :: string
  xMsg :: "adbc_msg \<Rightarrow> string"
  xText :: "driver_error \<Rightarrow> string"
  xRecovered :: string
  xGetenv :: "string \<Rightarrow> string"
  xParseFloat :: "string \<Rightarrow> 64 word option"
  xOrder :: "(string \<times> string) list \<Rightarrow> (string \<times> string) list"
  xExportSchema :: "Field list option \<Rightarrow> bool"
  xExportBatch :: "Record \<Rightarrow> bool"
  xInfo :: "(nat \<times> info_value) list \<Rightarrow> Record"
  xTypes :: "string list \<Rightarrow> Record"
  xObjects :: "getObjectsInfo list \<Rightarrow> string + Record"
  xVersion :: string

section \<open>Calls\<close>

datatype 'a go = Ret 'a | GoPanic | Hangs

type_synonym 'a cact = "cgo \<Rightarrow> 'a go \<times> cgo"

definition cret :: "'a \<Rightarrow> 'a cact" where
  "cret x g = (Ret x, g)"

definition cpanic :: "'a cact" where
  "cpanic g = (GoPanic, g)"

definition cbind :: "'a cact \<Rightarrow> ('a \<Rightarrow> 'b cact) \<Rightarrow> 'b cact" where
  "cbind m f g = (case m g of (Ret x, g1) \<Rightarrow> f x g1 | (GoPanic, g1) \<Rightarrow> (GoPanic, g1) | (Hangs, g1) \<Rightarrow> (Hangs, g1))"

definition cget :: "(cgo \<Rightarrow> 'a cact) \<Rightarrow> 'a cact" where
  "cget f g = f g g"

definition cdo :: "(cgo \<Rightarrow> cgo) \<Rightarrow> 'a cact \<Rightarrow> 'a cact" where
  "cdo f m g = m (f g)"

text \<open>Whether a driver error stands for a Go panic, whichever layer it comes from.\<close>

definition conn_panics :: "conn_error \<Rightarrow> bool" where
  "conn_panics e \<longleftrightarrow> root_error e = IndexPanic \<or> root_error e = ParamError ParamPanic"

definition panics :: "driver_error \<Rightarrow> bool" where
  "panics e =
     (case e of
        Panic \<Rightarrow> True
      | DrdaErr x \<Rightarrow> conn_panics x
      | ArrowErr x \<Rightarrow> x = ArrowPanic
      | AdbcErr a \<Rightarrow> (case Msg a of OfError p x \<Rightarrow> conn_panics x | OfArrow p x \<Rightarrow> x = ArrowPanic | _ \<Rightarrow> False)
      | _ \<Rightarrow> False)"

definition driverResult :: "driver_error + 'a \<Rightarrow> (driver_error + 'a) cact" where
  "driverResult r =
     (case r of Inl e \<Rightarrow> if panics e then cpanic else if e = Diverges then (\<lambda>g. (Hangs, g)) else cret r | Inr x \<Rightarrow> cret r)"

definition onConn :: "nat \<Rightarrow> 'a dact \<Rightarrow> (driver_error + 'a) cact" where
  "onConn i m g = (case m (conns g ! i) of (r, c) \<Rightarrow> driverResult r (g\<lparr>conns := (conns g)[i := c]\<rparr>))"

section \<open>Errors\<close>

abbreviation errPrefix :: string where "errPrefix \<equiv> ''[Db2] ''"

definition Db2errRelease :: "AdbcError \<Rightarrow> AdbcError" where
  "Db2errRelease e =
     (case errRelease e of
        NoRelease \<Rightarrow> e
      | Db2_release_error \<Rightarrow> e\<lparr>errMessage := None, errRelease := NoRelease\<rparr>
      | Db2ReleaseErrWithDetails \<Rightarrow>
          if errPrivate e = None then e\<lparr>errRelease := NoRelease\<rparr> else e\<lparr>errMessage := None, errRelease := NoRelease, errPrivate := None\<rparr>)"

definition setErr :: "string \<Rightarrow> string list \<Rightarrow> AdbcError option \<Rightarrow> AdbcError option" where
  "setErr fmt vals err =
     (case err of
        None \<Rightarrow> None
      | Some e \<Rightarrow>
          let e1 = (if errRelease e \<noteq> NoRelease then Db2errRelease e else e);
              msg = (if HasPrefix fmt errPrefix then Sprintf fmt vals else errPrefix @ Sprintf fmt vals)
          in Some (e1\<lparr>errMessage := Some msg, errRelease := Db2_release_error\<rparr>))"

definition setErrWithDetails :: "abi \<Rightarrow> adbc_Error \<Rightarrow> AdbcError option \<Rightarrow> AdbcError option" where
  "setErrWithDetails X a err =
     (case err of
        None \<Rightarrow> None
      | Some e \<Rightarrow>
          let e1 = e\<lparr>errSqlState := map (\<lambda>b. if 0x80 \<le> b then 0x3F else b) (SqlState a)\<rparr> in
          if errVendor e1 \<noteq> ADBC_ERROR_VENDOR_CODE_PRIVATE_DATA then
            setErr (xMsg X (Msg a)) []
              (Some (if VendorCode a \<noteq> ADBC_ERROR_VENDOR_CODE_PRIVATE_DATA then e1\<lparr>errVendor := VendorCode a\<rparr> else e1))
          else if VendorCode a \<noteq> 0 \<and> VendorCode a \<noteq> ADBC_ERROR_VENDOR_CODE_PRIVATE_DATA then
            setErr (xMsg X (Msg a)) [] (Some (e1\<lparr>errVendor := VendorCode a\<rparr>))
          else
            Some (e1\<lparr>errMessage := Some (xMsg X (Msg a)), errRelease := Db2ReleaseErrWithDetails,
                     errPrivate := Some \<lparr>deMessage = xMsg X (Msg a), deCount = 0\<rparr>\<rparr>))"

definition errToAdbcErr :: "abi \<Rightarrow> AdbcError option \<Rightarrow> driver_error option \<Rightarrow> AdbcStatusCode \<times> AdbcError option" where
  "errToAdbcErr X adbcerr err =
     (case err of
        None \<Rightarrow> (ADBC_OK, adbcerr)
      | Some e \<Rightarrow>
          (case e of
             AdbcErr a \<Rightarrow> (ADBC_STATUS (Code a), setErrWithDetails X a adbcerr)
           | _ \<Rightarrow> (ADBC_UNKNOWN, setErr (xText X e) [] adbcerr)))"

definition Db2ErrorGetDetailCount :: "AdbcError option \<Rightarrow> nat" where
  "Db2ErrorGetDetailCount err =
     (case err of
        None \<Rightarrow> 0
      | Some e \<Rightarrow>
          if errRelease e \<noteq> Db2ReleaseErrWithDetails then 0
          else (case errPrivate e of None \<Rightarrow> 0 | Some d \<Rightarrow> deCount d))"

section \<open>What an exported function returns\<close>

text \<open>
  Outputs: \<open>OutText\<close> and \<open>OutBytes\<close> are a buffer and the length written through the \<open>length\<close>
  argument; a \<open>None\<close> inside is an output argument that was NULL.
\<close>

datatype c_out =
    NoOut | OutText "bytes option" nat | OutDouble "64 word" | OutInt int | OutAffected "int option"
  | OutSchema "Field list option" | OutBatch "Record option" | OutMessage "string option"
  | OutError "AdbcStatusCode option" "AdbcError option"

datatype errno = NoErrno | EIO | ENOTSUP | ENOENT | EEXIST | EINVAL | ECANCELED | ETIMEDOUT | EACCES

datatype c_ret = StatusIs AdbcStatusCode | ErrnoIs errno | NoRet

type_synonym c_call = "(c_ret \<times> c_out) cact"

abbreviation INVALID_STATE :: c_ret where "INVALID_STATE \<equiv> StatusIs (ADBC_STATUS StatusInvalidState)"
abbreviation INTERNAL :: c_ret where "INTERNAL \<equiv> StatusIs (ADBC_STATUS StatusInternal)"

definition ret :: "c_ret \<Rightarrow> c_call" where
  "ret r = cret (r, NoOut)"

definition OK :: c_call where
  "OK = ret (StatusIs ADBC_OK)"

definition set_err :: "string \<Rightarrow> string list \<Rightarrow> 'a cact \<Rightarrow> 'a cact" where
  "set_err fmt vals = cdo (\<lambda>g. g\<lparr>errp := setErr fmt vals (errp g)\<rparr>)"

text \<open>\<open>return C.AdbcStatusCode(errToAdbcErr(err, e))\<close>, with the outputs written before.\<close>

definition ret_error :: "abi \<Rightarrow> c_out \<Rightarrow> driver_error option \<Rightarrow> c_call" where
  "ret_error X out e = cget (\<lambda>g. case errToAdbcErr X (errp g) e of (code, err) \<Rightarrow>
     cdo (\<lambda>g. g\<lparr>errp := err\<rparr>) (cret (StatusIs code, out)))"

definition on_error :: "abi \<Rightarrow> driver_error + 'a \<Rightarrow> ('a \<Rightarrow> c_call) \<Rightarrow> c_call" where
  "on_error X r f = (case r of Inl e \<Rightarrow> ret_error X NoOut (Some e) | Inr x \<Rightarrow> f x)"

definition error_of :: "driver_error + 'a \<Rightarrow> driver_error option" where
  "error_of r = (case r of Inl e \<Rightarrow> Some e | Inr x \<Rightarrow> None)"

definition poison :: "abi \<Rightarrow> string \<Rightarrow> c_call" where
  "poison X fname =
     cdo (\<lambda>g. g\<lparr>globalPoison := True\<rparr>)
       (set_err ''%s: Go panic in Db2 driver (see stderr): %#v'' [fname, xRecovered X] (ret INTERNAL))"

definition recovering :: "abi \<Rightarrow> string \<Rightarrow> c_call \<Rightarrow> c_call" where
  "recovering X fname m g = (case m g of (GoPanic, g1) \<Rightarrow> poison X fname g1 | r \<Rightarrow> r)"

section \<open>Handles and contexts\<close>

text \<open>\<open>hndl.Value().(*T)\<close>: an unknown handle and an object of another type both panic.\<close>

definition NewHandle :: "cObject \<Rightarrow> nat cact" where
  "NewHandle x g = (Ret (nextHandle g), g\<lparr>handles := (handles g)(nextHandle g \<mapsto> x), nextHandle := nextHandle g + 1\<rparr>)"

definition getFromHandle :: "(cObject \<Rightarrow> 'a option) \<Rightarrow> nat \<Rightarrow> 'a cact" where
  "getFromHandle sel h = cget (\<lambda>g. case Option.bind (handles g h) sel of Some x \<Rightarrow> cret x | None \<Rightarrow> cpanic)"

definition asDatabase :: "cObject \<Rightarrow> cDatabase option" where
  "asDatabase x = (case x of CDatabase d \<Rightarrow> Some d | _ \<Rightarrow> None)"

definition asConnection :: "cObject \<Rightarrow> cConn option" where
  "asConnection x = (case x of CConn c \<Rightarrow> Some c | _ \<Rightarrow> None)"

definition asStatement :: "cObject \<Rightarrow> cStmt option" where
  "asStatement x = (case x of CStmt s \<Rightarrow> Some s | _ \<Rightarrow> None)"

definition asStream :: "cObject \<Rightarrow> cArrayStream option" where
  "asStream x = (case x of CStream s \<Rightarrow> Some s | _ \<Rightarrow> None)"

text \<open>A write through the pointer a handle names: it has a type, and the table may have lost the handle.\<close>

definition same_type :: "cObject \<Rightarrow> cObject \<Rightarrow> bool" where
  "same_type x y =
     (case (x, y) of
        (CDatabase a, CDatabase b) \<Rightarrow> True | (CConn a, CConn b) \<Rightarrow> True | (CStmt a, CStmt b) \<Rightarrow> True
      | (CStream a, CStream b) \<Rightarrow> True | _ \<Rightarrow> False)"

definition update :: "nat \<Rightarrow> cObject \<Rightarrow> 'a cact \<Rightarrow> 'a cact" where
  "update h x = cdo (\<lambda>g. case handles g h of
     Some y \<Rightarrow> if same_type x y then g\<lparr>handles := (handles g)(h \<mapsto> x)\<rparr> else g
   | None \<Rightarrow> g)"

definition Handle_Delete :: "nat \<Rightarrow> 'a cact \<Rightarrow> 'a cact" where
  "Handle_Delete h m = cget (\<lambda>g. if handles g h = None then cpanic else cdo (\<lambda>g. g\<lparr>handles := (handles g)(h := None)\<rparr>) m)"

definition set_priv :: "nat \<Rightarrow> nat \<Rightarrow> 'a cact \<Rightarrow> 'a cact" where
  "set_priv a h = cdo (\<lambda>g. g\<lparr>priv := (priv g)(a := h)\<rparr>)"

definition cancelContext :: "nat option \<Rightarrow> 'a cact \<Rightarrow> 'a cact" where
  "cancelContext ctx = cdo (\<lambda>g. case ctx of None \<Rightarrow> g | Some n \<Rightarrow> g\<lparr>cancelled := n # cancelled g\<rparr>)"

text \<open>The new context, which the caller stores in the object.\<close>

definition newContext :: "nat option \<Rightarrow> nat cact" where
  "newContext ctx = cancelContext ctx (\<lambda>g. (Ret (nextCtx g), g\<lparr>nextCtx := nextCtx g + 1\<rparr>))"

section \<open>Logging\<close>

datatype slog_level = LevelDebug | LevelInfo | LevelWarn | LevelError

datatype logging = NoLogging | LoggingHelp | LoggingUnsupported slog_level

text \<open>The driver's databases have no \<^verbatim>\<open>SetLogger\<close>: the new logger reports that at level error.\<close>

definition initLoggingFromEnv :: "abi \<Rightarrow> logging" where
  "initLoggingFromEnv X =
     (let v = ToLower (eLower (xEnv X)) (xGetenv X ''ADBC_DRIVER_DB2_LOG_LEVEL'') in
      if v = ''debug'' then LoggingUnsupported LevelDebug
      else if v = ''info'' then LoggingUnsupported LevelInfo
      else if v = ''warn'' then LoggingUnsupported LevelError
      else if v = ''warning'' then LoggingUnsupported LevelWarn
      else if v = ''error'' then LoggingUnsupported LevelError
      else if v = '''' then NoLogging
      else LoggingHelp)"

section \<open>Arguments\<close>

text \<open>A C string, \<open>None\<close> for NULL.\<close>

definition GoString :: "string option \<Rightarrow> string" where
  "GoString s = (case s of None \<Rightarrow> '''' | Some t \<Rightarrow> t)"

text \<open>A C array of \<open>length xs\<close> elements.\<close>

definition fromCArr :: "'a list option \<Rightarrow> 'a list" where
  "fromCArr p = (case p of None \<Rightarrow> [] | Some xs \<Rightarrow> xs)"

definition toStrPtr :: "string option \<Rightarrow> string option" where
  "toStrPtr s = (case s of None \<Rightarrow> None | Some t \<Rightarrow> Some (GoString (Some t)))"

text \<open>A NULL-terminated array of C strings: the elements before the first NULL.\<close>

fun toStrSlice :: "string option list \<Rightarrow> string list" where
  "toStrSlice (Some s # xs) = s # toStrSlice xs"
| "toStrSlice _ = []"

text \<open>The caller's buffer has the size \<open>n\<close> it states; \<open>None\<close> is NULL.\<close>

definition exportStringOption :: "string \<Rightarrow> bytes option \<Rightarrow> nat \<Rightarrow> c_call" where
  "exportStringOption val out n =
     (let v = str_bytes val; need = length v + 1 in
      if n < need then cret (StatusIs ADBC_OK, OutText out need)
      else case out of
        None \<Rightarrow> cpanic
      | Some buf0 \<Rightarrow> cret (StatusIs ADBC_OK, OutText (Some ((v @ drop (length v) buf0)[length v := 0])) need))"

definition exportBytesOption :: "bytes \<Rightarrow> bytes option \<Rightarrow> nat \<Rightarrow> c_call" where
  "exportBytesOption val out n =
     (if n < length val then cret (StatusIs ADBC_OK, OutText out (length val))
      else cret (StatusIs ADBC_OK, OutText (map_option (\<lambda>b. val @ drop (length val) b) out) (length val)))"

end
