(* ===== verification/C_Calls.thy ===== *)
theory C_Calls
  imports C_State
begin

text \<open>
  The exported functions of \<^verbatim>\<open>pkg/db2/driver.go\<close>, one definition each, over the state of
  \<^verbatim>\<open>C_State\<close>.  A struct argument is its address.  The driver's databases, connections and statements
  implement the option interfaces and \<^verbatim>\<open>StatementExecuteSchema\<close>, and not
  \<^verbatim>\<open>ConnectionGetStatistics\<close>, so those type assertions are decided.  What the Arrow library imports
  from the caller's structs is an argument of the call.
\<close>

section \<open>Checks\<close>

text \<open>The three checks of an argument differ in the noun of their messages.\<close>

definition checkAlloc :: "string \<Rightarrow> nat \<Rightarrow> string \<Rightarrow> bool cact" where
  "checkAlloc fmt a fname = cget (\<lambda>g.
     if globalPoison g then set_err ''%s: Go panicked, driver is in unknown state'' [fname] (cret False)
     else if a = 0 then set_err fmt [fname] (cret False)
     else if priv g a = 0 then set_err fmt [fname] (cret False)
     else cret True)"

definition checkDBAlloc :: "nat \<Rightarrow> string \<Rightarrow> bool cact" where
  "checkDBAlloc = checkAlloc ''%s: database not allocated''"

definition checkConnAlloc :: "nat \<Rightarrow> string \<Rightarrow> bool cact" where
  "checkConnAlloc = checkAlloc ''%s: connection not allocated''"

definition checkStmtAlloc :: "nat \<Rightarrow> string \<Rightarrow> bool cact" where
  "checkStmtAlloc = checkAlloc ''%s: statement not allocated''"

text \<open>The results are the handle, the object and what it holds.\<close>

definition checkDBInit :: "nat \<Rightarrow> string \<Rightarrow> (nat \<times> cDatabase \<times> databaseImpl) option cact" where
  "checkDBInit a fname =
     cbind (checkDBAlloc a fname) (\<lambda>b. if \<not> b then cret None else cget (\<lambda>g.
     cbind (getFromHandle asDatabase (priv g a)) (\<lambda>cdb.
     case cdDb cdb of
       None \<Rightarrow> set_err ''%s: database not initialized'' [fname] (cret None)
     | Some d \<Rightarrow> cret (Some (priv g a, cdb, d)))))"

definition checkConnInit :: "nat \<Rightarrow> string \<Rightarrow> (nat \<times> cConn \<times> nat) option cact" where
  "checkConnInit a fname =
     cbind (checkConnAlloc a fname) (\<lambda>b. if \<not> b then cret None else cget (\<lambda>g.
     cbind (getFromHandle asConnection (priv g a)) (\<lambda>conn.
     case ccCnxn conn of
       None \<Rightarrow> set_err ''%s: connection not initialized'' [fname] (cret None)
     | Some i \<Rightarrow> cret (Some (priv g a, conn, i)))))"

definition checkStmtInit :: "nat \<Rightarrow> string \<Rightarrow> (nat \<times> cStmt \<times> statementImpl) option cact" where
  "checkStmtInit a fname =
     cbind (checkStmtAlloc a fname) (\<lambda>b. if \<not> b then cret None else cget (\<lambda>g.
     cbind (getFromHandle asStatement (priv g a)) (\<lambda>st.
     case csStmt st of
       None \<Rightarrow> set_err ''%s: statement not allocated'' [fname] (cret None)
     | Some s \<Rightarrow> cret (Some (priv g a, st, s)))))"

text \<open>\<open>if cdb == nil { return C.ADBC_STATUS_INVALID_STATE }\<close>\<close>

definition if_ok :: "'a option cact \<Rightarrow> ('a \<Rightarrow> c_call) \<Rightarrow> c_call" where
  "if_ok m f = cbind m (\<lambda>x. case x of None \<Rightarrow> ret INVALID_STATE | Some y \<Rightarrow> f y)"

definition if_true :: "bool cact \<Rightarrow> c_call \<Rightarrow> c_call" where
  "if_true m k = cbind m (\<lambda>b. if b then k else ret INVALID_STATE)"

text \<open>The object is written back after the driver changed what it holds.\<close>

definition storeDb :: "nat \<Rightarrow> cDatabase \<Rightarrow> databaseImpl \<Rightarrow> c_call \<Rightarrow> c_call" where
  "storeDb h cdb d = update h (CDatabase (cdb\<lparr>cdDb := Some d\<rparr>))"

definition storeStmt :: "nat \<Rightarrow> cStmt \<Rightarrow> statementImpl \<Rightarrow> 'a cact \<Rightarrow> 'a cact" where
  "storeStmt h st s = update h (CStmt (st\<lparr>csStmt := Some s\<rparr>))"

text \<open>A call of a connection under a new context, and of a statement.\<close>

definition withContext :: "nat \<Rightarrow> cConn \<Rightarrow> 'a cact \<Rightarrow> 'a cact" where
  "withContext h conn m = cbind (newContext (ccCtx conn)) (\<lambda>n. update h (CConn (conn\<lparr>ccCtx := Some n\<rparr>)) m)"

definition withStmtContext :: "nat \<Rightarrow> cStmt \<Rightarrow> (cStmt \<Rightarrow> 'a cact) \<Rightarrow> 'a cact" where
  "withStmtContext h st f = cbind (newContext (csCtx st)) (\<lambda>n.
     let st1 = st\<lparr>csCtx := Some n\<rparr> in update h (CStmt st1) (f st1))"

text \<open>A NULL output argument of a number is dereferenced.\<close>

definition put :: "bool \<Rightarrow> 'a cact \<Rightarrow> 'a cact" where
  "put there m = (if there then m else cpanic)"

section \<open>Databases\<close>

definition Db2DatabaseGetOption :: "abi \<Rightarrow> nat \<Rightarrow> string option \<Rightarrow> bytes option \<Rightarrow> nat \<Rightarrow> c_call" where
  "Db2DatabaseGetOption X db key value n = recovering X ''AdbcDatabaseGetOption''
     (if_ok (checkDBInit db ''AdbcDatabaseGetOption'') (\<lambda>(h, cdb, d).
        on_error X (Database_GetOption (GoString key) d) (\<lambda>val. exportStringOption val value n)))"

definition Db2DatabaseGetOptionBytes :: "abi \<Rightarrow> nat \<Rightarrow> string option \<Rightarrow> bytes option \<Rightarrow> nat \<Rightarrow> c_call" where
  "Db2DatabaseGetOptionBytes X db key value n = recovering X ''AdbcDatabaseGetOptionBytes''
     (if_ok (checkDBInit db ''AdbcDatabaseGetOptionBytes'') (\<lambda>(h, cdb, d).
        on_error X (Database_GetOptionBytes (GoString key)) (\<lambda>val. exportBytesOption val value n)))"

text \<open>The value is written also when the driver returns an error, as the zero it then has.\<close>

definition Db2DatabaseGetOptionDouble :: "abi \<Rightarrow> nat \<Rightarrow> string option \<Rightarrow> bool \<Rightarrow> c_call" where
  "Db2DatabaseGetOptionDouble X db key value = recovering X ''AdbcDatabaseGetOptionDouble''
     (if_ok (checkDBInit db ''AdbcDatabaseGetOptionDouble'') (\<lambda>(h, cdb, d).
        let r = Database_GetOptionDouble (xParseFloat X) (GoString key) d in
        put value (ret_error X (OutDouble (case r of Inl e \<Rightarrow> 0 | Inr x \<Rightarrow> x)) (error_of r))))"

definition Db2DatabaseGetOptionInt :: "abi \<Rightarrow> nat \<Rightarrow> string option \<Rightarrow> bool \<Rightarrow> c_call" where
  "Db2DatabaseGetOptionInt X db key value = recovering X ''AdbcDatabaseGetOptionInt''
     (if_ok (checkDBInit db ''AdbcDatabaseGetOptionInt'') (\<lambda>(h, cdb, d).
        let r = Database_GetOptionInt (GoString key) d in
        put value (ret_error X (OutInt (case r of Inl e \<Rightarrow> 0 | Inr x \<Rightarrow> x)) (error_of r))))"

text \<open>The call of \<open>initLoggingFromEnv\<close>, which only logs, is left out.\<close>

definition Db2DatabaseInit :: "abi \<Rightarrow> nat \<Rightarrow> c_call" where
  "Db2DatabaseInit X db = recovering X ''AdbcDatabaseInit''
     (if_true (checkDBAlloc db ''AdbcDatabaseInit'') (cget (\<lambda>g.
        cbind (getFromHandle asDatabase (priv g db)) (\<lambda>cdb.
        if cdDb cdb \<noteq> None then set_err ''AdbcDatabaseInit: database already initialized'' [] (ret INVALID_STATE)
        else storeDb (priv g db) cdb (NewDatabase (cdOpts cdb)) OK))))"

definition Db2DatabaseNew :: "abi \<Rightarrow> nat \<Rightarrow> c_call" where
  "Db2DatabaseNew X db = recovering X ''AdbcDatabaseNew'' (cget (\<lambda>g.
     if globalPoison g then set_err ''AdbcDatabaseNew: Go panicked, driver is in unknown state'' [] (ret INTERNAL)
     else if db = 0 then cpanic
     else if priv g db \<noteq> 0 then set_err ''AdbcDatabaseNew: database already allocated'' [] (ret INVALID_STATE)
     else cbind (NewHandle (CDatabase \<lparr>cdOpts = [], cdDb = None\<rparr>)) (\<lambda>h. set_priv db h OK)))"

text \<open>\<open>Close\<close> of a database does nothing, and after \<open>Delete\<close> nothing refers to the object.\<close>

definition Db2DatabaseRelease :: "abi \<Rightarrow> nat \<Rightarrow> c_call" where
  "Db2DatabaseRelease X db = recovering X ''AdbcDatabaseInit''
     (if_true (checkDBAlloc db ''AdbcDatabaseRelease'') (cget (\<lambda>g.
        set_priv db 0 (cbind (getFromHandle asDatabase (priv g db)) (\<lambda>cdb. Handle_Delete (priv g db) OK)))))"

definition Db2DatabaseSetOption :: "abi \<Rightarrow> nat \<Rightarrow> string option \<Rightarrow> string option \<Rightarrow> c_call" where
  "Db2DatabaseSetOption X db key value = recovering X ''AdbcDatabaseSetOption''
     (if_true (checkDBAlloc db ''AdbcDatabaseSetOption'') (cget (\<lambda>g.
        cbind (getFromHandle asDatabase (priv g db)) (\<lambda>cdb.
        case cdDb cdb of
          Some d \<Rightarrow> storeDb (priv g db) cdb (Database_SetOption (GoString key) (GoString value) d) OK
        | None \<Rightarrow> update (priv g db) (CDatabase (cdb\<lparr>cdOpts := AList.update (GoString key) (GoString value) (cdOpts cdb)\<rparr>)) OK))))"

definition Db2DatabaseSetOptionBytes :: "abi \<Rightarrow> nat \<Rightarrow> string option \<Rightarrow> bytes option \<Rightarrow> c_call" where
  "Db2DatabaseSetOptionBytes X db key value = recovering X ''AdbcDatabaseSetOptionBytes''
     (if_ok (checkDBInit db ''AdbcDatabaseSetOptionBytes'') (\<lambda>(h, cdb, d).
        ret_error X NoOut (Database_SetOptionBytes (GoString key) (fromCArr value))))"

definition Db2DatabaseSetOptionDouble :: "abi \<Rightarrow> nat \<Rightarrow> string option \<Rightarrow> 64 word \<Rightarrow> c_call" where
  "Db2DatabaseSetOptionDouble X db key value = recovering X ''AdbcDatabaseSetOptionDouble''
     (if_ok (checkDBInit db ''AdbcDatabaseSetOptionDouble'') (\<lambda>(h, cdb, d).
        storeDb h cdb (Database_SetOptionDouble (eText (xEnv X)) (GoString key) value d) OK))"

definition Db2DatabaseSetOptionInt :: "abi \<Rightarrow> nat \<Rightarrow> string option \<Rightarrow> int \<Rightarrow> c_call" where
  "Db2DatabaseSetOptionInt X db key value = recovering X ''AdbcDatabaseSetOptionInt''
     (if_ok (checkDBInit db ''AdbcDatabaseSetOptionInt'') (\<lambda>(h, cdb, d).
        storeDb h cdb (Database_SetOptionInt (GoString key) value d) OK))"

section \<open>Readers\<close>

definition retainReader :: "RecordReader \<Rightarrow> RecordReader" where
  "retainReader rr = (case rr of Streaming r \<Rightarrow> Streaming (Retain r) | InMemory sch recs \<Rightarrow> rr)"

definition releaseReader :: "nat \<Rightarrow> RecordReader \<Rightarrow> RecordReader cact" where
  "releaseReader i rr =
     (case rr of
        Streaming r \<Rightarrow> (\<lambda>g. case Release r (conns g ! i) of (r1, c) \<Rightarrow> (Ret (Streaming r1), g\<lparr>conns := (conns g)[i := c]\<rparr>))
      | InMemory sch recs \<Rightarrow> cret rr)"

definition exportRecordReader :: "nat \<Rightarrow> RecordReader \<Rightarrow> nat \<Rightarrow> nat cact" where
  "exportRecordReader i rr out =
     (if out = 0 then cpanic
      else cbind (NewHandle (CStream \<lparr>asConn = i, asRdr = retainReader rr, asErr = None, asStatus = ADBC_OK\<rparr>)) (\<lambda>h.
        cdo (\<lambda>g. g\<lparr>streams := (streams g)(out := \<lparr>streamOurs = True, streamPriv = h\<rparr>)\<rparr>) (cret h)))"

text \<open>\<open>defer rdr.Release(); exportRecordReader(rdr, out); return C.ADBC_STATUS_OK\<close>\<close>

definition exportReader :: "nat \<Rightarrow> RecordReader \<Rightarrow> nat \<Rightarrow> c_out \<Rightarrow> c_call" where
  "exportReader i rr out val g =
     (case exportRecordReader i rr out g of
        (Ret h, g1) \<Rightarrow>
          cbind (getFromHandle asStream h) (\<lambda>s. cbind (releaseReader i (asRdr s)) (\<lambda>rr1.
            update h (CStream (s\<lparr>asRdr := rr1\<rparr>)) (cret (StatusIs ADBC_OK, val)))) g1
      | (GoPanic, g1) \<Rightarrow> cbind (releaseReader i rr) (\<lambda>_. cpanic) g1
      | (Hangs, g1) \<Rightarrow> (Hangs, g1))"

text \<open>A reader of one record the library built.\<close>

definition oneRecord :: "Record \<Rightarrow> RecordReader" where
  "oneRecord rec = InMemory (recSchema rec) [rec]"

definition exportSchema :: "abi \<Rightarrow> Field list option \<Rightarrow> c_call" where
  "exportSchema X sch = (if xExportSchema X sch then cret (StatusIs ADBC_OK, OutSchema sch) else cpanic)"

text \<open>A function deferred to the end of a call, which it runs also when the call panics.\<close>

definition deferring :: "(cgo \<Rightarrow> cgo) \<Rightarrow> 'a cact \<Rightarrow> 'a cact" where
  "deferring f m g = (case m g of (r, g1) \<Rightarrow> (r, f g1))"

section \<open>Connections\<close>

definition Db2ConnectionGetOption :: "abi \<Rightarrow> nat \<Rightarrow> string option \<Rightarrow> bytes option \<Rightarrow> nat \<Rightarrow> c_call" where
  "Db2ConnectionGetOption X db key value n = recovering X ''AdbcConnectionGetOption''
     (if_ok (checkConnInit db ''AdbcConnectionGetOption'') (\<lambda>(h, conn, i).
        cbind (onConn i (Connection_GetOption (xEnv X) (GoString key))) (\<lambda>r.
        on_error X r (\<lambda>val. exportStringOption val value n))))"

definition Db2ConnectionGetOptionBytes :: "abi \<Rightarrow> nat \<Rightarrow> string option \<Rightarrow> bytes option \<Rightarrow> nat \<Rightarrow> c_call" where
  "Db2ConnectionGetOptionBytes X db key value n = recovering X ''AdbcConnectionGetOptionBytes''
     (if_ok (checkConnInit db ''AdbcConnectionGetOptionBytes'') (\<lambda>(h, conn, i).
        cbind (onConn i (Connection_GetOptionBytes (GoString key))) (\<lambda>r.
        on_error X r (\<lambda>val. exportBytesOption val value n))))"

definition Db2ConnectionGetOptionDouble :: "abi \<Rightarrow> nat \<Rightarrow> string option \<Rightarrow> bool \<Rightarrow> c_call" where
  "Db2ConnectionGetOptionDouble X db key value = recovering X ''AdbcConnectionGetOptionDouble''
     (if_ok (checkConnInit db ''AdbcConnectionGetOptionDouble'') (\<lambda>(h, conn, i).
        cbind (onConn i (Connection_GetOptionDouble (GoString key))) (\<lambda>r.
        put value (ret_error X (OutDouble (case r of Inl e \<Rightarrow> 0 | Inr x \<Rightarrow> x)) (error_of r)))))"

definition Db2ConnectionGetOptionInt :: "abi \<Rightarrow> nat \<Rightarrow> string option \<Rightarrow> bool \<Rightarrow> c_call" where
  "Db2ConnectionGetOptionInt X db key value = recovering X ''AdbcConnectionGetOptionInt''
     (if_ok (checkConnInit db ''AdbcConnectionGetOptionInt'') (\<lambda>(h, conn, i).
        cbind (onConn i (Connection_GetOptionInt (GoString key))) (\<lambda>r.
        put value (ret_error X (OutInt (case r of Inl e \<Rightarrow> 0 | Inr x \<Rightarrow> x)) (error_of r)))))"

definition Db2ConnectionNew :: "abi \<Rightarrow> nat \<Rightarrow> c_call" where
  "Db2ConnectionNew X cnxn = recovering X ''AdbcConnectionNew'' (cget (\<lambda>g.
     if globalPoison g then set_err ''AdbcConnectionNew: Go panicked, driver is in unknown state'' [] (ret INTERNAL)
     else if cnxn = 0 then cpanic
     else if priv g cnxn \<noteq> 0 then set_err ''AdbcConnectionNew: connection already allocated'' [] (ret INVALID_STATE)
     else cbind (NewHandle (CConn \<lparr>ccCtx = None, ccCnxn = None, ccArgs = []\<rparr>)) (\<lambda>h. set_priv cnxn h OK)))"

definition Db2ConnectionSetOption :: "abi \<Rightarrow> nat \<Rightarrow> string option \<Rightarrow> string option \<Rightarrow> c_call" where
  "Db2ConnectionSetOption X cnxn key val = recovering X ''AdbcConnectionSetOption''
     (if_true (checkConnAlloc cnxn ''AdbcConnectionSetOption'') (cget (\<lambda>g.
        cbind (getFromHandle asConnection (priv g cnxn)) (\<lambda>conn.
        case ccCnxn conn of
          None \<Rightarrow> update (priv g cnxn) (CConn (conn\<lparr>ccArgs := AList.update (GoString key) (GoString val) (ccArgs conn)\<rparr>)) OK
        | Some i \<Rightarrow>
            cbind (onConn i (Connection_SetOption (xEnv X) (GoString key) (GoString val))) (\<lambda>r.
            ret_error X NoOut (error_of r))))))"

definition Db2ConnectionSetOptionBytes :: "abi \<Rightarrow> nat \<Rightarrow> string option \<Rightarrow> bytes option \<Rightarrow> c_call" where
  "Db2ConnectionSetOptionBytes X db key value = recovering X ''AdbcConnectionSetOptionBytes''
     (if_ok (checkConnInit db ''AdbcConnectionSetOptionBytes'') (\<lambda>(h, conn, i).
        cbind (onConn i (Connection_SetOptionBytes (GoString key) (fromCArr value))) (\<lambda>r. ret_error X NoOut (error_of r))))"

definition Db2ConnectionSetOptionDouble :: "abi \<Rightarrow> nat \<Rightarrow> string option \<Rightarrow> 64 word \<Rightarrow> c_call" where
  "Db2ConnectionSetOptionDouble X db key value = recovering X ''AdbcConnectionSetOptionDouble''
     (if_ok (checkConnInit db ''AdbcConnectionSetOptionDouble'') (\<lambda>(h, conn, i).
        cbind (onConn i (Connection_SetOptionDouble (GoString key) value)) (\<lambda>r. ret_error X NoOut (error_of r))))"

definition Db2ConnectionSetOptionInt :: "abi \<Rightarrow> nat \<Rightarrow> string option \<Rightarrow> int \<Rightarrow> c_call" where
  "Db2ConnectionSetOptionInt X db key value = recovering X ''AdbcConnectionSetOptionInt''
     (if_ok (checkConnInit db ''AdbcConnectionSetOptionInt'') (\<lambda>(h, conn, i).
        cbind (onConn i (Connection_SetOptionInt (GoString key) value)) (\<lambda>r. ret_error X NoOut (error_of r))))"

text \<open>The options set before \<open>Init\<close>, until one fails.\<close>

fun applyArgs :: "abi \<Rightarrow> nat \<Rightarrow> (string \<times> string) list \<Rightarrow> c_call \<Rightarrow> c_call" where
  "applyArgs X i [] k = k"
| "applyArgs X i ((key, v) # kvs) k =
     cbind (onConn i (Connection_SetOption (xEnv X) key v)) (\<lambda>r. cget (\<lambda>g.
     case errToAdbcErr X (errp g) (error_of r) of (code, err) \<Rightarrow>
       cdo (\<lambda>g. g\<lparr>errp := err\<rparr>) (if code \<noteq> ADBC_OK then ret (StatusIs code) else applyArgs X i kvs k)))"

text \<open>\<open>net\<close> is what dialing meets: the random exponent, the server's bytes, the results of the writes.\<close>

type_synonym network = "nat option \<times> bytes \<times> io_error option list"

definition openDatabase :: "abi \<Rightarrow> network \<Rightarrow> databaseImpl \<Rightarrow> (driver_error + connectionImpl) cact" where
  "openDatabase X net d =
     (case net of (rnd, stream, writes) \<Rightarrow> driverResult (Open (xEnv X) (xLib X) (xTrace X) (xHostname X) rnd stream writes d))"

definition Db2ConnectionInit :: "abi \<Rightarrow> network \<Rightarrow> nat \<Rightarrow> nat \<Rightarrow> c_call" where
  "Db2ConnectionInit X net cnxn db = recovering X ''AdbcConnectionInit''
     (if_true (checkConnAlloc cnxn ''AdbcConnectionInit'') (cget (\<lambda>g.
        let h = priv g cnxn; i = length (conns g) in
        cbind (getFromHandle asConnection h) (\<lambda>conn.
        if ccCnxn conn \<noteq> None
        then set_err ''AdbcConnectionInit: connection already initialized'' [] (ret INVALID_STATE)
        else if_ok (checkDBInit db ''AdbcConnectionInit'') (\<lambda>(hd, cdb, d).
          cbind (openDatabase X net d) (\<lambda>r.
          on_error X r (\<lambda>c. cdo (\<lambda>g. g\<lparr>conns := conns g @ [c]\<rparr>)
            (let conn1 = conn\<lparr>ccCnxn := Some i\<rparr> in update h (CConn conn1)
              (if ccArgs conn = [] then OK
               else applyArgs X i (xOrder X (ccArgs conn)) (update h (CConn (conn1\<lparr>ccArgs := []\<rparr>)) OK))))))))))"

text \<open>\<open>cerr\<close> is the result of closing the socket.\<close>

definition Db2ConnectionRelease :: "abi \<Rightarrow> io_error option \<Rightarrow> nat \<Rightarrow> c_call" where
  "Db2ConnectionRelease X cerr cnxn = recovering X ''AdbcConnectionRelease''
     (if_true (checkConnAlloc cnxn ''AdbcConnectionRelease'') (cget (\<lambda>g.
        let h = priv g cnxn in
        set_priv cnxn 0 (cbind (getFromHandle asConnection h) (\<lambda>conn.
        Handle_Delete h (deferring (snd \<circ> cancelContext (ccCtx conn) OK)
          (case ccCnxn conn of
             None \<Rightarrow> OK
           | Some i \<Rightarrow> cbind (onConn i (Connection_Close cerr)) (\<lambda>r. ret_error X NoOut (error_of r)))))))))"

definition Db2ConnectionCancel :: "abi \<Rightarrow> nat \<Rightarrow> c_call" where
  "Db2ConnectionCancel X cnxn = recovering X ''AdbcConnectionCancel''
     (if_ok (checkConnInit cnxn ''AdbcConnectionCancel'') (\<lambda>(h, conn, i).
        cancelContext (ccCtx conn) (update h (CConn (conn\<lparr>ccCtx := None\<rparr>)) OK)))"

section \<open>Metadata and units of work\<close>

definition Db2ConnectionGetInfo :: "abi \<Rightarrow> nat \<Rightarrow> nat list option \<Rightarrow> nat \<Rightarrow> c_call" where
  "Db2ConnectionGetInfo X cnxn codes out = recovering X ''AdbcConnectionGetInfo''
     (if_ok (checkConnInit cnxn ''AdbcConnectionGetInfo'') (\<lambda>(h, conn, i).
        withContext h conn (cbind (onConn i (getInfoImpl (xVersion X) (fromCArr codes))) (\<lambda>r.
        on_error X r (\<lambda>rows. exportReader i (oneRecord (xInfo X rows)) out NoOut)))))"

definition Db2ConnectionGetObjects ::
  "abi \<Rightarrow> nat \<Rightarrow> int \<Rightarrow> string option \<Rightarrow> string option \<Rightarrow> string option \<Rightarrow> string option list option \<Rightarrow> string option
     \<Rightarrow> nat \<Rightarrow> c_call" where
  "Db2ConnectionGetObjects X cnxn depth catalog dbSchema tableName tableType columnName out =
     recovering X ''AdbcConnectionGetObjects''
     (if_ok (checkConnInit cnxn ''AdbcConnectionGetObjects'') (\<lambda>(h, conn, i).
        withContext h conn (cbind (onConn i (getObjectsImpl (xEnv X) (xObjects X) depth (toStrPtr catalog) (toStrPtr dbSchema)
          (toStrPtr tableName) (toStrPtr columnName) (toStrSlice (fromCArr tableType)))) (\<lambda>r.
        on_error X r (\<lambda>rec. exportReader i (oneRecord rec) out NoOut)))))"

definition Db2ConnectionGetStatistics :: "abi \<Rightarrow> nat \<Rightarrow> c_call" where
  "Db2ConnectionGetStatistics X cnxn = recovering X ''AdbcConnectionGetStatistics''
     (if_ok (checkConnInit cnxn ''AdbcConnectionGetStatistics'') (\<lambda>(h, conn, i).
        set_err ''AdbcConnectionGetStatistics: not supported'' [] (ret (StatusIs (ADBC_STATUS StatusNotImplemented)))))"

definition Db2ConnectionGetStatisticNames :: "abi \<Rightarrow> nat \<Rightarrow> c_call" where
  "Db2ConnectionGetStatisticNames X cnxn = recovering X ''AdbcConnectionGetStatistics''
     (if_ok (checkConnInit cnxn ''AdbcConnectionGetStatistics'') (\<lambda>(h, conn, i).
        set_err ''AdbcConnectionGetStatistics: not supported'' [] (ret (StatusIs (ADBC_STATUS StatusNotImplemented)))))"

definition Db2ConnectionGetTableSchema :: "abi \<Rightarrow> nat \<Rightarrow> string option \<Rightarrow> string option \<Rightarrow> string option \<Rightarrow> c_call" where
  "Db2ConnectionGetTableSchema X cnxn catalog dbSchema tableName = recovering X ''AdbcConnectionGetTableSchema''
     (if_ok (checkConnInit cnxn ''AdbcConnectionGetTableSchema'') (\<lambda>(h, conn, i).
        withContext h conn (cbind (onConn i (getTableSchemaImpl (xEnv X) (toStrPtr dbSchema) (GoString tableName))) (\<lambda>r.
        on_error X r (\<lambda>sch. exportSchema X (Some sch))))))"

definition Db2ConnectionGetTableTypes :: "abi \<Rightarrow> nat \<Rightarrow> nat \<Rightarrow> c_call" where
  "Db2ConnectionGetTableTypes X cnxn out = recovering X ''AdbcConnectionGetTableTypes''
     (if_ok (checkConnInit cnxn ''AdbcConnectionGetTableTypes'') (\<lambda>(h, conn, i).
        withContext h conn (cbind (onConn i getTableTypesImpl) (\<lambda>r.
        on_error X r (\<lambda>types. exportReader i (oneRecord (xTypes X types)) out NoOut)))))"

definition Db2ConnectionReadPartition :: "abi \<Rightarrow> nat \<Rightarrow> bytes option \<Rightarrow> nat \<Rightarrow> c_call" where
  "Db2ConnectionReadPartition X cnxn serialized out = recovering X ''AdbcConnectionReadPartition''
     (if_ok (checkConnInit cnxn ''AdbcConnectionReadPartition'') (\<lambda>(h, conn, i).
        withContext h conn (cbind (onConn i (ReadPartition (fromCArr serialized))) (\<lambda>r.
        on_error X r (\<lambda>rr. exportReader i rr out NoOut)))))"

definition Db2ConnectionCommit :: "abi \<Rightarrow> nat \<Rightarrow> c_call" where
  "Db2ConnectionCommit X cnxn = recovering X ''AdbcConnectionCommit''
     (if_ok (checkConnInit cnxn ''AdbcConnectionCommit'') (\<lambda>(h, conn, i).
        withContext h conn (cbind (onConn i (Connection_Commit (xEnv X))) (\<lambda>r. ret_error X NoOut (error_of r)))))"

definition Db2ConnectionRollback :: "abi \<Rightarrow> nat \<Rightarrow> c_call" where
  "Db2ConnectionRollback X cnxn = recovering X ''AdbcConnectionRollback''
     (if_ok (checkConnInit cnxn ''AdbcConnectionRollback'') (\<lambda>(h, conn, i).
        withContext h conn (cbind (onConn i (Connection_Rollback (xEnv X))) (\<lambda>r. ret_error X NoOut (error_of r)))))"

section \<open>Statements\<close>

definition Db2StatementGetOption :: "abi \<Rightarrow> nat \<Rightarrow> string option \<Rightarrow> bytes option \<Rightarrow> nat \<Rightarrow> c_call" where
  "Db2StatementGetOption X db key value n = recovering X ''AdbcStatementGetOption''
     (if_ok (checkStmtInit db ''AdbcStatementGetOption'') (\<lambda>(h, st, s).
        on_error X (Statement_GetOption (GoString key) s) (\<lambda>val. exportStringOption val value n)))"

definition Db2StatementGetOptionBytes :: "abi \<Rightarrow> nat \<Rightarrow> string option \<Rightarrow> bytes option \<Rightarrow> nat \<Rightarrow> c_call" where
  "Db2StatementGetOptionBytes X db key value n = recovering X ''AdbcStatementGetOptionBytes''
     (if_ok (checkStmtInit db ''AdbcStatementGetOptionBytes'') (\<lambda>(h, st, s).
        on_error X (Statement_GetOptionBytes (GoString key)) (\<lambda>val. exportBytesOption val value n)))"

definition Db2StatementGetOptionDouble :: "abi \<Rightarrow> nat \<Rightarrow> string option \<Rightarrow> bool \<Rightarrow> c_call" where
  "Db2StatementGetOptionDouble X db key value = recovering X ''AdbcStatementGetOptionDouble''
     (if_ok (checkStmtInit db ''AdbcStatementGetOptionDouble'') (\<lambda>(h, st, s).
        let r = Statement_GetOptionDouble (GoString key) in
        put value (ret_error X (OutDouble (case r of Inl e \<Rightarrow> 0 | Inr x \<Rightarrow> x)) (error_of r))))"

definition Db2StatementGetOptionInt :: "abi \<Rightarrow> nat \<Rightarrow> string option \<Rightarrow> bool \<Rightarrow> c_call" where
  "Db2StatementGetOptionInt X db key value = recovering X ''AdbcStatementGetOptionInt''
     (if_ok (checkStmtInit db ''AdbcStatementGetOptionInt'') (\<lambda>(h, st, s).
        let r = Statement_GetOptionInt (GoString key) s in
        put value (ret_error X (OutInt (case r of Inl e \<Rightarrow> 0 | Inr x \<Rightarrow> x)) (error_of r))))"

definition Db2StatementNew :: "abi \<Rightarrow> nat \<Rightarrow> nat \<Rightarrow> c_call" where
  "Db2StatementNew X cnxn stmt = recovering X ''AdbcStatementNew'' (cget (\<lambda>g.
     if globalPoison g then set_err ''AdbcStatementNew: Go panicked, driver is in unknown state'' [] (ret INTERNAL)
     else if stmt = 0 then cpanic
     else if priv g stmt \<noteq> 0 then set_err ''AdbcStatementNew: statement already allocated'' [] (ret INVALID_STATE)
     else if_ok (checkConnInit cnxn ''AdbcStatementNew'') (\<lambda>(hc, conn, i).
       cbind (onConn i NewStatement) (\<lambda>r.
       on_error X r (\<lambda>s. cbind (NewHandle (CStmt \<lparr>csCtx = None, csConn = i, csStmt = Some s\<rparr>)) (\<lambda>h. set_priv stmt h OK))))))"

definition Db2StatementRelease :: "abi \<Rightarrow> nat \<Rightarrow> c_call" where
  "Db2StatementRelease X stmt = recovering X ''AdbcStatementRelease'' (cget (\<lambda>g.
     if globalPoison g then set_err ''AdbcStatementRelease: Go panicked, driver is in unknown state'' [] (ret INTERNAL)
     else if_true (checkStmtAlloc stmt ''AdbcStatementRelease'') (
       let h = priv g stmt in
       set_priv stmt 0 (cbind (getFromHandle asStatement h) (\<lambda>st.
       Handle_Delete h (deferring (snd \<circ> cancelContext (csCtx st) OK)
         (case csStmt st of
            None \<Rightarrow> OK
          | Some s \<Rightarrow> cbind (driverResult (Statement_Close s)) (\<lambda>r. ret_error X NoOut (error_of r)))))))))"

definition Db2StatementCancel :: "abi \<Rightarrow> nat \<Rightarrow> c_call" where
  "Db2StatementCancel X stmt = recovering X ''AdbcStatementCancel''
     (if_ok (checkStmtInit stmt ''AdbcStatementCancel'') (\<lambda>(h, st, s).
        cancelContext (csCtx st) (update h (CStmt (st\<lparr>csCtx := None\<rparr>)) OK)))"

text \<open>A setter of the driver returns the changed statement or an error.\<close>

definition setStmt :: "abi \<Rightarrow> nat \<Rightarrow> cStmt \<Rightarrow> driver_error + statementImpl \<Rightarrow> c_call" where
  "setStmt X h st r = on_error X r (\<lambda>s. storeStmt h st s OK)"

text \<open>An execution, on the statement's connection.\<close>

definition onStmt :: "nat \<Rightarrow> cStmt \<Rightarrow> 'a sact \<Rightarrow> (driver_error + 'a) cact" where
  "onStmt h st m g = (case m (conns g ! csConn st) of (r, s, c) \<Rightarrow>
     storeStmt h st s (driverResult r) (g\<lparr>conns := (conns g)[csConn st := c]\<rparr>))"

definition Db2StatementPrepare :: "abi \<Rightarrow> nat \<Rightarrow> c_call" where
  "Db2StatementPrepare X stmt = recovering X ''AdbcStatementPrepare''
     (if_ok (checkStmtInit stmt ''AdbcStatementPrepare'') (\<lambda>(h, st, s).
        withStmtContext h st (\<lambda>st1. setStmt X h st1 (Prepare s))))"

text \<open>\<open>affected\<close> says whether the argument is given.\<close>

definition Db2StatementExecuteQuery :: "abi \<Rightarrow> nat \<Rightarrow> nat \<Rightarrow> bool \<Rightarrow> c_call" where
  "Db2StatementExecuteQuery X stmt out affected = recovering X ''AdbcStatementExecuteQuery''
     (if_ok (checkStmtInit stmt ''AdbcStatementExecuteQuery'') (\<lambda>(h, st, s).
        withStmtContext h st (\<lambda>st1.
          if out = 0 then
            cbind (onStmt h st1 (ExecuteUpdate (xEnv X) s)) (\<lambda>r.
            on_error X r (\<lambda>n. cret (StatusIs ADBC_OK, OutAffected (if affected then Some n else None))))
          else
            cbind (onStmt h st1 (ExecuteQuery (xEnv X) s)) (\<lambda>r.
            on_error X r (\<lambda>(rdr, n). exportReader (csConn st1) rdr out (OutAffected (if affected then Some n else None)))))))"

definition Db2StatementExecuteSchema :: "abi \<Rightarrow> nat \<Rightarrow> c_call" where
  "Db2StatementExecuteSchema X stmt = recovering X ''AdbcStatementExecuteQuery''
     (if_ok (checkStmtInit stmt ''AdbcStatementExecuteQuery'') (\<lambda>(h, st, s).
        withStmtContext h st (\<lambda>st1. cbind (onConn (csConn st1) (ExecuteSchema (xEnv X) s)) (\<lambda>r.
        on_error X r (\<lambda>sch. exportSchema X (Some sch))))))"

definition Db2StatementSetSqlQuery :: "abi \<Rightarrow> nat \<Rightarrow> string option \<Rightarrow> c_call" where
  "Db2StatementSetSqlQuery X stmt query = recovering X ''AdbcStatementSetSqlQuery''
     (if_ok (checkStmtInit stmt ''AdbcStatementSetSqlQuery'') (\<lambda>(h, st, s). setStmt X h st (Inr (SetSqlQuery (GoString query) s))))"

definition Db2StatementSetSubstraitPlan :: "abi \<Rightarrow> nat \<Rightarrow> bytes option \<Rightarrow> c_call" where
  "Db2StatementSetSubstraitPlan X stmt plan = recovering X ''AdbcStatementSetSubstraitPlan''
     (if_ok (checkStmtInit stmt ''AdbcStatementSetSubstraitPlan'') (\<lambda>(h, st, s). ret_error X NoOut (SetSubstraitPlan (fromCArr plan))))"

text \<open>\<open>imported\<close> is what the library makes of the caller's array or stream.\<close>

definition Db2StatementBind :: "abi \<Rightarrow> nat \<Rightarrow> driver_error + Record \<Rightarrow> c_call" where
  "Db2StatementBind X stmt imported = recovering X ''AdbcStatementBind''
     (if_ok (checkStmtInit stmt ''AdbcStatementBind'') (\<lambda>(h, st, s).
        on_error X imported (\<lambda>rec. withStmtContext h st (\<lambda>st1. setStmt X h st1 (Inr (Bind rec s))))))"

definition Db2StatementBindStream :: "abi \<Rightarrow> nat \<Rightarrow> driver_error + recordStream \<Rightarrow> c_call" where
  "Db2StatementBindStream X stmt imported = recovering X ''AdbcStatementBindStream''
     (if_ok (checkStmtInit stmt ''AdbcStatementBindStream'') (\<lambda>(h, st, s).
        on_error X imported (\<lambda>rr. withStmtContext h st (\<lambda>st1. setStmt X h st1 (Inr (BindStream rr s))))))"

definition Db2StatementGetParameterSchema :: "abi \<Rightarrow> nat \<Rightarrow> c_call" where
  "Db2StatementGetParameterSchema X stmt = recovering X ''AdbcStatementGetParameterSchema''
     (if_ok (checkStmtInit stmt ''AdbcStatementGetParameterSchema'') (\<lambda>(h, st, s).
        cbind (onConn (csConn st) (GetParameterSchema (xEnv X) s)) (\<lambda>r. on_error X r (exportSchema X))))"

definition Db2StatementSetOption :: "abi \<Rightarrow> nat \<Rightarrow> string option \<Rightarrow> string option \<Rightarrow> c_call" where
  "Db2StatementSetOption X stmt key value = recovering X ''AdbcStatementSetOption''
     (if_ok (checkStmtInit stmt ''AdbcStatementSetOption'') (\<lambda>(h, st, s).
        setStmt X h st (Statement_SetOption (GoString key) (GoString value) s)))"

definition Db2StatementSetOptionBytes :: "abi \<Rightarrow> nat \<Rightarrow> string option \<Rightarrow> bytes option \<Rightarrow> c_call" where
  "Db2StatementSetOptionBytes X db key value = recovering X ''AdbcStatementSetOptionBytes''
     (if_ok (checkStmtInit db ''AdbcStatementSetOptionBytes'') (\<lambda>(h, st, s).
        ret_error X NoOut (Statement_SetOptionBytes (GoString key) (fromCArr value))))"

definition Db2StatementSetOptionDouble :: "abi \<Rightarrow> nat \<Rightarrow> string option \<Rightarrow> 64 word \<Rightarrow> c_call" where
  "Db2StatementSetOptionDouble X db key value = recovering X ''AdbcStatementSetOptionDouble''
     (if_ok (checkStmtInit db ''AdbcStatementSetOptionDouble'') (\<lambda>(h, st, s).
        ret_error X NoOut (Statement_SetOptionDouble (GoString key) value)))"

definition Db2StatementSetOptionInt :: "abi \<Rightarrow> nat \<Rightarrow> string option \<Rightarrow> int \<Rightarrow> c_call" where
  "Db2StatementSetOptionInt X db key value = recovering X ''AdbcStatementSetOptionInt''
     (if_ok (checkStmtInit db ''AdbcStatementSetOptionInt'') (\<lambda>(h, st, s).
        setStmt X h st (Statement_SetOptionInt (GoString key) value s)))"

text \<open>The driver has no partitions, so the code after the error return is not reached.\<close>

definition Db2StatementExecutePartitions :: "abi \<Rightarrow> nat \<Rightarrow> c_call" where
  "Db2StatementExecutePartitions X stmt = recovering X ''AdbcStatementExecutePartitions''
     (if_ok (checkStmtInit stmt ''AdbcStatementExecutePartitions'') (\<lambda>(h, st, s).
        withStmtContext h st (\<lambda>st1. ret_error X NoOut ExecutePartitions)))"

section \<open>Streams\<close>

text \<open>The guard of the callbacks; they have no \<open>recover\<close>, so a panic ends the process.\<close>

definition ourStream :: "nat \<Rightarrow> cgo \<Rightarrow> bool" where
  "ourStream a g \<longleftrightarrow> a \<noteq> 0 \<and> streamOurs (streams g a) \<and> streamPriv (streams g a) \<noteq> 0"

definition withStream :: "nat \<Rightarrow> c_ret \<times> c_out \<Rightarrow> (nat \<Rightarrow> cArrayStream \<Rightarrow> c_call) \<Rightarrow> c_call" where
  "withStream a other f = cget (\<lambda>g.
     if \<not> ourStream a g then cret other
     else cbind (getFromHandle asStream (streamPriv (streams g a))) (f (streamPriv (streams g a))))"

definition readerErr :: "RecordReader \<Rightarrow> driver_error option" where
  "readerErr rr = (case rr of Streaming r \<Rightarrow> rdErr r | InMemory sch recs \<Rightarrow> None)"

definition readerSchema :: "RecordReader \<Rightarrow> Field list" where
  "readerSchema rr = (case rr of Streaming r \<Rightarrow> rdSchema r | InMemory sch recs \<Rightarrow> sch)"

text \<open>\<open>Next\<close> and \<open>RecordBatch\<close>.  An error the reader newly has may stand for a panic.\<close>

definition readerNext :: "abi \<Rightarrow> nat \<Rightarrow> RecordReader \<Rightarrow> (Record option \<times> RecordReader) cact" where
  "readerNext X i rr =
     (case rr of
        InMemory sch [] \<Rightarrow> cret (None, rr)
      | InMemory sch (rec # recs) \<Rightarrow> cret (Some rec, InMemory sch recs)
      | Streaming r \<Rightarrow> (\<lambda>g.
          case Reader_Next (xEnv X) r (conns g ! i) of (b, r1, c) \<Rightarrow>
            let g1 = g\<lparr>conns := (conns g)[i := c]\<rparr> in
            case rdErr r1 of
              Some e \<Rightarrow> cbind (driverResult (Inl e)) (\<lambda>(u :: driver_error + unit). cret (None, Streaming r1)) g1
            | None \<Rightarrow> (Ret (if b then rdCurrent r1 else None, Streaming r1), g1)))"

definition errnoOf :: "AdbcStatusCode \<Rightarrow> errno" where
  "errnoOf st =
     (case st of
        ADBC_STATUS StatusNotImplemented \<Rightarrow> ENOTSUP
      | ADBC_STATUS StatusNotFound \<Rightarrow> ENOENT
      | ADBC_STATUS StatusAlreadyExists \<Rightarrow> EEXIST
      | ADBC_STATUS StatusInvalidArgument \<Rightarrow> EINVAL
      | ADBC_STATUS StatusInvalidState \<Rightarrow> EINVAL
      | ADBC_STATUS StatusCancelled \<Rightarrow> ECANCELED
      | ADBC_STATUS StatusTimeout \<Rightarrow> ETIMEDOUT
      | ADBC_STATUS StatusUnauthenticated \<Rightarrow> EACCES
      | ADBC_STATUS StatusUnauthorized \<Rightarrow> EACCES
      | _ \<Rightarrow> EIO)"

definition newError :: AdbcError where
  "newError = \<lparr>errMessage = None, errVendor = 0, errSqlState = replicate 5 0, errRelease = NoRelease, errPrivate = None\<rparr>"

definition maybeError :: "abi \<Rightarrow> nat \<Rightarrow> cArrayStream \<Rightarrow> c_call" where
  "maybeError X h s =
     (case readerErr (asRdr s) of
        None \<Rightarrow> ret (ErrnoIs NoErrno)
      | Some e \<Rightarrow>
          let err = (case asErr s of None \<Rightarrow> newError | Some x \<Rightarrow> Db2errRelease x)\<lparr>errVendor := ADBC_ERROR_VENDOR_CODE_PRIVATE_DATA\<rparr>
          in case errToAdbcErr X (Some err) (Some e) of (code, err1) \<Rightarrow>
            update h (CStream (s\<lparr>asErr := err1, asStatus := code\<rparr>)) (ret (ErrnoIs (errnoOf code))))"

definition Db2ArrayStreamGetLastError :: "nat \<Rightarrow> c_call" where
  "Db2ArrayStreamGetLastError a = withStream a (NoRet, OutMessage None) (\<lambda>h s.
     cret (NoRet, OutMessage (case asErr s of None \<Rightarrow> None | Some e \<Rightarrow> errMessage e)))"

definition Db2ArrayStreamGetNext :: "abi \<Rightarrow> nat \<Rightarrow> c_call" where
  "Db2ArrayStreamGetNext X a = withStream a (ErrnoIs EINVAL, NoOut) (\<lambda>h s.
     cbind (readerNext X (asConn s) (asRdr s)) (\<lambda>(rec, rr).
     let s1 = s\<lparr>asRdr := rr\<rparr> in
     update h (CStream s1)
       (case rec of
          Some x \<Rightarrow> if xExportBatch X x then cret (ErrnoIs NoErrno, OutBatch (Some x)) else cpanic
        | None \<Rightarrow> cbind (maybeError X h s1) (\<lambda>(r, out). cret (r, OutBatch None)))))"

definition Db2ArrayStreamGetSchema :: "abi \<Rightarrow> nat \<Rightarrow> c_call" where
  "Db2ArrayStreamGetSchema X a = withStream a (ErrnoIs EINVAL, NoOut) (\<lambda>h s.
     let sch = Some (readerSchema (asRdr s)) in
     if xExportSchema X sch then cret (ErrnoIs NoErrno, OutSchema sch) else cpanic)"

definition Db2ArrayStreamRelease :: "nat \<Rightarrow> c_call" where
  "Db2ArrayStreamRelease a = cget (\<lambda>g.
     if \<not> ourStream a g then ret NoRet
     else
       let h = streamPriv (streams g a) in
       cdo (\<lambda>g. g\<lparr>streams := (streams g)(a := (streams g a)\<lparr>streamPriv := 0\<rparr>)\<rparr>)
         (cbind (getFromHandle asStream h) (\<lambda>s.
         Handle_Delete h (cbind (releaseReader (asConn s) (asRdr s)) (\<lambda>_. ret NoRet)))))"

text \<open>\<open>status\<close> says whether the argument is given.\<close>

definition Db2ErrorFromArrayStream :: "nat \<Rightarrow> bool \<Rightarrow> c_call" where
  "Db2ErrorFromArrayStream a status = withStream a (NoRet, OutError None None) (\<lambda>h s.
     cret (NoRet, OutError (if status then Some (asStatus s) else None) (asErr s)))"

end
