(* ===== verification/C_Frame.thy ===== *)
theory C_Frame
  imports C_Calls
begin

text \<open>
  What every call of the C ABI keeps.  The locale \<open>abi_frame\<close> asks of a relation on states that it
  survives the steps calls are made of: writing the error, poisoning, contexts, writes through a
  live pointer, a driver operation on a connection, a new connection, and the handling of
  handles.  Inside it, every exported function keeps the relation.  The relations are
  interpreted in \<^verbatim>\<open>C_Session\<close>.

  A call that panics is judged in the state its deferred \<^verbatim>\<open>recover\<close> makes, which is poisoned.
\<close>

section \<open>Driver operations\<close>

definition drives :: "env \<Rightarrow> 'a dact \<Rightarrow> bool" where
  "drives E m \<longleftrightarrow> (\<forall>c r c'. m c = (r, c') \<longrightarrow> (\<exists>ops. driver_run E c ops c'))"

lemma drives_one: "(\<And>c r c'. m c = (r, c') \<Longrightarrow> \<exists>op b. driver_step E op b c c') \<Longrightarrow> drives E m"
  unfolding drives_def using driver_run.none driver_run.step by metis

lemma drives_silent: "(\<And>c. snd (m c) = c) \<Longrightarrow> drives E m"
  unfolding drives_def using driver_run.none by (metis snd_conv)

lemma drives_operations [intro, simp]:
  "drives E (Connection_GetOption E key)" "drives E (Connection_SetOption E key v)" "drives E (Connection_Commit E)"
  "drives E (Connection_Rollback E)" "drives E (Connection_Close cerr)" "drives E (getInfoImpl version codes)"
  "drives E (getObjectsImpl E objs depth cat sch tn cn types)" "drives E (getTableSchemaImpl E sch name)"
  "drives E (ExecuteSchema E s)" "drives E (GetParameterSchema E s)"
  by (rule drives_one; blast intro: driver_step.intros)+

lemma drives_silent_operations [intro, simp]:
  "drives E (Connection_GetOptionBytes key)" "drives E (Connection_GetOptionInt key)" "drives E (Connection_GetOptionDouble key)"
  "drives E (Connection_SetOptionBytes key bs)" "drives E (Connection_SetOptionInt key n)"
  "drives E (Connection_SetOptionDouble key x)" "drives E (ReadPartition bs)" "drives E NewStatement" "drives E getTableTypesImpl"
  by (rule drives_silent; simp add: Connection_GetOptionBytes_def Connection_GetOptionInt_def Connection_GetOptionDouble_def
      Connection_SetOptionBytes_def Connection_SetOptionInt_def Connection_SetOptionDouble_def ReadPartition_def NewStatement_def
      getTableTypesImpl_def with_dconn_def dfail_def dok_def)+

lemma execution_drives:
  "ExecuteQuery E s c = (r, s', c') \<Longrightarrow> \<exists>ops. driver_run E c ops c'" "ExecuteUpdate E s c = (x, s', c') \<Longrightarrow> \<exists>ops. driver_run E c ops c'"
  "Reader_Next E rr c = (b, rr', c') \<Longrightarrow> \<exists>ops. driver_run E c ops c'" "Release rr c = (rr', c') \<Longrightarrow> \<exists>ops. driver_run E c ops c'"
  using driver_run.none driver_run.step driver_step.intros by metis+

definition opened :: "abi \<Rightarrow> connectionImpl \<Rightarrow> bool" where
  "opened X c \<longleftrightarrow> (\<exists>rnd stream writes d. Open (xEnv X) (xLib X) (xTrace X) (xHostname X) rnd stream writes d = Inr c)"

section \<open>The frame\<close>

definition judged :: "'a go \<Rightarrow> cgo \<Rightarrow> cgo" where
  "judged r g = (if r = GoPanic then g\<lparr>globalPoison := True\<rparr> else g)"

lemma judged_simps [simp]: "judged GoPanic g = g\<lparr>globalPoison := True\<rparr>" "judged (Ret x) g = g" "judged Hangs g = g"
  by (simp_all add: judged_def)

definition ckeeps :: "(cgo \<Rightarrow> cgo \<Rightarrow> bool) \<Rightarrow> 'a cact \<Rightarrow> bool" where
  "ckeeps R m \<longleftrightarrow> (\<forall>g r g'. m g = (r, g') \<longrightarrow> R g (judged r g'))"

lemma ckeepsI: "(\<And>g r g'. m g = (r, g') \<Longrightarrow> R g (judged r g')) \<Longrightarrow> ckeeps R m"
  by (simp add: ckeeps_def)

lemma ckeepsD: "ckeeps R m \<Longrightarrow> m g = (r, g') \<Longrightarrow> R g (judged r g')"
  by (simp add: ckeeps_def)

text \<open>The states around a new object in a caller's struct, a new stream, and their ends.\<close>

definition with_new :: "nat \<Rightarrow> cObject \<Rightarrow> cgo \<Rightarrow> cgo" where
  "with_new a x g =
     g\<lparr>handles := (handles g)(nextHandle g \<mapsto> x), nextHandle := nextHandle g + 1, priv := (priv g)(a := nextHandle g)\<rparr>"

definition with_stream :: "nat \<Rightarrow> cArrayStream \<Rightarrow> cgo \<Rightarrow> cgo" where
  "with_stream a s g =
     g\<lparr>handles := (handles g)(nextHandle g \<mapsto> CStream s), nextHandle := nextHandle g + 1,
       streams := (streams g)(a := \<lparr>streamOurs = True, streamPriv = nextHandle g\<rparr>)\<rparr>"

definition without :: "nat \<Rightarrow> cgo \<Rightarrow> cgo" where
  "without a g = g\<lparr>priv := (priv g)(a := 0), handles := (handles g)(priv g a := None)\<rparr>"

definition forget_stream :: "nat \<Rightarrow> cgo \<Rightarrow> cgo" where
  "forget_stream a g = g\<lparr>streams := (streams g)(a := (streams g a)\<lparr>streamPriv := 0\<rparr>)\<rparr>"

definition without_stream :: "nat \<Rightarrow> cgo \<Rightarrow> cgo" where
  "without_stream a g = forget_stream a g\<lparr>handles := (handles g)(streamPriv (streams g a) := None)\<rparr>"

definition caller_object :: "cObject \<Rightarrow> bool" where
  "caller_object x \<longleftrightarrow> asStream x = None"

locale abi_frame =
  fixes X :: abi and R :: "cgo \<Rightarrow> cgo \<Rightarrow> bool"
  assumes same: "R g g"
    and then_on: "R g1 g2 \<Longrightarrow> R g2 g3 \<Longrightarrow> R g1 g3"
    and err: "R g (g\<lparr>errp := e\<rparr>)"
    and poisoned: "R g (g\<lparr>globalPoison := True\<rparr>)"
    and contexts: "R g (g\<lparr>cancelled := cs, nextCtx := n\<rparr>)"
    and written: "handles g h = Some y \<Longrightarrow> same_type x y \<Longrightarrow> R g (g\<lparr>handles := (handles g)(h \<mapsto> x)\<rparr>)"
    and driven: "driver_run (xEnv X) (conns g ! i) ops c \<Longrightarrow> R g (g\<lparr>conns := (conns g)[i := c]\<rparr>)"
    and connected: "opened X c \<Longrightarrow> R g (g\<lparr>conns := conns g @ [c]\<rparr>)"
    and made: "a \<noteq> 0 \<Longrightarrow> priv g a = 0 \<Longrightarrow> caller_object x \<Longrightarrow> R g (with_new a x g)"
    and exported: "a \<noteq> 0 \<Longrightarrow> R g (with_stream a s g)"
    and dropped: "priv g a \<noteq> 0 \<Longrightarrow> handles g (priv g a) = Some x \<Longrightarrow> caller_object x \<Longrightarrow> R g (without a g)"
    and lost: "R g (g\<lparr>priv := (priv g)(a := 0), globalPoison := True\<rparr>)"
    and closed: "ourStream a g \<Longrightarrow> handles g (streamPriv (streams g a)) = Some (CStream s) \<Longrightarrow> R g (without_stream a g)"
    and forgotten: "ourStream a g \<Longrightarrow> R g (forget_stream a g)"
begin

lemma basic [intro]:
  "ckeeps R (cret x)" "ckeeps R cpanic" "ckeeps R (ret c)" "ckeeps R OK"
  unfolding ret_def OK_def by (auto intro!: ckeepsI intro: same poisoned simp: cret_def cpanic_def)

lemma cbind_kept [intro]: "ckeeps R m \<Longrightarrow> (\<And>x. ckeeps R (f x)) \<Longrightarrow> ckeeps R (cbind m f)"
  unfolding ckeeps_def cbind_def by (fastforce split: prod.splits go.splits intro: then_on)

lemma cget_kept [intro]: "(\<And>g. ckeeps R (f g)) \<Longrightarrow> ckeeps R (cget f)"
  by (simp add: ckeeps_def cget_def)

lemma cdo_kept: "(\<And>g. R g (f g)) \<Longrightarrow> ckeeps R m \<Longrightarrow> ckeeps R (cdo f m)"
  unfolding ckeeps_def cdo_def using then_on by blast

lemma set_err_kept [intro]: "ckeeps R m \<Longrightarrow> ckeeps R (set_err fmt vals m)"
  unfolding set_err_def by (intro cdo_kept err)

lemma steps [intro]:
  "ckeeps R m \<Longrightarrow> ckeeps R (update h x m)"
  "ckeeps R m \<Longrightarrow> ckeeps R (cancelContext ctx m)"
  "ckeeps R (newContext ctx)"
  "ckeeps R (getFromHandle sel h)"
  "ckeeps R (driverResult r)"
  "ckeeps R (ret_error X out e)"
  "ckeeps R (poison X fname)"
  "opened X c \<Longrightarrow> ckeeps R m \<Longrightarrow> ckeeps R (cdo (\<lambda>g. g\<lparr>conns := conns g @ [c]\<rparr>) m)"
proof -
  have ctx: "R g (case ctx of None \<Rightarrow> g | Some n \<Rightarrow> g\<lparr>cancelled := n # cancelled g\<rparr>)" for g
    using same contexts [where g = g and n = "nextCtx g"] by (auto split: option.split)
  show "ckeeps R m \<Longrightarrow> ckeeps R (update h x m)"
    unfolding update_def by (rule cdo_kept) (auto intro: same written split: option.split)
  show "ckeeps R m \<Longrightarrow> ckeeps R (cancelContext ctx m)"
    unfolding cancelContext_def by (intro cdo_kept ctx)
  have "R g (g\<lparr>nextCtx := n\<rparr>)" for g n using contexts [where g = g and n = n and cs = "cancelled g"] by simp
  then show "ckeeps R (newContext ctx)"
    unfolding newContext_def cancelContext_def by (intro cdo_kept ctx ckeepsI) auto
  show "ckeeps R (getFromHandle sel h)" unfolding getFromHandle_def by (intro cget_kept) (auto split: option.split)
  show "ckeeps R (driverResult r)"
    by (rule ckeepsI) (auto intro: same poisoned simp: driverResult_def cpanic_def cret_def split: sum.splits if_splits)
  show "ckeeps R (ret_error X out e)"
    unfolding ret_error_def by (intro cget_kept) (auto split: prod.split intro!: cdo_kept err basic)
  show "ckeeps R (poison X fname)" unfolding poison_def by (intro cdo_kept poisoned set_err_kept basic)
  show "opened X c \<Longrightarrow> ckeeps R m \<Longrightarrow> ckeeps R (cdo (\<lambda>g. g\<lparr>conns := conns g @ [c]\<rparr>) m)"
    by (intro cdo_kept connected)
qed

end

section \<open>The checks\<close>

text \<open>A call is refused when the driver is poisoned or its argument is not allocated.\<close>

definition refused :: "nat \<Rightarrow> cgo \<Rightarrow> bool" where
  "refused a g \<longleftrightarrow> globalPoison g \<or> a = 0 \<or> priv g a = 0"

lemma checkAlloc_eq:
  "checkAlloc fmt a fname g =
     (Ret (\<not> refused a g),
      if globalPoison g then g\<lparr>errp := setErr ''%s: Go panicked, driver is in unknown state'' [fname] (errp g)\<rparr>
      else if refused a g then g\<lparr>errp := setErr fmt [fname] (errp g)\<rparr> else g)"
  by (simp add: checkAlloc_def refused_def cget_def set_err_def cdo_def cret_def)

lemmas check_defs = checkDBAlloc_def checkConnAlloc_def checkStmtAlloc_def

lemma if_true_refused:
  "refused a g \<Longrightarrow> \<exists>e. if_true (checkAlloc fmt a fname) k g = (Ret (INVALID_STATE, NoOut), g\<lparr>errp := e\<rparr>)"
  by (auto simp: if_true_def cbind_def checkAlloc_eq ret_def cret_def)

lemma if_true_allowed: "\<not> refused a g \<Longrightarrow> if_true (checkAlloc fmt a fname) k g = k g"
  by (auto simp: if_true_def cbind_def checkAlloc_eq refused_def)

lemma checkInit_refused:
  assumes "refused a g"
  shows "\<exists>e. if_ok (checkDBInit a fname) f1 g = (Ret (INVALID_STATE, NoOut), g\<lparr>errp := e\<rparr>)"
    "\<exists>e. if_ok (checkConnInit a fname) f2 g = (Ret (INVALID_STATE, NoOut), g\<lparr>errp := e\<rparr>)"
    "\<exists>e. if_ok (checkStmtInit a fname) f3 g = (Ret (INVALID_STATE, NoOut), g\<lparr>errp := e\<rparr>)"
  using assms
  by (auto simp: if_ok_def checkDBInit_def checkConnInit_def checkStmtInit_def check_defs cbind_def checkAlloc_eq ret_def cret_def)

lemma recovering_ret: "m g = (Ret x, g') \<Longrightarrow> recovering X fname m g = (Ret x, g')"
  by (simp add: recovering_def)

section \<open>What the combinators keep\<close>

context abi_frame
begin

lemma cases_kept [intro]:
  "ckeeps R m1 \<Longrightarrow> ckeeps R m2 \<Longrightarrow> ckeeps R (if b then m1 else m2)"
  "ckeeps R m1 \<Longrightarrow> (\<And>x. ckeeps R (f1 x)) \<Longrightarrow> ckeeps R (case y of None \<Rightarrow> m1 | Some x \<Rightarrow> f1 x)"
  "(\<And>a b. ckeeps R (f2 a b)) \<Longrightarrow> ckeeps R (case p of (a, b) \<Rightarrow> f2 a b)"
  "(\<And>a. ckeeps R (f3 a)) \<Longrightarrow> (\<And>b. ckeeps R (f4 b)) \<Longrightarrow> ckeeps R (case s of Inl a \<Rightarrow> f3 a | Inr b \<Rightarrow> f4 b)"
  by (auto split: option.split prod.split sum.split)

lemma recovering_kept [intro]: "ckeeps R m \<Longrightarrow> ckeeps R (recovering X fname m)"
proof (rule ckeepsI)
  fix g r g' assume m: "ckeeps R m" and run: "recovering X fname m g = (r, g')"
  obtain x g1 where e: "m g = (x, g1)" by fastforce
  show "R g (judged r g')"
  proof (cases x)
    case GoPanic
    then have "r \<noteq> GoPanic" "\<exists>e. g' = g1\<lparr>globalPoison := True\<rparr>\<lparr>errp := e\<rparr>"
      using run e by (auto simp: recovering_def poison_def cdo_def set_err_def ret_def cret_def)
    then show ?thesis using then_on [OF ckeepsD [OF m e] err] GoPanic by (auto simp: judged_def)
  qed (use run e ckeepsD [OF m e] in \<open>auto simp: recovering_def\<close>)
qed

lemma checkAlloc_kept [intro]: "ckeeps R (checkAlloc fmt a fname)"
  unfolding checkAlloc_def by (intro cget_kept cases_kept set_err_kept basic)

lemma checks_kept [intro]:
  "ckeeps R (checkDBInit a fname)" "ckeeps R (checkConnInit a fname)" "ckeeps R (checkStmtInit a fname)"
  unfolding checkDBInit_def checkConnInit_def checkStmtInit_def check_defs
  by (intro cbind_kept cget_kept cases_kept set_err_kept steps basic checkAlloc_kept)+

lemma if_ok_kept [intro]: "ckeeps R m \<Longrightarrow> (\<And>x. ckeeps R (f x)) \<Longrightarrow> ckeeps R (if_ok m f)"
  unfolding if_ok_def by (intro cbind_kept cases_kept basic)

lemma if_true_kept [intro]: "ckeeps R k \<Longrightarrow> ckeeps R (if_true (checkAlloc fmt a fname) k)"
  unfolding if_true_def by (intro cbind_kept cases_kept basic checkAlloc_kept)

lemma stores_kept [intro]:
  "ckeeps R m1 \<Longrightarrow> ckeeps R (storeDb h cdb d m1)" "ckeeps R m2 \<Longrightarrow> ckeeps R (storeStmt h st s m2)"
  "ckeeps R m3 \<Longrightarrow> ckeeps R (withContext h conn m3)" "(\<And>x. ckeeps R (f x)) \<Longrightarrow> ckeeps R (withStmtContext h st f)"
  "ckeeps R m4 \<Longrightarrow> ckeeps R (put b m4)"
  unfolding storeDb_def storeStmt_def withContext_def withStmtContext_def put_def Let_def
  by (intro cbind_kept cases_kept steps basic; assumption)+

lemma results_kept [intro]:
  "(\<And>x. ckeeps R (f x)) \<Longrightarrow> ckeeps R (on_error X r f)" "ckeeps R (exportStringOption val buf0 n)"
  "ckeeps R (exportBytesOption bs buf0 n)" "ckeeps R (exportSchema X sch)" "ckeeps R (setStmt X h st rs)"
  unfolding on_error_def exportStringOption_def exportBytesOption_def exportSchema_def setStmt_def Let_def
  by (intro cbind_kept cases_kept steps stores_kept basic; assumption)+

lemma driver_kept:
  assumes "(r, c) = m (conns g ! i)" "\<exists>ops. driver_run (xEnv X) (conns g ! i) ops c" "ckeeps R k"
    "k (g\<lparr>conns := (conns g)[i := c]\<rparr>) = (x, g')"
  shows "R g (judged x g')"
  using assms driven then_on ckeepsD [OF assms(3,4)] by blast

lemma onConn_kept [intro]: "drives (xEnv X) m \<Longrightarrow> ckeeps R (onConn i m)"
  by (rule ckeepsI) (auto simp: onConn_def drives_def split: prod.splits intro!: driver_kept steps)

lemma onStmt_kept:
  assumes "\<And>c r s' c'. m c = (r, s', c') \<Longrightarrow> \<exists>ops. driver_run (xEnv X) c ops c'"
  shows "ckeeps R (onStmt h st m)"
proof (rule ckeepsI)
  fix g x g' assume run: "onStmt h st m g = (x, g')"
  obtain r s' c where m: "m (conns g ! csConn st) = (r, s', c)" using prod_cases3 by blast
  then have "storeStmt h st s' (driverResult r) (g\<lparr>conns := (conns g)[csConn st := c]\<rparr>) = (x, g')"
    using run by (simp add: onStmt_def)
  moreover have "ckeeps R (storeStmt h st s' (driverResult r))" by (intro stores_kept steps)
  moreover have "R g (g\<lparr>conns := (conns g)[csConn st := c]\<rparr>)" using driven assms [OF m] by blast
  ultimately show "R g (judged x g')" using then_on ckeepsD by blast
qed

lemma executions_kept [intro]:
  "ckeeps R (onStmt h st (ExecuteQuery (xEnv X) s))" "ckeeps R (onStmt h st (ExecuteUpdate (xEnv X) s))"
  by (rule onStmt_kept, erule execution_drives)+

lemma releaseReader_kept [intro]: "ckeeps R (releaseReader i rr)"
proof (cases rr)
  case (Streaming r)
  show ?thesis
  proof (rule ckeepsI)
    fix g x g' assume run: "releaseReader i rr g = (x, g')"
    obtain r1 c where e: "Release r (conns g ! i) = (r1, c)" by fastforce
    obtain ops where "driver_run (xEnv X) (conns g ! i) ops c" using execution_drives(4) [OF e] by blast
    then show "R g (judged x g')" using run Streaming e driven by (auto simp: releaseReader_def)
  qed
qed (auto simp: releaseReader_def)

lemma exportReader_kept [intro]: "ckeeps R (exportReader i rr out val)"
proof (rule ckeepsI)
  fix g x g' assume run: "exportReader i rr out val g = (x, g')"
  show "R g (judged x g')"
  proof (cases "out = 0")
    case True
    then have "cbind (releaseReader i rr) (\<lambda>_. cpanic :: c_call) g = (x, g')"
      using run by (simp add: exportReader_def exportRecordReader_def cpanic_def)
    then show ?thesis using ckeepsD [OF cbind_kept [OF releaseReader_kept basic(2)]] by blast
  next
    case False
    let ?s = "\<lparr>asConn = i, asRdr = retainReader rr, asErr = None, asStatus = ADBC_OK\<rparr>"
    let ?k = "\<lambda>h. cbind (getFromHandle asStream h) (\<lambda>s. cbind (releaseReader i (asRdr s)) (\<lambda>rr1.
            update h (CStream (s\<lparr>asRdr := rr1\<rparr>)) (cret (StatusIs ADBC_OK, val)))) :: c_call"
    have "exportRecordReader i rr out g = (Ret (nextHandle g), with_stream out ?s g)"
      using False by (simp add: exportRecordReader_def NewHandle_def cbind_def cdo_def cret_def with_stream_def)
    then have "?k (nextHandle g) (with_stream out ?s g) = (x, g')" using run by (simp add: exportReader_def)
    moreover have "ckeeps R (?k h)" for h by (intro cbind_kept steps releaseReader_kept basic)
    ultimately show ?thesis using then_on [OF exported [OF False]] ckeepsD by blast
  qed
qed

lemma applyArgs_kept [intro]: "ckeeps R k \<Longrightarrow> ckeeps R (applyArgs X i kvs k)"
proof (induction kvs)
  case (Cons kv kvs)
  then show ?case
    by (cases kv) (simp; intro cbind_kept cget_kept cases_kept cdo_kept onConn_kept drives_operations err basic; simp)
qed simp

lemma deferring_kept [intro]: "ckeeps R m \<Longrightarrow> ckeeps R (deferring (snd \<circ> cancelContext ctx OK) m)"
proof (rule ckeepsI)
  fix g r g' assume m: "ckeeps R m" and run: "deferring (snd \<circ> cancelContext ctx OK) m g = (r, g')"
  obtain x g1 where e: "m g = (x, g1)" by fastforce
  then have x: "r = x" and g': "g' = (case ctx of None \<Rightarrow> g1 | Some n \<Rightarrow> g1\<lparr>cancelled := n # cancelled g1\<rparr>)"
    using run by (auto simp: deferring_def cancelContext_def cdo_def OK_def ret_def cret_def)
  have c: "R h (h\<lparr>cancelled := cs\<rparr>)" for h cs using contexts [where g = h and n = "nextCtx h"] by simp
  have swap: "g1\<lparr>cancelled := cs, globalPoison := True\<rparr> = g1\<lparr>globalPoison := True, cancelled := cs\<rparr>" for cs by (cases g1) simp
  have "R (judged x g1) (judged r g')"
    using c [of g1] c [of "g1\<lparr>globalPoison := True\<rparr>"] same by (auto simp: g' x judged_def swap split: option.splits)
  then show "R g (judged r g')" using then_on ckeepsD [OF m e] by blast
qed

end

section \<open>The exported functions\<close>

text \<open>The calls that work on an allocated struct, by its address; those that release it.\<close>

inductive uses :: "abi \<Rightarrow> nat \<Rightarrow> c_call \<Rightarrow> bool" for X a where
  "uses X a (Db2DatabaseGetOption X a key buf0 n)"
| "uses X a (Db2DatabaseGetOptionBytes X a key buf0 n)"
| "uses X a (Db2DatabaseGetOptionDouble X a key b)"
| "uses X a (Db2DatabaseGetOptionInt X a key b)"
| "uses X a (Db2DatabaseInit X a)"
| "uses X a (Db2DatabaseSetOption X a key val)"
| "uses X a (Db2DatabaseSetOptionBytes X a key bs)"
| "uses X a (Db2DatabaseSetOptionDouble X a key x)"
| "uses X a (Db2DatabaseSetOptionInt X a key i)"
| "uses X a (Db2ConnectionGetOption X a key buf0 n)"
| "uses X a (Db2ConnectionGetOptionBytes X a key buf0 n)"
| "uses X a (Db2ConnectionGetOptionDouble X a key b)"
| "uses X a (Db2ConnectionGetOptionInt X a key b)"
| "uses X a (Db2ConnectionSetOption X a key val)"
| "uses X a (Db2ConnectionSetOptionBytes X a key bs)"
| "uses X a (Db2ConnectionSetOptionDouble X a key x)"
| "uses X a (Db2ConnectionSetOptionInt X a key i)"
| "uses X a (Db2ConnectionInit X net a db)"
| "uses X a (Db2ConnectionCancel X a)"
| "uses X a (Db2ConnectionGetInfo X a codes out)"
| "uses X a (Db2ConnectionGetObjects X a depth cat sch tn types cn out)"
| "uses X a (Db2ConnectionGetStatistics X a)"
| "uses X a (Db2ConnectionGetStatisticNames X a)"
| "uses X a (Db2ConnectionGetTableSchema X a cat sch tn)"
| "uses X a (Db2ConnectionGetTableTypes X a out)"
| "uses X a (Db2ConnectionReadPartition X a bs out)"
| "uses X a (Db2ConnectionCommit X a)"
| "uses X a (Db2ConnectionRollback X a)"
| "uses X a (Db2StatementGetOption X a key buf0 n)"
| "uses X a (Db2StatementGetOptionBytes X a key buf0 n)"
| "uses X a (Db2StatementGetOptionDouble X a key b)"
| "uses X a (Db2StatementGetOptionInt X a key b)"
| "uses X a (Db2StatementCancel X a)"
| "uses X a (Db2StatementPrepare X a)"
| "uses X a (Db2StatementExecuteQuery X a out b)"
| "uses X a (Db2StatementExecuteSchema X a)"
| "uses X a (Db2StatementSetSqlQuery X a sql)"
| "uses X a (Db2StatementSetSubstraitPlan X a bs)"
| "uses X a (Db2StatementBind X a rec)"
| "uses X a (Db2StatementBindStream X a rr)"
| "uses X a (Db2StatementGetParameterSchema X a)"
| "uses X a (Db2StatementSetOption X a key val)"
| "uses X a (Db2StatementSetOptionBytes X a key bs)"
| "uses X a (Db2StatementSetOptionDouble X a key x)"
| "uses X a (Db2StatementSetOptionInt X a key i)"
| "uses X a (Db2StatementExecutePartitions X a)"

inductive releases :: "abi \<Rightarrow> nat \<Rightarrow> c_call \<Rightarrow> bool" for X a where
  "releases X a (Db2DatabaseRelease X a)"
| "releases X a (Db2ConnectionRelease X cerr a)"
| "releases X a (Db2StatementRelease X a)"

inductive allocates :: "abi \<Rightarrow> nat \<Rightarrow> c_call \<Rightarrow> bool" for X a where
  "allocates X a (Db2DatabaseNew X a)"
| "allocates X a (Db2ConnectionNew X a)"
| "allocates X a (Db2StatementNew X cnxn a)"

inductive callback :: "abi \<Rightarrow> c_call \<Rightarrow> bool" for X where
  "callback X (Db2ArrayStreamGetLastError a)"
| "callback X (Db2ArrayStreamGetNext X a)"
| "callback X (Db2ArrayStreamGetSchema X a)"
| "callback X (Db2ArrayStreamRelease a)"
| "callback X (Db2ErrorFromArrayStream a b)"

definition api :: "abi \<Rightarrow> c_call \<Rightarrow> bool" where
  "api X m \<longleftrightarrow> (\<exists>a. uses X a m \<or> releases X a m \<or> allocates X a m)"

lemmas call_defs =
  Db2DatabaseGetOption_def Db2DatabaseGetOptionBytes_def Db2DatabaseGetOptionDouble_def Db2DatabaseGetOptionInt_def
  Db2DatabaseInit_def Db2DatabaseSetOption_def Db2DatabaseSetOptionBytes_def Db2DatabaseSetOptionDouble_def Db2DatabaseSetOptionInt_def
  Db2ConnectionGetOption_def Db2ConnectionGetOptionBytes_def Db2ConnectionGetOptionDouble_def Db2ConnectionGetOptionInt_def
  Db2ConnectionSetOption_def Db2ConnectionSetOptionBytes_def Db2ConnectionSetOptionDouble_def Db2ConnectionSetOptionInt_def
  Db2ConnectionInit_def Db2ConnectionCancel_def Db2ConnectionGetInfo_def Db2ConnectionGetObjects_def
  Db2ConnectionGetStatistics_def Db2ConnectionGetStatisticNames_def Db2ConnectionGetTableSchema_def Db2ConnectionGetTableTypes_def
  Db2ConnectionReadPartition_def Db2ConnectionCommit_def Db2ConnectionRollback_def Db2StatementGetOption_def
  Db2StatementGetOptionBytes_def Db2StatementGetOptionDouble_def Db2StatementGetOptionInt_def Db2StatementCancel_def
  Db2StatementPrepare_def Db2StatementExecuteQuery_def Db2StatementExecuteSchema_def Db2StatementSetSqlQuery_def
  Db2StatementSetSubstraitPlan_def Db2StatementBind_def Db2StatementBindStream_def Db2StatementGetParameterSchema_def
  Db2StatementSetOption_def Db2StatementSetOptionBytes_def Db2StatementSetOptionDouble_def Db2StatementSetOptionInt_def
  Db2StatementExecutePartitions_def

text \<open>A refused call writes the error and does nothing else.\<close>

lemma refused_use: "uses X a m \<Longrightarrow> refused a g \<Longrightarrow> \<exists>e. m g = (Ret (INVALID_STATE, NoOut), g\<lparr>errp := e\<rparr>)"
proof -
  note r = recovering_ret [where x = "(INVALID_STATE, NoOut)"]
  have t: "refused a g \<Longrightarrow> \<exists>e. recovering X f (if_true (checkAlloc fmt a fname) k) g = (Ret (INVALID_STATE, NoOut), g\<lparr>errp := e\<rparr>)"
    for fmt fname f k using if_true_refused r by blast
  have i: "refused a g \<Longrightarrow> \<exists>e. recovering X f (if_ok (checkDBInit a fname) f1) g = (Ret (INVALID_STATE, NoOut), g\<lparr>errp := e\<rparr>)"
    "refused a g \<Longrightarrow> \<exists>e. recovering X f (if_ok (checkConnInit a fname) f2) g = (Ret (INVALID_STATE, NoOut), g\<lparr>errp := e\<rparr>)"
    "refused a g \<Longrightarrow> \<exists>e. recovering X f (if_ok (checkStmtInit a fname) f3) g = (Ret (INVALID_STATE, NoOut), g\<lparr>errp := e\<rparr>)"
    for fname f f1 f2 f3 using checkInit_refused r by blast+
  show "uses X a m \<Longrightarrow> refused a g \<Longrightarrow> ?thesis"
    by (induction rule: uses.induct; unfold call_defs check_defs; rule t i; assumption)
qed

section \<open>Every call keeps the frame\<close>

lemma release_shape:
  assumes "priv g a \<noteq> 0" and sel: "\<And>y x. sel y = Some x \<Longrightarrow> caller_object y"
    and run: "set_priv a 0 (cbind (getFromHandle sel (priv g a)) (\<lambda>x. Handle_Delete (priv g a) (k x))) g = (r, g')"
  shows "r = GoPanic \<and> g' = g\<lparr>priv := (priv g)(a := 0)\<rparr>
    \<or> (\<exists>x y. handles g (priv g a) = Some y \<and> caller_object y \<and> k x (without a g) = (r, g'))"
proof (cases "Option.bind (handles g (priv g a)) sel")
  case None
  then show ?thesis using run by (simp add: set_priv_def cdo_def cbind_def getFromHandle_def cget_def cpanic_def)
next
  case (Some x)
  then obtain y where y: "handles g (priv g a) = Some y" "sel y = Some x" by (cases "handles g (priv g a)") auto
  then have "k x (without a g) = (r, g')"
    using run by (simp add: set_priv_def cdo_def cbind_def getFromHandle_def cget_def cret_def Handle_Delete_def without_def)
  then show ?thesis using y sel by blast
qed

lemma caller_selections: "asDatabase y = Some d \<Longrightarrow> caller_object y" "asConnection y = Some c \<Longrightarrow> caller_object y"
  "asStatement y = Some s \<Longrightarrow> caller_object y"
  by (auto simp: asDatabase_def asConnection_def asStatement_def caller_object_def asStream_def split: cObject.splits)

context abi_frame
begin

lemma opening_kept:
  assumes "\<And>c. opened X c \<Longrightarrow> ckeeps R (f c)"
  shows "ckeeps R (cbind (openDatabase X net d) (\<lambda>r. on_error X r f))"
proof (rule ckeepsI)
  fix g x g' assume run: "cbind (openDatabase X net d) (\<lambda>r. on_error X r f) g = (x, g')"
  obtain rnd st ws where net: "net = (rnd, st, ws)" by (cases net)
  show "R g (judged x g')"
  proof (cases "Open (xEnv X) (xLib X) (xTrace X) (xHostname X) rnd st ws d")
    case (Inl e)
    have "ckeeps R (cbind (driverResult (Inl e)) (\<lambda>r. on_error X r f))"
      by (rule ckeepsI)
        (auto simp: cbind_def driverResult_def cpanic_def cret_def on_error_def split: if_splits intro: same poisoned ckeepsD [OF steps(6)])
    then show ?thesis using run Inl net ckeepsD by (auto simp: openDatabase_def)
  next
    case (Inr c)
    then have "opened X c" by (auto simp: opened_def)
    moreover have "f c g = (x, g')"
      using run Inr net by (simp add: openDatabase_def cbind_def driverResult_def cret_def on_error_def)
    ultimately show ?thesis using assms ckeepsD by blast
  qed
qed

lemmas kept =
  recovering_kept if_ok_kept if_true_kept cases_kept cbind_kept cget_kept checks_kept checkAlloc_kept stores_kept results_kept
  onConn_kept executions_kept exportReader_kept set_err_kept steps basic drives_operations drives_silent_operations

lemma uses_kept: "uses X a m \<Longrightarrow> ckeeps R m"
proof (induction rule: uses.induct)
  case (18 net db)
  show ?case unfolding call_defs check_defs Let_def
    by (intro kept opening_kept applyArgs_kept)
qed (unfold call_defs check_defs Let_def, (intro kept)+)

lemma release_step:
  assumes sel: "\<And>y x. sel y = Some x \<Longrightarrow> caller_object y" and k: "\<And>x. ckeeps R (k x)"
  shows "ckeeps R (if_true (checkAlloc fmt a fname) (cget (\<lambda>g. set_priv a 0
    (cbind (getFromHandle sel (priv g a)) (\<lambda>x. Handle_Delete (priv g a) (k x))))))"
proof (rule ckeepsI)
  let ?k = "\<lambda>g. set_priv a 0 (cbind (getFromHandle sel (priv g a)) (\<lambda>x. Handle_Delete (priv g a) (k x)))"
  fix g r g' assume run: "if_true (checkAlloc fmt a fname) (cget ?k) g = (r, g')"
  show "R g (judged r g')"
  proof (cases "refused a g")
    case True
    obtain e where "if_true (checkAlloc fmt a fname) (cget ?k) g = (Ret (INVALID_STATE, NoOut), g\<lparr>errp := e\<rparr>)"
      using if_true_refused [OF True] by blast
    then show ?thesis using run err by auto
  next
    case False
    then have p: "priv g a \<noteq> 0" by (simp add: refused_def)
    have "?k g g = (r, g')" using run False by (simp add: if_true_allowed cget_def)
    from release_shape [OF p sel this] show ?thesis
    proof
      assume "r = GoPanic \<and> g' = g\<lparr>priv := (priv g)(a := 0)\<rparr>"
      then show ?thesis using lost [of g a] by simp
    next
      assume "\<exists>x y. handles g (priv g a) = Some y \<and> caller_object y \<and> k x (without a g) = (r, g')"
      then obtain x y where "handles g (priv g a) = Some y" "caller_object y" and e: "k x (without a g) = (r, g')" by blast
      then have "R g (without a g)" using dropped [OF p] by blast
      then show ?thesis using then_on ckeepsD [OF k e] by blast
    qed
  qed
qed

lemma guarded_kept:
  assumes "ckeeps R m" "ckeeps R (if_true (checkAlloc fmt a fname) (cget k))"
  shows "ckeeps R (cget (\<lambda>g. if globalPoison g then m else if_true (checkAlloc fmt a fname) (k g)))"
proof -
  have "cget (\<lambda>g. if globalPoison g then m else if_true (checkAlloc fmt a fname) (k g)) =
    cget (\<lambda>g. if globalPoison g then m else if_true (checkAlloc fmt a fname) (cget k))"
    by (rule ext) (auto simp: cget_def if_true_def cbind_def checkAlloc_eq)
  then show ?thesis using cget_kept [of "\<lambda>g. if globalPoison g then m else if_true (checkAlloc fmt a fname) (cget k)"] assms by auto
qed

lemma releases_kept: "releases X a m \<Longrightarrow> ckeeps R m"
proof (induction rule: releases.induct)
  case 1
  show ?case unfolding Db2DatabaseRelease_def check_defs
    by (intro recovering_kept release_step basic) (rule caller_selections)
next
  case (2 cerr)
  show ?case unfolding Db2ConnectionRelease_def check_defs Let_def
    by (intro recovering_kept release_step deferring_kept kept) (rule caller_selections)
next
  case 3
  show ?case unfolding Db2StatementRelease_def check_defs Let_def
    by (intro recovering_kept guarded_kept set_err_kept release_step deferring_kept kept) (rule caller_selections)
qed

lemma callback_kept: "callback X m \<Longrightarrow> ckeeps R m"
proof (induction rule: callback.induct)
  case (4 a)
  show ?case
  proof (rule ckeepsI)
    fix g r g' assume run: "Db2ArrayStreamRelease a g = (r, g')"
    let ?h = "streamPriv (streams g a)"
    show "R g (judged r g')"
    proof (cases "ourStream a g")
      case ours: True
      show ?thesis
      proof (cases "Option.bind (handles g ?h) asStream")
        case None
        then have "r = GoPanic" "g' = forget_stream a g"
          using run ours
          by (auto simp: Db2ArrayStreamRelease_def cget_def cdo_def cbind_def getFromHandle_def cpanic_def forget_stream_def Let_def)
        then show ?thesis using then_on [OF forgotten [OF ours] poisoned] by simp
      next
        case (Some s)
        then have s: "handles g ?h = Some (CStream s)" by (auto simp: asStream_def split: cObject.splits bind_splits)
        have "cbind (releaseReader (asConn s) (asRdr s)) (\<lambda>_. ret NoRet) (without_stream a g) = (r, g')"
          using run ours s
          by (simp add: Db2ArrayStreamRelease_def cget_def cdo_def cbind_def getFromHandle_def cret_def asStream_def Handle_Delete_def
              without_stream_def forget_stream_def Let_def)
        moreover have "ckeeps R (cbind (releaseReader (asConn s) (asRdr s)) (\<lambda>_. ret NoRet))" by (intro kept releaseReader_kept)
        ultimately show ?thesis using then_on [OF closed [OF ours s]] ckeepsD by blast
      qed
    qed (use run same in \<open>auto simp: Db2ArrayStreamRelease_def cget_def ret_def cret_def\<close>)
  qed
next
  case (2 a)
  have "ckeeps R (readerNext X i rr)" for i rr
  proof (rule ckeepsI)
    fix g x g' assume run: "readerNext X i rr g = (x, g')"
    show "R g (judged x g')"
    proof (cases rr)
      case (Streaming r)
      obtain b r1 c where n: "Reader_Next (xEnv X) r (conns g ! i) = (b, r1, c)" using prod_cases3 by blast
      have d: "R g (g\<lparr>conns := (conns g)[i := c]\<rparr>)" using driven execution_drives(3) [OF n] by blast
      have "ckeeps R (cbind (driverResult (Inl e)) (\<lambda>(u :: driver_error + unit). cret (None, Streaming r1)))" for e
        by (intro cbind_kept steps basic)
      then show ?thesis using run Streaming n then_on [OF d] d ckeepsD
        by (fastforce simp: readerNext_def Let_def split: option.splits)
    qed (use run in \<open>auto simp: readerNext_def cret_def same split: list.splits\<close>)
  qed
  moreover have "ckeeps R (maybeError X h s)" for h s
    unfolding maybeError_def Let_def by (intro kept)
  ultimately show ?case unfolding Db2ArrayStreamGetNext_def withStream_def Let_def by (intro kept)
qed (unfold Db2ArrayStreamGetLastError_def Db2ArrayStreamGetSchema_def Db2ErrorFromArrayStream_def withStream_def Let_def, (intro kept)+)

end

text \<open>A new struct is written at the end of a call, which so far left the callers' structs alone.\<close>

definition ckeeps_at :: "(cgo \<Rightarrow> cgo \<Rightarrow> bool) \<Rightarrow> (nat \<Rightarrow> nat) \<Rightarrow> 'a cact \<Rightarrow> bool" where
  "ckeeps_at R p m \<longleftrightarrow> (\<forall>g r g'. priv g = p \<longrightarrow> m g = (r, g') \<longrightarrow> R g (judged r g'))"

lemma new_object: "cbind (NewHandle x) (\<lambda>h. set_priv a h OK) g = (Ret (StatusIs ADBC_OK, NoOut), with_new a x g)"
  by (simp add: cbind_def NewHandle_def set_priv_def cdo_def OK_def ret_def cret_def with_new_def)

lemma priv_kept:
  "onConn i m g = (r, g') \<Longrightarrow> priv g' = priv g" "checkConnInit a fname g = (x, g') \<Longrightarrow> priv g' = priv g"
  by (auto simp: onConn_def driverResult_def cpanic_def cret_def checkConnInit_def checkConnAlloc_def checkAlloc_eq cbind_def
      getFromHandle_def cget_def set_err_def cdo_def split: prod.splits sum.splits if_splits option.splits)

context abi_frame
begin

lemma at_kept: "ckeeps R m \<Longrightarrow> ckeeps_at R p m"
  by (auto simp: ckeeps_at_def dest: ckeepsD)

lemma cbind_at:
  assumes m: "ckeeps R m" and p: "\<And>g x g'. m g = (x, g') \<Longrightarrow> priv g' = priv g" and f: "\<And>x. ckeeps_at R p (f x)"
  shows "ckeeps_at R p (cbind m f)"
  unfolding ckeeps_at_def
proof (intro allI impI)
  fix g r g' assume pg: "priv g = p" and run: "cbind m f g = (r, g')"
  obtain x g1 where e: "m g = (x, g1)" by fastforce
  show "R g (judged r g')"
  proof (cases x)
    case (Ret y)
    then have "f y g1 = (r, g')" using run e by (simp add: cbind_def)
    moreover have "priv g1 = p" using p [OF e] pg by simp
    ultimately have "R g1 (judged r g')" using f by (auto simp: ckeeps_at_def)
    then show ?thesis using then_on ckeepsD [OF m e] Ret by simp
  qed (use run e ckeepsD [OF m e] in \<open>auto simp: cbind_def\<close>)
qed

lemma if_ok_at:
  "ckeeps R m \<Longrightarrow> (\<And>g x g'. m g = (x, g') \<Longrightarrow> priv g' = priv g) \<Longrightarrow> (\<And>x. ckeeps_at R p (f x)) \<Longrightarrow> ckeeps_at R p (if_ok m f)"
  unfolding if_ok_def by (rule cbind_at) (auto intro: at_kept split: option.split)

lemma on_error_at: "(\<And>x. ckeeps_at R p (f x)) \<Longrightarrow> ckeeps_at R p (on_error X r f)"
  unfolding on_error_def by (auto intro: at_kept split: sum.split)

lemma new_at: "a \<noteq> 0 \<Longrightarrow> p a = 0 \<Longrightarrow> caller_object x \<Longrightarrow> ckeeps_at R p (cbind (NewHandle x) (\<lambda>h. set_priv a h OK))"
  using made by (auto simp: ckeeps_at_def new_object)

lemma allocate_kept:
  assumes "ckeeps R m1" "ckeeps R m2" "\<And>p. a \<noteq> 0 \<Longrightarrow> p a = 0 \<Longrightarrow> ckeeps_at R p m3"
  shows "ckeeps R (cget (\<lambda>g. if globalPoison g then m1 else if a = 0 then cpanic else if priv g a \<noteq> 0 then m2 else m3))"
proof (rule ckeepsI)
  fix g r g'
  assume "cget (\<lambda>g. if globalPoison g then m1 else if a = 0 then cpanic else if priv g a \<noteq> 0 then m2 else m3) g = (r, g')"
  then consider "m1 g = (r, g')" | "cpanic g = (r, g')" | "a \<noteq> 0" "priv g a = 0" "m3 g = (r, g')" | "m2 g = (r, g')"
    by (auto simp: cget_def split: if_splits)
  then show "R g (judged r g')"
  proof cases
    case 3
    then show ?thesis using assms(3) [of "priv g"] by (simp add: ckeeps_at_def)
  qed (use assms(1,2) basic(2) ckeepsD in blast)+
qed

lemma allocates_kept: "allocates X a m \<Longrightarrow> ckeeps R m"
proof (induction rule: allocates.induct)
  case 1
  show ?case unfolding Db2DatabaseNew_def
    by (intro recovering_kept allocate_kept kept new_at) (auto simp: caller_object_def asStream_def)
next
  case 2
  show ?case unfolding Db2ConnectionNew_def
    by (intro recovering_kept allocate_kept kept new_at) (auto simp: caller_object_def asStream_def)
next
  case (3 cnxn)
  have "ckeeps_at R p (if_ok (checkConnInit cnxn ''AdbcStatementNew'') (\<lambda>(hc, conn, i).
       cbind (onConn i NewStatement) (\<lambda>r.
       on_error X r (\<lambda>s. cbind (NewHandle (CStmt \<lparr>csCtx = None, csConn = i, csStmt = Some s\<rparr>)) (\<lambda>h. set_priv a h OK)))))"
    if "a \<noteq> 0" "p a = 0" for p
  proof (rule if_ok_at)
    fix x :: "nat \<times> cConn \<times> nat"
    obtain hc conn i where x: "x = (hc, conn, i)" by (cases x)
    have "ckeeps_at R p (cbind (onConn i NewStatement) (\<lambda>r.
       on_error X r (\<lambda>s. cbind (NewHandle (CStmt \<lparr>csCtx = None, csConn = i, csStmt = Some s\<rparr>)) (\<lambda>h. set_priv a h OK))))"
      by (rule cbind_at, rule onConn_kept, simp, erule priv_kept, rule on_error_at, rule new_at)
        (use that in \<open>simp_all add: caller_object_def asStream_def\<close>)
    then show "ckeeps_at R p (case x of (hc, conn, i) \<Rightarrow> cbind (onConn i NewStatement) (\<lambda>r.
       on_error X r (\<lambda>s. cbind (NewHandle (CStmt \<lparr>csCtx = None, csConn = i, csStmt = Some s\<rparr>)) (\<lambda>h. set_priv a h OK))))"
      by (simp add: x)
  qed (use checks_kept priv_kept(2) in blast)+
  then show ?case unfolding Db2StatementNew_def by (intro recovering_kept allocate_kept kept)
qed

text \<open>A call leaves the process alive unless it hangs or is a callback that panicked.\<close>

theorem call_kept: "api X m \<or> callback X m \<Longrightarrow> m g = (r, g') \<Longrightarrow> R g (judged r g')"
  using uses_kept releases_kept allocates_kept callback_kept ckeepsD unfolding api_def by blast

end

end
