(* ===== verification/C_Session.thy ===== *)
theory C_Session
  imports C_Frame
begin

text \<open>
  A process that uses the driver through its C ABI: any sequence of exported functions and stream
  callbacks, with any arguments and any error structs.

  Results: handles are never dangling, shared or lost; a poisoned driver refuses every call and a
  released struct every use, without touching a session; a call changes connections only by the
  driver operations of \<^verbatim>\<open>Db2_Session\<close>; no panic crosses into C from an exported function, and one
  does from a stream callback; errors and options arrive at the caller as the driver made them.
\<close>

section \<open>Runs\<close>

definition cgo_start :: cgo where
  "cgo_start =
     \<lparr>globalPoison = False, nextHandle = 1, handles = Map.empty, conns = [], priv = (\<lambda>_. 0),
      streams = (\<lambda>_. \<lparr>streamOurs = False, streamPriv = 0\<rparr>), errp = None, nextCtx = 0, cancelled = []\<rparr>"

text \<open>The caller chooses the error struct of each call; a panic in a callback ends the process.\<close>

inductive abi_run :: "abi \<Rightarrow> cgo \<Rightarrow> cgo \<Rightarrow> bool" for X where
  none: "abi_run X g g"
| call: "api X m \<or> callback X m \<Longrightarrow> m (g\<lparr>errp := e\<rparr>) = (r, g1) \<Longrightarrow> r \<noteq> GoPanic \<Longrightarrow> abi_run X g1 g2 \<Longrightarrow> abi_run X g g2"

context abi_frame
begin

lemma run_kept: "abi_run X g g' \<Longrightarrow> R g g'"
proof (induction rule: abi_run.induct)
  case (call m e0 g r g1 g2)
  have "R (g\<lparr>errp := e0\<rparr>) g1" using call_kept [OF call.hyps(1,2)] call.hyps(3) by (simp add: judged_def)
  then show ?case using then_on [OF err] then_on call.IH by blast
qed (rule same)

end

section \<open>The relations every call keeps\<close>

definition stays_poisoned :: "cgo \<Rightarrow> cgo \<Rightarrow> bool" where
  "stays_poisoned g g' \<longleftrightarrow> (globalPoison g \<longrightarrow> globalPoison g')"

interpretation poisoning: abi_frame X stays_poisoned for X
  by unfold_locales (auto simp: stays_poisoned_def with_new_def with_stream_def without_def without_stream_def forget_stream_def)

text \<open>
  A table \<open>t\<close> of handles below \<open>n\<close>, and names \<open>f\<close> for some of them: no name is dead and no two are
  the same; \<open>owned\<close> says that every object has a name.
\<close>

definition bounded :: "(nat \<Rightarrow> cObject option) \<Rightarrow> nat \<Rightarrow> bool" where
  "bounded t n \<longleftrightarrow> 0 < n \<and> (\<forall>h x. t h = Some x \<longrightarrow> 0 < h \<and> h < n)"

definition named :: "(cObject \<Rightarrow> bool) \<Rightarrow> (nat \<Rightarrow> cObject option) \<Rightarrow> (nat \<Rightarrow> nat) \<Rightarrow> bool" where
  "named P t f \<longleftrightarrow> (\<forall>a. f a \<noteq> 0 \<longrightarrow> (\<exists>x. t (f a) = Some x \<and> P x)) \<and> (\<forall>a b. f a \<noteq> 0 \<longrightarrow> f a = f b \<longrightarrow> a = b)"

definition owned :: "(cObject \<Rightarrow> bool) \<Rightarrow> (nat \<Rightarrow> cObject option) \<Rightarrow> (nat \<Rightarrow> nat) \<Rightarrow> bool" where
  "owned P t f \<longleftrightarrow> (\<forall>h x. t h = Some x \<longrightarrow> P x \<longrightarrow> (\<exists>a. f a = h))"

lemma bounded_changes:
  "bounded t n \<Longrightarrow> bounded (t(n \<mapsto> x)) (Suc n)" "bounded t n \<Longrightarrow> bounded (t(h := None)) n"
  "bounded t n \<Longrightarrow> t h = Some y \<Longrightarrow> bounded (t(h \<mapsto> x)) n" "bounded t n \<Longrightarrow> t n = None"
  by (auto simp: bounded_def intro: less_SucI)

lemma named_changes:
  assumes "named P t f"
  shows "t n = None \<Longrightarrow> P x \<Longrightarrow> named P (t(n \<mapsto> x)) (f(a := n))" "t n = None \<Longrightarrow> named P (t(n \<mapsto> x)) f"
    "named P t (f(a := 0))" "f a \<noteq> 0 \<Longrightarrow> named P (t(f a := None)) (f(a := 0))"
    "t h = Some y \<Longrightarrow> \<not> P y \<Longrightarrow> named P (t(h := None)) f" "t h = Some y \<Longrightarrow> P x = P y \<Longrightarrow> named P (t(h \<mapsto> x)) f"
proof -
  have l: "\<And>a. f a \<noteq> 0 \<Longrightarrow> \<exists>x. t (f a) = Some x \<and> P x" and i: "\<And>a b. f a \<noteq> 0 \<Longrightarrow> f a = f b \<Longrightarrow> a = b"
    using assms by (simp_all add: named_def)
  show "named P (t(n \<mapsto> x)) (f(a := n))" if "t n = None" "P x"
  proof -
    have "f b \<noteq> n" if "f b \<noteq> 0" for b using l [OF that] \<open>t n = None\<close> by auto
    then show ?thesis using l i that(2) unfolding named_def by (auto; metis)
  qed
  show "named P (t(n \<mapsto> x)) f" if "t n = None"
  proof -
    have "f b \<noteq> n" if "f b \<noteq> 0" for b using l [OF that] \<open>t n = None\<close> by auto
    then show ?thesis using l i unfolding named_def by auto
  qed
  show "named P t (f(a := 0))" using l i by (auto simp: named_def)
  show "named P (t(f a := None)) (f(a := 0))" if "f a \<noteq> 0"
  proof -
    have "f b \<noteq> f a" if "b \<noteq> a" for b using i [OF \<open>f a \<noteq> 0\<close>, of b] that by auto
    then show ?thesis using l i unfolding named_def by auto
  qed
  show "named P (t(h := None)) f" if "t h = Some y" "\<not> P y"
  proof -
    have "f b \<noteq> h" if "f b \<noteq> 0" for b using l [OF that] \<open>t h = Some y\<close> \<open>\<not> P y\<close> by auto
    then show ?thesis using l i unfolding named_def by auto
  qed
  show "named P (t(h \<mapsto> x)) f" if "t h = Some y" "P x = P y"
    unfolding named_def
  proof (intro conjI allI impI)
    fix a assume "f a \<noteq> 0"
    then show "\<exists>z. (t(h \<mapsto> x)) (f a) = Some z \<and> P z" using l [of a] that by (cases "f a = h") auto
  qed (use i in blast)
qed

lemma owned_changes:
  assumes "owned P t f"
  shows "t n = None \<Longrightarrow> f a = 0 \<Longrightarrow> t 0 = None \<Longrightarrow> owned P (t(n \<mapsto> x)) (f(a := n))"
    "\<not> P x \<Longrightarrow> owned P (t(n \<mapsto> x)) f" "owned P (t(h := None)) f" "owned P (t(f a := None)) (f(a := 0))"
    "t h = Some y \<Longrightarrow> P x = P y \<Longrightarrow> owned P (t(h \<mapsto> x)) f"
proof -
  have o: "\<And>h x. t h = Some x \<Longrightarrow> P x \<Longrightarrow> \<exists>a. f a = h" using assms by (simp add: owned_def)
  show "owned P (t(n \<mapsto> x)) (f(a := n))" if "t n = None" "f a = 0" "t 0 = None"
    unfolding owned_def
  proof (intro allI impI)
    fix h y assume "(t(n \<mapsto> x)) h = Some y" "P y"
    then show "\<exists>b. (f(a := n)) b = h" using o [of h y] that by (cases "h = n") (auto, metis option.distinct(1))
  qed
  show "owned P (t(f a := None)) (f(a := 0))"
    unfolding owned_def
  proof (intro allI impI)
    fix h y assume "(t(f a := None)) h = Some y" "P y"
    then show "\<exists>b. (f(a := 0)) b = h" using o [of h y] by (auto split: if_splits)
  qed
qed (use assms in \<open>auto simp: owned_def\<close>)

text \<open>The name of a stream of this driver.\<close>

definition streamName :: "cgo \<Rightarrow> nat \<Rightarrow> nat" where
  "streamName g a = (if ourStream a g then streamPriv (streams g a) else 0)"

text \<open>
  No struct and no stream names a dead handle, no two name the same one, and unless the driver is
  poisoned every object a caller allocated still has its struct.
\<close>

definition handles_ok :: "cgo \<Rightarrow> bool" where
  "handles_ok g \<longleftrightarrow>
     bounded (handles g) (nextHandle g) \<and> named caller_object (handles g) (priv g)
     \<and> named (\<lambda>x. \<not> caller_object x) (handles g) (streamName g)
     \<and> (\<not> globalPoison g \<longrightarrow> owned caller_object (handles g) (priv g))"

definition keeps_handles :: "cgo \<Rightarrow> cgo \<Rightarrow> bool" where
  "keeps_handles g g' \<longleftrightarrow> (handles_ok g \<longrightarrow> handles_ok g')"

lemma caller_object_stream [simp]: "\<not> caller_object (CStream s)"
  by (simp add: caller_object_def asStream_def)

lemma same_type_object: "same_type x y \<Longrightarrow> caller_object x = caller_object y"
  by (auto simp: same_type_def caller_object_def asStream_def split: cObject.splits)

lemma streamName_changes:
  "a \<noteq> 0 \<Longrightarrow> 0 < nextHandle g \<Longrightarrow> streamName (with_stream a s g) = (streamName g)(a := nextHandle g)"
  "streamName (forget_stream a g) = (streamName g)(a := 0)"
  "streams g' = streams g \<Longrightarrow> streamName g' = streamName g"
  by (auto simp: streamName_def ourStream_def with_stream_def forget_stream_def fun_eq_iff)

interpretation handling: abi_frame X keeps_handles for X
proof
  have frame: "keeps_handles g g'"
    if "handles g' = handles g" "nextHandle g' = nextHandle g" "priv g' = priv g" "streams g' = streams g"
      "globalPoison g \<longrightarrow> globalPoison g'" for g g'
    using that streamName_changes(3) [OF that(4)] by (auto simp: keeps_handles_def handles_ok_def)
  fix g :: cgo
  show "keeps_handles g g" "keeps_handles g (g\<lparr>errp := e\<rparr>)" "keeps_handles g (g\<lparr>globalPoison := True\<rparr>)"
    "keeps_handles g (g\<lparr>cancelled := cs, nextCtx := n\<rparr>)" "keeps_handles g (g\<lparr>conns := (conns g)[i := c]\<rparr>)"
    "keeps_handles g (g\<lparr>conns := conns g @ [c]\<rparr>)" for e cs n i c
    by (rule frame; simp)+
  show "keeps_handles g (g\<lparr>handles := (handles g)(h \<mapsto> x)\<rparr>)" if y: "handles g h = Some y" and t: "same_type x y" for h x y
  proof -
    note p = same_type_object [OF t]
    have "streamName (g\<lparr>handles := (handles g)(h \<mapsto> x)\<rparr>) = streamName g" by (rule streamName_changes) simp
    then show ?thesis
      using bounded_changes(3) [where t = "handles g" and h = h and x = x] named_changes(6) [where t = "handles g" and h = h and x = x]
        owned_changes(5) [where t = "handles g" and h = h and x = x] p y
      by (simp add: keeps_handles_def handles_ok_def)
  qed
  show "keeps_handles g (with_new a x g)" if "a \<noteq> 0" and a: "priv g a = 0" and x: "caller_object x" for a x
  proof -
    have "streamName (with_new a x g) = streamName g" by (rule streamName_changes) (simp add: with_new_def)
    moreover have "handles g 0 = None" if "bounded (handles g) (nextHandle g)"
      using that unfolding bounded_def by (metis less_irrefl not_None_eq)
    ultimately show ?thesis
      using bounded_changes(1,4) named_changes(1,2) owned_changes(1) a x
      by (simp add: keeps_handles_def handles_ok_def with_new_def)
  qed
  show "keeps_handles g (with_stream a s g)" if a: "a \<noteq> 0" for a s
    unfolding keeps_handles_def
  proof
    assume ok: "handles_ok g"
    then have n: "handles g (nextHandle g) = None" "0 < nextHandle g"
      using bounded_changes(4) by (auto simp: handles_ok_def bounded_def)
    have "named (\<lambda>x. \<not> caller_object x) ((handles g)(nextHandle g \<mapsto> CStream s)) ((streamName g)(a := nextHandle g))"
      using ok n(1) by (intro named_changes) (auto simp: handles_ok_def)
    then show "handles_ok (with_stream a s g)"
      using ok n bounded_changes(1) named_changes(2) owned_changes(2) streamName_changes(1) [OF a n(2)]
      by (simp add: handles_ok_def with_stream_def)
  qed
  show "keeps_handles g (without a g)" if a: "priv g a \<noteq> 0" and x: "handles g (priv g a) = Some x" "caller_object x" for a x
  proof -
    have "streamName (without a g) = streamName g" by (rule streamName_changes) (simp add: without_def)
    then show ?thesis
      using bounded_changes(2) named_changes(4) [where f = "priv g"] named_changes(5) [where t = "handles g" and f = "streamName g"]
        owned_changes(4) a x
      by (simp add: keeps_handles_def handles_ok_def without_def)
  qed
  show "keeps_handles g (g\<lparr>priv := (priv g)(a := 0), globalPoison := True\<rparr>)" for a
  proof -
    have "streamName (g\<lparr>priv := (priv g)(a := 0), globalPoison := True\<rparr>) = streamName g" by (rule streamName_changes) simp
    then show ?thesis using named_changes(3) by (simp add: keeps_handles_def handles_ok_def)
  qed
  show f: "keeps_handles g (forget_stream a g)" for a
  proof -
    have "streamName (forget_stream a g) = (streamName g)(a := 0)" by (rule streamName_changes)
    then show ?thesis using named_changes(3) by (simp add: keeps_handles_def handles_ok_def forget_stream_def)
  qed
  show "keeps_handles g (without_stream a g)"
    if a: "ourStream a g" and s: "handles g (streamPriv (streams g a)) = Some (CStream s)" for a s
    unfolding keeps_handles_def
  proof
    assume ok: "handles_ok g"
    have n: "streamName g a = streamPriv (streams g a)" "streamName g a \<noteq> 0" using a by (auto simp: streamName_def ourStream_def)
    have "streamName (without_stream a g) = streamName (forget_stream a g)" by (rule streamName_changes) (simp add: without_stream_def)
    then have "streamName (without_stream a g) = (streamName g)(a := 0)" by (simp only: streamName_changes(2))
    moreover have "named (\<lambda>x. \<not> caller_object x) ((handles g)(streamName g a := None)) ((streamName g)(a := 0))"
      using ok n(2) by (intro named_changes) (auto simp: handles_ok_def)
    ultimately show "handles_ok (without_stream a g)"
      using ok bounded_changes(2) named_changes(5) [where t = "handles g" and f = "priv g"] owned_changes(3) n(1) s
      by (simp add: handles_ok_def without_stream_def forget_stream_def)
  qed
qed (auto simp: keeps_handles_def)

text \<open>
  Every connection after a call is one from before it, or newly opened, that driver operations
  brought to its state.
\<close>

definition conns_evolve :: "abi \<Rightarrow> cgo \<Rightarrow> cgo \<Rightarrow> bool" where
  "conns_evolve X g g' \<longleftrightarrow>
     length (conns g) \<le> length (conns g')
     \<and> (\<forall>i < length (conns g'). \<exists>c ops.
          (if i < length (conns g) then c = conns g ! i else opened X c) \<and> driver_run (xEnv X) c ops (conns g' ! i))"

lemma driver_run_append: "driver_run E a ops b \<Longrightarrow> driver_run E b ops' c \<Longrightarrow> driver_run E a (ops @ ops') c"
  by (induction rule: driver_run.induct) (auto intro: driver_run.step)

interpretation evolving: abi_frame X "conns_evolve X" for X
proof
  have unchanged: "conns_evolve X g g'" if "conns g' = conns g" for g g'
    using that driver_run.none by (auto simp: conns_evolve_def)
  fix g :: cgo
  show "conns_evolve X g g" "conns_evolve X g (g\<lparr>errp := e\<rparr>)" "conns_evolve X g (g\<lparr>globalPoison := True\<rparr>)"
    "conns_evolve X g (g\<lparr>cancelled := cs, nextCtx := n\<rparr>)" "conns_evolve X g (g\<lparr>handles := t\<rparr>)" "conns_evolve X g (with_new a x g)"
    "conns_evolve X g (with_stream a s g)" "conns_evolve X g (without a g)"
    "conns_evolve X g (g\<lparr>priv := (priv g)(a := 0), globalPoison := True\<rparr>)" "conns_evolve X g (without_stream a g)"
    "conns_evolve X g (forget_stream a g)" for e cs n t a x s
    by (rule unchanged; simp add: with_new_def with_stream_def without_def without_stream_def forget_stream_def)+
  show "conns_evolve X g (g\<lparr>conns := (conns g)[i := c]\<rparr>)" if "driver_run (xEnv X) (conns g ! i) ops c" for i ops c
    using that driver_run.none by (cases "i < length (conns g)") (auto simp: conns_evolve_def nth_list_update)
  show "conns_evolve X g (g\<lparr>conns := conns g @ [c]\<rparr>)" if "opened X c" for c
    using that driver_run.none by (auto simp: conns_evolve_def nth_append less_Suc_eq)
next
  fix g1 g2 g3 assume a: "conns_evolve X g1 g2" and b: "conns_evolve X g2 g3"
  show "conns_evolve X g1 g3"
    unfolding conns_evolve_def
  proof (intro conjI allI impI)
    show "length (conns g1) \<le> length (conns g3)" using a b by (simp add: conns_evolve_def)
    fix i assume "i < length (conns g3)"
    then obtain c ops where c: "if i < length (conns g2) then c = conns g2 ! i else opened X c"
      "driver_run (xEnv X) c ops (conns g3 ! i)"
      using b by (auto simp: conns_evolve_def)
    show "\<exists>c ops. (if i < length (conns g1) then c = conns g1 ! i else opened X c) \<and> driver_run (xEnv X) c ops (conns g3 ! i)"
    proof (cases "i < length (conns g2)")
      case True
      then obtain c0 ops0 where "if i < length (conns g1) then c0 = conns g1 ! i else opened X c0"
        "driver_run (xEnv X) c0 ops0 (conns g2 ! i)"
        using a by (auto simp: conns_evolve_def)
      then show ?thesis using c True driver_run_append by (metis (full_types))
    next
      case False
      then have "\<not> i < length (conns g1)" using a by (auto simp: conns_evolve_def)
      then show ?thesis using c False by auto
    qed
  qed
qed

section \<open>Handles\<close>

lemma handles_ok_start: "handles_ok cgo_start"
  by (simp add: handles_ok_def cgo_start_def bounded_def named_def owned_def streamName_def ourStream_def)

text \<open>
  C7: handle safety.  Whatever sequence of functions and callbacks a program calls, with whatever
  addresses, in whatever order, no struct and no stream of this driver names a dead handle, no
  two name the same object, and unless a panic has poisoned the driver every database, connection
  and statement that was allocated and not released still has its struct.
\<close>

theorem handles_safe: "abi_run X cgo_start g \<Longrightarrow> handles_ok g"
  using handling.run_kept [of X cgo_start g] handles_ok_start by (simp add: keeps_handles_def)

lemma sample_new_run:
  "abi_run X cgo_start (snd (Db2DatabaseNew X 1 cgo_start))"
proof -
  have e: "Db2DatabaseNew X 1 (cgo_start\<lparr>errp := None\<rparr>) = (Ret (StatusIs ADBC_OK, NoOut), snd (Db2DatabaseNew X 1 cgo_start))"
    by (simp add: Db2DatabaseNew_def recovering_def cget_def cgo_start_def cbind_def NewHandle_def set_priv_def cdo_def OK_def ret_def cret_def)
  show ?thesis
    by (rule abi_run.call [where m = "Db2DatabaseNew X 1" and e = None], use e in \<open>auto simp: api_def intro: allocates.intros abi_run.none\<close>)
qed

theorem handles_safe_witness: "\<forall>X. handles_ok (snd (Db2DatabaseNew X 1 cgo_start)) \<and> priv (snd (Db2DatabaseNew X 1 cgo_start)) 1 = 1"
  using handles_safe [OF sample_new_run]
  by (simp add: Db2DatabaseNew_def recovering_def cget_def cgo_start_def cbind_def NewHandle_def set_priv_def cdo_def OK_def ret_def cret_def)

section \<open>Poison\<close>

lemma poisoned_call:
  assumes "api X m" "globalPoison g"
  shows "\<exists>code e. m g = (Ret (StatusIs (ADBC_STATUS code), NoOut), g\<lparr>errp := e\<rparr>) \<and> code \<in> {StatusInvalidState, StatusInternal}"
proof -
  have ref: "refused a g" for a using assms(2) by (simp add: refused_def)
  obtain a where "uses X a m \<or> releases X a m \<or> allocates X a m" using assms(1) by (auto simp: api_def)
  then show ?thesis
  proof (elim disjE)
    assume "uses X a m"
    then show ?thesis using refused_use ref by blast
  next
    assume "releases X a m"
    then show ?thesis
    proof cases
      case 1
      then show ?thesis using if_true_refused [OF ref] recovering_ret unfolding Db2DatabaseRelease_def check_defs by blast
    next
      case 2
      then show ?thesis using if_true_refused [OF ref] recovering_ret unfolding Db2ConnectionRelease_def check_defs by blast
    next
      case 3
      then show ?thesis using assms(2)
        by (auto simp: Db2StatementRelease_def recovering_def cget_def set_err_def cdo_def ret_def cret_def)
    qed
  next
    assume "allocates X a m"
    then show ?thesis using assms(2)
      by cases (auto simp: Db2DatabaseNew_def Db2ConnectionNew_def Db2StatementNew_def recovering_def cget_def set_err_def cdo_def
          ret_def cret_def)
  qed
qed



lemma api_never_panics: "api X m \<Longrightarrow> fst (m g) \<noteq> GoPanic"
proof -
  have r: "fst (recovering X f k g) \<noteq> GoPanic" for f k
    by (auto simp: recovering_def poison_def cdo_def set_err_def ret_def cret_def split: prod.split go.split)
  assume "api X m"
  then obtain a where "uses X a m \<or> releases X a m \<or> allocates X a m" by (auto simp: api_def)
  then show ?thesis
    by (elim disjE uses.cases releases.cases allocates.cases)
      (simp_all add: r call_defs Db2DatabaseRelease_def Db2ConnectionRelease_def Db2StatementRelease_def Db2DatabaseNew_def
        Db2ConnectionNew_def Db2StatementNew_def)
qed

section \<open>Connections\<close>


definition sample_abi :: "abi \<Rightarrow> cgo" where
  "sample_abi X =
     cgo_start\<lparr>handles := [2 \<mapsto> CConn \<lparr>ccCtx = None, ccCnxn = Some 0, ccArgs = []\<rparr>], nextHandle := 3, priv := (\<lambda>_. 0)(5 := 2),
       conns := [sample_session]\<rparr>"

lemma sample_abi_facts:
  "\<not> refused 5 (sample_abi X)" "priv (sample_abi X) 5 = 2" "conns (sample_abi X) = [sample_session]" "errp (sample_abi X) = None"
  "(sample_abi X)\<lparr>errp := None\<rparr> = sample_abi X" "handles (sample_abi X) 2 = Some (CConn \<lparr>ccCtx = None, ccCnxn = Some 0, ccArgs = []\<rparr>)"
  by (simp_all add: sample_abi_def cgo_start_def refused_def)

lemma sample_manual_set: "Connection_SetOption E OptionKeyAutoCommit OptionValueDisabled sample_session = (Inr (), sample_manual)"
  by (simp add: Connection_SetOption_def setAutoCommit_def with_dconn_def dchange_def sample_manual_def)

text \<open>Autocommit is turned off through the C ABI.\<close>

lemma sample_set_auto:
  "Db2ConnectionSetOption X 5 (Some OptionKeyAutoCommit) (Some OptionValueDisabled) (sample_abi X) =
     (Ret (StatusIs ADBC_OK, NoOut), (sample_abi X)\<lparr>conns := [sample_manual]\<rparr>)"
proof -
  have e: "(sample_abi X)\<lparr>conns := [sample_manual], errp := None\<rparr> = (sample_abi X)\<lparr>conns := [sample_manual]\<rparr>"
    by (simp add: sample_abi_def cgo_start_def)
  show ?thesis
    unfolding Db2ConnectionSetOption_def check_defs
    by (rule recovering_ret)
      (simp add: if_true_allowed [OF sample_abi_facts(1)] sample_abi_facts(2-) cget_def cbind_def getFromHandle_def asConnection_def
        cret_def onConn_def GoString_def sample_manual_set driverResult_def ret_error_def error_of_def errToAdbcErr_def cdo_def e)
qed


section \<open>Release\<close>

definition leaves_structs :: "'a cact \<Rightarrow> bool" where
  "leaves_structs m \<longleftrightarrow> (\<forall>g r g'. m g = (r, g') \<longrightarrow> priv g' = priv g)"

lemma leaves_structs_intros:
  "leaves_structs OK" "leaves_structs (ret_error X out e)" "leaves_structs (onConn i m)" "leaves_structs (driverResult r)"
  "leaves_structs m1 \<Longrightarrow> (\<And>x. leaves_structs (f x)) \<Longrightarrow> leaves_structs (cbind m1 f)"
  "leaves_structs m2 \<Longrightarrow> leaves_structs (deferring (snd \<circ> cancelContext ctx OK) m2)"
  "leaves_structs m3 \<Longrightarrow> (\<And>x. leaves_structs (f3 x)) \<Longrightarrow> leaves_structs (case y of None \<Rightarrow> m3 | Some x \<Rightarrow> f3 x)"
proof -
  show "leaves_structs (cbind m1 f)" if m: "leaves_structs m1" and f: "\<And>x. leaves_structs (f x)"
    unfolding leaves_structs_def
  proof (intro allI impI)
    fix g r g' assume run: "cbind m1 f g = (r, g')"
    obtain x g1 where e: "m1 g = (x, g1)" by fastforce
    then have "priv g1 = priv g" using m by (simp add: leaves_structs_def)
    then show "priv g' = priv g" using run e f by (cases x) (auto simp: cbind_def leaves_structs_def)
  qed
qed (auto simp: leaves_structs_def OK_def ret_def cret_def ret_error_def cget_def cdo_def onConn_def driverResult_def cpanic_def
    deferring_def cancelContext_def split: prod.splits sum.splits if_splits option.splits)

lemma recovering_structs: "recovering X fname m g = (r, g') \<Longrightarrow> \<exists>x g1. m g = (x, g1) \<and> priv g' = priv g1"
  by (cases "m g", cases "fst (m g)") (auto simp: recovering_def poison_def cdo_def set_err_def ret_def cret_def)

lemma released_structs:
  assumes "\<not> refused a g" "\<And>y x. sel y = Some x \<Longrightarrow> caller_object y" "\<And>x. leaves_structs (k x)"
    "recovering X fname (if_true (checkAlloc fmt a f) (cget (\<lambda>g. set_priv a 0
      (cbind (getFromHandle sel (priv g a)) (\<lambda>x. Handle_Delete (priv g a) (k x)))))) g = (r, g')"
  shows "priv g' = (priv g)(a := 0)"
proof -
  obtain x g1 where p: "priv g' = priv g1"
    and "if_true (checkAlloc fmt a f) (cget (\<lambda>g. set_priv a 0
      (cbind (getFromHandle sel (priv g a)) (\<lambda>x. Handle_Delete (priv g a) (k x))))) g = (x, g1)"
    using recovering_structs [OF assms(4)] by blast
  then have "set_priv a 0 (cbind (getFromHandle sel (priv g a)) (\<lambda>x. Handle_Delete (priv g a) (k x))) g = (x, g1)"
    using assms(1) by (simp add: if_true_allowed cget_def)
  moreover have "priv g a \<noteq> 0" using assms(1) by (simp add: refused_def)
  ultimately have "x = GoPanic \<and> g1 = g\<lparr>priv := (priv g)(a := 0)\<rparr>
    \<or> (\<exists>z y. handles g (priv g a) = Some y \<and> caller_object y \<and> k z (without a g) = (x, g1))"
    by (intro release_shape assms(2))
  then have "priv g1 = (priv g)(a := 0)" using assms(3) by (auto simp: leaves_structs_def without_def)
  then show ?thesis using p by simp
qed

lemma release_clears:
  assumes "releases X a m" "\<not> refused a g" "m g = (r, g')"
  shows "priv g' = (priv g)(a := 0)"
  using assms(1)
proof cases
  case 1
  then show ?thesis using assms(3) unfolding Db2DatabaseRelease_def check_defs
    by (auto elim!: released_structs [OF assms(2), rotated -1] intro: leaves_structs_intros dest: caller_selections)
next
  case (2 cerr)
  then show ?thesis using assms(3) unfolding Db2ConnectionRelease_def check_defs Let_def
    by (auto elim!: released_structs [OF assms(2), rotated -1] intro!: leaves_structs_intros dest: caller_selections)
next
  case 3
  have "\<not> globalPoison g" using assms(2) by (simp add: refused_def)
  then have "Db2StatementRelease X a g = recovering X ''AdbcStatementRelease'' (if_true (checkStmtAlloc a ''AdbcStatementRelease'')
    (cget (\<lambda>g. set_priv a 0 (cbind (getFromHandle asStatement (priv g a)) (\<lambda>st. Handle_Delete (priv g a)
      (deferring (snd \<circ> cancelContext (csCtx st) OK)
         (case csStmt st of
            None \<Rightarrow> OK
          | Some s \<Rightarrow> cbind (driverResult (Statement_Close s)) (\<lambda>r. ret_error X NoOut (error_of r)))))))))
    g"
    using assms(2) by (simp add: Db2StatementRelease_def recovering_def cget_def check_defs if_true_allowed Let_def)
  then show ?thesis using assms(3) 3 unfolding check_defs
    by (auto elim!: released_structs [OF assms(2), rotated -1] intro!: leaves_structs_intros dest: caller_selections)
qed

lemma release_refused:
  assumes "releases X a m" "refused a g" "\<not> globalPoison g"
  shows "\<exists>e. m g = (Ret (INVALID_STATE, NoOut), g\<lparr>errp := e\<rparr>)"
  using assms(1)
proof cases
  case 1
  then show ?thesis using if_true_refused [OF assms(2)] recovering_ret unfolding Db2DatabaseRelease_def check_defs by blast
next
  case 2
  then show ?thesis using if_true_refused [OF assms(2)] recovering_ret unfolding Db2ConnectionRelease_def check_defs by blast
next
  case 3
  let ?check = "checkAlloc ''%s: statement not allocated'' a ''AdbcStatementRelease''"
  obtain k where k: "Db2StatementRelease X a g = recovering X ''AdbcStatementRelease'' (if_true ?check k) g"
    using assms(3) by (simp add: Db2StatementRelease_def recovering_def cget_def check_defs)
  obtain e where "if_true ?check k g = (Ret (INVALID_STATE, NoOut), g\<lparr>errp := e\<rparr>)"
    using if_true_refused [OF assms(2)] by blast
  then show ?thesis using k 3 by (intro exI [of _ e]) (simp add: recovering_def)
qed



section \<open>Options\<close>

text \<open>The options of a database, before and after \<open>Init\<close>.\<close>

definition db_option :: "cDatabase \<Rightarrow> string \<Rightarrow> string option" where
  "db_option cdb k = (case cdDb cdb of Some d \<Rightarrow> map_of (dbOpts d) k | None \<Rightarrow> map_of (cdOpts cdb) k)"

lemma database_set:
  assumes "\<not> refused a g" "handles g (priv g a) = Some (CDatabase cdb)"
  shows "\<exists>cdb1. Db2DatabaseSetOption X a (Some k) (Some v) g =
      (Ret (StatusIs ADBC_OK, NoOut), g\<lparr>handles := (handles g)(priv g a \<mapsto> CDatabase cdb1)\<rparr>)
    \<and> db_option cdb1 k = Some v \<and> (cdDb cdb1 = None \<longleftrightarrow> cdDb cdb = None)"
proof -
  have set: "Db2DatabaseSetOption X a (Some k) (Some v) g = (case cdDb cdb of
      Some d \<Rightarrow> storeDb (priv g a) cdb (Database_SetOption k v d) OK g
    | None \<Rightarrow> update (priv g a) (CDatabase (cdb\<lparr>cdOpts := AList.update k v (cdOpts cdb)\<rparr>)) OK g)"
    by (cases "cdDb cdb")
      (simp_all add: Db2DatabaseSetOption_def recovering_def check_defs if_true_allowed [OF assms(1)] assms(2) cget_def cbind_def
        getFromHandle_def asDatabase_def cret_def GoString_def storeDb_def update_def same_type_def cdo_def OK_def ret_def)
  show ?thesis
  proof (cases "cdDb cdb")
    case None
    then show ?thesis
      using set assms(2)
      by (intro exI [of _ "cdb\<lparr>cdOpts := AList.update k v (cdOpts cdb)\<rparr>"])
        (simp add: update_def same_type_def cdo_def OK_def ret_def cret_def db_option_def update_conv)
  next
    case (Some d)
    then show ?thesis
      using set assms(2)
      by (intro exI [of _ "cdb\<lparr>cdDb := Some (Database_SetOption k v d)\<rparr>"])
        (simp add: storeDb_def update_def same_type_def cdo_def OK_def ret_def cret_def db_option_def Database_SetOption_def update_conv)
  qed
qed

lemma database_init:
  assumes "\<not> refused a g" "handles g (priv g a) = Some (CDatabase cdb)" "cdDb cdb = None"
  shows "\<exists>cdb1. Db2DatabaseInit X a g =
      (Ret (StatusIs ADBC_OK, NoOut), g\<lparr>handles := (handles g)(priv g a \<mapsto> CDatabase cdb1)\<rparr>)
    \<and> (\<forall>k. db_option cdb1 k = db_option cdb k) \<and> cdDb cdb1 \<noteq> None"
proof -
  let ?cdb = "cdb\<lparr>cdDb := Some (NewDatabase (cdOpts cdb))\<rparr>"
  have "Db2DatabaseInit X a g = (Ret (StatusIs ADBC_OK, NoOut), g\<lparr>handles := (handles g)(priv g a \<mapsto> CDatabase ?cdb)\<rparr>)"
    unfolding Db2DatabaseInit_def check_defs
    by (rule recovering_ret)
      (simp add: if_true_allowed [OF assms(1)] assms(2,3) cget_def cbind_def getFromHandle_def asDatabase_def cret_def
        storeDb_def update_def same_type_def cdo_def OK_def ret_def)
  moreover have "db_option ?cdb k = db_option cdb k" for k using assms(3) by (simp add: db_option_def NewDatabase_def)
  ultimately show ?thesis by (intro exI [of _ ?cdb]) simp
qed

lemma database_get:
  assumes "\<not> refused a g" "handles g (priv g a) = Some (CDatabase cdb)" "cdDb cdb \<noteq> None" "db_option cdb k = Some v"
    "k \<noteq> OptionPassword"
  shows "Db2DatabaseGetOption X a (Some k) out n g = recovering X ''AdbcDatabaseGetOption'' (exportStringOption v out n) g"
proof -
  obtain d where d: "cdDb cdb = Some d" "Database_GetOption k d = Inr v"
    using assms(3-5) by (auto simp: db_option_def Database_GetOption_def)
  show ?thesis
    using assms(1,2) d
    by (simp add: Db2DatabaseGetOption_def recovering_def if_ok_def checkDBInit_def check_defs cbind_def checkAlloc_eq cget_def
        refused_def getFromHandle_def asDatabase_def cret_def GoString_def on_error_def)
qed


definition sample_database :: cgo where
  "sample_database = cgo_start\<lparr>handles := [2 \<mapsto> CDatabase \<lparr>cdOpts = [], cdDb = None\<rparr>], nextHandle := 3, priv := (\<lambda>_. 0)(5 := 2)\<rparr>"


section \<open>Errors\<close>

lemma setErr_plain:
  assumes "CHR ''%'' \<notin> set fmt"
  shows "\<exists>e1. setErr fmt [] (Some e) = Some e1 \<and> errMessage e1 = Some ((if HasPrefix fmt errPrefix then [] else errPrefix) @ fmt)
    \<and> errRelease e1 = Db2_release_error \<and> errVendor e1 = errVendor e \<and> errSqlState e1 = errSqlState e"
  using assms by (simp add: setErr_def Let_def Sprintf_plain Db2errRelease_def split: release_fn.split)

lemma sqlstate_ascii: "list_all (\<lambda>b. b < 0x80) (map (\<lambda>b. if (0x80 :: byte) \<le> b then 0x3F else b) bs)"
  by (induction bs) (auto simp: not_le)



section \<open>Panics\<close>


text \<open>A server that answers the statement with SQL0418N.\<close>

definition untyped_SQLCA :: SQLCA where
  "untyped_SQLCA = sample_SQLCA\<lparr>SQLCode := - 418\<rparr>"

definition untyped_body :: bytes where
  "untyped_body = sqlca_wire False untyped_SQLCA [''DB2INST1.T'', ''X'']"

definition sample_untyped :: connectionImpl where
  "sample_untyped =
     sample_session\<lparr>dConn := (dConn sample_session)\<lparr>rd := request_wire (NewObject SQLCARD untyped_body) 2 False True\<rparr>\<rparr>"

lemma untyped_describes:
  assumes "openQuery c = None" "wres c = []" "\<not> LittleEndian (Server c)"
    "rd c = request_wire (NewObject SQLCARD untyped_body) 2 False True"
  shows "\<exists>k. describeLocked sql c = (Inl (SqlError untyped_SQLCA), k)"
proof -
  have "sqlca_ok untyped_SQLCA [''DB2INST1.T'', ''X'']"
    by (simp add: sqlca_ok_def sample_SQLCA_def untyped_SQLCA_def is_ascii_def)
  from reads_new [OF reads_SQLCAGRP [OF this], where rest = "[]"]
  have p: "ParseSQLCARD untyped_body False = Inr (Some untyped_SQLCA)"
    by (simp add: ParseSQLCARD_def new_reader_def untyped_body_def)
  have r: "readReplies srv 2 False (request_wire (NewObject SQLCARD untyped_body) 2 False True) =
      (Inr [request_dss SQLCARD untyped_body 2 False True], [])" for srv
    using ReadDSS_request_wire [of SQLCARD untyped_body 2 False True "[]"] by (simp add: readReplies.simps request_dss_def)
  have "IsError (Some untyped_SQLCA)" by (simp add: IsError_def untyped_SQLCA_def)
  then have d: "describeReplies c [request_dss SQLCARD untyped_body 2 False True] None None = Inl (SqlError untyped_SQLCA)"
    if "\<not> LittleEndian (Server c)" for c
    using p that by (simp add: request_dss_def)
  show ?thesis using assms
    by (simp add: describeLocked_def act_defs ensureNoOpenQuery_def transmit_def send_def flush_def readChain_def Flush_def Let_def
        r d of_sum_def del: describeReplies.simps)
qed

lemma untyped_parameters:
  "\<exists>c. GetParameterSchema E (newStatement\<lparr>stSql := ''SELECT ? FROM T''\<rparr>) sample_untyped = (Inr None, c)"
proof -
  obtain k where k: "describeLocked ''SELECT ? FROM T'' (dConn sample_untyped) = (Inl (SqlError untyped_SQLCA), k)"
    using untyped_describes [of "dConn sample_untyped"]
    by (auto simp: sample_untyped_def sample_session_def sample_conn_def newConn_def zero_ServerInfo_def)
  have "sint (SQLCode untyped_SQLCA) = - 418" by (simp add: untyped_SQLCA_def)
  then show ?thesis using k
    by (simp add: GetParameterSchema_def newStatement_def dthen_def raw_def Describe_def retrying_def autoBind_def
        isOurPackageNotFound_def act_defs sqlcode_def dok_def)
qed

definition sample_statement_abi :: cgo where
  "sample_statement_abi =
     cgo_start\<lparr>handles := [2 \<mapsto> CStmt \<lparr>csCtx = None, csConn = 0, csStmt = Some (newStatement\<lparr>stSql := ''SELECT ? FROM T''\<rparr>)\<rparr>],
       nextHandle := 3, priv := (\<lambda>_. 0)(5 := 2), conns := [sample_untyped]\<rparr>"


text \<open>
  The callbacks of a stream do not recover.  When the driver panics while it reads a batch, as
  it does on a row that is shorter than the descriptor of the result set, the panic leaves
  \<open>GetNext\<close> and ends the calling process; the poison flag is not even set.
\<close>

theorem stream_panic_escapes:
  assumes "ourStream a g" "handles g (streamPriv (streams g a)) = Some (CStream s)" "asRdr s = Streaming r"
    "Reader_Next (xEnv X) r (conns g ! asConn s) = (b, r1, c)" "rdErr r1 = Some (ArrowErr ArrowPanic)"
  shows "Db2ArrayStreamGetNext X a g = (GoPanic, g\<lparr>conns := (conns g)[asConn s := c]\<rparr>)"
  using assms
  by (simp add: Db2ArrayStreamGetNext_def withStream_def cget_def cbind_def getFromHandle_def asStream_def cret_def readerNext_def
      driverResult_def panics_def cpanic_def)

text \<open>A row without values under a descriptor of one column.\<close>

definition short_reader :: streamingRecordReader where
  "short_reader =
     \<lparr>rdQuery = 0, rdSchema = schemaFor [sample_column SQLTypeInteger 4], rdBatchSize = 1,
      rdBatchBytes = 0, rdCurrent = None, buffered = [[]], bufferedBytes = 0, rdErr = None, refs = 1, rdDone = False,
      rdClosed = False\<rparr>"

lemma short_reader_panics: "\<exists>b r1 c1. Reader_Next E short_reader c = (b, r1, c1) \<and> rdErr r1 = Some (ArrowErr ArrowPanic)"
proof -
  have "fillBuffer E short_reader c = (short_reader, c)" by (simp add: fillBuffer.simps short_reader_def)
  moreover have "\<exists>r1. cutBatch short_reader = ([[]], r1) \<and> rdSchema r1 = rdSchema short_reader"
    by (simp add: cutBatch_def short_reader_def)
  moreover have "recordFromRows F T (rdSchema short_reader) [[]] = Inl ArrowPanic" for F T
    by (simp add: recordFromRows_def short_reader_def schemaFor_def)
  moreover have "short_reader\<lparr>rdCurrent := None\<rparr> = short_reader" "rdErr short_reader = None" "\<not> rdDone short_reader"
    "\<not> rdClosed short_reader" "buffered short_reader \<noteq> []" by (simp_all add: short_reader_def)
  ultimately show ?thesis by (auto simp: Reader_Next_def takeRows_def)
qed

definition sample_stream_abi :: cgo where
  "sample_stream_abi =
     cgo_start\<lparr>handles := [2 \<mapsto> CStream \<lparr>asConn = 0, asRdr = Streaming short_reader, asErr = None, asStatus = ADBC_OK\<rparr>],
       nextHandle := 3, streams := (streams cgo_start)(5 := \<lparr>streamOurs = True, streamPriv = 2\<rparr>), conns := [sample_session]\<rparr>"

theorem stream_panic_escapes_witness: "\<forall>X. \<exists>g. Db2ArrayStreamGetNext X 5 sample_stream_abi = (GoPanic, g) \<and> \<not> globalPoison g"
proof
  fix X :: abi
  obtain b r1 c1 where "Reader_Next (xEnv X) short_reader (conns sample_stream_abi ! 0) = (b, r1, c1)" "rdErr r1 = Some (ArrowErr ArrowPanic)"
    using short_reader_panics by blast
  moreover have "ourStream 5 sample_stream_abi" "handles sample_stream_abi (streamPriv (streams sample_stream_abi 5)) =
      Some (CStream \<lparr>asConn = 0, asRdr = Streaming short_reader, asErr = None, asStatus = ADBC_OK\<rparr>)"
    "\<not> globalPoison sample_stream_abi"
    by (simp_all add: sample_stream_abi_def cgo_start_def ourStream_def)
  ultimately show "\<exists>g. Db2ArrayStreamGetNext X 5 sample_stream_abi = (GoPanic, g) \<and> \<not> globalPoison g"
    using stream_panic_escapes [of 5 sample_stream_abi _ short_reader X b r1 c1] by auto
qed

end
