(* ===== verification/C_Init.thy ===== *)
theory C_Init
  imports C_State
begin

text \<open>
  How a driver manager gets at the exported functions: \<open>AdbcDriverDb2Init\<close>
  (\<^verbatim>\<open>pkg/db2/driver.go\<close>) fills the manager's struct of function pointers, whose
  members are those of \<^verbatim>\<open>struct AdbcDriver\<close> in \<^verbatim>\<open>pkg/db2/adbc.h\<close>, in their order.  A manager of
  ADBC 1.0.0 has allocated the members before \<^verbatim>\<open>ErrorGetDetailCount\<close> only.

  Result: each version's members are all set, each to the function of its name, and nothing
  behind them is written.
\<close>

section \<open>The struct\<close>

text \<open>What a member holds: NULL, or the symbol it points to.\<close>

type_synonym AdbcDriver = "string \<Rightarrow> string option"

definition members_1_0_0 :: "string list" where
  "members_1_0_0 = [
    ''private_data'', ''private_manager'', ''release'', ''DatabaseInit'', ''DatabaseNew'',
    ''DatabaseSetOption'', ''DatabaseRelease'', ''ConnectionCommit'', ''ConnectionGetInfo'',
    ''ConnectionGetObjects'', ''ConnectionGetTableSchema'', ''ConnectionGetTableTypes'', ''ConnectionInit'',
    ''ConnectionNew'', ''ConnectionSetOption'', ''ConnectionReadPartition'', ''ConnectionRelease'',
    ''ConnectionRollback'', ''StatementBind'', ''StatementBindStream'', ''StatementExecuteQuery'',
    ''StatementExecutePartitions'', ''StatementGetParameterSchema'', ''StatementNew'', ''StatementPrepare'',
    ''StatementRelease'', ''StatementSetOption'', ''StatementSetSqlQuery'', ''StatementSetSubstraitPlan'']"

definition members_1_1_0 :: "string list" where
  "members_1_1_0 = [
    ''ErrorGetDetailCount'', ''ErrorGetDetail'', ''ErrorFromArrayStream'', ''DatabaseGetOption'',
    ''DatabaseGetOptionBytes'', ''DatabaseGetOptionDouble'', ''DatabaseGetOptionInt'',
    ''DatabaseSetOptionBytes'', ''DatabaseSetOptionDouble'', ''DatabaseSetOptionInt'', ''ConnectionCancel'',
    ''ConnectionGetOption'', ''ConnectionGetOptionBytes'', ''ConnectionGetOptionDouble'',
    ''ConnectionGetOptionInt'', ''ConnectionGetStatistics'', ''ConnectionGetStatisticNames'',
    ''ConnectionSetOptionBytes'', ''ConnectionSetOptionDouble'', ''ConnectionSetOptionInt'',
    ''StatementCancel'', ''StatementExecuteSchema'', ''StatementGetOption'', ''StatementGetOptionBytes'',
    ''StatementGetOptionDouble'', ''StatementGetOptionInt'', ''StatementSetOptionBytes'',
    ''StatementSetOptionDouble'', ''StatementSetOptionInt'']"

definition memory_Set :: "string list \<Rightarrow> AdbcDriver \<Rightarrow> AdbcDriver" where
  "memory_Set fs d = (\<lambda>f. if f \<in> set fs then None else d f)"

definition assign :: "(string \<times> string) list \<Rightarrow> AdbcDriver \<Rightarrow> AdbcDriver" where
  "assign tbl d = foldl (\<lambda>d (f, fn). d(f := Some fn)) d tbl"

section \<open>AdbcDriverDb2Init\<close>

abbreviation ADBC_VERSION_1_0_0 :: "32 word" where "ADBC_VERSION_1_0_0 \<equiv> 1000000"
abbreviation ADBC_VERSION_1_1_0 :: "32 word" where "ADBC_VERSION_1_1_0 \<equiv> 1001000"

definition table_1_0_0 :: "(string \<times> string) list" where
  "table_1_0_0 = [
    (''DatabaseInit'', ''Db2DatabaseInit''), (''DatabaseNew'', ''Db2DatabaseNew''),
    (''DatabaseRelease'', ''Db2DatabaseRelease''), (''DatabaseSetOption'', ''Db2DatabaseSetOption''),
    (''ConnectionNew'', ''Db2ConnectionNew''), (''ConnectionInit'', ''Db2ConnectionInit''),
    (''ConnectionRelease'', ''Db2ConnectionRelease''), (''ConnectionSetOption'', ''Db2ConnectionSetOption''),
    (''ConnectionGetInfo'', ''Db2ConnectionGetInfo''), (''ConnectionGetObjects'', ''Db2ConnectionGetObjects''),
    (''ConnectionGetTableSchema'', ''Db2ConnectionGetTableSchema''),
    (''ConnectionGetTableTypes'', ''Db2ConnectionGetTableTypes''),
    (''ConnectionReadPartition'', ''Db2ConnectionReadPartition''),
    (''ConnectionCommit'', ''Db2ConnectionCommit''), (''ConnectionRollback'', ''Db2ConnectionRollback''),
    (''StatementNew'', ''Db2StatementNew''), (''StatementRelease'', ''Db2StatementRelease''),
    (''StatementSetOption'', ''Db2StatementSetOption''),
    (''StatementSetSqlQuery'', ''Db2StatementSetSqlQuery''),
    (''StatementSetSubstraitPlan'', ''Db2StatementSetSubstraitPlan''),
    (''StatementBind'', ''Db2StatementBind''), (''StatementBindStream'', ''Db2StatementBindStream''),
    (''StatementExecuteQuery'', ''Db2StatementExecuteQuery''),
    (''StatementExecutePartitions'', ''Db2StatementExecutePartitions''),
    (''StatementGetParameterSchema'', ''Db2StatementGetParameterSchema''),
    (''StatementPrepare'', ''Db2StatementPrepare'')]"

definition table_1_1_0 :: "(string \<times> string) list" where
  "table_1_1_0 = [
    (''ErrorGetDetailCount'', ''Db2ErrorGetDetailCount''), (''ErrorGetDetail'', ''Db2ErrorGetDetail''),
    (''ErrorFromArrayStream'', ''Db2ErrorFromArrayStream''), (''DatabaseGetOption'', ''Db2DatabaseGetOption''),
    (''DatabaseGetOptionBytes'', ''Db2DatabaseGetOptionBytes''),
    (''DatabaseGetOptionDouble'', ''Db2DatabaseGetOptionDouble''),
    (''DatabaseGetOptionInt'', ''Db2DatabaseGetOptionInt''),
    (''DatabaseSetOptionBytes'', ''Db2DatabaseSetOptionBytes''),
    (''DatabaseSetOptionDouble'', ''Db2DatabaseSetOptionDouble''),
    (''DatabaseSetOptionInt'', ''Db2DatabaseSetOptionInt''), (''ConnectionCancel'', ''Db2ConnectionCancel''),
    (''ConnectionGetOption'', ''Db2ConnectionGetOption''),
    (''ConnectionGetOptionBytes'', ''Db2ConnectionGetOptionBytes''),
    (''ConnectionGetOptionDouble'', ''Db2ConnectionGetOptionDouble''),
    (''ConnectionGetOptionInt'', ''Db2ConnectionGetOptionInt''),
    (''ConnectionGetStatistics'', ''Db2ConnectionGetStatistics''),
    (''ConnectionGetStatisticNames'', ''Db2ConnectionGetStatisticNames''),
    (''ConnectionSetOptionBytes'', ''Db2ConnectionSetOptionBytes''),
    (''ConnectionSetOptionDouble'', ''Db2ConnectionSetOptionDouble''),
    (''ConnectionSetOptionInt'', ''Db2ConnectionSetOptionInt''), (''StatementCancel'', ''Db2StatementCancel''),
    (''StatementExecuteSchema'', ''Db2StatementExecuteSchema''),
    (''StatementGetOption'', ''Db2StatementGetOption''),
    (''StatementGetOptionBytes'', ''Db2StatementGetOptionBytes''),
    (''StatementGetOptionDouble'', ''Db2StatementGetOptionDouble''),
    (''StatementGetOptionInt'', ''Db2StatementGetOptionInt''),
    (''StatementSetOptionBytes'', ''Db2StatementSetOptionBytes''),
    (''StatementSetOptionDouble'', ''Db2StatementSetOptionDouble''),
    (''StatementSetOptionInt'', ''Db2StatementSetOptionInt'')]"

text \<open>A NULL struct panics, here without a \<open>recover\<close>; the version is looked at first.\<close>

definition AdbcDriverDb2Init ::
  "32 word \<Rightarrow> AdbcDriver option \<Rightarrow> AdbcError option \<Rightarrow> (AdbcStatusCode \<times> AdbcDriver option \<times> AdbcError option) go" where
  "AdbcDriverDb2Init version rawDriver err =
     (if version \<noteq> ADBC_VERSION_1_0_0 \<and> version \<noteq> ADBC_VERSION_1_1_0
      then Ret (ADBC_STATUS StatusNotImplemented, rawDriver,
             setErr ''Only version 1.0.0/1.1.0 supported, got %d'' [int_str (sint version)] err)
      else case rawDriver of
        None \<Rightarrow> GoPanic
      | Some d \<Rightarrow>
          let d0 = memory_Set (if version = ADBC_VERSION_1_0_0 then members_1_0_0 else members_1_0_0 @ members_1_1_0) d;
              d1 = assign table_1_0_0 d0;
              d2 = (if version = ADBC_VERSION_1_1_0 then assign table_1_1_0 d1 else d1)
          in Ret (ADBC_OK, Some d2, err))"

section \<open>What the manager gets\<close>

lemma assign_prefixed:
  "assign (map (\<lambda>f. (f, p @ f)) fs) d f = (if f \<in> set fs then Some (p @ f) else d f)"
  unfolding assign_def by (induction fs arbitrary: d) auto

lemma tables_prefixed:
  "table_1_0_0 = map (\<lambda>f. (f, ''Db2'' @ f)) (map fst table_1_0_0)" "table_1_1_0 = map (\<lambda>f. (f, ''Db2'' @ f)) (map fst table_1_1_0)"
  by (simp_all add: table_1_0_0_def table_1_1_0_def)

lemma tables_complete:
  "list_all (\<lambda>f. f \<in> set (map fst table_1_0_0)) (drop 3 members_1_0_0)"
  "list_all (\<lambda>f. f \<in> set (map fst table_1_1_0)) members_1_1_0"
  "list_all (\<lambda>f. f \<notin> set (map fst table_1_0_0) \<and> f \<notin> set (map fst table_1_1_0)) (take 3 members_1_0_0)"
  "list_all (\<lambda>f. f \<notin> set members_1_0_0 \<and> f \<notin> set (map fst table_1_0_0)) members_1_1_0"
  "list_all (\<lambda>f. f \<notin> set (map fst table_1_1_0)) members_1_0_0"
  by (simp_all add: members_1_0_0_def members_1_1_0_def table_1_0_0_def table_1_1_0_def)

lemma map_assign:
  "list_all (\<lambda>f. f \<in> set fs) xs \<Longrightarrow> map (assign (map (\<lambda>f. (f, p @ f)) fs) d) xs = map (\<lambda>f. Some (p @ f)) xs"
  "list_all (\<lambda>f. f \<notin> set fs) xs \<Longrightarrow> map (assign (map (\<lambda>f. (f, p @ f)) fs) d) xs = map d xs"
  by (auto simp: assign_prefixed list_all_iff)

lemma map_memory_Set:
  "map (memory_Set fs d) fs = map (\<lambda>_. None) fs" "list_all (\<lambda>f. f \<notin> set fs) xs \<Longrightarrow> map (memory_Set fs d) xs = map d xs"
  by (auto simp: memory_Set_def list_all_iff)

lemma members_split: "members_1_0_0 = take 3 members_1_0_0 @ drop 3 members_1_0_0"
  by simp

lemma first_table:
  "map (assign table_1_0_0 (memory_Set (members_1_0_0 @ fs) d)) members_1_0_0
     = [None, None, None] @ map (\<lambda>f. Some (''Db2'' @ f)) (drop 3 members_1_0_0)"
proof -
  have "list_all (\<lambda>f. f \<notin> set (map fst table_1_0_0)) (take 3 members_1_0_0)"
    using tables_complete(3) by (simp add: list_all_iff)
  then have "map (assign table_1_0_0 (memory_Set (members_1_0_0 @ fs) d)) (take 3 members_1_0_0)
      = map (memory_Set (members_1_0_0 @ fs) d) (take 3 members_1_0_0)"
    by (subst tables_prefixed(1)) (rule map_assign(2))
  also have "\<dots> = [None, None, None]" by (simp add: members_1_0_0_def memory_Set_def)
  finally have "map (assign table_1_0_0 (memory_Set (members_1_0_0 @ fs) d)) (take 3 members_1_0_0) = [None, None, None]" .
  moreover have "map (assign table_1_0_0 (memory_Set (members_1_0_0 @ fs) d)) (drop 3 members_1_0_0)
      = map (\<lambda>f. Some (''Db2'' @ f)) (drop 3 members_1_0_0)"
    by (subst tables_prefixed(1)) (rule map_assign(1) [OF tables_complete(1)])
  ultimately show ?thesis by (subst (2) members_split, unfold map_append) simp
qed

lemma second_table:
  "map (assign table_1_1_0 d) members_1_1_0 = map (\<lambda>f. Some (''Db2'' @ f)) members_1_1_0"
  "map (assign table_1_1_0 d) members_1_0_0 = map d members_1_0_0"
  by (subst tables_prefixed(2), rule map_assign(1) [OF tables_complete(2)],
      subst tables_prefixed(2), rule map_assign(2) [OF tables_complete(5)])

lemma first_only:
  "map (assign table_1_0_0 (memory_Set members_1_0_0 d)) members_1_1_0 = map d members_1_1_0"
proof -
  have l: "list_all (\<lambda>f. f \<notin> set (map fst table_1_0_0)) members_1_1_0" "list_all (\<lambda>f. f \<notin> set members_1_0_0) members_1_1_0"
    using tables_complete(4) by (simp_all add: list_all_iff)
  have "map (assign table_1_0_0 (memory_Set members_1_0_0 d)) members_1_1_0 = map (memory_Set members_1_0_0 d) members_1_1_0"
    by (subst tables_prefixed(1)) (rule map_assign(2) [OF l(1)])
  then show ?thesis using map_memory_Set(2) [OF l(2)] by simp
qed

text \<open>
  C40: what a driver manager gets.  For ADBC 1.0.0 and 1.1.0 every function member of that version is
  set to the exported function of its name and the three members for the manager's own use are
  NULL; a 1.0.0 struct, which ends before the members of 1.1.0, is not written behind its end; a
  version the driver does not know is refused with nothing written.
\<close>

theorem driver_table:
  "(\<exists>d1. AdbcDriverDb2Init ADBC_VERSION_1_0_0 (Some d) err = Ret (ADBC_OK, Some d1, err)
       \<and> map d1 members_1_0_0 = [None, None, None] @ map (\<lambda>f. Some (''Db2'' @ f)) (drop 3 members_1_0_0)
       \<and> map d1 members_1_1_0 = map d members_1_1_0)
   \<and> (\<exists>d1. AdbcDriverDb2Init ADBC_VERSION_1_1_0 (Some d) err = Ret (ADBC_OK, Some d1, err)
       \<and> map d1 (members_1_0_0 @ members_1_1_0)
         = [None, None, None] @ map (\<lambda>f. Some (''Db2'' @ f)) (drop 3 members_1_0_0 @ members_1_1_0))
   \<and> (v \<notin> {ADBC_VERSION_1_0_0, ADBC_VERSION_1_1_0} \<longrightarrow>
       (\<exists>err1. AdbcDriverDb2Init v p err = Ret (ADBC_STATUS StatusNotImplemented, p, err1)))"
proof (intro conjI impI)
  show "\<exists>d1. AdbcDriverDb2Init ADBC_VERSION_1_0_0 (Some d) err = Ret (ADBC_OK, Some d1, err)
       \<and> map d1 members_1_0_0 = [None, None, None] @ map (\<lambda>f. Some (''Db2'' @ f)) (drop 3 members_1_0_0)
       \<and> map d1 members_1_1_0 = map d members_1_1_0"
    using first_table [of "[]" d] first_only [of d] by (simp add: AdbcDriverDb2Init_def Let_def)
  show "\<exists>d1. AdbcDriverDb2Init ADBC_VERSION_1_1_0 (Some d) err = Ret (ADBC_OK, Some d1, err)
       \<and> map d1 (members_1_0_0 @ members_1_1_0)
         = [None, None, None] @ map (\<lambda>f. Some (''Db2'' @ f)) (drop 3 members_1_0_0 @ members_1_1_0)"
    unfolding AdbcDriverDb2Init_def Let_def map_append
    by (simp add: second_table first_table)
  show "\<exists>err1. AdbcDriverDb2Init v p err = Ret (ADBC_STATUS StatusNotImplemented, p, err1)"
    if "v \<notin> {ADBC_VERSION_1_0_0, ADBC_VERSION_1_1_0}"
    using that by (simp add: AdbcDriverDb2Init_def)
qed

theorem driver_table_witness:
  "\<exists>err1. AdbcDriverDb2Init 1002000 None None = Ret (ADBC_STATUS StatusNotImplemented, None, err1)"
  using driver_table [of Map.empty None 1002000 None] by simp

end
