(* ===== verification/Ddm_Sniff.thy ===== *)
theory Ddm_Sniff
  imports Ddm_DSS
begin

text \<open>
  The packet sniffer (\<^verbatim>\<open>cmd/drda-sniff\<close>): what a direction of the proxy prints, and what it forwards.
  \<open>pump\<close> copies each chunk it reads to the peer and then into a pipe, whose write returns when the
  decoder has taken the whole chunk; the decoder reads with a buffer larger than a chunk.  Flags,
  sockets and goroutines are left out.

  Results: a stream the decoder understands is forwarded whole; after a chunk it does not
  understand, the direction forwards one more chunk and hangs.
\<close>

section \<open>What is printed\<close>

definition pad_right :: "nat \<Rightarrow> string \<Rightarrow> string" where
  "pad_right n s = s @ replicate (n - length s) (CHR '' '')"

definition flag_text :: "DSS \<Rightarrow> string" where
  "flag_text d = (if Chained d then '' chained'' else '''') @ (if SameCorrelator d then '' same-corr'' else '''')"

definition dss_line :: "nat \<Rightarrow> string \<Rightarrow> DSS \<Rightarrow> string" where
  "dss_line n dir d =
     ''['' @ nat_str n @ ''] '' @ dir @ '' '' @ pad_right 10 (CodePoint_String (CodePt d)) @ '' type='' @ nat_str (unat (Type d))
       @ '' corr='' @ nat_str (unat (CorrelationID d)) @ '' len='' @ nat_str (length (Payload d)) @ flag_text d @ [CHR 0x0A]"

text \<open>\<^verbatim>\<open>% X\<close>: two digits for each byte, with spaces between.\<close>

definition hex_bytes :: "bytes \<Rightarrow> string" where
  "hex_bytes bs = join_with '' '' (map (\<lambda>b. [hex_digit (unat b div 16), hex_digit (unat b mod 16)]) bs)"

definition dss_output :: "nat \<Rightarrow> string \<Rightarrow> bool \<Rightarrow> nat \<Rightarrow> DSS \<Rightarrow> string" where
  "dss_output n dir hexDump maxHex d =
     dss_line n dir d
       @ (if hexDump then ''      '' @ hex_bytes (take maxHex (Payload d)) @ [CHR 0x0A] else '''')"

text \<open>
  The decoder's loop over the bytes that come before the pipe is closed: what it prints, and the
  error it ends with.  It logs that error unless it is \<^verbatim>\<open>io.EOF\<close> itself, which no error of
  \<open>ReadDSS\<close> is: the end of the stream comes wrapped.
\<close>

function decodeLoop :: "nat \<Rightarrow> string \<Rightarrow> bool \<Rightarrow> nat \<Rightarrow> bytes \<Rightarrow> string list \<times> ddm_error" where
  "decodeLoop n dir hexDump maxHex s =
     (case ReadDSS s of
        (Inl e, t) \<Rightarrow> ([], e)
      | (Inr d, t) \<Rightarrow> (case decodeLoop n dir hexDump maxHex t of (out, e) \<Rightarrow> (dss_output n dir hexDump maxHex d # out, e)))"
  by pat_completeness auto
termination
  by (relation "measure (\<lambda>(n, dir, hexDump, maxHex, s). length s)") (auto dest!: ReadDSS_consumes [OF sym])

declare decodeLoop.simps [simp del]

section \<open>What is forwarded\<close>

text \<open>An error for want of bytes: while the pipe is open the decoder waits instead.\<close>

definition starved :: "ddm_error \<Rightarrow> bool" where
  "starved e =
     (case e of
        ReadHeader x \<Rightarrow> True | ReadPayload x \<Rightarrow> True | ReadExtLength x \<Rightarrow> True | ReadFirstSegment x \<Rightarrow> True
      | ReadContLength x \<Rightarrow> True | ReadCont x \<Rightarrow> True | _ \<Rightarrow> False)"

definition decoder_gone :: "bytes \<Rightarrow> bool" where
  "decoder_gone seen \<longleftrightarrow> \<not> starved (snd (decodeLoop 0 '''' False 0 seen))"

text \<open>The chunks the peer receives, and whether the copy returns; \<open>seen\<close> is what the pipe has taken.\<close>

fun pump :: "bytes \<Rightarrow> bytes list \<Rightarrow> bytes list \<times> bool" where
  "pump seen [] = ([], True)"
| "pump seen (c # cs) =
     (if decoder_gone seen then ([c], False)
      else (case pump (seen @ c) cs of (sent1, returns) \<Rightarrow> (c # sent1, returns)))"

section \<open>The decoder and longer streams\<close>

lemma readFull_ext: "readFull n s = (Inr bs, s') \<Longrightarrow> readFull n (s @ t) = (Inr bs, s' @ t)"
  by (auto simp: readFull_def split: if_splits)

lemma readSegments_ext:
  "readSegments cont p s = (r, s') \<Longrightarrow> (\<exists>e. r = Inl e \<and> starved e) \<or> readSegments cont p (s @ t) = (r, s' @ t)"
proof (induction cont p s rule: readSegments.induct)
  case (1 cont p s)
  show ?case
  proof (cases cont)
    case False
    then show ?thesis using "1.prems" by (simp add: readSegments.simps)
  next
    case True
    obtain x s1 where lb: "readFull 2 s = (x, s1)" by fastforce
    show ?thesis
    proof (cases x)
      case (Inl e)
      then show ?thesis using "1.prems" True lb by (auto simp: readSegments.simps [of True p s] starved_def)
    next
      case (Inr l)
      note lb = lb [unfolded Inr]
      let ?n = "unat (BE_Uint16 l)"
      obtain y s2 where seg: "readFull (?n mod 0x8000 - 2) s1 = (y, s2)" by fastforce
      show ?thesis
      proof (cases "?n mod 0x8000 < 2")
        case True
        then show ?thesis using "1.prems" \<open>cont\<close> lb readFull_ext [OF lb, of t]
          by (auto simp: readSegments.simps [of True p] Let_def)
      next
        case False
        show ?thesis
        proof (cases y)
          case (Inl e)
          then show ?thesis using "1.prems" \<open>cont\<close> lb seg False
            by (auto simp: readSegments.simps [of True p s] Let_def starved_def)
        next
          case (Inr g)
          note seg = seg [unfolded Inr]
          have "readSegments (0x8000 \<le> ?n) (p @ g) s2 = (r, s')"
            using "1.prems" \<open>cont\<close> lb seg False by (simp add: readSegments.simps [of True p s] Let_def)
          with "1.IH" [OF _ lb [symmetric] refl refl refl refl _ seg [symmetric] refl] \<open>cont\<close> False
          have "(\<exists>e. r = Inl e \<and> starved e) \<or> readSegments (0x8000 \<le> ?n) (p @ g) (s2 @ t) = (r, s' @ t)" by simp
          then show ?thesis using \<open>cont\<close> False readFull_ext [OF lb, of t] readFull_ext [OF seg, of t]
            by (simp add: readSegments.simps [of True p "s @ t"] Let_def)
        qed
      qed
    qed
  qed
qed

text \<open>Bytes that come after do not change what has been read, unless it was an error for want of them.\<close>

definition steady :: "(bytes \<Rightarrow> (ddm_error + 'a) \<times> bytes) \<Rightarrow> bool" where
  "steady m \<longleftrightarrow> (\<forall>s r s' t. m s = (r, s') \<and> (\<forall>e. r = Inl e \<longrightarrow> \<not> starved e) \<longrightarrow> m (s @ t) = (r, s' @ t))"

lemma steadyD: "steady m \<Longrightarrow> m s = (r, s') \<Longrightarrow> (\<And>e. r = Inl e \<Longrightarrow> \<not> starved e) \<Longrightarrow> m (s @ t) = (r, s' @ t)"
  unfolding steady_def by blast

lemma steady_ret: "steady (Pair r)"
  by (simp add: steady_def)

lemma steady_if: "steady m \<Longrightarrow> steady k \<Longrightarrow> steady (\<lambda>s. if b then m s else k s)"
  by (cases b) simp_all

lemma steady_Let: "(\<And>y. steady (f y)) \<Longrightarrow> steady (\<lambda>s. let y = x in f y s)"
  by (simp add: Let_def)

lemma steady_read:
  assumes "\<And>x. starved (F x)" "\<And>b. steady (k b)"
  shows "steady (\<lambda>s. case readFull n s of (Inl x, s1) \<Rightarrow> (Inl (F x), s1) | (Inr b, s1) \<Rightarrow> k b s1)"
  unfolding steady_def
proof (intro allI impI, elim conjE)
  fix s r s' t
  assume run: "(case readFull n s of (Inl x, s1) \<Rightarrow> (Inl (F x), s1) | (Inr b, s1) \<Rightarrow> k b s1) = (r, s')"
    and ok: "\<forall>e. r = Inl e \<longrightarrow> \<not> starved e"
  obtain x s1 where x: "readFull n s = (x, s1)" by fastforce
  show "(case readFull n (s @ t) of (Inl x, s1) \<Rightarrow> (Inl (F x), s1) | (Inr b, s1) \<Rightarrow> k b s1) = (r, s' @ t)"
  proof (cases x)
    case (Inl e)
    then show ?thesis using run ok x assms(1) by auto
  next
    case (Inr b)
    then show ?thesis using run ok x readFull_ext [OF x [unfolded Inr], of t] steadyD [OF assms(2) [of b], of s1 r s' t] by simp
  qed
qed

lemma steady_segments:
  "steady (\<lambda>s. case readSegments cont p s of (Inl e, s1) \<Rightarrow> (Inl e, s1) | (Inr q, s1) \<Rightarrow> (Inr (f q), s1))"
  unfolding steady_def
proof (intro allI impI, elim conjE)
  fix s r s' t
  assume run: "(case readSegments cont p s of (Inl e, s1) \<Rightarrow> (Inl e, s1) | (Inr q, s1) \<Rightarrow> (Inr (f q), s1)) = (r, s')"
    and ok: "\<forall>e. r = Inl e \<longrightarrow> \<not> starved e"
  obtain x s1 where x: "readSegments cont p s = (x, s1)" by fastforce
  show "(case readSegments cont p (s @ t) of (Inl e, s1) \<Rightarrow> (Inl e, s1) | (Inr q, s1) \<Rightarrow> (Inr (f q), s1)) = (r, s' @ t)"
    using readSegments_ext [OF x, of t] run ok x by (cases x) auto
qed

lemma ReadDSS_steady: "steady ReadDSS"
  unfolding ReadDSS_def [abs_def]
  by (intro steady_read steady_ret steady_if steady_Let steady_segments) (simp_all add: starved_def)

lemmas ReadDSS_ext = steadyD [OF ReadDSS_steady]

lemma decodeLoop_error: "ReadDSS s = (Inl e, t) \<Longrightarrow> decodeLoop n dir h m s = ([], e)"
  by (simp add: decodeLoop.simps [of n dir h m s])

lemma decodeLoop_dss:
  "ReadDSS s = (Inr d, t) \<Longrightarrow>
     decodeLoop n dir h m s = (case decodeLoop n dir h m t of (out, e) \<Rightarrow> (dss_output n dir h m d # out, e))"
  by (simp add: decodeLoop.simps [of n dir h m s])

lemma decodeLoop_ext:
  "decodeLoop n dir h m s = (out, e) \<Longrightarrow> \<not> starved e \<Longrightarrow> decodeLoop n dir h m (s @ t) = (out, e)"
proof (induction s arbitrary: out rule: length_induct)
  case (1 s)
  obtain r u where r: "ReadDSS s = (r, u)" by fastforce
  show ?case
  proof (cases r)
    case (Inl x)
    have "ReadDSS (s @ t) = (Inl x, u @ t)"
      by (rule ReadDSS_ext) (use r Inl 1(2,3) in \<open>simp_all add: decodeLoop_error\<close>)
    then show ?thesis using r Inl 1(2) by (simp add: decodeLoop_error)
  next
    case (Inr d)
    have long: "ReadDSS (s @ t) = (Inr d, u @ t)" by (rule ReadDSS_ext) (use r Inr in simp_all)
    obtain out1 where more: "decodeLoop n dir h m u = (out1, e)" "out = dss_output n dir h m d # out1"
      using 1(2) r Inr by (auto simp: decodeLoop_dss split: prod.splits)
    have "decodeLoop n dir h m (u @ t) = (out1, e)"
      using 1(1,3) more(1) ReadDSS_consumes [OF r [unfolded Inr]] by fastforce
    then show ?thesis using long more by (simp add: decodeLoop_dss)
  qed
qed

lemma decoder_gone_ext: "decoder_gone s \<Longrightarrow> decoder_gone (s @ t)"
  unfolding decoder_gone_def by (metis decodeLoop_ext prod.collapse)

lemma pump_all: "\<not> decoder_gone (seen @ concat cs) \<Longrightarrow> pump seen cs = (cs, True)"
proof (induction cs arbitrary: seen)
  case (Cons c cs)
  then have "\<not> decoder_gone seen" using decoder_gone_ext by blast
  then show ?case using Cons by simp
qed simp

lemma pump_split:
  "decoder_gone (seen @ concat cs) \<Longrightarrow> ds \<noteq> [] \<Longrightarrow>
     \<not> snd (pump seen (cs @ ds)) \<and> length (fst (pump seen (cs @ ds))) \<le> length cs + 1"
proof (induction cs arbitrary: seen)
  case Nil
  then show ?case by (cases ds) simp_all
next
  case (Cons c cs)
  then have "\<not> snd (pump (seen @ c) (cs @ ds)) \<and> length (fst (pump (seen @ c) (cs @ ds))) \<le> length cs + 1" by simp
  then show ?case by (cases "pump (seen @ c) (cs @ ds)") simp
qed

lemma decodeLoop_transmission:
  "decodeLoop n dir h m (concat (map (\<lambda>(cp, body, corr, same, isLast). request_wire (NewObject cp body) corr same isLast) rs))
     = (map (\<lambda>r. dss_output n dir h m (dss_of r)) rs, ReadHeader EOF)"
proof (induction rs)
  case Nil
  then show ?case by (simp add: decodeLoop_error ReadDSS_def readFull_def)
next
  case (Cons r rs)
  then show ?case by (auto simp: decodeLoop_dss [OF ReadDSS_request_wire] dss_of_def split: prod.splits)
qed

text \<open>
  C39: The sniffer is transparent to a driver: whatever a transmission of requests is cut into
  on its way, all of it is forwarded and the direction goes on; one record is printed for
  each request, in order, with its code point, type, correlation id, length and flags; and the
  decoder is left waiting for the next header.
\<close>

theorem sniffer_reports:
  assumes "concat cs = fst (snd (Flush werr (write_all rs NewWriter)))"
  shows "pump [] cs = (cs, True) \<and>
    decodeLoop n dir hexDump maxHex (concat cs) =
      (map (\<lambda>r. dss_output n dir hexDump maxHex (dss_of r)) rs, ReadHeader EOF)"
proof -
  have cs: "concat cs = concat (map (\<lambda>(cp, body, corr, same, isLast). request_wire (NewObject cp body) corr same isLast) rs)"
    using assms write_all_buf [of rs NewWriter] by (simp add: Flush_def NewWriter_def)
  then have "\<not> decoder_gone ([] @ concat cs)" by (simp add: decoder_gone_def decodeLoop_transmission starved_def)
  then show ?thesis using cs pump_all [of "[]" cs] by (simp add: decodeLoop_transmission)
qed

text \<open>
  C38: What a direction of the sniffer forwards.  As long as its decoder finds no malformed
  DSS, every chunk goes out and the direction ends with the stream.  Once the bytes of some
  chunks \<open>cs\<close> are malformed, whatever comes after them, at most one more chunk is forwarded and
  the direction never returns: the decoder is gone and nothing reads the pipe.
\<close>

theorem sniffer_forwards:
  "(\<not> decoder_gone (concat cs) \<longrightarrow> pump [] cs = (cs, True)) \<and>
   (decoder_gone (concat cs) \<and> ds \<noteq> [] \<longrightarrow>
      \<not> snd (pump [] (cs @ ds)) \<and> length (fst (pump [] (cs @ ds))) \<le> length cs + 1)"
  using pump_all [of "[]" cs] pump_split [of "[]" cs ds] by auto

text \<open>A request, and a chunk that is not DRDA.\<close>

definition sample_chunk :: bytes where
  "sample_chunk = [0, 10, 0xD0, 1, 0, 1, 0, 4, 0x20, 0x0D]"

lemma sample_decoder:
  "\<not> decoder_gone sample_chunk" "decoder_gone (sample_chunk @ replicate 10 0)"
  by (simp_all add: decoder_gone_def sample_chunk_def decodeLoop.simps ReadDSS_def readFull_def starved_def
      BE_Uint16_def Let_def)

definition sample_request :: request where
  "sample_request = (RDBCMM, [], 1, False, True)"

lemma be_put_2: "be_put 2 n = [word_of_nat (n div 256), word_of_nat n]"
proof -
  have "be_put (Suc (Suc 0)) n = [word_of_nat (n div 256), word_of_nat n]" by simp
  then show ?thesis unfolding numeral_2_eq_2 .
qed

lemma sample_wire:
  "fst (snd (Flush None (write_all [sample_request] NewWriter))) = [0, 10, 0xD0, 1, 0, 1, 0, 4, 0x20, 0x0E]"
proof -
  have "BE_Put16 10 = [0, 10]" "BE_Put16 1 = [0, 1]" "BE_Put16 4 = [0, 4]" "BE_Put16 RDBCMM = [0x20, 0x0E]"
    by (simp_all add: BE_Put16_def be_put_2)
  then show ?thesis
    by (simp add: sample_request_def WriteRequest_def NewWriter_def NewObject_def Flush_def Object_CodePoint_def
        dssFormat_def dssType_def Let_def BE_Uint16_def)
qed

lemma sample_line:
  "dss_output 1 ''C->S'' False 64 (dss_of sample_request) = ''[1] C->S RDBCMM     type=1 corr=1 len=0'' @ [CHR 0x0A]"
  by code_simp

theorem sniffer_reports_witness:
  "decodeLoop 1 ''C->S'' False 64 [0, 10, 0xD0, 1, 0, 1, 0, 4, 0x20, 0x0E] =
     ([''[1] C->S RDBCMM     type=1 corr=1 len=0'' @ [CHR 0x0A]], ReadHeader EOF) \<and>
   pump [] [[0, 10, 0xD0], [1, 0, 1, 0, 4, 0x20, 0x0E]] = ([[0, 10, 0xD0], [1, 0, 1, 0, 4, 0x20, 0x0E]], True)"
  using sniffer_reports [of "[[0, 10, 0xD0], [1, 0, 1, 0, 4, 0x20, 0x0E]]" None "[sample_request]" 1 "''C->S''" False 64]
  by (simp add: sample_wire sample_line del: pump.simps write_all.simps One_nat_def)

theorem sniffer_forwards_witness:
  "pump [] [sample_chunk] = ([sample_chunk], True) \<and>
   \<not> snd (pump [] [sample_chunk, replicate 10 0, sample_chunk, sample_chunk]) \<and>
   length (fst (pump [] [sample_chunk, replicate 10 0, sample_chunk, sample_chunk])) \<le> 3"
  using sniffer_forwards [of "[sample_chunk]" "[]"]
    sniffer_forwards [of "[sample_chunk, replicate 10 0]" "[sample_chunk, sample_chunk]"] sample_decoder
  by simp

end
