(* ===== verification/Spec2Isabelle.thy ===== *)
theory Spec2Isabelle
  imports C_Session C_Init Ddm_Sniff
begin

text \<open>
  A verification development for the ADBC driver for IBM Db2, a Go program whose core is an
  implementation of the DRDA protocol.

  \<^bold>\<open>The program.\<close>  \<^verbatim>\<open>internal/ddm\<close> frames DDM objects into DSS packets and converts EBCDIC.
  \<^verbatim>\<open>internal/drda\<close> speaks DRDA over one socket: the handshake, statements, cursors, parameters and
  package binding, with the codecs for rows, values and diagnostics.  \<^verbatim>\<open>driver/db2\<close> offers that
  session as an ADBC database, connection and statement: options, errors, Arrow conversion, record
  readers, bulk ingest and catalog metadata, and it decides when units of work are committed.
  \<^verbatim>\<open>pkg/db2\<close> exports it to C programs; \<^verbatim>\<open>cmd/drda-sniff\<close> is a proxy that prints DRDA traffic.

  \<^bold>\<open>The theories.\<close>  Each models the files named in its first text block.

  \<^item> \<^verbatim>\<open>Prelude\<close>, \<^verbatim>\<open>Go_Text\<close>, \<^verbatim>\<open>Go_DES\<close>: bytes and words, and what the code uses of the Go library
    (strings, UTF-8, \<^verbatim>\<open>strconv\<close>, \<^verbatim>\<open>math/big\<close>, DES).
  \<^item> \<^verbatim>\<open>Ddm_CodePoint\<close>, \<^verbatim>\<open>Ddm_EBCDIC\<close>, \<^verbatim>\<open>Ddm_DSS\<close>, \<^verbatim>\<open>Ddm_Params\<close>: \<^verbatim>\<open>internal/ddm\<close>.  A transmission is
    read back request by request; \<^verbatim>\<open>ParseParams\<close> accepts exactly the well-formed triplets.
  \<^item> \<^verbatim>\<open>Drda_Types\<close>, \<^verbatim>\<open>Drda_Values\<close>, \<^verbatim>\<open>Drda_DecFloat\<close>, \<^verbatim>\<open>Drda_Reader\<close>, \<^verbatim>\<open>Drda_SQLCA\<close>, \<^verbatim>\<open>Drda_SQLDA\<close>: types,
    values and the diagnostics parsers, with round trips against what a server writes.
  \<^item> \<^verbatim>\<open>Block_Stream\<close>, \<^verbatim>\<open>Drda_FDOCA\<close>: row decoding.  A locale states what a decoder with carry-over
    promises; rows survive any cut into blocks.
  \<^item> \<^verbatim>\<open>Drda_Params\<close>, \<^verbatim>\<open>Drda_ParamsOk\<close>: parameter encoding; the row decoder reads back what was bound.
  \<^item> \<^verbatim>\<open>Drda_Secmec9\<close>: encrypted credentials; a server with the matching exponent decrypts them.
  \<^item> \<^verbatim>\<open>Drda_State\<close>, \<^verbatim>\<open>Drda_Wire\<close>, \<^verbatim>\<open>Drda_Handshake\<close>, \<^verbatim>\<open>Drda_Query\<close>, \<^verbatim>\<open>Drda_Cursor\<close>, \<^verbatim>\<open>Drda_Bind\<close>, \<^verbatim>\<open>Drda_Stmt\<close>:
    the connection (\<^verbatim>\<open>conn.go\<close>, \<^verbatim>\<open>query.go\<close>, \<^verbatim>\<open>bind.go\<close> and the executions of \<^verbatim>\<open>params.go\<close>).  The state
    is the record \<open>Conn\<close>; the peer is the bytes it will send and the results of the writes, and
    \<open>sent\<close> records every transmission.  Results: the script of the handshake, when a reply is
    complete, delivery of rows and LOBs, one cursor at a time, one bind attempt.
  \<^item> \<^verbatim>\<open>Db2_Arrow\<close>, \<^verbatim>\<open>Db2_Sql\<close>: Arrow conversion and the SQL texts, with quoting and parameter markers.
  \<^item> \<^verbatim>\<open>Db2_State\<close>: errors, the record \<open>connectionImpl\<close> and autocommit.  The locale \<open>session_frame\<close>
    is the interface of the DRDA session to the driver: a relation that every call and both
    commits keep.  It is interpreted three times, by the session invariant, by the discipline of
    units of work and by the constancy of the settings; the components above prove once, inside
    it, that their operations keep any such relation.
  \<^item> \<^verbatim>\<open>Db2_Reader\<close>: the streaming reader.  \<^verbatim>\<open>Db2_Meta\<close>: catalog queries and grouping.
    \<^verbatim>\<open>Db2_Ingest\<close>: bulk ingest and bound executions.  \<^verbatim>\<open>Db2_Options\<close>: \<^verbatim>\<open>parseOptions\<close>.
  \<^item> \<^verbatim>\<open>Db2_Driver\<close>: databases, connections and statements (\<^verbatim>\<open>driver.go\<close>, \<^verbatim>\<open>options_getset.go\<close>), and the
    locale \<open>option_store\<close> of getting and setting options.
  \<^item> \<^verbatim>\<open>Db2_Session\<close>: the step relation over all operations of a client and the transaction model.
  \<^item> \<^verbatim>\<open>C_State\<close>, \<^verbatim>\<open>C_Calls\<close>, \<^verbatim>\<open>C_Frame\<close>, \<^verbatim>\<open>C_Session\<close>, \<^verbatim>\<open>C_Init\<close>: the C ABI (\<^verbatim>\<open>pkg/db2/driver.go\<close>), with one
    definition per exported function, over the record \<open>cgo\<close> of handles, the caller's structs, the
    connections and the poison flag.  The locale \<open>abi_frame\<close> is what every exported function and
    callback keeps; it is interpreted by poisoning, by handle safety and by the evolution of the
    connections, which reduces every C program to runs of \<^verbatim>\<open>Db2_Session\<close>.
  \<^item> \<^verbatim>\<open>Ddm_Sniff\<close>: what the sniffer prints and forwards.

  This theory has the properties of a whole session: the invariant from \<open>Open\<close> on, the
  refinement of the transaction model, what autocommit off guarantees, that executions return,
  and that the configured schema has no effect.

  \<^bold>\<open>Operations and errors.\<close>  An operation of the session is a function on \<open>Conn\<close> (\<open>act\<close>) or on
  \<open>connectionImpl\<close> (\<open>dact\<close>) that returns an error or a result with the new state, and keeps the
  state also on failure.  Error texts are kept as their parts.  A Go panic is the error \<open>Panic\<close> or
  an error of its layer.  Integers keep their width where it matters.

  \<^bold>\<open>Loops.\<close>  Recursion follows the data with a termination proof, as in \<open>readReplies\<close>, which
  consumes input.  Loops that wait for a server use fuel or \<open>partial_function\<close>: \<open>fetchLoop\<close> makes
  the three attempts of the source; \<open>fetchAll\<close> has \<open>length (rd c) + 2\<close> rounds, enough because a
  round with rows consumes bytes or empties the pending rows; \<open>drain\<close> is partial and proved to
  return.  Running out is the error \<open>Diverges\<close>, which the executions are proved never to return.

  \<^bold>\<open>Arguments of the model.\<close>  What is not in the repository is an argument: floating-point
  arithmetic and formatting, Unicode case tables, the Arrow library's clock conversions and record
  readers, URL and duration parsing, files and certificates, the classification of I/O errors and
  the random exponent.

  \<^bold>\<open>Not modelled.\<close>  Sockets, TLS, deadlines, locks, tracing, allocators and reference counts of
  Arrow data are left out, as is the rendering of error messages.  A context is no input of an
  operation: the driver reads its deadline only, and never whether it was cancelled.
  Concurrent calls are not modelled.  Of the C ABI the code that nothing reaches is left out: the
  details of errors, which the driver never has, and the partitions of a query, which it refuses.
  \<^verbatim>\<open>utils.c\<close> forwards the \<^verbatim>\<open>Adbc\<close> names to the \<^verbatim>\<open>Db2\<close> ones.  \<^verbatim>\<open>version.go\<close> is a constant, passed as an
  argument, and the flags and listener of the sniffer are left out.
\<close>

section \<open>A session from end to end\<close>

text \<open>
  C4: the driver's invariant.  Whatever server answers, a connection that \<open>Open\<close> returns is in
  autocommit mode, not closed, without a cursor, with an empty writer and a resolved
  configuration; and whatever a client then does with the connection, its statements and their
  readers, successfully or not, the writer is empty between operations, at most one cursor is
  active, and the settings stay valid.
\<close>

theorem driver_invariant:
  "(case Open E L openTrace hostname rnd stream writes d of
      Inl e \<Rightarrow> True
    | Inr c0 \<Rightarrow> session_ok c0 \<and> uow_state c0 = (True, False) \<and> openQuery (dConn c0) = None)
   \<and> (session_ok c \<and> driver_run E c ops c' \<longrightarrow> session_ok c')"
  using Open_session driver_run_ok by (auto split: sum.split)

lemma sample_run:
  "driver_run E sample_session [(SetAuto OptionValueDisabled, True), (EndCommit, \<not> isl (fst (Connection_Commit E sample_manual)))]
     (snd (Connection_Commit E sample_manual))"
proof -
  have off: "Connection_SetOption E OptionKeyAutoCommit OptionValueDisabled sample_session = (Inr (), sample_manual)"
    by (simp add: Connection_SetOption_def setAutoCommit_def with_dconn_def dchange_def sample_manual_def)
  have "driver_step E (SetAuto OptionValueDisabled) True sample_session sample_manual"
    using driver_step.set [OF off] by simp
  moreover have "driver_step E EndCommit (\<not> isl (fst (Connection_Commit E sample_manual))) sample_manual
      (snd (Connection_Commit E sample_manual))"
    by (rule driver_step.commit) (rule prod.collapse [symmetric])
  ultimately show ?thesis by (rule driver_run.step [OF _ driver_run.step [OF _ driver_run.none]])
qed

theorem driver_invariant_witness:
  "\<forall>E. session_ok sample_session \<and> session_ok (snd (Connection_Commit E sample_manual))"
  using driver_invariant sample_run sample_session_facts(1) by blast



lemma manual_spec:
  assumes "uow_spec op (False, cl) b evs st" "op \<notin> {EndCommit} \<union> range SetAuto"
  shows "CommitEv \<notin> set evs \<and> fst st = False"
  using assms by (cases rule: uow_spec.cases) (auto simp: statements_def)

lemma manual_run:
  "uow_run st ops evs st' \<Longrightarrow> fst st = False \<Longrightarrow> fst ` set ops \<inter> ({EndCommit} \<union> range SetAuto) = {} \<Longrightarrow> CommitEv \<notin> set evs"
proof (induction rule: uow_run.induct)
  case (step op st b evs st1 ops evs' st2)
  obtain cl where "st = (False, cl)" using step.prems(1) by (cases st) auto
  then have "CommitEv \<notin> set evs \<and> fst st1 = False" using step.hyps(1) step.prems(2) by (intro manual_spec [of op cl b]) auto
  then show ?case using step.IH step.prems(2) by auto
qed simp





section \<open>The current schema\<close>

definition with_schema :: "string \<Rightarrow> Conn \<Rightarrow> Conn" where
  "with_schema s c = c\<lparr>cfg := (cfg c)\<lparr>CurrentSchema := s\<rparr>\<rparr>"

text \<open>An operation that does the same whatever the configured schema is.\<close>

definition blind :: "string \<Rightarrow> 'a act \<Rightarrow> bool" where
  "blind s m \<longleftrightarrow> (\<forall>c. m (with_schema s c) = (fst (m c), with_schema s (snd (m c))))"

lemma blind_intros:
  "blind s (ok x)" "blind s (fails e)" "blind s (of_sum g r)"
  "blind s m \<Longrightarrow> (\<And>x. blind s (f x)) \<Longrightarrow> blind s (andthen m f)"
  "blind s m0 \<Longrightarrow> blind s (wrapping msg m0)"
  "(\<And>c. g1 (with_schema s c) = g1 c) \<Longrightarrow> (\<And>c. blind s (g1 c)) \<Longrightarrow> blind s (with_conn g1)"
  "(\<And>c. h (with_schema s c) = with_schema s (h c)) \<Longrightarrow> blind s (change h)"
  "blind s m1 \<Longrightarrow> blind s m2 \<Longrightarrow> blind s (if b then m1 else m2)"
  "blind s m3 \<Longrightarrow> (\<And>z. blind s (f3 z)) \<Longrightarrow> blind s (case y of None \<Rightarrow> m3 | Some z \<Rightarrow> f3 z)"
  "blind s m4 \<Longrightarrow> (\<And>z zs. blind s (k z zs)) \<Longrightarrow> blind s (case ys of [] \<Rightarrow> m4 | z # zs \<Rightarrow> k z zs)"
  "(\<And>a b. blind s (l a b)) \<Longrightarrow> blind s (case p of (a, b) \<Rightarrow> l a b)"
proof -
  show "blind s (andthen m f)" if "blind s m" "\<And>x. blind s (f x)"
    using that by (auto simp: blind_def andthen_def split: prod.splits sum.splits)
qed (auto simp: blind_def act_defs split: sum.splits option.splits list.splits prod.splits)

lemma with_schema_simps [simp]:
  "rd (with_schema s c) = rd c" "wres (with_schema s c) = wres c" "sent (with_schema s c) = sent c" "wr (with_schema s c) = wr c"
  "Server (with_schema s c) = Server c" "(with_schema s c)\<lparr>rd := x\<rparr> = with_schema s (c\<lparr>rd := x\<rparr>)"
  "(with_schema s c)\<lparr>wr := w\<rparr> = with_schema s (c\<lparr>wr := w\<rparr>)" "(with_schema s c)\<lparr>Server := y\<rparr> = with_schema s (c\<lparr>Server := y\<rparr>)"
  "(with_schema s c)\<lparr>ddmUTF8 := b\<rparr> = with_schema s (c\<lparr>ddmUTF8 := b\<rparr>)"
  "(with_schema s c)\<lparr>wres := z\<rparr> = with_schema s (c\<lparr>wres := z\<rparr>)" "(with_schema s c)\<lparr>sent := d\<rparr> = with_schema s (c\<lparr>sent := d\<rparr>)"
  "rdbnam (with_schema s c) = rdbnam c" "Database (cfg (with_schema s c)) = Database (cfg c)"
  "SecurityMechanism (cfg (with_schema s c)) = SecurityMechanism (cfg c)" "User (cfg (with_schema s c)) = User (cfg c)"
  "Password (cfg (with_schema s c)) = Password (cfg c)" "ApplicationName (cfg (with_schema s c)) = ApplicationName (cfg c)"
  "ClientName (cfg (with_schema s c)) = ClientName (cfg c)" "useTLS (cfg (with_schema s c)) = useTLS (cfg c)"
  by (simp_all add: with_schema_def)

lemma blind_io: "blind s (sends rs)" "blind s flush" "blind s (readChain k)" "blind s (transmit rs k)"
proof -
  have "blind s (send ob corr same isLast)" for ob corr same isLast by (simp add: blind_def send_def act_defs)
  then show sends: "blind s (sends rs)" for rs by (induction rs) (auto intro!: blind_intros)
  show flush: "blind s flush" by (auto simp: blind_def flush_def Let_def split: prod.splits option.splits)
  show chain: "blind s (readChain k)" by (auto simp: blind_def readChain_def split: prod.splits sum.splits)
  show "blind s (transmit rs k)" unfolding transmit_def by (intro blind_intros sends flush chain)
qed

lemma replyError_schema [simp]: "replyError (with_schema s c) d = replyError c d"
proof -
  have "replyDetail (with_schema s c) cp p = replyDetail c cp p" for cp p
    by (simp only: replyDetail_def with_schema_simps)
  then show ?thesis by (simp only: replyError_def)
qed

lemma packs_schema [simp]:
  "packEXCSAT (with_schema s c) = packEXCSAT c"
  "packACCSEC m kp (with_schema s c) = packACCSEC m kp c"
  "packACCRDB (with_schema s c) = packACCRDB c" "firstSecMec (cfg (with_schema s c)) = firstSecMec (cfg c)"
  by (simp_all add: pack_defs firstSecMec_def)

lemma packSECCHK_schema [simp]: "packSECCHK m t kp (with_schema s c) = packSECCHK m t kp c"
  by (simp only: packSECCHK_def rdbnamEBCDIC_def with_schema_simps)

lemma blind_handshake: "blind s (handshake rnd)"
proof -
  have check: "blind s (checkReply d)" for d unfolding checkReply_def by (intro blind_intros; simp)
  have "blind s (accsecReply d st)" for d st
    unfolding accsecReply_def Let_def by (intro blind_intros check) (simp_all add: Let_def)
  then have accsec: "blind s (accsecReplies ds st)" for ds st by (induction ds arbitrary: st) (auto intro!: blind_intros)
  have "blind s (reaccsecReply d token)" for d token unfolding reaccsecReply_def by (intro blind_intros check)
  then have reaccsec: "blind s (reaccsecReplies ds token)" for ds token
    by (induction ds arbitrary: token) (auto intro!: blind_intros)
  have "blind s (secchkReply d)" for d unfolding secchkReply_def by (intro blind_intros check) simp_all
  then have secchk: "blind s (secchkReplies ds)" for ds by (induction ds) (auto intro!: blind_intros)
  have post: "blind s (postConnectReplies ds)" for ds by (induction ds) (auto intro!: blind_intros check)
  show ?thesis
    unfolding handshake_def negotiate_def authenticate_def postConnect_def transmitWrapped_def Let_def
    by (intro blind_intros blind_io accsec reaccsec secchk post) (simp_all cong: if_cong)
qed

text \<open>
  The configured schema is never set.  Dialing with another current schema gives the same
  outcome and, on success, a connection that differs in that setting only: nothing that is
  transmitted depends on it.
\<close>

theorem current_schema_ignored:
  "Dial u hostname rnd stream writes (conf\<lparr>CurrentSchema := s\<rparr>) =
     (case Dial u hostname rnd stream writes conf of
        Inl e \<Rightarrow> Inl e
      | Inr c \<Rightarrow> Inr (c\<lparr>cfg := (cfg c)\<lparr>CurrentSchema := s\<rparr>\<rparr>))"
proof -
  have conf: "dialConfig hostname (conf\<lparr>CurrentSchema := s\<rparr>) = (dialConfig hostname conf)\<lparr>CurrentSchema := s\<rparr>"
    by (cases "Port conf = 0"; cases "QueryBlockSize conf = 0"; cases "ClientName conf = ''''";
        cases "ApplicationName conf = ''''"; cases "PackageID conf = ''''"; cases "PackageCollection conf = ''''")
       (simp_all add: dialConfig_def)
  have "newConn u (dialConfig hostname (conf\<lparr>CurrentSchema := s\<rparr>)) stream writes =
      with_schema s (newConn u (dialConfig hostname conf) stream writes)"
    by (simp add: conf newConn_def with_schema_def)
  then show ?thesis
    using blind_handshake [where s = s and rnd = rnd, unfolded blind_def,
        THEN spec, of "newConn u (dialConfig hostname conf) stream writes"]
    by (auto simp: Dial_def with_schema_def split: prod.splits sum.splits)
qed

end
